(* ===== verification/Js_Prelude.thy ===== *)
theory Js_Prelude
  imports Complex_Main
begin

text \<open>
  Shared vocabulary of the development: what the panel's TypeScript uses of the language and
  its standard library.  Strings are UTF-8 byte strings (\<open>char list\<close>); \<open>undefined\<close> and
  \<open>null\<close> are \<open>None\<close>; the operators \<open>??\<close> and \<open>||\<close>, the string methods, the
  insertion-ordered objects and maps, and \<open>Array.prototype.sort\<close> are the functions below,
  with the generic lemmas the component theories use.
\<close>

named_theorems js_simps \<open>unfolding rules for the operators of the language\<close>

section \<open>Undefined, null and defaults\<close>

text \<open>\<open>a ?? b\<close> with a present default, and with a default that may itself be missing.\<close>

definition nullish :: "'a option \<Rightarrow> 'a \<Rightarrow> 'a" where
  "nullish a b = (case a of None \<Rightarrow> b | Some x \<Rightarrow> x)"

definition nullish_opt :: "'a option \<Rightarrow> 'a option \<Rightarrow> 'a option" where
  "nullish_opt a b = (case a of None \<Rightarrow> b | Some x \<Rightarrow> Some x)"

text \<open>\<open>s || t\<close> on strings, and \<open>s || t\<close> where \<open>s\<close> may be missing.\<close>

definition or_str :: "string \<Rightarrow> string \<Rightarrow> string" where
  "or_str s t = (if s = [] then t else s)"

definition or_str_opt :: "string option \<Rightarrow> string \<Rightarrow> string" where
  "or_str_opt s t = (case s of None \<Rightarrow> t | Some u \<Rightarrow> or_str u t)"

text \<open>Truth of an optional string, boolean: \<open>undefined\<close> and the empty string are false.\<close>

definition truthy_str :: "string option \<Rightarrow> bool" where
  "truthy_str s = (case s of None \<Rightarrow> False | Some u \<Rightarrow> u \<noteq> [])"

definition truthy_bool :: "bool option \<Rightarrow> bool" where
  "truthy_bool b = (b = Some True)"

lemma nullish_simps [simp, js_simps]:
  "nullish None b = b" "nullish (Some x) b = x"
  by (simp_all add: nullish_def)

lemma nullish_opt_simps [simp, js_simps]:
  "nullish_opt None c = c" "nullish_opt (Some x) c = Some x"
  by (simp_all add: nullish_opt_def)

lemma or_str_simps [simp, js_simps]:
  "or_str [] t = t" "or_str (c # s) t = c # s"
  by (simp_all add: or_str_def)

lemma or_str_opt_simps [simp, js_simps]:
  "or_str_opt None t = t" "or_str_opt (Some s) t = or_str s t"
  by (simp_all add: or_str_opt_def)

lemma truthy_str_simps [simp, js_simps]:
  "\<not> truthy_str None" "truthy_str (Some s) \<longleftrightarrow> s \<noteq> []"
  by (simp_all add: truthy_str_def)

lemma truthy_bool_simps [simp, js_simps]:
  "\<not> truthy_bool None" "truthy_bool (Some b) \<longleftrightarrow> b"
  by (simp_all add: truthy_bool_def)

section \<open>Characters\<close>

abbreviation code :: "char \<Rightarrow> nat" where
  "code c \<equiv> of_char c"

definition is_space :: "char \<Rightarrow> bool" where
  "is_space c \<longleftrightarrow> code c = 32 \<or> (9 \<le> code c \<and> code c \<le> 13)"

definition is_digit :: "char \<Rightarrow> bool" where
  "is_digit c \<longleftrightarrow> 48 \<le> code c \<and> code c \<le> 57"

definition is_lower :: "char \<Rightarrow> bool" where
  "is_lower c \<longleftrightarrow> 97 \<le> code c \<and> code c \<le> 122"

definition is_upper :: "char \<Rightarrow> bool" where
  "is_upper c \<longleftrightarrow> 65 \<le> code c \<and> code c \<le> 90"

text \<open>The class \<open>\w\<close> of regular expressions.\<close>

definition is_word :: "char \<Rightarrow> bool" where
  "is_word c \<longleftrightarrow> is_lower c \<or> is_upper c \<or> is_digit c \<or> c = CHR ''_''"

definition lower_char :: "char \<Rightarrow> char" where
  "lower_char c = (if is_upper c then char_of (code c + 32) else c)"

definition upper_char :: "char \<Rightarrow> char" where
  "upper_char c = (if is_lower c then char_of (code c - 32) else c)"

definition to_lower :: "string \<Rightarrow> string" where
  "to_lower s = map lower_char s"

definition to_upper :: "string \<Rightarrow> string" where
  "to_upper s = map upper_char s"

lemmas char_class_defs =
  is_space_def is_digit_def is_lower_def is_upper_def is_word_def

lemma length_to_lower [simp]: "length (to_lower s) = length s"
  by (simp add: to_lower_def)

lemma to_lower_append: "to_lower (s @ t) = to_lower s @ to_lower t"
  by (simp add: to_lower_def)

lemma code_char_of [simp]: "code (char_of (n :: nat)) = n mod 256"
  by simp

lemma lower_char_not_upper: "\<not> is_upper (lower_char c)"
  by (auto simp: lower_char_def is_upper_def)

lemma lower_char_idem [simp]: "lower_char (lower_char c) = lower_char c"
  using lower_char_not_upper by (simp add: lower_char_def)

lemma to_lower_idem [simp]: "to_lower (to_lower s) = to_lower s"
  by (simp add: to_lower_def)

lemma char_of_eval [js_simps]: "(char_of :: nat \<Rightarrow> char) (numeral k) =
    Char (odd (numeral k :: nat)) (odd (drop_bit 1 (numeral k :: nat)))
      (odd (drop_bit 2 (numeral k :: nat))) (odd (drop_bit 3 (numeral k :: nat)))
      (odd (drop_bit 4 (numeral k :: nat))) (odd (drop_bit 5 (numeral k :: nat)))
      (odd (drop_bit 6 (numeral k :: nat))) (odd (drop_bit 7 (numeral k :: nat)))"
  by (simp add: char_of_def bit_iff_odd_drop_bit)

section \<open>Strings\<close>

text \<open>\<open>s.startsWith(t)\<close>, \<open>s.endsWith(t)\<close>, \<open>s.includes(t)\<close>.\<close>

fun starts_with :: "'a list \<Rightarrow> 'a list \<Rightarrow> bool" where
  "starts_with s [] = True"
| "starts_with [] (d # t) = False"
| "starts_with (c # s) (d # t) = (c = d \<and> starts_with s t)"

definition ends_with :: "string \<Rightarrow> string \<Rightarrow> bool" where
  "ends_with s t = starts_with (rev s) (rev t)"

fun has_sub :: "string \<Rightarrow> string \<Rightarrow> bool" where
  "has_sub [] t = (t = [])"
| "has_sub (c # s) t = (starts_with (c # s) t \<or> has_sub s t)"

lemma starts_with_iff: "starts_with s t \<longleftrightarrow> (\<exists>u. s = t @ u)"
  by (induction s t rule: starts_with.induct) auto

lemma starts_with_append [simp]: "starts_with (t @ u) t"
  by (auto simp: starts_with_iff)

lemma starts_with_drop: "starts_with s t \<Longrightarrow> s = t @ drop (length t) s"
  by (auto simp: starts_with_iff)

lemma ends_with_iff: "ends_with s t \<longleftrightarrow> (\<exists>u. s = u @ t)"
proof
  assume "ends_with s t"
  then obtain u where "rev s = rev t @ u"
    by (auto simp: ends_with_def starts_with_iff)
  then have "s = rev u @ t"
    by (metis rev_append rev_rev_ident)
  then show "\<exists>u. s = u @ t" ..
next
  assume "\<exists>u. s = u @ t"
  then show "ends_with s t" by (auto simp: ends_with_def)
qed

lemma has_sub_iff: "has_sub s t \<longleftrightarrow> (\<exists>u v. s = u @ t @ v)"
proof (induction s)
  case Nil
  then show ?case by auto
next
  case (Cons c s)
  show ?case
  proof
    assume "has_sub (c # s) t"
    then consider "starts_with (c # s) t" | "has_sub s t" by auto
    then show "\<exists>u v. c # s = u @ t @ v"
    proof cases
      case 1
      then obtain v where "c # s = [] @ t @ v" by (auto simp: starts_with_iff)
      then show ?thesis by blast
    next
      case 2
      with Cons.IH obtain u v where "s = u @ t @ v" by blast
      then have "c # s = (c # u) @ t @ v" by simp
      then show ?thesis by blast
    qed
  next
    assume "\<exists>u v. c # s = u @ t @ v"
    then obtain u v where eq: "c # s = u @ t @ v" by blast
    show "has_sub (c # s) t"
    proof (cases u)
      case Nil
      with eq have "starts_with (c # s) t" by (auto simp: starts_with_iff)
      then show ?thesis by simp
    next
      case (Cons d w)
      with eq have "s = w @ t @ v" by simp
      with Cons.IH have "has_sub s t" by blast
      then show ?thesis by simp
    qed
  qed
qed

lemma has_sub_empty [simp]: "has_sub s []"
  by (cases s) auto

text \<open>\<open>trimStart\<close>, \<open>trimEnd\<close> and \<open>trim\<close>.\<close>

definition trim_start :: "string \<Rightarrow> string" where
  "trim_start s = dropWhile is_space s"

definition strip_end :: "(char \<Rightarrow> bool) \<Rightarrow> string \<Rightarrow> string" where
  "strip_end P s = rev (dropWhile P (rev s))"

definition trim_end :: "string \<Rightarrow> string" where
  "trim_end s = strip_end is_space s"

definition trim_str :: "string \<Rightarrow> string" where
  "trim_str s = trim_end (trim_start s)"

lemma strip_end_snoc [simp]:
  "strip_end P (s @ [c]) = (if P c then strip_end P s else s @ [c])"
  by (simp add: strip_end_def)

lemma strip_end_Nil [simp]: "strip_end P [] = []"
  by (simp add: strip_end_def)

lemma strip_end_id: "s = [] \<or> \<not> P (last s) \<Longrightarrow> strip_end P s = s"
  by (cases s rule: rev_cases) auto

lemma strip_end_last: "strip_end P s = [] \<or> \<not> P (last (strip_end P s))"
  by (induction s rule: rev_induct) auto

lemma strip_end_idem [simp]: "strip_end P (strip_end P s) = strip_end P s"
  by (rule strip_end_id) (rule strip_end_last)

lemma strip_end_prefix: "\<exists>u. s = strip_end P s @ u \<and> (\<forall>c \<in> set u. P c)"
proof (induction s rule: rev_induct)
  case Nil
  then show ?case by simp
next
  case (snoc c s)
  then obtain u where u: "s = strip_end P s @ u" "\<forall>c \<in> set u. P c" by blast
  show ?case
  proof (cases "P c")
    case True
    with u have "s @ [c] = strip_end P (s @ [c]) @ (u @ [c])" by simp
    with u True show ?thesis by (metis set_ConsD Un_iff empty_iff empty_set set_append)
  next
    case False
    then show ?thesis by simp
  qed
qed

lemma strip_end_set: "set (strip_end P s) \<subseteq> set s"
  by (metis strip_end_prefix set_append Un_upper1)

lemma strip_end_eq_Nil: "strip_end P s = [] \<longleftrightarrow> (\<forall>c \<in> set s. P c)"
  by (simp add: strip_end_def dropWhile_eq_Nil_conv)

text \<open>\<open>s.split(c)\<close> at one character and \<open>parts.join(sep)\<close>.\<close>

fun split_on :: "char \<Rightarrow> string \<Rightarrow> string list" where
  "split_on c [] = [[]]"
| "split_on c (x # xs) =
     (if x = c then [] # split_on c xs
      else (case split_on c xs of [] \<Rightarrow> [[x]] | w # ws \<Rightarrow> (x # w) # ws))"

fun join :: "string \<Rightarrow> string list \<Rightarrow> string" where
  "join sep [] = []"
| "join sep [x] = x"
| "join sep (x # y # ys) = x @ sep @ join sep (y # ys)"

lemma split_on_ne [simp]: "split_on c s \<noteq> []"
  by (induction s) (auto split: list.splits)

lemma split_on_no_sep: "w \<in> set (split_on c s) \<Longrightarrow> c \<notin> set w"
  by (induction s arbitrary: w) (auto split: if_splits list.splits)

lemma split_on_id: "c \<notin> set s \<Longrightarrow> split_on c s = [s]"
  by (induction s) auto

lemma split_on_append:
  "c \<notin> set u \<Longrightarrow> split_on c (u @ c # s) = u # split_on c s"
  by (induction u) auto

lemma join_Cons: "xs \<noteq> [] \<Longrightarrow> join sep (x # xs) = x @ sep @ join sep xs"
  by (cases xs) auto

lemma join_split_on [simp]: "join [c] (split_on c s) = s"
proof (induction s)
  case Nil
  then show ?case by simp
next
  case (Cons x xs)
  obtain w ws where w: "split_on c xs = w # ws" by (cases "split_on c xs") auto
  show ?case
  proof (cases "x = c")
    case True
    with Cons show ?thesis by (simp add: join_Cons)
  next
    case False
    with Cons w show ?thesis by (cases ws) auto
  qed
qed

lemma split_on_join:
  assumes "ws \<noteq> []" and "\<forall>w \<in> set ws. c \<notin> set w"
  shows "split_on c (join [c] ws) = ws"
  using assms
proof (induction ws rule: induct_list012)
  case 1
  then show ?case by simp
next
  case (2 x)
  then show ?case by (simp add: split_on_id)
next
  case (3 x y zs)
  then show ?case by (simp add: split_on_append)
qed

text \<open>\<open>s.slice(a, b)\<close> for \<open>0 \<le> a\<close> and \<open>s.slice(-n)\<close>.\<close>

definition slice :: "nat \<Rightarrow> nat \<Rightarrow> 'a list \<Rightarrow> 'a list" where
  "slice a b s = take (b - a) (drop a s)"

definition slice_last :: "nat \<Rightarrow> 'a list \<Rightarrow> 'a list" where
  "slice_last n s = drop (length s - n) s"

text \<open>\<open>s.lastIndexOf(c)\<close> for one character; \<open>None\<close> is -1.\<close>

fun last_index_of :: "string \<Rightarrow> char \<Rightarrow> nat option" where
  "last_index_of [] c = None"
| "last_index_of (x # xs) c =
     (case last_index_of xs c of
        Some i \<Rightarrow> Some (Suc i)
      | None \<Rightarrow> if x = c then Some 0 else None)"

lemma last_index_of_None: "last_index_of s c = None \<longleftrightarrow> c \<notin> set s"
  by (induction s) (auto split: option.splits)

lemma last_index_of_append: "c \<notin> set t \<Longrightarrow> last_index_of (s @ c # t) c = Some (length s)"
  by (induction s) (auto simp: last_index_of_None split: option.splits)

text \<open>The characters beyond ASCII of the panel's messages, in UTF-8: em dash, middle dot,
  ellipsis, quotation marks, right arrow.\<close>

definition em_dash :: string where
  "em_dash = [CHR 0xE2, CHR 0x80, CHR 0x94]"

definition middle_dot :: string where
  "middle_dot = [CHR 0xC2, CHR 0xB7]"

definition ellipsis :: string where
  "ellipsis = [CHR 0xE2, CHR 0x80, CHR 0xA6]"

definition left_quote :: string where
  "left_quote = [CHR 0xE2, CHR 0x80, CHR 0x9C]"

definition right_quote :: string where
  "right_quote = [CHR 0xE2, CHR 0x80, CHR 0x9D]"

definition right_arrow :: string where
  "right_arrow = [CHR 0xE2, CHR 0x86, CHR 0x92]"

section \<open>Decimal numerals\<close>

text \<open>\<open>String(n)\<close> of a natural number and of an integer, and \<open>Number(digits)\<close>.\<close>

definition digit_char :: "nat \<Rightarrow> char" where
  "digit_char d = char_of (48 + d)"

fun dec_nat :: "nat \<Rightarrow> string" where
  "dec_nat n = (if n < 10 then [digit_char n] else dec_nat (n div 10) @ [digit_char (n mod 10)])"

declare dec_nat.simps [simp del]

definition dec_int :: "int \<Rightarrow> string" where
  "dec_int i = (if i < 0 then CHR ''-'' # dec_nat (nat (- i)) else dec_nat (nat i))"

definition digit_val :: "char \<Rightarrow> nat" where
  "digit_val c = code c - 48"

definition parse_nat :: "string \<Rightarrow> nat" where
  "parse_nat s = foldl (\<lambda>n c. 10 * n + digit_val c) 0 s"

lemma digit_char_props:
  assumes "d < 10"
  shows "is_digit (digit_char d)" and "digit_val (digit_char d) = d"
  using assms by (simp_all add: digit_char_def is_digit_def digit_val_def)

lemma parse_nat_snoc: "parse_nat (s @ [c]) = 10 * parse_nat s + digit_val c"
  by (simp add: parse_nat_def)

lemma dec_nat_ne [simp]: "dec_nat n \<noteq> []"
  by (subst dec_nat.simps) simp

lemma dec_nat_digits: "c \<in> set (dec_nat n) \<Longrightarrow> is_digit c"
proof (induction n rule: dec_nat.induct)
  case (1 n)
  then show ?case
    by (subst (asm) dec_nat.simps [of n]) (auto simp: digit_char_props split: if_splits)
qed

lemma parse_dec_nat [simp]: "parse_nat (dec_nat n) = n"
proof (induction n rule: dec_nat.induct)
  case (1 n)
  show ?case
  proof (cases "n < 10")
    case True
    then show ?thesis
      by (simp add: dec_nat.simps [of n] parse_nat_def digit_char_props)
  next
    case False
    with 1 show ?thesis
      by (simp add: dec_nat.simps [of n] parse_nat_snoc digit_char_props)
  qed
qed

lemma dec_nat_inj [simp]: "dec_nat m = dec_nat n \<longleftrightarrow> m = n"
  by (metis parse_dec_nat)

section \<open>Objects and maps: insertion-ordered association lists\<close>

text \<open>
  \<open>m[k] = v\<close> (and \<open>Map.set\<close>) replaces the value of a key in place and appends a new
  key at the end; \<open>m[k]\<close> is \<open>map_of m k\<close>.
\<close>

fun al_put :: "'k \<Rightarrow> 'v \<Rightarrow> ('k \<times> 'v) list \<Rightarrow> ('k \<times> 'v) list" where
  "al_put k v [] = [(k, v)]"
| "al_put k v ((k', v') # m) = (if k' = k then (k, v) # m else (k', v') # al_put k v m)"

lemma map_of_al_put [simp]: "map_of (al_put k v m) = (map_of m)(k \<mapsto> v)"
  by (induction m rule: al_put.induct) (auto simp: fun_eq_iff)

lemma map_fst_al_put:
  "map fst (al_put k v m) = (if k \<in> fst ` set m then map fst m else map fst m @ [k])"
  by (induction m rule: al_put.induct) auto

lemma keys_al_put: "fst ` set (al_put k v m) = insert k (fst ` set m)"
  by (induction m rule: al_put.induct) auto

lemma distinct_al_put [simp]:
  "distinct (map fst m) \<Longrightarrow> distinct (map fst (al_put k v m))"
  by (simp add: map_fst_al_put)

lemma set_al_put: "distinct (map fst m) \<Longrightarrow>
    set (al_put k v m) = insert (k, v) {p \<in> set m. fst p \<noteq> k}"
  by (induction m rule: al_put.induct) force+

text \<open>Grouping: \<open>map.set(key(x), [...(map.get(key(x)) ?? []), x])\<close> over a list.\<close>

definition group_step :: "('a \<Rightarrow> 'k) \<Rightarrow> ('k \<times> 'a list) list \<Rightarrow> 'a \<Rightarrow> ('k \<times> 'a list) list" where
  "group_step key m x = al_put (key x) (nullish (map_of m (key x)) [] @ [x]) m"

definition group_by :: "('a \<Rightarrow> 'k) \<Rightarrow> 'a list \<Rightarrow> ('k \<times> 'a list) list" where
  "group_by key xs = foldl (group_step key) [] xs"

lemma group_by_snoc: "group_by key (xs @ [x]) = group_step key (group_by key xs) x"
  by (simp add: group_by_def)

lemma group_by_Nil [simp]: "group_by key [] = []"
  by (simp add: group_by_def)

lemma distinct_group_by [simp]: "distinct (map fst (group_by key xs))"
  by (induction xs rule: rev_induct) (simp_all add: group_by_snoc group_step_def)

lemma map_of_group_by:
  "map_of (group_by key xs) k =
     (if k \<in> key ` set xs then Some (filter (\<lambda>x. key x = k) xs) else None)"
proof (induction xs rule: rev_induct)
  case Nil
  then show ?case by simp
next
  case (snoc x xs)
  show ?case
  proof (cases "key x = k")
    case True
    then show ?thesis
      by (cases "k \<in> key ` set xs")
        (auto simp: group_by_snoc group_step_def snoc filter_empty_conv image_iff)
  next
    case False
    then show ?thesis by (auto simp: group_by_snoc group_step_def snoc)
  qed
qed

lemma group_by_sound:
  assumes "(k, ys) \<in> set (group_by key xs)"
  shows "ys = filter (\<lambda>x. key x = k) xs \<and> k \<in> key ` set xs"
proof -
  have "map_of (group_by key xs) k = Some ys"
    using assms by (simp add: map_of_eq_Some_iff)
  then show ?thesis by (simp add: map_of_group_by split: if_splits)
qed

lemma group_by_keys: "fst ` set (group_by key xs) = key ` set xs"
proof
  show "fst ` set (group_by key xs) \<subseteq> key ` set xs" by (auto dest: group_by_sound)
next
  have "map_of (group_by key xs) (key x) \<noteq> None" if "x \<in> set xs" for x
    using that by (simp add: map_of_group_by)
  then show "key ` set xs \<subseteq> fst ` set (group_by key xs)"
    by (force simp: map_of_eq_None_iff)
qed

section \<open>Stable sorting by a comparator\<close>

text \<open>
  \<open>xs.sort(cmp)\<close> is stable: an element is placed after every earlier element that does not
  compare greater.  For a comparator that is a total preorder every stable sort gives this list.
\<close>

fun insert_by :: "('a \<Rightarrow> 'a \<Rightarrow> int) \<Rightarrow> 'a \<Rightarrow> 'a list \<Rightarrow> 'a list" where
  "insert_by cmp x [] = [x]"
| "insert_by cmp x (y # ys) = (if cmp x y \<le> 0 then x # y # ys else y # insert_by cmp x ys)"

definition sort_by :: "('a \<Rightarrow> 'a \<Rightarrow> int) \<Rightarrow> 'a list \<Rightarrow> 'a list" where
  "sort_by cmp xs = foldr (insert_by cmp) xs []"

lemma set_insert_by [simp]: "set (insert_by cmp x ys) = insert x (set ys)"
  by (induction ys) auto

lemma length_insert_by [simp]: "length (insert_by cmp x ys) = Suc (length ys)"
  by (induction ys) auto

lemma set_sort_by [simp]: "set (sort_by cmp xs) = set xs"
  by (induction xs) (simp_all add: sort_by_def)

lemma length_sort_by [simp]: "length (sort_by cmp xs) = length xs"
  by (induction xs) (simp_all add: sort_by_def)

lemma sort_by_simps: "sort_by cmp [] = []" "sort_by cmp (x # xs) = insert_by cmp x (sort_by cmp xs)"
  by (simp_all add: sort_by_def)

lemma sort_by_eq_Nil [simp]: "sort_by cmp xs = [] \<longleftrightarrow> xs = []"
  by (metis length_0_conv length_sort_by)

lemma count_insert_by: "count_list (insert_by cmp x ys) z = count_list (x # ys) z"
  by (induction ys) auto

lemma count_sort_by: "count_list (sort_by cmp xs) z = count_list xs z"
  by (induction xs) (simp_all add: sort_by_simps count_insert_by)

lemma distinct_map_insert_by [simp]: "distinct (map f (insert_by cmp x ys)) \<longleftrightarrow> distinct (map f (x # ys))"
  by (induction ys) auto

lemma distinct_map_sort_by [simp]: "distinct (map f (sort_by cmp xs)) \<longleftrightarrow> distinct (map f xs)"
  by (induction xs) (simp_all add: sort_by_simps)

locale comparator =
  fixes cmp :: "'a \<Rightarrow> 'a \<Rightarrow> int"
  assumes cmp_antisym: "0 < cmp x y \<Longrightarrow> cmp y x \<le> 0"
    and cmp_trans: "cmp x y \<le> 0 \<Longrightarrow> cmp y z \<le> 0 \<Longrightarrow> cmp x z \<le> 0"
begin

lemma sorted_insert_by:
  "sorted_wrt (\<lambda>a b. cmp a b \<le> 0) ys \<Longrightarrow> sorted_wrt (\<lambda>a b. cmp a b \<le> 0) (insert_by cmp x ys)"
proof (induction ys)
  case Nil
  then show ?case by simp
next
  case (Cons y ys)
  show ?case
  proof (cases "cmp x y \<le> 0")
    case True
    with Cons.prems show ?thesis by (auto intro: cmp_trans)
  next
    case False
    then have "cmp y x \<le> 0" by (simp add: cmp_antisym)
    with False Cons show ?thesis by simp
  qed
qed

lemma sorted_sort_by: "sorted_wrt (\<lambda>a b. cmp a b \<le> 0) (sort_by cmp xs)"
  by (induction xs) (simp_all add: sort_by_simps sorted_insert_by)

lemma cmp_refl: "cmp x x \<le> 0"
  using cmp_antisym [of x x] by linarith

lemma sort_by_head_least:
  assumes "xs \<noteq> []" and "x \<in> set xs"
  shows "cmp (hd (sort_by cmp xs)) x \<le> 0"
proof -
  obtain y ys where y: "sort_by cmp xs = y # ys"
    using assms(1) by (cases "sort_by cmp xs") auto
  have "x \<in> set (y # ys)" using assms(2) y set_sort_by by metis
  then show ?thesis
    using sorted_sort_by [of xs] y by (auto intro: cmp_refl)
qed

end

text \<open>The comparison of texts by their code units; a locale's comparison is a parameter elsewhere.\<close>

fun str_cmp :: "string \<Rightarrow> string \<Rightarrow> int" where
  "str_cmp [] [] = 0"
| "str_cmp [] (d # t) = -1"
| "str_cmp (c # s) [] = 1"
| "str_cmp (c # s) (d # t) =
     (if code c = code d then str_cmp s t else if code c < code d then -1 else 1)"

lemma str_cmp_flip: "str_cmp s t = - str_cmp t s"
  by (induction s t rule: str_cmp.induct) auto

lemma str_cmp_trans: "str_cmp s t \<le> 0 \<Longrightarrow> str_cmp t u \<le> 0 \<Longrightarrow> str_cmp s u \<le> 0"
proof (induction s t arbitrary: u rule: str_cmp.induct)
  case (4 c s d t)
  then show ?case by (cases u) (auto split: if_splits)
next
  case (2 d t)
  then show ?case by (cases u) auto
qed auto

text \<open>A locale's comparison of texts, \<open>localeCompare\<close>: the contract of the views that sort names.\<close>

locale collation = comparator lc for lc :: "string \<Rightarrow> string \<Rightarrow> int"

interpretation str_order: collation str_cmp
proof
  show "0 < str_cmp s t \<Longrightarrow> str_cmp t s \<le> 0" for s t
    using str_cmp_flip [of s t] by linarith
qed (rule str_cmp_trans)

end
