(* ===== verification/Url.thy ===== *)
theory Url
  imports Js_Prelude
begin

text \<open>
  The platform's query strings as the panel uses them: \<open>URLSearchParams\<close> (the
  \<open>application/x-www-form-urlencoded\<close> serializer and parser) and \<open>encodeURIComponent\<close>, over
  UTF-8 byte strings, with the round-trip lemmas of both.
\<close>

type_synonym params = "(string \<times> string) list"

section \<open>Percent encoding\<close>

definition hex_digit :: "nat \<Rightarrow> char" where
  "hex_digit d = (if d < 10 then char_of (48 + d) else char_of (55 + d))"

definition hex_val :: "char \<Rightarrow> nat option" where
  "hex_val c = (if is_digit c then Some (code c - 48)
     else if 65 \<le> code c \<and> code c \<le> 70 then Some (code c - 55)
     else if 97 \<le> code c \<and> code c \<le> 102 then Some (code c - 87) else None)"

definition percent_char :: "char \<Rightarrow> string" where
  "percent_char c = [CHR ''%'', hex_digit (code c div 16), hex_digit (code c mod 16)]"

definition is_alnum :: "char \<Rightarrow> bool" where
  "is_alnum c \<longleftrightarrow> is_digit c \<or> is_lower c \<or> is_upper c"

text \<open>The characters that form encoding leaves alone, and its encoding of one character.\<close>

definition form_safe :: "char \<Rightarrow> bool" where
  "form_safe c \<longleftrightarrow> is_alnum c \<or> c \<in> set ''*-._''"

definition form_char :: "char \<Rightarrow> string" where
  "form_char c = (if form_safe c then [c] else if c = CHR '' '' then ''+'' else percent_char c)"

definition form_encode :: "string \<Rightarrow> string" where
  "form_encode s = concat (map form_char s)"

fun percent_decode :: "string \<Rightarrow> string" where
  "percent_decode [] = []"
| "percent_decode [a] = [a]"
| "percent_decode [a, b] = [a, b]"
| "percent_decode (a # b # c # s) =
     (if a = CHR ''%'' then
        (case (hex_val b, hex_val c) of
           (Some h, Some l) \<Rightarrow> char_of (16 * h + l) # percent_decode s
         | _ \<Rightarrow> a # percent_decode (b # c # s))
      else a # percent_decode (b # c # s))"

definition form_decode :: "string \<Rightarrow> string" where
  "form_decode s = percent_decode (map (\<lambda>c. if c = CHR ''+'' then CHR '' '' else c) s)"

text \<open>\<open>encodeURIComponent\<close>.\<close>

definition uri_safe :: "char \<Rightarrow> bool" where
  "uri_safe c \<longleftrightarrow> is_alnum c \<or> c \<in> set ''-_.!~*()'' \<or> code c = 39"

definition encodeURIComponent :: "string \<Rightarrow> string" where
  "encodeURIComponent s = concat (map (\<lambda>c. if uri_safe c then [c] else percent_char c) s)"

text \<open>\<open>decodeURIComponent\<close> throws on a percent sign that no two hexadecimal digits follow and on
  bytes that are no UTF-8.\<close>

fun percent_ok :: "string \<Rightarrow> bool" where
  "percent_ok [] = True"
| "percent_ok (c # s) =
     (if c = CHR ''%''
      then (case s of a # b # s' \<Rightarrow> hex_val a \<noteq> None \<and> hex_val b \<noteq> None | _ \<Rightarrow> False) \<and> percent_ok s
      else percent_ok s)"

definition cont_byte :: "char \<Rightarrow> bool" where
  "cont_byte c \<longleftrightarrow> 128 \<le> code c \<and> code c < 192"

fun utf8_ok :: "string \<Rightarrow> bool" where
  "utf8_ok [] = True"
| "utf8_ok (c # s) =
     (if code c < 128 then utf8_ok s
      else if 194 \<le> code c \<and> code c < 224 then (case s of a # s' \<Rightarrow> cont_byte a | _ \<Rightarrow> False) \<and> utf8_ok (drop 1 s)
      else if 224 \<le> code c \<and> code c < 240 then
        (case s of a # b # s' \<Rightarrow> cont_byte a \<and> cont_byte b \<and> (code c = 224 \<longrightarrow> 160 \<le> code a)
            \<and> (code c = 237 \<longrightarrow> code a < 160) | _ \<Rightarrow> False) \<and> utf8_ok (drop 2 s)
      else if 240 \<le> code c \<and> code c < 245 then
        (case s of a # b # d # s' \<Rightarrow> cont_byte a \<and> cont_byte b \<and> cont_byte d \<and> (code c = 240 \<longrightarrow> 144 \<le> code a)
            \<and> (code c = 244 \<longrightarrow> code a < 144) | _ \<Rightarrow> False) \<and> utf8_ok (drop 3 s)
      else False)"

definition decodeURIComponent :: "string \<Rightarrow> string option" where
  "decodeURIComponent s =
     (if percent_ok s \<and> utf8_ok (percent_decode s) then Some (percent_decode s) else None)"

section \<open>URLSearchParams\<close>

definition params_string :: "params \<Rightarrow> string" where
  "params_string ps = join ''&'' (map (\<lambda>(k, v). form_encode k @ ''='' @ form_encode v) ps)"

text \<open>\<open>split_first c s\<close>: the text before the first \<open>c\<close> and the text after it.\<close>

fun split_first :: "char \<Rightarrow> string \<Rightarrow> string \<times> string" where
  "split_first c [] = ([], [])"
| "split_first c (x # xs) =
     (if x = c then ([], xs) else (let (u, v) = split_first c xs in (x # u, v)))"

definition params_parse :: "string \<Rightarrow> params" where
  "params_parse s =
     map (\<lambda>w. let (k, v) = split_first (CHR ''='') w in (form_decode k, form_decode v))
       (filter (\<lambda>w. w \<noteq> []) (split_on (CHR ''&'') s))"

text \<open>\<open>qs.append(k, v)\<close> and \<open>qs.set(k, v)\<close>.\<close>

definition params_append :: "string \<Rightarrow> string \<Rightarrow> params \<Rightarrow> params" where
  "params_append k v ps = ps @ [(k, v)]"

fun params_set :: "string \<Rightarrow> string \<Rightarrow> params \<Rightarrow> params" where
  "params_set k v [] = [(k, v)]"
| "params_set k v ((k', v') # ps) =
     (if k' = k then (k, v) # filter (\<lambda>p. fst p \<noteq> k) ps else (k', v') # params_set k v ps)"

text \<open>The optional parameter \<open>if (x) qs.set(k, x)\<close>.\<close>

definition params_set_if :: "string \<Rightarrow> string option \<Rightarrow> params \<Rightarrow> params" where
  "params_set_if k v ps = (case v of Some x \<Rightarrow> if x = [] then ps else params_set k x ps | None \<Rightarrow> ps)"

section \<open>Round trips\<close>

lemma code_less: "code c < 256"
  using of_char_mod_256 [of c, where 'a = nat] by (metis mod_less_divisor zero_less_numeral)

lemma code_high: "code c div 16 < 16"
  using code_less [of c] by (simp add: less_mult_imp_div_less)

lemma hex_val_digit: "d < 16 \<Longrightarrow> hex_val (hex_digit d) = Some d"
  by (auto simp: hex_val_def hex_digit_def is_digit_def)

lemma hex_digit_alnum: "d < 16 \<Longrightarrow> is_alnum (hex_digit d)"
  by (auto simp: is_alnum_def hex_digit_def is_digit_def is_upper_def)

lemma alnum_not_special: "is_alnum c \<Longrightarrow> c \<notin> set ''+&=%? #/''"
  by (auto simp: is_alnum_def char_class_defs)

lemma hex_plain: "d < 16 \<Longrightarrow> hex_digit d \<notin> set ''+&=%? #/''"
  by (rule alnum_not_special) (rule hex_digit_alnum)

lemma form_safe_not_special: "form_safe c \<Longrightarrow> c \<notin> set ''+&=%? #/''"
  using alnum_not_special [of c] by (auto simp: form_safe_def)

lemma percent_decode_cons [simp]: "a \<noteq> CHR ''%'' \<Longrightarrow> percent_decode (a # s) = a # percent_decode s"
  by (cases s rule: percent_decode.cases) auto

lemma percent_decode_percent: "percent_decode (percent_char c @ s) = c # percent_decode s"
  using code_high [of c] by (simp add: percent_char_def hex_val_digit)

abbreviation plus_space :: "char \<Rightarrow> char" where
  "plus_space c \<equiv> if c = CHR ''+'' then CHR '' '' else c"

lemma percent_char_plain: "map plus_space (percent_char c) = percent_char c"
  using hex_plain [of "code c div 16"] hex_plain [of "code c mod 16"] code_high [of c]
  by (simp add: percent_char_def)

lemma form_decode_encode_append: "form_decode (form_encode s @ t) = s @ form_decode t"
proof (induction s)
  case Nil
  then show ?case by (simp add: form_encode_def)
next
  case (Cons c s)
  show ?case
  proof (cases "form_safe c")
    case True
    then have "c \<noteq> CHR ''+''" "c \<noteq> CHR ''%''" using form_safe_not_special by auto
    with True Cons show ?thesis by (simp add: form_encode_def form_decode_def form_char_def)
  next
    case False
    with Cons show ?thesis
      by (simp add: form_encode_def form_decode_def form_char_def percent_char_plain
          percent_decode_percent)
  qed
qed

lemma form_decode_encode [simp]: "form_decode (form_encode s) = s"
  using form_decode_encode_append [of s "[]"] by (simp add: form_decode_def)

lemma percent_char_set:
  assumes "c \<in> set (percent_char d)"
  shows "c = CHR ''%'' \<or> c \<notin> set ''+&=%? #/''"
proof -
  from assms consider "c = CHR ''%''" | "c = hex_digit (code d div 16)" | "c = hex_digit (code d mod 16)"
    by (auto simp: percent_char_def)
  then show ?thesis
  proof cases
    case 2
    then show ?thesis using hex_plain [OF code_high [of d]] by blast
  next
    case 3
    then show ?thesis using hex_plain [of "code d mod 16"] by simp
  qed simp
qed

lemma form_char_no_special: "c \<in> set (form_char d) \<Longrightarrow> c \<notin> set ''&=? #/''"
  using form_safe_not_special [of d] percent_char_set [of c d]
  by (auto simp: form_char_def split: if_splits)

lemma form_encode_no_special: "c \<in> set (form_encode s) \<Longrightarrow> c \<notin> set ''&=? #/''"
  using form_char_no_special by (force simp: form_encode_def)

lemma form_encode_no_eq [simp]: "CHR ''='' \<notin> set (form_encode s)"
  using form_encode_no_special [of "CHR ''=''" s] by auto

lemma split_first_append [simp]: "c \<notin> set u \<Longrightarrow> split_first c (u @ c # v) = (u, v)"
  by (induction u) auto

lemma params_parse_string: "params_parse (params_string ps) = ps"
proof (cases "ps = []")
  case True
  then show ?thesis by (simp add: params_parse_def params_string_def)
next
  case False
  let ?enc = "\<lambda>(k, v). form_encode k @ ''='' @ form_encode v"
  have amp: "\<forall>w \<in> set (map ?enc ps). CHR ''&'' \<notin> set w"
    using form_encode_no_special by fastforce
  have "split_on (CHR ''&'') (params_string ps) = map ?enc ps"
    using False amp by (simp add: params_string_def split_on_join)
  moreover have "filter (\<lambda>w. w \<noteq> []) (map ?enc ps) = map ?enc ps"
    by (rule filter_True) auto
  moreover have "(let (k, v) = split_first (CHR ''='') (?enc p) in (form_decode k, form_decode v)) = p" for p
    by (cases p) simp
  ultimately show ?thesis by (simp add: params_parse_def comp_def)
qed

lemma params_string_no_special: "c \<in> set (params_string ps) \<Longrightarrow> c \<notin> set ''? #/''"
proof (induction ps)
  case Nil
  then show ?case by (simp add: params_string_def)
next
  case (Cons p ps)
  obtain k v where p: "p = (k, v)" by (cases p)
  have "c \<in> set (form_encode k) \<or> c \<in> set (form_encode v) \<or> c \<in> set ''=&'' \<or> c \<in> set (params_string ps)"
    using Cons.prems p by (cases ps) (auto simp: params_string_def)
  then show ?case using form_encode_no_special [of c] Cons.IH by auto
qed

lemma encodeURIComponent_decode: "percent_decode (encodeURIComponent s) = s"
proof (induction s)
  case Nil
  then show ?case by (simp add: encodeURIComponent_def)
next
  case (Cons c s)
  show ?case
  proof (cases "uri_safe c")
    case True
    then have "c \<noteq> CHR ''%''"
      using alnum_not_special [of c] by (auto simp: uri_safe_def)
    with True Cons show ?thesis by (simp add: encodeURIComponent_def)
  next
    case False
    with Cons show ?thesis by (simp add: encodeURIComponent_def percent_decode_percent)
  qed
qed

lemma encodeURIComponent_no_slash: "CHR ''/'' \<notin> set (encodeURIComponent s)"
proof
  assume "CHR ''/'' \<in> set (encodeURIComponent s)"
  then have "\<exists>d. CHR ''/'' \<in> set (if uri_safe d then [d] else percent_char d)"
    by (simp only: encodeURIComponent_def set_concat set_map UN_iff bex_simps image_iff) blast
  then obtain d where "CHR ''/'' \<in> set (if uri_safe d then [d] else percent_char d)" ..
  moreover have "\<not> uri_safe (CHR ''/'')"
    by (simp add: uri_safe_def is_alnum_def char_class_defs)
  ultimately show False
    using percent_char_set [of "CHR ''/''" d] by (auto split: if_splits)
qed

end
