(* ===== verification/Api_Client.thy ===== *)
theory Api_Client
  imports Url
begin

text \<open>
  The fetch wrapper \<open>web/src/api/client.ts\<close>: the errors the panel throws, the query-string
  builder, the error-envelope parser and \<open>request\<close>, which every endpoint goes through.  The
  browser's \<open>fetch\<close> is a parameter: it maps a request to a response or a thrown error.  A JSON
  body stays a value; its text is the platform's \<open>JSON.stringify\<close> and \<open>JSON.parse\<close>.
\<close>

section \<open>Values and errors\<close>

datatype json = JNull | JBool bool | JNum rat | JStr string
  | JArr "json list" | JObj "(string \<times> json) list"

definition jint :: "int \<Rightarrow> json" where
  "jint i = JNum (of_int i)"

text \<open>A thrown value: the \<open>AbortError\<close> of an aborted fetch, the panel's \<open>ApiError\<close> with status,
  code and message, or another \<open>Error\<close> with its name and message.\<close>

datatype js_error =
    AbortError string
  | ApiError int string string
  | OtherError string string

fun err_message :: "js_error \<Rightarrow> string" where
  "err_message (AbortError m) = m"
| "err_message (ApiError status cd m) = m"
| "err_message (OtherError nm m) = m"

fun err_name :: "js_error \<Rightarrow> string" where
  "err_name (AbortError m) = ''AbortError''"
| "err_name (ApiError status cd m) = ''ApiError''"
| "err_name (OtherError nm m) = nm"

section \<open>Request options and the URL\<close>

definition API_BASE :: string where
  "API_BASE = ''/api/v1''"

text \<open>A query value: text, a number, a truth value, or \<open>undefined\<close>/\<open>null\<close>.\<close>

datatype query_value = QStr string | QNum int | QBool bool | QNone

fun query_text :: "query_value \<Rightarrow> string option" where
  "query_text (QStr s) = Some s"
| "query_text (QNum n) = Some (dec_int n)"
| "query_text (QBool b) = Some (if b then ''true'' else ''false'')"
| "query_text QNone = None"

type_synonym query = "(string \<times> query_value) list"

text \<open>Form data: named text fields and files (by name).\<close>

datatype form_field = FText string | FFile string

type_synonym form_data = "(string \<times> form_field) list"

record request_options =
  ro_method :: "string option"
  ro_body :: "json option"
  ro_form :: "form_data option"
  ro_query :: "query option"

definition no_options :: request_options where
  "no_options = \<lparr>ro_method = None, ro_body = None, ro_form = None, ro_query = None\<rparr>"

fun query_params :: "query \<Rightarrow> params" where
  "query_params [] = []"
| "query_params ((k, v) # qs) =
     (case query_text v of None \<Rightarrow> query_params qs | Some s \<Rightarrow> (k, s) # query_params qs)"

definition buildUrl :: "string \<Rightarrow> query option \<Rightarrow> string" where
  "buildUrl path query =
     (let url = (if starts_with path ''http'' then path else API_BASE @ path)
      in case query of
           None \<Rightarrow> url
         | Some qs \<Rightarrow>
             (let s = params_string (query_params qs)
              in if s = [] then url else url @ ''?'' @ s))"

section \<open>Responses\<close>

text \<open>What reading an error body yields: \<open>res.json()\<close> throws, a value without \<open>error\<close>, or an
  envelope whose code and message may be missing.\<close>

datatype error_body = NotJson | NoEnvelope | Envelope "string option" "string option"

record response =
  r_status :: int
  r_ctype :: "string option"
  r_text :: string
  r_json :: "js_error + json"
  r_error :: error_body

definition r_ok :: "response \<Rightarrow> bool" where
  "r_ok res \<longleftrightarrow> 200 \<le> r_status res \<and> r_status res \<le> 299"

definition parseError :: "response \<Rightarrow> js_error" where
  "parseError res =
     (let cd = ''http_error'';
          msg = ''Request failed ('' @ dec_int (r_status res) @ '')''
      in case r_error res of
           Envelope c m \<Rightarrow> ApiError (r_status res) (nullish c cd) (nullish m msg)
         | _ \<Rightarrow> ApiError (r_status res) cd msg)"

section \<open>The request\<close>

datatype http_body = NoBody | FormBody form_data | JsonBody json

record http_request =
  rq_url :: string
  rq_method :: string
  rq_headers :: "(string \<times> string) list"
  rq_body :: http_body

datatype payload = PUndefined | PText string | PJson json

type_synonym fetch = "http_request \<Rightarrow> js_error + response"

definition prepare :: "string \<Rightarrow> request_options \<Rightarrow> http_request" where
  "prepare path opts =
     (let (headers, body) =
        (case ro_form opts of
           Some f \<Rightarrow> ([], FormBody f)
         | None \<Rightarrow> (case ro_body opts of
             Some b \<Rightarrow> ([(''Content-Type'', ''application/json'')], JsonBody b)
           | None \<Rightarrow> ([], NoBody)))
      in \<lparr>rq_url = buildUrl path (ro_query opts), rq_method = nullish (ro_method opts) ''GET'',
          rq_headers = headers, rq_body = body\<rparr>)"

definition network_error :: "bool \<Rightarrow> string \<Rightarrow> js_error" where
  "network_error https url = ApiError 0 ''network_error''
     (''Network request failed before the server returned a response (''
      @ (if https then ''HTTPS'' else ''HTTP'') @ '' '' @ url
      @ ''). Check DevTools Network for CORS/TLS/proxy errors.'')"

definition request :: "fetch \<Rightarrow> bool \<Rightarrow> string \<Rightarrow> request_options \<Rightarrow> js_error + payload" where
  "request fetch https path opts =
     (let rq = prepare path opts in
      case fetch rq of
        Inl err \<Rightarrow>
          (if err_name err = ''AbortError'' then Inl err
           else Inl (network_error https (rq_url rq)))
      | Inr res \<Rightarrow>
          (if r_status res = 401 then Inl (parseError res)
           else if \<not> r_ok res then Inl (parseError res)
           else if r_status res = 204 then Inr PUndefined
           else if \<not> has_sub (nullish (r_ctype res) []) ''application/json'' then Inr (PText (r_text res))
           else (case r_json res of Inl err \<Rightarrow> Inl err | Inr j \<Rightarrow> Inr (PJson j))))"

text \<open>A call of the API: the path and the options that \<open>http.get\<close> and its siblings pass on.\<close>

type_synonym call = "string \<times> request_options"

definition http_get :: "string \<Rightarrow> query option \<Rightarrow> call" where
  "http_get path q = (path, no_options\<lparr>ro_method := Some ''GET'', ro_query := q\<rparr>)"

definition http_post :: "string \<Rightarrow> json option \<Rightarrow> call" where
  "http_post path b = (path, no_options\<lparr>ro_method := Some ''POST'', ro_body := b\<rparr>)"

definition http_put :: "string \<Rightarrow> json option \<Rightarrow> call" where
  "http_put path b = (path, no_options\<lparr>ro_method := Some ''PUT'', ro_body := b\<rparr>)"

definition http_patch :: "string \<Rightarrow> json option \<Rightarrow> call" where
  "http_patch path b = (path, no_options\<lparr>ro_method := Some ''PATCH'', ro_body := b\<rparr>)"

definition http_del :: "string \<Rightarrow> query option \<Rightarrow> call" where
  "http_del path q = (path, no_options\<lparr>ro_method := Some ''DELETE'', ro_query := q\<rparr>)"

definition http_upload :: "string \<Rightarrow> form_data \<Rightarrow> call" where
  "http_upload path f = (path, no_options\<lparr>ro_method := Some ''POST'', ro_form := Some f\<rparr>)"

definition rootRequest :: "string \<Rightarrow> string \<Rightarrow> call" where
  "rootRequest origin path =
     (if starts_with path ''/'' then origin @ ''/'' @ drop 1 path else path,
      no_options\<lparr>ro_method := Some ''GET''\<rparr>)"

lemmas http_defs =
  http_get_def http_post_def http_put_def http_patch_def http_del_def http_upload_def

section \<open>Lemmas\<close>

lemma query_params_eq:
  "query_params qs = List.map_filter (\<lambda>(k, v). map_option (Pair k) (query_text v)) qs"
  by (induction qs rule: query_params.induct) (auto simp: List.map_filter_simps split: option.splits)

lemma form_char_ne: "form_char c \<noteq> []"
  by (simp add: form_char_def percent_char_def)

lemma params_string_eq_Nil: "params_string ps = [] \<longleftrightarrow> ps = []"
  by (cases ps rule: remdups_adj.cases) (auto simp: params_string_def)

lemma buildUrl_query:
  assumes "query_params qs \<noteq> []"
  shows "buildUrl path (Some qs) = buildUrl path None @ ''?'' @ params_string (query_params qs)"
  using assms by (simp add: buildUrl_def params_string_eq_Nil)

lemma buildUrl_no_query: "query_params qs = [] \<Longrightarrow> buildUrl path (Some qs) = buildUrl path None"
  by (simp add: buildUrl_def params_string_eq_Nil)

lemma request_ok_inv:
  assumes "request fetch https path opts = Inr v"
  obtains res where "fetch (prepare path opts) = Inr res" and "r_ok res"
    and "r_status res = 204 \<longleftrightarrow> v = PUndefined"
  using assms
  by (auto simp: request_def Let_def split: sum.splits if_splits)

lemma request_api_error_status:
  assumes "request fetch https path opts = Inl (ApiError st cd m)"
    and "fetch (prepare path opts) = Inr res" and "\<And>j. r_json res = Inl j \<Longrightarrow> err_name j \<noteq> ''ApiError''"
  shows "st = r_status res \<and> \<not> r_ok res"
  using assms by (fastforce simp: request_def Let_def parseError_def r_ok_def
      split: sum.splits if_splits error_body.splits)


end
