(* ===== verification/Base64.thy ===== *)
theory Base64
  imports Js_Prelude "HOL-Library.Word"
begin

text \<open>
  The base64 encoding of keystrokes, \<open>bytesToBase64\<close> and \<open>manualBtoa\<close> of
  \<open>web/src/lib/terminalClient.ts\<close>.  The platform's own encoder (\<open>btoa\<close>, \<open>Buffer\<close>) is the
  arithmetic encoding \<open>btoa_ref\<close> of RFC 4648; \<open>b64_decode\<close> is the server's decoder.  The lemmas
  show that the hand-written bit-shifting loop computes the same text and that it decodes back.
\<close>

unbundle bit_operations_syntax

type_synonym byte = "8 word"

section \<open>The hand-written encoder\<close>

definition b64_tbl :: string where
  "b64_tbl = ''ABCDEFGHIJKLMNOPQRSTUVWXYZabcdefghijklmnopqrstuvwxyz0123456789+/''"

definition b64_triplet :: "byte \<Rightarrow> byte \<Rightarrow> byte \<Rightarrow> 32 word" where
  "b64_triplet a b c = push_bit 16 (ucast a) OR push_bit 8 (ucast b) OR ucast c"

definition b64_pick :: "32 word \<Rightarrow> nat \<Rightarrow> char" where
  "b64_pick t n = b64_tbl ! unat (drop_bit n t AND 63)"

text \<open>One turn of the loop reads \<open>bytes[i]\<close>, \<open>bytes[i + 1]\<close> and \<open>bytes[i + 2]\<close>, the missing ones
  as 0, and emits four characters.\<close>

fun manualBtoa :: "byte list \<Rightarrow> string" where
  "manualBtoa [] = []"
| "manualBtoa (a # rest) =
     (let b = (if 1 \<le> length rest then rest ! 0 else 0);
          c = (if 2 \<le> length rest then rest ! 1 else 0);
          t = b64_triplet a b c
      in [b64_pick t 18, b64_pick t 12,
          if 1 \<le> length rest then b64_pick t 6 else CHR ''='',
          if 2 \<le> length rest then b64_pick t 0 else CHR ''='']
         @ manualBtoa (drop 2 rest))"

section \<open>The platform's encoder and the decoder\<close>

fun btoa_ref :: "byte list \<Rightarrow> string" where
  "btoa_ref [] = []"
| "btoa_ref [a] =
     [b64_tbl ! (unat a div 4), b64_tbl ! (unat a mod 4 * 16), CHR ''='', CHR ''='']"
| "btoa_ref [a, b] =
     [b64_tbl ! (unat a div 4), b64_tbl ! (unat a mod 4 * 16 + unat b div 16),
      b64_tbl ! (unat b mod 16 * 4), CHR ''='']"
| "btoa_ref (a # b # c # rest) =
     [b64_tbl ! (unat a div 4), b64_tbl ! (unat a mod 4 * 16 + unat b div 16),
      b64_tbl ! (unat b mod 16 * 4 + unat c div 64), b64_tbl ! (unat c mod 64)] @ btoa_ref rest"

text \<open>Which encoder the platform offers.\<close>

datatype b64_platform = HasBtoa | HasBuffer | NoEncoder

fun bytesToBase64 :: "b64_platform \<Rightarrow> byte list \<Rightarrow> string" where
  "bytesToBase64 HasBtoa bytes = btoa_ref bytes"
| "bytesToBase64 HasBuffer bytes = btoa_ref bytes"
| "bytesToBase64 NoEncoder bytes = manualBtoa bytes"

fun index_in :: "'a list \<Rightarrow> 'a \<Rightarrow> nat option" where
  "index_in [] c = None"
| "index_in (x # xs) c = (if x = c then Some 0 else map_option Suc (index_in xs c))"

definition b64_val :: "char \<Rightarrow> nat option" where
  "b64_val c = index_in b64_tbl c"

text \<open>What the decoder computes from the sextets of up to three bytes.\<close>

definition join1 :: "nat \<Rightarrow> nat \<Rightarrow> byte" where
  "join1 i j = of_nat (i * 4 + j div 16)"

definition join2 :: "nat \<Rightarrow> nat \<Rightarrow> byte" where
  "join2 j k = of_nat (j mod 16 * 16 + k div 4)"

definition join3 :: "nat \<Rightarrow> nat \<Rightarrow> byte" where
  "join3 k l = of_nat (k mod 4 * 64 + l)"

fun b64_decode :: "string \<Rightarrow> byte list option" where
  "b64_decode [] = Some []"
| "b64_decode (p # q # r # s # rest) =
     (case (b64_val p, b64_val q) of
        (Some i, Some j) \<Rightarrow>
          (if r = CHR ''='' \<and> s = CHR ''='' \<and> rest = [] then Some [join1 i j]
           else (case b64_val r of
              None \<Rightarrow> None
            | Some k \<Rightarrow>
               (if s = CHR ''='' \<and> rest = []
                then Some [join1 i j, join2 j k]
                else (case (b64_val s, b64_decode rest) of
                   (Some l, Some bs) \<Rightarrow>
                     Some ([join1 i j, join2 j k,
                            join3 k l] @ bs)
                 | _ \<Rightarrow> None))))
      | _ \<Rightarrow> None)"
| "b64_decode _ = None"

section \<open>Correctness\<close>

lemma index_in_nth: "distinct xs \<Longrightarrow> i < length xs \<Longrightarrow> index_in xs (xs ! i) = Some i"
proof (induction xs arbitrary: i)
  case (Cons x xs)
  then show ?case by (cases i) (auto simp: nth_Cons')
qed simp

lemma b64_tbl_distinct: "distinct b64_tbl"
  by code_simp

lemma b64_tbl_length [simp]: "length b64_tbl = 64"
  by (simp add: b64_tbl_def)

lemma b64_val_tbl [simp]: "i < 64 \<Longrightarrow> b64_val (b64_tbl ! i) = Some i"
  by (simp add: b64_val_def index_in_nth b64_tbl_distinct)

lemma b64_tbl_no_pad: "CHR ''='' \<notin> set b64_tbl"
  by code_simp

lemma b64_tbl_not_pad [simp]: "i < 64 \<Longrightarrow> b64_tbl ! i \<noteq> CHR ''=''"
  by (metis b64_tbl_length b64_tbl_no_pad nth_mem)

lemma unat_byte: "unat (a :: byte) < 256"
  using unsigned_less [of a, where 'a = nat] by simp

lemma unat_of_nat_32: "n < 4294967296 \<Longrightarrow> unat (of_nat n :: 32 word) = n"
  by (simp add: unsigned_of_nat take_bit_nat_eq_self)

lemma unat_triplet: "unat (b64_triplet a b c) = unat a * 65536 + unat b * 256 + unat c"
proof -
  note bounds = unat_byte [of a] unat_byte [of b] unat_byte [of c]
  have short: "bit (x :: byte) n \<Longrightarrow> n < 8" for x n
    using bit_imp_le_length [of x n] by simp
  have d1: "push_bit 8 (ucast b) OR (ucast c :: 32 word) = push_bit 8 (ucast b) + ucast c"
    by (rule disjunctive_add_eq_or [symmetric], rule bit_eqI)
      (use short [of c] in \<open>fastforce simp: bit_simps\<close>)
  have d2: "push_bit 16 (ucast a :: 32 word) AND (push_bit 8 (ucast b) OR ucast c) = 0"
    by (rule bit_eqI) (use short [of c] short [of b] in \<open>fastforce simp: bit_simps\<close>)
  have "b64_triplet a b c = push_bit 16 (ucast a) + (push_bit 8 (ucast b) + ucast c)"
    using d1 d2 by (simp add: b64_triplet_def disjunctive_add_eq_or)
  also have "\<dots> = of_nat (unat a * 65536 + unat b * 256 + unat c)"
    by (simp add: push_bit_eq_mult)
  finally have "b64_triplet a b c = of_nat (unat a * 65536 + unat b * 256 + unat c)" .
  moreover have "unat a * 65536 + unat b * 256 + unat c < 4294967296" using bounds by linarith
  ultimately show ?thesis by (metis unat_of_nat_32)
qed

lemma unat_pick: "unat (drop_bit n (t :: 32 word) AND 63) = unat t div 2 ^ n mod 64"
proof -
  have "drop_bit n t AND 63 = take_bit 6 (drop_bit n t)"
    by (simp add: take_bit_eq_mask mask_eq_exp_minus_1)
  then have "unat (drop_bit n t AND 63) = take_bit 6 (drop_bit n (unat t))"
    by (simp only: unsigned_take_bit_eq unat_drop_bit_eq)
  then show ?thesis by (simp add: take_bit_eq_mod drop_bit_eq_div)
qed

text \<open>The arithmetic of splitting and joining bytes and sextets, on natural numbers.\<close>

lemma split16: "(x :: nat) < 16 \<Longrightarrow> (y * 16 + x) div 16 = y \<and> (y * 16 + x) mod 16 = x"
  by simp

lemma split4: "(x :: nat) < 4 \<Longrightarrow> (y * 4 + x) div 4 = y \<and> (y * 4 + x) mod 4 = x"
  by simp

lemma div_mod_64: "(x :: nat) < m \<Longrightarrow> y < 64 \<Longrightarrow> ((q * 64 + y) * m + x) div m mod 64 = y"
  by simp

lemma sextets_of_triplet:
  fixes A B C :: nat
  assumes "A < 256" "B < 256" "C < 256"
  defines "T \<equiv> A * 65536 + B * 256 + C"
  shows "T div 2 ^ 18 mod 64 = A div 4"
    and "T div 2 ^ 12 mod 64 = A mod 4 * 16 + B div 16"
    and "T div 2 ^ 6 mod 64 = B mod 16 * 4 + C div 64"
    and "T div 2 ^ 0 mod 64 = C mod 64"
proof -
  define q r where "q = A div 4" and "r = A mod 4"
  define s u where "s = B div 16" and "u = B mod 16"
  define v w where "v = C div 64" and "w = C mod 64"
  have A: "A = q * 4 + r" and B: "B = s * 16 + u" and C: "C = v * 64 + w"
    by (simp_all add: q_def r_def s_def u_def v_def w_def)
  have bd: "q < 64" "r < 4" "s < 16" "u < 16" "v < 4" "w < 64"
    using assms by (auto simp: q_def r_def s_def u_def v_def w_def)
  have "T = (0 * 64 + q) * 2 ^ 18 + (r * 65536 + B * 256 + C)"
    by (simp add: T_def A algebra_simps)
  moreover have "r * 65536 + B * 256 + C < 2 ^ 18" using assms bd by simp
  ultimately show "T div 2 ^ 18 mod 64 = A div 4"
    using div_mod_64 [of _ "2 ^ 18" q 0] bd by (simp only: q_def)
  have "T = (q * 64 + (r * 16 + s)) * 2 ^ 12 + (u * 256 + C)"
    by (simp add: T_def A B algebra_simps)
  moreover have "u * 256 + C < 2 ^ 12" using assms bd by simp
  ultimately show "T div 2 ^ 12 mod 64 = A mod 4 * 16 + B div 16"
    using div_mod_64 [of _ "2 ^ 12" "r * 16 + s" q] bd by (simp add: r_def s_def)
  have "T = ((A * 16 + s) * 64 + (u * 4 + v)) * 2 ^ 6 + w"
    by (simp add: T_def B C algebra_simps)
  then show "T div 2 ^ 6 mod 64 = B mod 16 * 4 + C div 64"
    using div_mod_64 [of w "2 ^ 6" "u * 4 + v" "A * 16 + s"] bd by (simp add: u_def v_def)
  have "T = ((A * 1024 + B * 4 + v) * 64 + w) * 2 ^ 0 + 0"
    by (simp add: T_def C algebra_simps)
  then show "T div 2 ^ 0 mod 64 = C mod 64"
    using div_mod_64 [of 0 "2 ^ 0" w "A * 1024 + B * 4 + v"] bd by (simp add: w_def)
qed

lemma b64_picks:
  shows "b64_pick (b64_triplet a b c) 18 = b64_tbl ! (unat a div 4)"
    and "b64_pick (b64_triplet a b c) 12 = b64_tbl ! (unat a mod 4 * 16 + unat b div 16)"
    and "b64_pick (b64_triplet a b c) 6 = b64_tbl ! (unat b mod 16 * 4 + unat c div 64)"
    and "b64_pick (b64_triplet a b c) 0 = b64_tbl ! (unat c mod 64)"
  using sextets_of_triplet [OF unat_byte [of a] unat_byte [of b] unat_byte [of c]]
  by (simp_all only: b64_pick_def unat_pick unat_triplet)

lemma manualBtoa_eq_ref: "manualBtoa bytes = btoa_ref bytes"
  by (induction bytes rule: btoa_ref.induct) (simp_all add: b64_picks Let_def)

lemma bytesToBase64_eq_ref: "bytesToBase64 p bytes = btoa_ref bytes"
  by (cases p) (simp_all add: manualBtoa_eq_ref)

lemma sextet_bounds:
  fixes a b :: byte
  shows "unat a div 4 < 64" and "unat a mod 4 * 16 + unat b div 16 < 64"
    and "unat a mod 4 * 16 < 64" and "unat a mod 16 * 4 < 64"
    and "unat a mod 16 * 4 + unat b div 64 < 64" and "unat a mod 64 < 64"
proof -
  note bounds = unat_byte [of a] unat_byte [of b]
  have "unat a mod 4 < 4" "unat b div 16 < 16" "unat a mod 16 < 16" "unat b div 64 < 4"
    using bounds by auto
  then show "unat a mod 4 * 16 + unat b div 16 < 64" and "unat a mod 4 * 16 < 64"
    and "unat a mod 16 * 4 < 64" and "unat a mod 16 * 4 + unat b div 64 < 64"
    by linarith+
qed (use unat_byte [of a] in auto)

lemma joins:
  fixes a b c :: byte
  shows "join1 (unat a div 4) (unat a mod 4 * 16 + unat b div 16) = a"
    and "join1 (unat a div 4) (unat a mod 4 * 16) = a"
    and "join2 (unat a mod 4 * 16 + unat b div 16) (unat b mod 16 * 4 + unat c div 64) = b"
    and "join2 (unat a mod 4 * 16 + unat b div 16) (unat b mod 16 * 4) = b"
    and "join3 (unat b mod 16 * 4 + unat c div 64) (unat c mod 64) = c"
proof -
  have d: "unat b div 16 < 16" "unat c div 64 < 4"
    using unat_byte [of b] unat_byte [of c] by auto
  note s = split16 [OF d(1), of "unat a mod 4"] split4 [OF d(2), of "unat b mod 16"]
  have w: "of_nat (unat x div m * m + unat x mod m) = (x :: byte)" for x m
    by (simp only: div_mult_mod_eq) simp
  show "join1 (unat a div 4) (unat a mod 4 * 16 + unat b div 16) = a"
    and "join1 (unat a div 4) (unat a mod 4 * 16) = a"
    by (simp_all only: join1_def s w) (simp add: w)
  show "join2 (unat a mod 4 * 16 + unat b div 16) (unat b mod 16 * 4 + unat c div 64) = b"
    and "join2 (unat a mod 4 * 16 + unat b div 16) (unat b mod 16 * 4) = b"
    by (simp_all only: join2_def s w) (simp add: w)
  show "join3 (unat b mod 16 * 4 + unat c div 64) (unat c mod 64) = c"
    by (simp only: join3_def s w)
qed

lemma b64_decode_ref: "b64_decode (btoa_ref bytes) = Some bytes"
proof (induction bytes rule: btoa_ref.induct)
  case (2 a)
  then show ?case
    by (simp add: sextet_bounds joins)
next
  case (3 a b)
  then show ?case
    by (simp add: sextet_bounds joins)
next
  case (4 a b c rest)
  then show ?case
    by (simp add: sextet_bounds joins)
qed simp

lemma b64_decode_encode: "b64_decode (bytesToBase64 p bytes) = Some bytes"
  by (simp add: bytesToBase64_eq_ref b64_decode_ref)

text \<open>
  C30.
  Keystrokes survive the encoding on every platform: the hand-written bit-shifting encoder computes
  the same text as the browser's and as Node's, for any bytes, and the server's decoder gives those
  bytes back.
\<close>

theorem base64_encoders_agree:
  "bytesToBase64 p bytes = bytesToBase64 p' bytes \<and> length (bytesToBase64 p bytes) = 4 * ((length bytes + 2) div 3)
   \<and> b64_decode (bytesToBase64 p bytes) = Some bytes"
proof -
  have "length (btoa_ref bytes) = 4 * ((length bytes + 2) div 3)"
  proof (induction bytes rule: btoa_ref.induct)
    case (4 a b c rest)
    have "(length (a # b # c # rest) + 2) div 3 = (length rest + 2) div 3 + 1"
      using div_add_self1 [of 3 "length rest + 2"] by (simp add: ac_simps)
    with 4 show ?case by simp
  qed simp_all
  then show ?thesis by (simp add: bytesToBase64_eq_ref b64_decode_ref)
qed

end
