(* ===== verification/Machine.thy ===== *)
theory Machine
  imports Js_Prelude
begin

text \<open>
  Event machines: a guard \<open>can\<close> that says which events the browser can deliver in a state, and a
  step function.  The components with several sources of events are machines of this kind.  The
  interface \<open>machine_invariant\<close> is what a component proves once of each step; it gives the
  invariant of every run.
\<close>

section \<open>Runs\<close>

inductive machine_run :: "('e \<Rightarrow> 's \<Rightarrow> bool) \<Rightarrow> ('e \<Rightarrow> 's \<Rightarrow> 's) \<Rightarrow> 's \<Rightarrow> 'e list \<Rightarrow> 's \<Rightarrow> bool"
  for can step s where
  machine_nil: "machine_run can step s [] s"
| machine_snoc: "machine_run can step s es t \<Longrightarrow> can e t \<Longrightarrow> machine_run can step s (es @ [e]) (step e t)"

inductive_simps machine_run_Nil [simp]: "machine_run can step s [] t"

text \<open>The run as a computation.\<close>

fun machine_exec :: "('e \<Rightarrow> 's \<Rightarrow> bool) \<Rightarrow> ('e \<Rightarrow> 's \<Rightarrow> 's) \<Rightarrow> 'e list \<Rightarrow> 's \<Rightarrow> 's option" where
  "machine_exec can step [] s = Some s"
| "machine_exec can step (e # es) s = (if can e s then machine_exec can step es (step e s) else None)"

lemma machine_exec_append:
  "machine_exec can step (es @ fs) s = Option.bind (machine_exec can step es s) (machine_exec can step fs)"
  by (induction es arbitrary: s) auto

lemma machine_exec_extends:
  "machine_run can step s0 pre s \<Longrightarrow> machine_exec can step es s = Some t \<Longrightarrow> machine_run can step s0 (pre @ es) t"
proof (induction es arbitrary: s pre)
  case (Cons e es)
  then have "machine_run can step s0 (pre @ [e]) (step e s)"
    by (intro machine_snoc) (auto split: if_splits)
  with Cons show ?case by (fastforce split: if_splits)
qed simp

theorem machine_run_exec: "machine_run can step s es t \<longleftrightarrow> machine_exec can step es s = Some t"
proof
  show "machine_run can step s es t \<Longrightarrow> machine_exec can step es s = Some t"
    by (induction rule: machine_run.induct) (simp_all add: machine_exec_append)
  show "machine_exec can step es s = Some t \<Longrightarrow> machine_run can step s es t"
    using machine_exec_extends [OF machine_nil] by fastforce
qed

lemma machine_run_one: "can e s \<Longrightarrow> machine_run can step s [e] (step e s)"
  by (simp add: machine_run_exec)

lemma machine_run_mono:
  "machine_run can step s es t \<Longrightarrow> (\<And>e u. can e u \<Longrightarrow> can' e u) \<Longrightarrow> machine_run can' step s es t"
  by (induction rule: machine_run.induct) (auto intro: machine_run.intros)

lemma machine_run_restrict:
  "machine_run can step s es t \<Longrightarrow> (\<And>e. e \<in> set es \<Longrightarrow> P e) \<Longrightarrow> machine_run (\<lambda>e u. can e u \<and> P e) step s es t"
  by (induction rule: machine_run.induct) (auto intro: machine_run.intros)

section \<open>Invariants\<close>

locale machine_invariant =
  fixes can :: "'e \<Rightarrow> 's \<Rightarrow> bool" and step :: "'e \<Rightarrow> 's \<Rightarrow> 's" and inv :: "'s \<Rightarrow> bool"
  assumes inv_step: "inv s \<Longrightarrow> can e s \<Longrightarrow> inv (step e s)"
begin

lemma inv_run: "machine_run can step s es t \<Longrightarrow> inv s \<Longrightarrow> inv t"
  by (induction rule: machine_run.induct) (auto intro: inv_step)

lemma inv_exec: "machine_exec can step es s = Some t \<Longrightarrow> inv s \<Longrightarrow> inv t"
  using inv_run machine_run_exec by metis

lemma foldl_preserves:
  assumes "\<And>e s. can e s"
  shows "inv s \<Longrightarrow> inv (foldl (\<lambda>s e. step e s) s es)"
  using assms by (induction es arbitrary: s) (auto intro: inv_step)

end

text \<open>A machine with a starting state that has the invariant: every reachable state has it.\<close>

locale started_machine = machine_invariant can step inv
  for can :: "'e \<Rightarrow> 's \<Rightarrow> bool" and step :: "'e \<Rightarrow> 's \<Rightarrow> 's" and inv :: "'s \<Rightarrow> bool" +
  fixes start :: 's
  assumes inv_start: "inv start"
begin

lemma inv_reachable: "machine_run can step start es t \<Longrightarrow> inv t"
  using inv_run inv_start by blast

end

text \<open>A machine whose events are never refused runs by folding.\<close>

locale open_machine = started_machine "\<lambda>e s. True" step inv start
  for step :: "'e \<Rightarrow> 's \<Rightarrow> 's" and inv :: "'s \<Rightarrow> bool" and start :: 's
begin

lemma inv_foldl: "inv (foldl (\<lambda>s e. step e s) start es)"
  using foldl_preserves inv_start by blast

end

section \<open>Histories\<close>

text \<open>An event that fits \<open>P\<close> was not followed by one that fits \<open>Q\<close>.\<close>

definition unanswered :: "('e \<Rightarrow> bool) \<Rightarrow> ('e \<Rightarrow> bool) \<Rightarrow> 'e list \<Rightarrow> bool" where
  "unanswered P Q es \<longleftrightarrow> (\<exists>pre a post. es = pre @ a # post \<and> P a \<and> (\<forall>e \<in> set post. \<not> Q e))"

lemma unanswered_Nil [simp]: "\<not> unanswered P Q []"
  by (simp add: unanswered_def)

lemma unanswered_snoc [simp]: "unanswered P Q (es @ [e]) \<longleftrightarrow> P e \<or> (unanswered P Q es \<and> \<not> Q e)"
proof
  assume "unanswered P Q (es @ [e])"
  then obtain pre a post where es: "es @ [e] = pre @ a # post" "P a" "\<forall>u \<in> set post. \<not> Q u"
    by (auto simp: unanswered_def)
  show "P e \<or> (unanswered P Q es \<and> \<not> Q e)"
  proof (cases post rule: rev_cases)
    case Nil
    with es show ?thesis by simp
  next
    case (snoc ys y)
    with es have "es = pre @ a # ys" "y = e" "\<forall>u \<in> set ys. \<not> Q u" "\<not> Q e" by auto
    with es(2) show ?thesis unfolding unanswered_def by blast
  qed
next
  assume "P e \<or> (unanswered P Q es \<and> \<not> Q e)"
  then show "unanswered P Q (es @ [e])"
  proof
    assume "P e"
    then show ?thesis unfolding unanswered_def by (intro exI [of _ es] exI [of _ e] exI [of _ "[]"]) simp
  next
    assume "unanswered P Q es \<and> \<not> Q e"
    then obtain pre a post where "es = pre @ a # post" "P a" "\<forall>u \<in> set post. \<not> Q u" "\<not> Q e"
      by (auto simp: unanswered_def)
    then show ?thesis
      unfolding unanswered_def by (intro exI [of _ pre] exI [of _ a] exI [of _ "post @ [e]"]) auto
  qed
qed

lemma answered: "\<not> unanswered P Q (pre @ a # post) \<Longrightarrow> P a \<Longrightarrow> \<exists>e \<in> set post. Q e"
  by (auto simp: unanswered_def)

end
