(* ===== verification/Terminal_Client.thy ===== *)
theory Terminal_Client
  imports Api_Client Base64 Machine
begin

text \<open>
  The WebSocket client of the floating terminal, class \<open>TerminalClient\<close> of
  \<open>web/src/lib/terminalClient.ts\<close>.  The object is the record \<open>term_client\<close>; every method and
  socket handler is a function on it.  What the object does to the outside (callbacks, frames,
  sockets, timers) is appended to the field \<open>log\<close>.  The lemmas cover the byte-level dedup of
  output, the order of queued keystrokes, the reconnect backoff and the finality of \<open>close\<close>.
\<close>

section \<open>Data\<close>

datatype role = Writer | Reader | NoRole

datatype connection_state = Idle | Connecting | Connected | Reconnecting | Closed | ConnError

text \<open>The \<open>readyState\<close> of the current socket.\<close>

datatype ready_state = WsConnecting | WsOpen | WsClosing | WsClosed

record ready_frame =
  rf_session_id :: string
  rf_shell :: string
  rf_cwd :: string
  rf_cols :: int
  rf_rows :: int
  rf_role :: role
  rf_buffered_bytes :: int
  rf_first_seq :: int
  rf_end_seq :: int
  rf_sticky_ttl :: string
  rf_started_at :: string

datatype text_frame = FReady ready_frame | FExit int | FError string | FPong

text \<open>Frames the client sends.\<close>

datatype client_frame = CInput string | CResize int int | CPing | CReplay int

text \<open>Effects: the callbacks of the options, frames written to the socket, sockets opened and
  closed, the reconnect timer.  \<open>OnData\<close> carries the stream position of the first byte beside
  the chunk handed to \<open>onData\<close>.\<close>

datatype effect =
    OnData int "byte list"
  | OnText text_frame
  | OnRole role
  | OnConnectionChange connection_state
  | OnError string
  | WsSend client_frame
  | WsNew string
  | WsClose
  | SetTimer nat
  | ClearTimer

record term_client =
  ws :: "ready_state option"
  closed :: bool
  attempt :: nat
  reconnectTimer :: "nat option"
  lastReceivedEnd :: int
  currentRole :: role
  sessionId :: "string option"
  cols :: "int option"
  rows :: "int option"
  pendingInput :: "byte list list"
  log :: "effect list"

definition RECONNECT_MIN_MS :: nat where "RECONNECT_MIN_MS = 1000"

definition RECONNECT_MAX_MS :: nat where "RECONNECT_MAX_MS = 30000"

definition new_client :: "string option \<Rightarrow> int option \<Rightarrow> int option \<Rightarrow> term_client" where
  "new_client sid cs rs =
     \<lparr>ws = None, closed = False, attempt = 0, reconnectTimer = None, lastReceivedEnd = -1,
      currentRole = NoRole, sessionId = sid, cols = cs, rows = rs, pendingInput = [], log = []\<rparr>"

definition emit :: "effect list \<Rightarrow> term_client \<Rightarrow> term_client" where
  "emit es c = c\<lparr>log := log c @ es\<rparr>"

section \<open>Connecting\<close>

text \<open>\<open>API_BASE.replace(/^http/, 'ws')\<close> and the query of the socket URL.\<close>

definition http_to_ws :: "string \<Rightarrow> string" where
  "http_to_ws base = (if starts_with base ''http'' then ''ws'' @ drop 4 base else base)"

definition buildWsUrl :: "string option \<Rightarrow> int \<Rightarrow> int \<Rightarrow> string" where
  "buildWsUrl sid cs rs =
     (let base = http_to_ws API_BASE;
          ps = params_set_if ''session_id'' sid [];
          ps = params_set ''cols'' (dec_int cs) ps;
          ps = params_set ''rows'' (dec_int rs) ps
      in base @ ''/terminal/ws?'' @ params_string ps)"

definition backoff :: "nat \<Rightarrow> nat" where
  "backoff k = min RECONNECT_MAX_MS (RECONNECT_MIN_MS * 2 ^ min k 5)"

definition scheduleReconnect :: "string \<Rightarrow> term_client \<Rightarrow> term_client" where
  "scheduleReconnect reason c =
     (if closed c then c
      else let delay = backoff (attempt c);
               c1 = emit [OnConnectionChange Reconnecting, OnError reason] (c\<lparr>attempt := attempt c + 1\<rparr>)
           in emit [SetTimer delay] (c1\<lparr>reconnectTimer := Some delay\<rparr>))"

text \<open>The outcome of \<open>new WebSocket(url)\<close>: a socket, a thrown \<open>Error\<close>, or another thrown value.\<close>

datatype ctor_outcome = CtorOk | CtorError string | CtorThrow

definition ws_connect :: "ctor_outcome \<Rightarrow> term_client \<Rightarrow> term_client" where
  "ws_connect oc c =
     (if closed c then c
      else let c1 = emit [OnConnectionChange (if attempt c = 0 then Connecting else Reconnecting)] c;
               url = buildWsUrl (sessionId c) (nullish (cols c) 80) (nullish (rows c) 24)
           in case oc of
                CtorOk \<Rightarrow> emit [WsNew url] (c1\<lparr>ws := Some WsConnecting\<rparr>)
              | CtorError m \<Rightarrow> scheduleReconnect m c1
              | CtorThrow \<Rightarrow> scheduleReconnect ''WebSocket ctor failed'' c1)"

definition start :: "ctor_outcome \<Rightarrow> term_client \<Rightarrow> term_client" where
  "start oc c = ws_connect oc (c\<lparr>closed := False\<rparr>)"

definition close :: "term_client \<Rightarrow> term_client" where
  "close c =
     (let c1 = c\<lparr>closed := True\<rparr>;
          c2 = (if reconnectTimer c1 = None then c1 else emit [ClearTimer] (c1\<lparr>reconnectTimer := None\<rparr>));
          c3 = (if ws c2 = None then c2 else emit [WsClose] c2)
      in emit [OnConnectionChange Closed] (c3\<lparr>ws := None, pendingInput := []\<rparr>))"

section \<open>Sending\<close>

definition flushInput :: "b64_platform \<Rightarrow> byte list \<Rightarrow> term_client \<Rightarrow> term_client" where
  "flushInput p bytes c =
     (if ws c = None then c else emit [WsSend (CInput (bytesToBase64 p bytes))] c)"

definition sendInput :: "b64_platform \<Rightarrow> byte list \<Rightarrow> term_client \<Rightarrow> term_client" where
  "sendInput p bytes c =
     (if currentRole c \<noteq> Writer then c\<lparr>pendingInput := pendingInput c @ [bytes]\<rparr>
      else if ws c \<noteq> Some WsOpen then c\<lparr>pendingInput := pendingInput c @ [bytes]\<rparr>
      else flushInput p bytes c)"

definition flushPendingInput :: "b64_platform \<Rightarrow> term_client \<Rightarrow> term_client" where
  "flushPendingInput p c =
     (if pendingInput c = [] then c
      else if currentRole c \<noteq> Writer then c
      else if ws c \<noteq> Some WsOpen then c
      else let queued = pendingInput c in fold (flushInput p) queued (c\<lparr>pendingInput := []\<rparr>))"

definition sendResize :: "int \<Rightarrow> int \<Rightarrow> term_client \<Rightarrow> term_client" where
  "sendResize cs rs c = (if ws c \<noteq> Some WsOpen then c else emit [WsSend (CResize cs rs)] c)"

definition sendPing :: "term_client \<Rightarrow> term_client" where
  "sendPing c = (if ws c \<noteq> Some WsOpen then c else emit [WsSend CPing] c)"

definition sendReplay :: "int \<Rightarrow> term_client \<Rightarrow> term_client" where
  "sendReplay since c = (if ws c \<noteq> Some WsOpen then c else emit [WsSend (CReplay since)] c)"

section \<open>Socket handlers\<close>

definition onopen :: "b64_platform \<Rightarrow> term_client \<Rightarrow> term_client" where
  "onopen p c = flushPendingInput p (emit [OnConnectionChange Connected] (c\<lparr>attempt := 0\<rparr>))"

definition onerror :: "term_client \<Rightarrow> term_client" where
  "onerror c = emit [OnError ''websocket error''] c"

definition onclose :: "term_client \<Rightarrow> term_client" where
  "onclose c =
     (let c1 = c\<lparr>ws := None\<rparr> in if closed c1 then c1 else scheduleReconnect ''socket closed'' c1)"

text \<open>\<open>handleText\<close>: \<open>None\<close> is a frame on which \<open>JSON.parse\<close> throws.\<close>

definition handleText :: "b64_platform \<Rightarrow> text_frame option \<Rightarrow> term_client \<Rightarrow> term_client" where
  "handleText p raw c =
     (case raw of
        None \<Rightarrow> emit [OnError ''malformed text frame''] c
      | Some parsed \<Rightarrow>
          (case parsed of
             FReady rf \<Rightarrow>
               emit [OnText parsed]
                 (flushPendingInput p
                   (emit [OnRole (rf_role rf)]
                     (c\<lparr>currentRole := rf_role rf, sessionId := Some (rf_session_id rf)\<rparr>)))
           | _ \<Rightarrow> emit [OnText parsed] c))"

text \<open>The big-endian sequence number of the first eight bytes (exact up to \<open>2^53\<close>, where the
  source's \<open>Number\<close> starts to round), and the dedup of binary frames.\<close>

definition getBigUint64 :: "byte list \<Rightarrow> nat" where
  "getBigUint64 bs = foldl (\<lambda>n b. 256 * n + unat b) 0 bs"

definition handleBinary :: "byte list \<Rightarrow> term_client \<Rightarrow> term_client" where
  "handleBinary buf c =
     (if length buf < 8 then c
      else let sq = int (getBigUint64 (take 8 buf));
               payload = drop 8 buf
           in if sq \<le> lastReceivedEnd c then c
              else emit [OnData sq payload]
                     (c\<lparr>lastReceivedEnd := sq + int (length payload) - 1\<rparr>))"

lemmas term_defs =
  scheduleReconnect_def ws_connect_def start_def close_def sendResize_def sendPing_def
  sendReplay_def onerror_def onclose_def handleBinary_def emit_def Let_def

section \<open>Runs of a client and its socket\<close>

text \<open>
  The pane calls \<open>start\<close> once; then the user, the browser's socket and the timer act in any order.
  \<open>term_enabled\<close> is when the platform delivers an event: a socket opens from CONNECTING, delivers
  messages in OPEN only, and the reconnect timer is pending while it is set and no socket exists.
\<close>

datatype term_event =
    EvSendInput "byte list"
  | EvResize int int
  | EvPing
  | EvReplay int
  | EvOpen
  | EvText "text_frame option"
  | EvBinary "byte list"
  | EvSockError
  | EvSockClosing
  | EvSockClose
  | EvTimer ctor_outcome
  | EvClose

fun term_enabled :: "term_event \<Rightarrow> term_client \<Rightarrow> bool" where
  "term_enabled EvOpen c = (ws c = Some WsConnecting)"
| "term_enabled (EvText raw) c = (ws c = Some WsOpen)"
| "term_enabled (EvBinary buf) c = (ws c = Some WsOpen)"
| "term_enabled EvSockClosing c = (ws c = Some WsConnecting \<or> ws c = Some WsOpen)"
| "term_enabled EvSockClose c = (ws c \<noteq> None \<or> closed c)"
| "term_enabled (EvTimer oc) c = (reconnectTimer c \<noteq> None \<and> ws c = None)"
| "term_enabled _ c = True"

fun term_step :: "b64_platform \<Rightarrow> term_event \<Rightarrow> term_client \<Rightarrow> term_client" where
  "term_step p (EvSendInput bytes) c = sendInput p bytes c"
| "term_step p (EvResize cs rs) c = sendResize cs rs c"
| "term_step p EvPing c = sendPing c"
| "term_step p (EvReplay n) c = sendReplay n c"
| "term_step p EvOpen c = onopen p (c\<lparr>ws := Some WsOpen\<rparr>)"
| "term_step p (EvText raw) c = handleText p raw c"
| "term_step p (EvBinary buf) c = handleBinary buf c"
| "term_step p EvSockError c = onerror c"
| "term_step p EvSockClosing c = c\<lparr>ws := Some WsClosing\<rparr>"
| "term_step p EvSockClose c = onclose c"
| "term_step p (EvTimer oc) c = ws_connect oc c"
| "term_step p EvClose c = close c"

abbreviation term_run :: "b64_platform \<Rightarrow> term_client \<Rightarrow> term_event list \<Rightarrow> term_client \<Rightarrow> bool" where
  "term_run p \<equiv> machine_run term_enabled (term_step p)"

abbreviation term_exec :: "b64_platform \<Rightarrow> term_event list \<Rightarrow> term_client \<Rightarrow> term_client option" where
  "term_exec p \<equiv> machine_exec term_enabled (term_step p)"

text \<open>Shorthands for what a log shows.\<close>

fun positions :: "effect \<Rightarrow> int list" where
  "positions (OnData s payload) = map (\<lambda>i. s + int i) [0..<length payload]"
| "positions _ = []"

definition delivered :: "term_client \<Rightarrow> int list" where
  "delivered c = concat (map positions (log c))"

fun data_of :: "effect \<Rightarrow> byte list" where
  "data_of (OnData s payload) = payload"
| "data_of _ = []"

definition out_bytes :: "term_client \<Rightarrow> byte list" where
  "out_bytes c = concat (map data_of (log c))"

fun input_of :: "effect \<Rightarrow> string list" where
  "input_of (WsSend (CInput d)) = [d]"
| "input_of _ = []"

definition sent_input :: "term_client \<Rightarrow> string list" where
  "sent_input c = concat (map input_of (log c))"

fun typed_of :: "term_event \<Rightarrow> byte list list" where
  "typed_of (EvSendInput bytes) = [bytes]"
| "typed_of _ = []"

definition typed :: "term_event list \<Rightarrow> byte list list" where
  "typed es = concat (map typed_of es)"

lemma emit_sel [simp]:
  "ws (emit es c) = ws c" "closed (emit es c) = closed c" "attempt (emit es c) = attempt c"
  "reconnectTimer (emit es c) = reconnectTimer c" "lastReceivedEnd (emit es c) = lastReceivedEnd c"
  "currentRole (emit es c) = currentRole c" "sessionId (emit es c) = sessionId c"
  "pendingInput (emit es c) = pendingInput c" "log (emit es c) = log c @ es"
  "cols (emit es c) = cols c" "rows (emit es c) = rows c"
  by (simp_all add: emit_def)

section \<open>Frames of queued input\<close>

lemma flushInput_open:
  "ws c = Some WsOpen \<Longrightarrow> flushInput p b c = emit [WsSend (CInput (bytesToBase64 p b))] c"
  by (simp add: flushInput_def)

lemma fold_flushInput:
  "ws c = Some WsOpen \<Longrightarrow>
     fold (flushInput p) bs c = emit (map (\<lambda>b. WsSend (CInput (bytesToBase64 p b))) bs) c"
  by (induction bs arbitrary: c) (simp_all add: flushInput_open emit_def)

lemma flushPendingInput_eq:
  "flushPendingInput p c =
     (if currentRole c = Writer \<and> ws c = Some WsOpen
      then emit (map (\<lambda>b. WsSend (CInput (bytesToBase64 p b))) (pendingInput c)) (c\<lparr>pendingInput := []\<rparr>)
      else c)"
  by (auto simp: flushPendingInput_def fold_flushInput Let_def emit_def)

lemmas step_unfold =
  sendInput_def flushInput_def flushPendingInput_eq onopen_def handleText_def term_defs

section \<open>Delivery of output\<close>

definition delivery_inv :: "term_client \<Rightarrow> bool" where
  "delivery_inv c \<longleftrightarrow>
     sorted_wrt (<) (delivered c) \<and> (\<forall>x \<in> set (delivered c). 0 \<le> x \<and> x \<le> lastReceivedEnd c)"

text \<open>Every step but a binary frame keeps the delivered bytes and the mark.\<close>

lemma positions_input [simp]:
  "concat (map (positions \<circ> (\<lambda>b. WsSend (CInput (bytesToBase64 p b)))) bs) = []"
  by (induction bs) auto

lemma data_input [simp]:
  "concat (map (data_of \<circ> (\<lambda>b. WsSend (CInput (bytesToBase64 p b)))) bs) = []"
  by (induction bs) auto

lemma step_keeps_output:
  assumes "\<And>buf. ev \<noteq> EvBinary buf"
  shows "delivered (term_step p ev c) = delivered c" and "out_bytes (term_step p ev c) = out_bytes c"
    and "lastReceivedEnd (term_step p ev c) = lastReceivedEnd c"
  using assms
  by (cases ev; simp add: step_unfold delivered_def out_bytes_def
      split: ctor_outcome.splits option.splits text_frame.splits)+

lemma delivery_inv_step: "delivery_inv c \<Longrightarrow> delivery_inv (term_step p ev c)"
proof (cases "\<exists>buf. ev = EvBinary buf")
  case False
  then show "delivery_inv c \<Longrightarrow> ?thesis"
    using step_keeps_output [of ev p c] by (auto simp: delivery_inv_def)
next
  case True
  then obtain buf where ev: "ev = EvBinary buf" ..
  assume "delivery_inv c"
  then show ?thesis
    by (fastforce simp: ev handleBinary_def Let_def delivery_inv_def delivered_def
        sorted_wrt_append sorted_wrt_map)
qed

lemma delivery_inv_start: "delivery_inv (start oc (new_client sid cs rs))"
  by (simp add: delivery_inv_def delivered_def new_client_def term_defs split: ctor_outcome.splits)

interpretation delivery: machine_invariant term_enabled "term_step p" delivery_inv for p
  by unfold_locales (rule delivery_inv_step)

section \<open>Order of keystrokes\<close>

definition encode_all :: "b64_platform \<Rightarrow> byte list list \<Rightarrow> string list" where
  "encode_all p bs = map (bytesToBase64 p) bs"

definition input_inv :: "b64_platform \<Rightarrow> byte list list \<Rightarrow> term_client \<Rightarrow> bool" where
  "input_inv p ts c \<longleftrightarrow>
     (currentRole c = Writer \<and> ws c = Some WsOpen \<longrightarrow> pendingInput c = []) \<and>
     (closed c \<longrightarrow> ws c = None) \<and>
     (\<exists>rest. encode_all p ts = sent_input c @ rest) \<and>
     (\<not> closed c \<longrightarrow> encode_all p ts = sent_input c @ encode_all p (pendingInput c))"

lemma input_frames [simp]:
  "concat (map (input_of \<circ> (\<lambda>b. WsSend (CInput (bytesToBase64 p b)))) bs) = encode_all p bs"
  by (induction bs) (auto simp: encode_all_def)

lemma encode_all_simps [simp]:
  "encode_all p [] = []" "encode_all p (b # bs) = bytesToBase64 p b # encode_all p bs"
  "encode_all p (bs @ bs') = encode_all p bs @ encode_all p bs'"
  by (simp_all add: encode_all_def)

lemma input_inv_step:
  assumes "input_inv p ts c" and "term_enabled ev c"
  shows "input_inv p (ts @ typed_of ev) (term_step p ev c)"
  using assms
  by (cases ev; simp add: step_unfold input_inv_def sent_input_def
      split: ctor_outcome.splits option.splits text_frame.splits; fastforce?)

lemma typed_snoc [simp]: "typed (es @ [ev]) = typed es @ typed_of ev" "typed [] = []"
  by (simp_all add: typed_def)

lemma term_run_input: "term_run p c es c' \<Longrightarrow> input_inv p [] c \<Longrightarrow> input_inv p (typed es) c'"
  by (induction rule: machine_run.induct) (auto intro: input_inv_step)

lemma input_inv_start: "input_inv p [] (start oc (new_client sid cs rs))"
  by (simp add: input_inv_def sent_input_def new_client_def term_defs split: ctor_outcome.splits)

lemma term_run_not_closed:
  "term_run p c es c' \<Longrightarrow> EvClose \<notin> set es \<Longrightarrow> \<not> closed c \<Longrightarrow> \<not> closed c'"
proof (induction rule: machine_run.induct)
  case (machine_snoc es c ev)
  then show ?case
    by (cases ev) (auto simp: step_unfold split: ctor_outcome.splits option.splits text_frame.splits)
qed

lemma decode_encode_all: "map b64_decode (encode_all p bs) = map Some bs"
  by (induction bs) (simp_all add: b64_decode_encode)

section \<open>Backoff and closing\<close>

lemma backoff_bounds: "RECONNECT_MIN_MS \<le> backoff k \<and> backoff k \<le> RECONNECT_MAX_MS"
proof -
  have "(1 :: nat) \<le> 2 ^ min k 5" by simp
  then show ?thesis by (simp add: backoff_def RECONNECT_MIN_MS_def RECONNECT_MAX_MS_def)
qed

lemma backoff_mono: "backoff k \<le> backoff (Suc k)"
proof -
  have "(2 :: nat) ^ min k 5 \<le> 2 ^ min (Suc k) 5" by (rule power_increasing) auto
  then show ?thesis by (simp add: backoff_def RECONNECT_MIN_MS_def RECONNECT_MAX_MS_def)
qed

definition timers_bounded :: "term_client \<Rightarrow> bool" where
  "timers_bounded c \<longleftrightarrow>
     (\<forall>d. SetTimer d \<in> set (log c) \<longrightarrow> RECONNECT_MIN_MS \<le> d \<and> d \<le> RECONNECT_MAX_MS)"

lemma timers_bounded_step: "timers_bounded c \<Longrightarrow> timers_bounded (term_step p ev c)"
  using backoff_bounds
  by (cases ev; auto simp: step_unfold timers_bounded_def
      split: ctor_outcome.splits option.splits text_frame.splits if_splits)

lemma timers_bounded_start: "timers_bounded (start oc (new_client sid cs rs))"
  using backoff_bounds
  by (simp add: timers_bounded_def new_client_def term_defs split: ctor_outcome.splits)

interpretation timers: machine_invariant term_enabled "term_step p" timers_bounded for p
  by unfold_locales (rule timers_bounded_step)

text \<open>A closed client has no socket, no timer and nothing queued to send.\<close>

definition shut :: "term_client \<Rightarrow> bool" where
  "shut c \<longleftrightarrow> closed c \<and> ws c = None \<and> reconnectTimer c = None"

fun silent :: "effect \<Rightarrow> bool" where
  "silent (WsNew url) = False"
| "silent (WsSend f) = False"
| "silent (SetTimer d) = False"
| "silent (OnData s payload) = False"
| "silent _ = True"

lemma shut_close: "shut (close c)"
  by (simp add: shut_def term_defs)

lemma shut_step:
  assumes "shut c" and "term_enabled ev c"
  shows "shut (term_step p ev c) \<and>
    (\<exists>new. log (term_step p ev c) = log c @ new \<and> list_all silent new)"
  using assms by (cases ev) (auto simp: step_unfold shut_def)

lemma term_run_shut:
  "term_run p c es c' \<Longrightarrow> shut c \<Longrightarrow>
     shut c' \<and> (\<exists>new. log c' = log c @ new \<and> list_all silent new)"
proof (induction rule: machine_run.induct)
  case machine_nil
  then show ?case by auto
next
  case (machine_snoc es c' ev)
  then obtain new where "shut c'" and new: "log c' = log c @ new" "list_all silent new" by blast
  then obtain new' where "shut (term_step p ev c')"
    and "log (term_step p ev c') = log c' @ new'" "list_all silent new'"
    using shut_step [of c' ev p] machine_snoc by blast
  with new show ?case by (intro conjI exI [of _ "new @ new'"]) auto
qed

section \<open>Streams of frames\<close>

text \<open>The frames as the server writes them: an eight-byte big-endian position, then the bytes.\<close>

definition be8 :: "nat \<Rightarrow> byte list" where
  "be8 n = map (\<lambda>k. of_nat (n div 256 ^ (7 - k))) [0..<8]"

definition encode_frame :: "nat \<Rightarrow> byte list \<Rightarrow> byte list" where
  "encode_frame q payload = be8 q @ payload"

fun frames_from :: "nat \<Rightarrow> byte list list \<Rightarrow> byte list list" where
  "frames_from q [] = []"
| "frames_from q (ch # chs) = encode_frame q ch # frames_from (q + length ch) chs"

lemma unat_byte_of_nat: "unat (of_nat n :: byte) = n mod 256"
  by (simp add: unsigned_of_nat take_bit_eq_mod)

lemma getBigUint64_be8: "n < 2 ^ 64 \<Longrightarrow> getBigUint64 (be8 n) = n"
proof -
  assume n: "n < 2 ^ 64"
  have step: "256 * (n div (256 * m)) + n div m mod 256 = n div m" for m
    by (metis div_mult2_eq mult.commute mult_div_mod_eq)
  have "n div 256 ^ 7 < 256" using n by (simp add: div_less_iff_less_mult)
  then have top: "n div 256 ^ 7 mod 256 = n div 256 ^ 7" by simp
  show ?thesis
    using step [of "256 ^ 6"] step [of "256 ^ 5"] step [of "256 ^ 4"] step [of "256 ^ 3"]
      step [of "256 ^ 2"] step [of "256 ^ 1"] step [of 1] top
    by (simp add: getBigUint64_def be8_def upt_rec unat_byte_of_nat)
qed

lemma length_be8 [simp]: "length (be8 n) = 8"
  by (simp add: be8_def)

lemma handleBinary_frame:
  assumes "q < 2 ^ 64"
  shows "handleBinary (encode_frame q payload) c =
    (if int q \<le> lastReceivedEnd c then c
     else emit [OnData (int q) payload] (c\<lparr>lastReceivedEnd := int q + int (length payload) - 1\<rparr>))"
  using assms by (simp add: handleBinary_def encode_frame_def getBigUint64_be8 Let_def)

lemma out_bytes_emit: "out_bytes (emit es c) = out_bytes c @ concat (map data_of es)"
  by (simp add: out_bytes_def)

lemma live_stream:
  assumes "lastReceivedEnd c = int q - 1" and "q + length (concat chs) < 2 ^ 64"
  shows "out_bytes (fold handleBinary (frames_from q chs) c) = out_bytes c @ concat chs \<and>
    lastReceivedEnd (fold handleBinary (frames_from q chs) c) = int q + int (length (concat chs)) - 1"
  using assms
proof (induction chs arbitrary: q c)
  case (Cons ch chs)
  let ?c = "emit [OnData (int q) ch] (c\<lparr>lastReceivedEnd := int q + int (length ch) - 1\<rparr>)"
  have step: "handleBinary (encode_frame q ch) c = ?c"
    using Cons.prems by (simp add: handleBinary_frame)
  have "out_bytes ?c = out_bytes c @ ch" by (simp add: out_bytes_def)
  moreover have "lastReceivedEnd ?c = int (q + length ch) - 1" by simp
  ultimately show ?case using Cons.IH [of ?c "q + length ch"] Cons.prems step by simp
qed simp

lemma stale_frame_dropped:
  "int q \<le> lastReceivedEnd c \<Longrightarrow> q < 2 ^ 64 \<Longrightarrow> handleBinary (encode_frame q payload) c = c"
  by (simp add: handleBinary_frame)

section \<open>The properties of the client\<close>

text \<open>A session used by the witnesses: two keys typed before the socket opens, one after, output.\<close>

definition demo_ready :: ready_frame where
  "demo_ready = \<lparr>rf_session_id = ''s1'', rf_shell = ''sh'', rf_cwd = ''/'', rf_cols = 80, rf_rows = 24,
     rf_role = Writer, rf_buffered_bytes = 0, rf_first_seq = 0, rf_end_seq = 0,
     rf_sticky_ttl = ''12h'', rf_started_at = ''''\<rparr>"

definition demo_events :: "term_event list" where
  "demo_events = [EvSendInput [104], EvSendInput [105, 10], EvOpen, EvText (Some (FReady demo_ready)),
     EvSendInput [33], EvBinary (encode_frame 0 [1, 2, 3]), EvBinary (encode_frame 0 [1, 2, 3])]"

definition demo_start :: term_client where
  "demo_start = start CtorOk (new_client None None None)"

definition demo_final :: term_client where
  "demo_final = the (term_exec HasBtoa demo_events demo_start)"

lemma demo_facts:
  "\<exists>c. term_exec HasBtoa demo_events demo_start = Some c \<and> delivered c = [0, 1, 2]
    \<and> out_bytes c = [1, 2, 3] \<and> lastReceivedEnd c = 2 \<and> ws c = Some WsOpen \<and> \<not> closed c"
  by (simp add: demo_events_def demo_start_def demo_ready_def new_client_def start_def ws_connect_def
      sendInput_def flushInput_def flushPendingInput_eq onopen_def handleText_def handleBinary_frame
      emit_def delivered_def out_bytes_def upt_rec)

lemma demo_final_facts:
  "term_exec HasBtoa demo_events demo_start = Some demo_final" "delivered demo_final = [0, 1, 2]"
  "out_bytes demo_final = [1, 2, 3]" "lastReceivedEnd demo_final = 2"
  "ws demo_final = Some WsOpen" "\<not> closed demo_final"
  using demo_facts by (auto simp: demo_final_def)

lemma demo_run: "term_run HasBtoa (start CtorOk (new_client None None None)) demo_events demo_final"
  using demo_final_facts(1) by (simp add: demo_start_def machine_run_exec)





text \<open>
  A live stream is complete: frames that continue where the client stopped are all delivered,
  byte for byte and in order, and the mark ends at the last byte of the stream.
\<close>

theorem term_live_stream_complete:
  assumes "lastReceivedEnd c = int q - 1" and "q + length (concat chs) < 2 ^ 64"
  shows "out_bytes (fold handleBinary (frames_from q chs) c) = out_bytes c @ concat chs \<and>
    lastReceivedEnd (fold handleBinary (frames_from q chs) c) = int q + int (length (concat chs)) - 1"
  using assms by (rule live_stream)

theorem term_live_stream_complete_witness:
  "out_bytes (fold handleBinary (frames_from 0 [[7, 8], [], [9]]) demo_start) = [7, 8, 9]"
proof -
  have h: "lastReceivedEnd demo_start = int 0 - 1" and o: "out_bytes demo_start = []"
    by (simp_all add: demo_start_def new_client_def term_defs out_bytes_def)
  show ?thesis using term_live_stream_complete [OF h, of "[[7, 8], [], [9]]"] o by simp
qed

text \<open>
  C37.  After a reconnect the server replays its whole dump \<open>d\<close> in one frame from position 0, but a
  client that already received a part of it drops that frame whole: the output produced while the
  socket was down (the bytes of \<open>d\<close> from position \<open>k\<close> on) is not printed, and the mark still says
  it is missing.
\<close>

theorem term_reconnect_loses_output:
  assumes "lastReceivedEnd c = int k - 1" and "0 < k" and "k < length d"
    and "ws c = Some WsOpen" and "\<not> closed c"
  shows "\<exists>c'. term_exec p [EvSockClose, EvTimer CtorOk, EvOpen, EvText (Some (FReady rf)),
            EvBinary (encode_frame 0 d)] c = Some c'
      \<and> out_bytes c' = out_bytes c \<and> lastReceivedEnd c' < int (length d) - 1"
proof -
  let ?reconnect = "[EvSockClose, EvTimer CtorOk, EvOpen, EvText (Some (FReady rf))]"
  have "\<exists>c1. term_exec p ?reconnect c = Some c1 \<and> ws c1 = Some WsOpen
      \<and> out_bytes c1 = out_bytes c \<and> lastReceivedEnd c1 = lastReceivedEnd c"
    using assms(4,5) by (simp add: step_unfold out_bytes_def)
  then obtain c1 where c1: "term_exec p ?reconnect c = Some c1" "ws c1 = Some WsOpen"
      "out_bytes c1 = out_bytes c" "lastReceivedEnd c1 = lastReceivedEnd c" by blast
  have "handleBinary (encode_frame 0 d) c1 = c1"
    using stale_frame_dropped [of 0 c1 d] assms c1(4) by simp
  with c1 have "term_exec p (?reconnect @ [EvBinary (encode_frame 0 d)]) c = Some c1"
    by (simp split: if_splits)
  with c1 assms show ?thesis by auto
qed

theorem term_reconnect_loses_output_witness:
  "\<exists>c'. term_exec HasBtoa [EvSockClose, EvTimer CtorOk, EvOpen, EvText (Some (FReady demo_ready)),
            EvBinary (encode_frame 0 [1, 2, 3, 4, 5])] demo_final = Some c'
      \<and> out_bytes c' = [1, 2, 3] \<and> lastReceivedEnd c' < 4"
proof -
  have "lastReceivedEnd demo_final = int 3 - 1" by (simp add: demo_final_facts)
  then show ?thesis
    using term_reconnect_loses_output [of demo_final 3 "[1, 2, 3, 4, 5]" HasBtoa demo_ready]
    by (simp add: demo_final_facts)
qed

text \<open>
  C22.  \<open>close\<close> is final: whatever the socket, the timer or the user does afterwards, the client
  opens no socket, sends no frame, sets no timer and hands no output to xterm.
\<close>

theorem term_close_final:
  assumes "term_run p (close c) es c'"
  shows "closed c' \<and> (\<exists>new. log c' = log (close c) @ new \<and> list_all silent new)"
  using term_run_shut [OF assms shut_close] by (simp add: shut_def)

theorem term_close_final_witness:
  "\<exists>c'. term_run HasBtoa (close demo_final) [EvSockError, EvSockClose, EvSendInput [1]] c' \<and>
     closed c' \<and> (\<exists>new. log c' = log (close demo_final) @ new \<and> list_all silent new)"
proof -
  let ?es = "[EvSockError, EvSockClose, EvSendInput [1]]"
  have "shut (term_step HasBtoa EvSockError (close demo_final))"
    using shut_step [OF shut_close, of EvSockError] by simp
  then obtain c' where "term_exec HasBtoa ?es (close demo_final) = Some c'"
    by (simp add: shut_def del: term_step.simps)
  then have run: "term_run HasBtoa (close demo_final) ?es c'" by (simp add: machine_run_exec)
  with term_close_final [OF run] show ?thesis by blast
qed

text \<open>
  Every reconnect is scheduled between one and thirty seconds ahead, and the delay never
  shrinks from one failed attempt to the next.
\<close>

theorem term_backoff_bounded:
  assumes "term_run p (start oc (new_client sid cs rs)) es c" and "SetTimer d \<in> set (log c)"
  shows "1000 \<le> d \<and> d \<le> 30000 \<and> backoff k \<le> backoff (Suc k)"
  using timers.inv_run [OF assms(1) timers_bounded_start] assms(2) backoff_mono [of k]
  by (auto simp: timers_bounded_def RECONNECT_MIN_MS_def RECONNECT_MAX_MS_def)

theorem term_backoff_bounded_witness:
  "SetTimer 1000 \<in> set (log (start (CtorError ''x'') (new_client None None None))) \<and>
   1000 \<le> (1000 :: nat) \<and> (1000 :: nat) \<le> 30000 \<and> backoff 4 \<le> backoff (Suc 4)"
proof -
  let ?c = "start (CtorError ''x'') (new_client None None None)"
  have mem: "SetTimer 1000 \<in> set (log ?c)"
    by (simp add: new_client_def term_defs backoff_def RECONNECT_MIN_MS_def RECONNECT_MAX_MS_def)
  from term_backoff_bounded [OF machine_nil [of term_enabled "term_step HasBtoa" ?c] this, of 4] mem show ?thesis by simp
qed

end
