(* ===== verification/Api_Types.thy ===== *)
theory Api_Types
  imports Api_Client
begin

text \<open>
  The data of the API contract, \<open>web/src/api/types.ts\<close>: one record per interface, one datatype
  per union of string literals.  Optional fields are options; identifiers, counts and sizes are
  \<open>int\<close>, rates and percentages \<open>rat\<close>; \<open>Record<string, T>\<close> is an association list in the order of
  the object's keys; \<open>unknown\<close> values are \<open>json\<close>.
\<close>

section \<open>Users and authentication\<close>

record user =
  u_id :: int
  u_name :: string
  u_email :: string

record login_response =
  lr_token :: "string option"
  lr_user :: user

record file_root =
  root_path :: string
  root_label :: "string option"

record auth_metadata =
  am_lockscreen_enabled :: bool
  am_basic_auth_enabled :: bool
  am_lock_after_seconds :: int
  am_web_root :: "string option"
  am_file_roots :: "file_root list option"

record lockscreen_response =
  lk_locked :: bool
  lk_user :: "user option"

section \<open>System and dashboard\<close>

record memory_stat =
  mem_label :: string
  mem_total :: int
  mem_used :: int
  mem_free :: int

record storage_stat =
  sto_system :: string
  sto_size :: int
  sto_used :: int
  sto_available :: int

record system_info =
  si_cpu :: "rat option"
  si_memory :: "memory_stat list option"
  si_storage :: "storage_stat option"

record traffic_site =
  ts_requests :: int
  ts_bytes :: int

record traffic_summary =
  tsum_sites :: "(string \<times> traffic_site) list"
  tsum_total :: traffic_site

record expiring_cert =
  ec_website_id :: int
  ec_domain :: string
  ec_expires_at :: string
  ec_days_left :: int
  ec_expired :: bool

record audit_event =
  ae_ts :: string
  ae_source :: string
  ae_action :: string
  ae_user :: string
  ae_message :: string
  ae_meta :: "(string \<times> json) list"

record nginx_status_current =
  ns_sample_ts :: string
  ns_active :: int
  ns_reading :: int
  ns_writing :: int
  ns_waiting :: int
  ns_accepts :: int
  ns_handled :: int
  ns_requests :: int
  ns_dropped_connections :: int
  ns_request_rate_per_sec :: "rat option"
  ns_accept_rate_per_sec :: "rat option"
  ns_handled_rate_per_sec :: "rat option"
  ns_counter_reset :: bool
  ns_available :: bool

record dashboard_response =
  dr_system :: system_info
  dr_traffic_summary :: traffic_summary
  dr_ssl_expiring :: "expiring_cert list"
  dr_recent_audit :: "audit_event list"
  dr_nginx_status :: "nginx_status_current option"

record network_traffic =
  nt_in :: "(string \<times> int) list option"
  nt_out :: "(string \<times> int) list option"

section \<open>Websites and SSL\<close>

record website =
  w_id :: int
  w_name :: string
  w_domain :: string
  w_path :: string
  w_type :: string
  w_upstream :: "string option"
  w_ssl :: bool
  w_active :: bool
  w_config :: "string option"

record website_create_request =
  wc_name :: string
  wc_domain :: string
  wc_path :: string
  wc_type :: string
  wc_upstream :: "string option"
  wc_active :: "bool option"

record website_validate_response =
  wv_valid :: bool
  wv_reason :: "string option"
  wv_message :: "string option"

record website_toggle_response =
  wt_id :: int
  wt_active :: bool
  wt_message :: string

record ssl_status =
  ssl_enabled :: bool
  ssl_expired :: bool
  ssl_expires_at :: "string option"
  ssl_issuer :: "string option"
  ssl_public_pem :: "string option"
  ssl_private_pem :: "string option"

section \<open>Docker, files, mounts, cron\<close>

record docker_container =
  dc_id :: string
  dc_name :: string
  dc_image :: string
  dc_status :: string

record file_entry =
  fe_name :: string
  fe_path :: string
  fe_size :: int
  fe_mode :: string
  fe_is_dir :: bool
  fe_mod_time :: string
  fe_kind :: string
  fe_mime_type :: string
  fe_extension :: string
  fe_editable :: bool
  fe_viewable :: bool
  fe_archive :: bool
  fe_symlink :: bool
  fe_target :: "string option"

record file_tools =
  ft_unzip :: bool
  ft_tar :: bool
  ft_gzip :: bool

record file_list_response =
  fl_entries :: "file_entry list"
  fl_tools :: file_tools

record file_content_response =
  fc_content :: string
  fc_entry :: file_entry
  fc_encoding :: string

record mount_s3_config =
  s3_bucket :: "string option"
  s3_endpoint :: "string option"
  s3_region :: "string option"
  s3_access_key :: "string option"
  s3_secret_key :: "string option"
  s3_path_style :: "bool option"

record mount =
  m_device :: string
  m_dir :: string
  m_type :: string
  m_options :: string
  m_dump :: string
  m_fsck :: string
  m_mounted :: bool
  m_s3 :: "mount_s3_config option"

record cronjob =
  cj_id :: int
  cj_name :: string
  cj_payload :: string
  cj_run_every :: string
  cj_executed_at :: "string option"

record job_accepted_response =
  ja_job_id :: int
  ja_message :: string

section \<open>Plugins\<close>

datatype plugin_state =
    Installing | Installed | InstallFailed | Enabling | Enabled | EnableFailed
  | Disabling | Uninstalling | Uninstalled

fun plugin_state_text :: "plugin_state \<Rightarrow> string" where
  "plugin_state_text Installing = ''installing''"
| "plugin_state_text Installed = ''installed''"
| "plugin_state_text InstallFailed = ''install_failed''"
| "plugin_state_text Enabling = ''enabling''"
| "plugin_state_text Enabled = ''enabled''"
| "plugin_state_text EnableFailed = ''enable_failed''"
| "plugin_state_text Disabling = ''disabling''"
| "plugin_state_text Uninstalling = ''uninstalling''"
| "plugin_state_text Uninstalled = ''uninstalled''"

record plugin_capabilities =
  pc_hooks :: "string list option"
  pc_hookIsolation :: "string option"
  pc_uiSidebar :: "bool option"
  pc_configSchema :: "bool option"
  pc_loggingSink :: "bool option"
  pc_rulesAndRoles :: "string option"

record plugin_sidebar_entry =
  se_label :: "string option"
  se_route :: "string option"

record plugin_ui =
  ui_sidebar :: "plugin_sidebar_entry list option"
  ui_configSchema :: "json option"

record plugin_entrypoint =
  pe_type :: "string option"
  pe_command :: "string option"

record plugin_signature =
  sg_keyId :: "string option"
  sg_sig :: "string option"

record plugin_manifest =
  pm_id :: "string option"
  pm_name :: "string option"
  pm_version :: "string option"
  pm_tier :: "int option"
  pm_apiVersion :: "string option"
  pm_minGoSiteVersion :: "string option"
  pm_rpcVersion :: "string option"
  pm_configVersion :: "string option"
  pm_capabilities :: "plugin_capabilities option"
  pm_permissions :: "string list option"
  pm_entrypoints :: "(string \<times> plugin_entrypoint) list option"
  pm_artifact_sha256 :: "string option"
  pm_signatures :: "plugin_signature list option"
  pm_ui :: "plugin_ui option"

datatype install_source_type =
  SrcUrl | SrcGithubRelease | SrcGitlabRelease | SrcGitRef | SrcGithubBuild | SrcGitlabBuild

record plugin_install_source =
  is_type :: install_source_type
  is_url :: "string option"
  is_sha256 :: "string option"
  is_repo :: "string option"
  is_tag :: "string option"

record plugin_catalog_entry =
  ce_plugin_id :: string
  ce_name :: string
  ce_description :: string
  ce_vendor :: string
  ce_bundled :: "bool option"
  ce_source :: plugin_install_source

record plugin_resolve_preview =
  pp_plugin_id :: string
  pp_version :: string
  pp_tier :: int
  pp_signed :: bool
  pp_keyId :: "string option"
  pp_sha256 :: string
  pp_size :: int
  pp_url :: string
  pp_minGoSiteVersion :: "string option"
  pp_source_type :: string
  pp_source_ref :: string
  pp_install_path :: string
  pp_sourceCommit :: "string option"
  pp_sourceRepository :: "string option"
  pp_permissions :: "string list"
  pp_hooks :: "string list"
  pp_resolveToken :: "string option"
  pp_resolveExpiresAt :: "string option"

datatype trust_mode = Strict | Community | Dev

record plugin_install_settings =
  ps_remote_install_enabled :: bool
  ps_trust_mode :: trust_mode
  ps_allowed_hosts :: "string list"
  ps_allow_unsigned :: bool
  ps_github_token_configured :: bool
  ps_gitlab_token_configured :: bool
  ps_build_enabled :: bool

record plugin_keyring_entry =
  ke_vendor :: string
  ke_keyId :: string
  ke_publicKey :: string
  ke_createdAt :: "string option"
  ke_revokedAt :: "string option"

datatype plugin_failure_class =
    ValidateTimeout | StartFailed | HookRefreshFailed | DbFailed | CompensationFailed
  | StopFailed | FsDeleteFailed | ConfigMigrationFailed | UnknownFailure | NoFailure

record plugin_install_log_step =
  ls_step :: string
  ls_at :: string
  ls_ok :: bool
  ls_failure_class :: "string option"
  ls_detail :: "string option"

record plugin_version =
  pv_id :: int
  pv_plugin_id :: string
  pv_version :: string
  pv_name :: string
  pv_tier :: int
  pv_api_version :: string
  pv_min_gosite_version :: "string option"
  pv_rpc_version :: "string option"
  pv_config_version :: "string option"
  pv_artifact_digest :: string
  pv_state :: plugin_state
  pv_failure_class :: "plugin_failure_class option"
  pv_failure_message :: "string option"
  pv_failure_at :: "string option"
  pv_manifest :: plugin_manifest
  pv_capabilities :: plugin_capabilities
  pv_ui :: plugin_ui
  pv_source_type :: "string option"
  pv_source_ref :: "string option"
  pv_resolved_url :: "string option"
  pv_install_path :: "string option"
  pv_source_commit :: "string option"
  pv_permissions_ack_at :: "string option"
  pv_install_log :: "plugin_install_log_step list option"
  pv_created_at :: string
  pv_updated_at :: string

record integration_token =
  it_id :: string
  it_plugin_id :: string
  it_label :: string
  it_scopes :: "string list"
  it_created_under_version :: "string option"
  it_created_at :: string
  it_expires_at :: "string option"
  it_revoked_at :: "string option"
  it_last_used_at :: "string option"

record integration_token_create_response =
  itc_token :: integration_token
  itc_secret_token :: string

section \<open>Logs and database\<close>

record log_site =
  lgs_domain :: string
  lgs_name :: "string option"

record log_tail_response =
  lt_domain :: string
  lt_type :: string
  lt_path :: string
  lt_lines :: "string list"
  lt_line_count :: "int option"

record database_tables_response =
  dbt_path :: string
  dbt_tables :: "string list"

text \<open>A row is an object or an array of values.\<close>

datatype db_row = RowObject "(string \<times> json) list" | RowArray "json list"

record database_table_data =
  dbd_name :: string
  dbd_columns :: "string list"
  dbd_rows :: "db_row list"
  dbd_limit :: int
  dbd_offset :: int
  dbd_count :: int

section \<open>Queries\<close>

record query_event =
  qe_id :: string
  qe_ts :: string
  qe_source :: string
  qe_action :: string
  qe_user :: string
  qe_message :: string
  qe_meta :: "(string \<times> json) list"

record syntax_topic =
  st_title :: string
  st_syntax :: string
  st_example :: "string option"
  st_note :: "string option"

record query_field_meta =
  qf_name :: string
  qf_label :: string
  qf_placeholder :: "string option"

datatype search_profile = Structured | TextProfile

record source_query =
  sqy_source :: string
  sqy_site :: "string option"

record quick_filter =
  qk_label :: string
  qk_value :: string

record query_source_meta =
  qs_id :: string
  qs_label :: string
  qs_group :: string
  qs_description :: string
  qs_search_profile :: "search_profile option"
  qs_log_path :: "string option"
  qs_query :: source_query
  qs_fields :: "query_field_meta list"
  qs_quick_filters :: "quick_filter list"
  qs_examples :: "string list"

record time_range =
  tr_value :: string
  tr_label :: string
  tr_offset_ms :: "int option"

record query_meta_response =
  qm_syntax_hint :: string
  qm_help_url :: "string option"
  qm_syntax_topics :: "syntax_topic list option"
  qm_time_ranges :: "time_range list"
  qm_sources :: "query_source_meta list"

record query_response =
  qr_hits :: int
  qr_events :: "query_event list"

record saved_query =
  sq_id :: int
  sq_name :: string
  sq_source :: string
  sq_query :: string
  sq_created_at :: string
  sq_updated_at :: string

record saved_query_update_request =
  su_name :: "string option"
  su_source :: "string option"
  su_q :: "string option"

section \<open>Metrics\<close>

type_synonym series_point = "string \<times> rat"

record traffic_series_response =
  tsr_step :: string
  tsr_requests :: "(string \<times> series_point list) list"
  tsr_bytes :: "(string \<times> series_point list) list"

record top_site_entry =
  te_site :: string
  te_requests :: int
  te_bytes :: int

record status_codes_response =
  sc_s2xx :: int
  sc_s3xx :: int
  sc_s4xx :: int
  sc_s5xx :: int

record traffic_metrics_summary =
  tm_range :: string
  tm_requests :: int
  tm_bytes :: int

type_synonym nginx_series_point = "string \<times> rat option"

record nginx_status_series_response =
  nsr_step :: string
  nsr_active :: "series_point list"
  nsr_reading :: "series_point list"
  nsr_writing :: "series_point list"
  nsr_waiting :: "series_point list"
  nsr_request_rate :: "nginx_series_point list"

record nginx_vts_status_response =
  vts_enabled :: bool
  vts_hint :: "string option"

record nginx_vts_server_row =
  vs_server_name :: string
  vs_requests :: int
  vs_in_bytes :: int
  vs_out_bytes :: int
  vs_request_msec :: rat
  vs_sample_ts :: "string option"

record nginx_vts_upstream_row =
  vu_upstream_name :: string
  vu_server_addr :: string
  vu_requests :: int
  vu_in_bytes :: int
  vu_out_bytes :: int
  vu_response_msec :: rat
  vu_down :: bool
  vu_sample_ts :: "string option"

section \<open>UI metadata\<close>

record ui_option =
  uo_value :: string
  uo_label :: string
  uo_hint :: "string option"

record ui_auth =
  ua_login_hint :: string
  ua_login_email_placeholder :: "string option"
  ua_remember_me :: bool
  ua_basic_auth_enabled :: bool
  ua_lockscreen_enabled :: bool
  ua_lock_after_seconds :: int
  ua_web_root :: "string option"
  ua_file_roots :: "file_root list option"

record ui_files =
  uf_roots :: "file_root list"
  uf_actions :: "ui_option list"

record ui_websites =
  uw_types :: "ui_option list"
  uw_web_root :: string
  uw_static_path_hint :: string
  uw_proxy_upstream_hint :: string

record ui_capability =
  uc_enabled :: bool
  uc_mode :: "string option"
  uc_label :: "string option"
  uc_hint :: "string option"

record ui_nginx =
  un_test :: ui_capability
  un_reload :: ui_capability
  un_stub_status :: ui_capability
  un_vts :: ui_capability

record ui_cron =
  uk_run_every_options :: "ui_option list"
  uk_manual_run :: ui_capability

record ui_docker =
  ud_restart :: ui_capability
  ud_stop :: ui_capability
  ud_logs :: ui_capability

record ui_mounts =
  umt_default_options :: string
  umt_dump_default :: string
  umt_fsck_default :: string
  umt_fs_types :: "ui_option list"
  umt_example :: string

record nav_entry =
  nav_path :: string
  nav_label :: string
  nav_group :: string
  nav_icon :: string

record ui_app =
  app_name :: string
  app_env :: string
  app_logo_letter :: string
  app_version :: "string option"

text \<open>Before the backend's metadata has loaded the panel may hold a partial object (\<open>mergePanelMeta\<close>
  starts from \<open>{}\<close>), so every part is optional; \<open>auth\<close> also carries the merged login metadata.\<close>

record ui_meta =
  um_app :: "ui_app option"
  um_auth :: "ui_auth option"
  um_navigation :: "nav_entry list option"
  um_files :: "ui_files option"
  um_logs :: "ui_option list option"
  um_nginx :: "ui_nginx option"
  um_cron :: "ui_cron option"
  um_mounts :: "ui_mounts option"
  um_traffic :: "ui_option list option"
  um_docker :: "ui_docker option"
  um_websites :: "ui_websites option"

definition empty_ui_meta :: ui_meta where
  "empty_ui_meta = \<lparr>um_app = None, um_auth = None, um_navigation = None, um_files = None,
     um_logs = None, um_nginx = None, um_cron = None, um_mounts = None, um_traffic = None,
     um_docker = None, um_websites = None\<rparr>"

end
