(* ===== verification/Endpoints.thy ===== *)
theory Endpoints
  imports Api_Types
begin

text \<open>
  The typed API functions of \<open>web/src/api/endpoints.ts\<close>, one definition per function: the call
  it passes to the fetch wrapper, and what its \<open>then\<close> keeps of the response (\<open>projection\<close>).
  \<open>perform\<close> runs both.  Bodies are JSON values; an optional property that is \<open>undefined\<close> is
  left out, as \<open>JSON.stringify\<close> does.  The two \<open>EventSource\<close> streams are step functions.
\<close>

section \<open>Building bodies and reading responses\<close>

definition jfield :: "string \<Rightarrow> json option \<Rightarrow> (string \<times> json) list" where
  "jfield k v = (case v of None \<Rightarrow> [] | Some j \<Rightarrow> [(k, j)])"

definition jstr_opt :: "string option \<Rightarrow> json option" where
  "jstr_opt s = map_option JStr s"

definition jstrs :: "string list \<Rightarrow> json" where
  "jstrs xs = JArr (map JStr xs)"

definition spread :: "(string \<times> json) list \<Rightarrow> (string \<times> json) list \<Rightarrow> (string \<times> json) list" where
  "spread base extra = foldl (\<lambda>m (k, v). al_put k v m) base extra"

text \<open>What a function keeps of the response: all of it, \<open>r.f ?? []\<close>, \<open>r.f\<close>, or the two
  defaulted fields of the file listing.\<close>

datatype projection = Whole | FieldOrEmpty string | Field string | Listing

type_synonym endpoint = "call \<times> projection"

definition type_error :: "string \<Rightarrow> js_error" where
  "type_error m = OtherError ''TypeError'' m"

definition member_of :: "payload \<Rightarrow> string \<Rightarrow> js_error + json option" where
  "member_of r f = (case r of
       PUndefined \<Rightarrow> Inl (type_error ''undefined'')
     | PText s \<Rightarrow> Inr None
     | PJson JNull \<Rightarrow> Inl (type_error ''null'')
     | PJson (JObj m) \<Rightarrow> Inr (map_of m f)
     | PJson j \<Rightarrow> Inr None)"

definition json_or :: "json option \<Rightarrow> json \<Rightarrow> json" where
  "json_or j d = (case j of None \<Rightarrow> d | Some JNull \<Rightarrow> d | Some v \<Rightarrow> v)"

definition no_tools :: json where
  "no_tools = JObj [(''unzip'', JBool False), (''tar'', JBool False), (''gzip'', JBool False)]"

definition project :: "projection \<Rightarrow> payload \<Rightarrow> js_error + payload" where
  "project p r = (case p of
       Whole \<Rightarrow> Inr r
     | FieldOrEmpty f \<Rightarrow> map_sum id (\<lambda>j. PJson (json_or j (JArr []))) (member_of r f)
     | Field f \<Rightarrow> map_sum id (\<lambda>j. case j of None \<Rightarrow> PUndefined | Some v \<Rightarrow> PJson v) (member_of r f)
     | Listing \<Rightarrow> (case member_of r ''entries'' of
           Inl e \<Rightarrow> Inl e
         | Inr es \<Rightarrow> map_sum id (\<lambda>ts. PJson (JObj [(''entries'', json_or es (JArr [])),
             (''tools'', json_or ts no_tools)])) (member_of r ''tools'')))"

definition perform :: "fetch \<Rightarrow> bool \<Rightarrow> endpoint \<Rightarrow> js_error + payload" where
  "perform fetch https ep =
     (case request fetch https (fst (fst ep)) (snd (fst ep)) of
        Inl e \<Rightarrow> Inl e
      | Inr r \<Rightarrow> project (snd ep) r)"

section \<open>Auth, metadata, system\<close>

definition auth_metadata_ep :: endpoint where
  "auth_metadata_ep = (http_get ''/auth/login'' None, Whole)"

definition auth_login :: "string \<Rightarrow> string \<Rightarrow> bool \<Rightarrow> endpoint" where
  "auth_login email password remember = (http_post ''/auth/login''
     (Some (JObj [(''email'', JStr email), (''password'', JStr password), (''remember'', JBool remember)])), Whole)"

definition auth_logout :: endpoint where
  "auth_logout = (http_post ''/auth/logout'' None, Whole)"

definition auth_me :: endpoint where
  "auth_me = (http_get ''/auth/me'' None, Whole)"

definition auth_lockscreen :: endpoint where
  "auth_lockscreen = (http_get ''/auth/lockscreen'' None, Whole)"

definition auth_lock :: endpoint where
  "auth_lock = (http_post ''/auth/lock'' None, Whole)"

definition auth_unlock :: "string \<Rightarrow> endpoint" where
  "auth_unlock password = (http_post ''/auth/unlock'' (Some (JObj [(''password'', JStr password)])), Whole)"

definition ui_meta_ep :: endpoint where
  "ui_meta_ep = (http_get ''/ui/meta'' None, Whole)"

definition dashboard_get :: endpoint where
  "dashboard_get = (http_get ''/dashboard'' None, Whole)"

definition system_info :: endpoint where
  "system_info = (http_get ''/system/info'' None, Whole)"

definition system_network :: endpoint where
  "system_network = (http_get ''/system/network'' None, Whole)"

definition system_diskIO :: endpoint where
  "system_diskIO = (http_get ''/system/disk-io'' None, Whole)"

definition system_nginxTraffic :: endpoint where
  "system_nginxTraffic = (http_get ''/system/nginx-traffic'' None, Whole)"

definition settings_updateProfile :: "string option \<Rightarrow> string option \<Rightarrow> string option \<Rightarrow> endpoint" where
  "settings_updateProfile name email password = (http_put ''/settings/profile''
     (Some (JObj (jfield ''name'' (jstr_opt name) @ jfield ''email'' (jstr_opt email)
        @ jfield ''password'' (jstr_opt password)))), Whole)"

section \<open>Websites, SSL, Nginx\<close>

definition website_path :: "int \<Rightarrow> string" where
  "website_path i = ''/websites/'' @ dec_int i"

definition websites_list :: endpoint where
  "websites_list = (http_get ''/websites'' None, FieldOrEmpty ''websites'')"

definition websites_get :: "int \<Rightarrow> endpoint" where
  "websites_get i = (http_get (website_path i) None, Whole)"

definition websites_create :: "json \<Rightarrow> endpoint" where
  "websites_create body = (http_post ''/websites'' (Some body), Whole)"

definition websites_update :: "int \<Rightarrow> json \<Rightarrow> endpoint" where
  "websites_update i body = (http_put (website_path i) (Some body), Whole)"

definition websites_remove :: "int \<Rightarrow> bool \<Rightarrow> endpoint" where
  "websites_remove i clean = (http_del (website_path i) (Some [(''clean'', QBool clean)]), Whole)"

definition websites_toggle :: "int \<Rightarrow> endpoint" where
  "websites_toggle i = (http_patch (website_path i @ ''/toggle'') None, Whole)"

definition websites_validate :: "json \<Rightarrow> endpoint" where
  "websites_validate body = (http_post ''/websites/validate'' (Some body), Whole)"

definition websites_nginxConfig :: "int \<Rightarrow> endpoint" where
  "websites_nginxConfig i = (http_get (website_path i @ ''/nginx-config'') None, Field ''config'')"

definition websites_testNginxConfig :: "int \<Rightarrow> string \<Rightarrow> endpoint" where
  "websites_testNginxConfig i config = (http_post (website_path i @ ''/nginx-config/test'')
     (Some (JObj [(''config'', JStr config)])), Whole)"

definition websites_updateNginxConfig :: "int \<Rightarrow> string \<Rightarrow> endpoint" where
  "websites_updateNginxConfig i config = (http_put (website_path i @ ''/nginx-config'')
     (Some (JObj [(''config'', JStr config)])), Whole)"

definition ssl_status_ep :: "int \<Rightarrow> endpoint" where
  "ssl_status_ep i = (http_get (website_path i @ ''/ssl'') None, Whole)"

definition ssl_uploadManual :: "int \<Rightarrow> string \<Rightarrow> string \<Rightarrow> endpoint" where
  "ssl_uploadManual i pub priv = (http_put (website_path i @ ''/ssl/manual'')
     (Some (JObj [(''public'', JStr pub), (''private'', JStr priv)])), Whole)"

definition ssl_startCertbot :: "int \<Rightarrow> endpoint" where
  "ssl_startCertbot i = (http_post (website_path i @ ''/ssl/certbot'') None, Whole)"

definition ssl_certbotStreamUrl :: "int \<Rightarrow> int \<Rightarrow> string" where
  "ssl_certbotStreamUrl i job =
     API_BASE @ ''/websites/'' @ dec_int i @ ''/ssl/certbot/stream?job_id='' @ dec_int job"

definition nginx_getDefault :: endpoint where
  "nginx_getDefault = (http_get ''/nginx/default'' None, Field ''config'')"

definition nginx_updateDefault :: "string \<Rightarrow> endpoint" where
  "nginx_updateDefault config = (http_put ''/nginx/default'' (Some (JObj [(''config'', JStr config)])), Whole)"

definition nginx_getGlobal :: endpoint where
  "nginx_getGlobal = (http_get ''/nginx/global'' None, Field ''config'')"

definition nginx_updateGlobal :: "string \<Rightarrow> endpoint" where
  "nginx_updateGlobal content = (http_put ''/nginx/global'' (Some (JObj [(''content'', JStr content)])), Whole)"

definition nginx_test :: "string option \<Rightarrow> string option \<Rightarrow> endpoint" where
  "nginx_test config scope = (http_post ''/nginx/test''
     (Some (JObj (jfield ''config'' (jstr_opt config) @ jfield ''scope'' (jstr_opt scope)))), Whole)"

definition nginx_reload :: endpoint where
  "nginx_reload = (http_post ''/nginx/reload'' None, Whole)"

section \<open>Docker and files\<close>

definition docker_list :: endpoint where
  "docker_list = (http_get ''/docker/containers'' None, FieldOrEmpty ''containers'')"

definition docker_restart :: "string \<Rightarrow> endpoint" where
  "docker_restart i = (http_post (''/docker/containers/'' @ i @ ''/restart'') None, Whole)"

definition docker_stop :: "string \<Rightarrow> endpoint" where
  "docker_stop i = (http_post (''/docker/containers/'' @ i @ ''/stop'') None, Whole)"

definition docker_logs :: "string \<Rightarrow> endpoint" where
  "docker_logs i = (http_get (''/docker/containers/'' @ i @ ''/logs'') None, FieldOrEmpty ''lines'')"

definition files_browse :: "string \<Rightarrow> endpoint" where
  "files_browse path = (http_get ''/files'' (Some [(''path'', QStr path)]), Listing)"

definition files_read :: "string \<Rightarrow> endpoint" where
  "files_read path = (http_get ''/files/content'' (Some [(''path'', QStr path)]), Whole)"

definition files_rawUrl :: "string \<Rightarrow> string" where
  "files_rawUrl path = API_BASE @ ''/files/raw?'' @ params_string [(''path'', path)]"

definition files_save :: "string \<Rightarrow> string \<Rightarrow> endpoint" where
  "files_save path content = (http_put ''/files/content''
     (Some (JObj [(''path'', JStr path), (''content'', JStr content)])), Whole)"

definition files_batchSave :: "(string \<times> string) list \<Rightarrow> endpoint" where
  "files_batchSave items = (http_post ''/files/batch-save''
     (Some (JObj [(''files'', JArr (map (\<lambda>(p, c). JObj [(''path'', JStr p), (''content'', JStr c)]) items))])),
     Whole)"

definition files_createFile :: "string \<Rightarrow> string \<Rightarrow> string \<Rightarrow> endpoint" where
  "files_createFile path name content = (http_post ''/files''
     (Some (JObj [(''type'', JStr ''file''), (''path'', JStr path), (''name'', JStr name),
        (''content'', JStr content)])), Whole)"

definition files_createFolder :: "string \<Rightarrow> string \<Rightarrow> endpoint" where
  "files_createFolder path name = (http_post ''/files''
     (Some (JObj [(''type'', JStr ''directory''), (''path'', JStr path), (''name'', JStr name)])), Whole)"

definition files_upload :: "string \<Rightarrow> string \<Rightarrow> endpoint" where
  "files_upload path file = (http_upload ''/files'' [(''path'', FText path), (''file'', FFile file)], Whole)"

definition files_uploadMany :: "string \<Rightarrow> string list \<Rightarrow> endpoint" where
  "files_uploadMany path fs =
     (http_upload ''/files'' ((''path'', FText path) # map (\<lambda>f. (''files'', FFile f)) fs), Whole)"

definition files_remove :: "string \<Rightarrow> endpoint" where
  "files_remove path = (http_del ''/files'' (Some [(''path'', QStr path)]), Whole)"

definition files_batchDelete :: "string list \<Rightarrow> endpoint" where
  "files_batchDelete paths = (http_post ''/files/batch-delete'' (Some (JObj [(''paths'', jstrs paths)])), Whole)"

definition files_action :: "string \<Rightarrow> string \<Rightarrow> (string \<times> json) list \<Rightarrow> endpoint" where
  "files_action action path extra = (http_post ''/files/actions''
     (Some (JObj (spread [(''action'', JStr action), (''path'', JStr path)] extra))), Whole)"

section \<open>Mounts and cron\<close>

definition mounts_list :: endpoint where
  "mounts_list = (http_get ''/mounts'' None, FieldOrEmpty ''mounts'')"

definition mounts_create :: "json \<Rightarrow> endpoint" where
  "mounts_create body = (http_post ''/mounts'' (Some body), Whole)"

definition mounts_update :: "string \<Rightarrow> string \<Rightarrow> json \<Rightarrow> endpoint" where
  "mounts_update oldDevice oldDir entry = (http_put ''/mounts''
     (Some (JObj [(''old_device'', JStr oldDevice), (''old_dir'', JStr oldDir), (''entry'', entry)])), Whole)"

definition mounts_remove :: "string \<Rightarrow> string \<Rightarrow> endpoint" where
  "mounts_remove device dir =
     (http_del ''/mounts'' (Some [(''device'', QStr device), (''dir'', QStr dir)]), Whole)"

definition mounts_enable :: "string \<Rightarrow> string \<Rightarrow> endpoint" where
  "mounts_enable device dir = (http_post ''/mounts/enable''
     (Some (JObj [(''device'', JStr device), (''dir'', JStr dir)])), Whole)"

definition cron_list :: endpoint where
  "cron_list = (http_get ''/cronjobs'' None, FieldOrEmpty ''cronjobs'')"

definition cron_create :: "json \<Rightarrow> endpoint" where
  "cron_create body = (http_post ''/cronjobs'' (Some body), Whole)"

definition cron_update :: "int \<Rightarrow> json \<Rightarrow> endpoint" where
  "cron_update i body = (http_put (''/cronjobs/'' @ dec_int i) (Some body), Whole)"

definition cron_remove :: "int \<Rightarrow> endpoint" where
  "cron_remove i = (http_del (''/cronjobs/'' @ dec_int i) None, Whole)"

definition cron_run :: "int \<Rightarrow> endpoint" where
  "cron_run i = (http_post (''/cronjobs/'' @ dec_int i @ ''/run'') None, Whole)"

definition cron_runStreamUrl :: "int \<Rightarrow> int \<Rightarrow> string" where
  "cron_runStreamUrl i job = API_BASE @ ''/cronjobs/'' @ dec_int i @ ''/run/stream?job_id='' @ dec_int job"

section \<open>Plugins\<close>

definition plugin_id_error :: js_error where
  "plugin_id_error = OtherError ''Error'' ''Plugin id must be vendor/name''"

text \<open>\<open>const [vendor, name] = pluginID.split('/')\<close>, refused when either is missing or empty.\<close>

definition plugin_id_parts :: "string \<Rightarrow> js_error + (string \<times> string)" where
  "plugin_id_parts i = (case split_on (CHR ''/'') i of
       vendor # name # rest \<Rightarrow>
         (if vendor = [] \<or> name = [] then Inl plugin_id_error else Inr (vendor, name))
     | _ \<Rightarrow> Inl plugin_id_error)"

definition pluginPath :: "string \<Rightarrow> js_error + string" where
  "pluginPath i = map_sum id
     (\<lambda>(vendor, name). ''/plugins/'' @ encodeURIComponent vendor @ ''/'' @ encodeURIComponent name)
     (plugin_id_parts i)"

definition at_plugin :: "string \<Rightarrow> (string \<Rightarrow> endpoint) \<Rightarrow> js_error + endpoint" where
  "at_plugin i mk = map_sum id mk (pluginPath i)"

definition plugins_list :: endpoint where
  "plugins_list = (http_get ''/plugins'' None, FieldOrEmpty ''plugins'')"

definition plugins_installSettings :: endpoint where
  "plugins_installSettings = (http_get ''/plugins/install/settings'' None, Whole)"

fun source_type_text :: "install_source_type \<Rightarrow> string" where
  "source_type_text SrcUrl = ''url''"
| "source_type_text SrcGithubRelease = ''github-release''"
| "source_type_text SrcGitlabRelease = ''gitlab-release''"
| "source_type_text SrcGitRef = ''git-ref''"
| "source_type_text SrcGithubBuild = ''github-build''"
| "source_type_text SrcGitlabBuild = ''gitlab-build''"

definition install_source_json :: "plugin_install_source \<Rightarrow> json" where
  "install_source_json s = JObj ((''type'', JStr (source_type_text (is_type s)))
     # jfield ''url'' (jstr_opt (is_url s)) @ jfield ''sha256'' (jstr_opt (is_sha256 s))
     @ jfield ''repo'' (jstr_opt (is_repo s)) @ jfield ''tag'' (jstr_opt (is_tag s)))"

definition plugins_resolveInstall :: "plugin_install_source \<Rightarrow> endpoint" where
  "plugins_resolveInstall source = (http_post ''/plugins/install/resolve''
     (Some (JObj [(''source'', install_source_json source)])), Whole)"

definition plugins_installRemote :: "plugin_install_source \<Rightarrow> bool \<Rightarrow> string option \<Rightarrow> endpoint" where
  "plugins_installRemote source ack tok = (http_post ''/plugins/install''
     (Some (JObj ([(''source'', install_source_json source), (''permissions_ack'', JBool ack)]
        @ (if truthy_str tok then jfield ''resolveToken'' (jstr_opt tok) else [])))), Whole)"

definition plugins_installFile :: "string \<Rightarrow> string option \<Rightarrow> endpoint" where
  "plugins_installFile file sha = (http_upload ''/plugins/install''
     ((''artifact'', FFile file) # (if truthy_str sha then [(''sha256'', FText (the sha))] else [])), Whole)"

definition plugins_installManifest :: "string \<Rightarrow> string option \<Rightarrow> endpoint" where
  "plugins_installManifest content sha = (http_post ''/plugins/install''
     (Some (JObj ((''content'', JStr content) # jfield ''sha256'' (jstr_opt sha)))), Whole)"

definition plugins_enable :: "string \<Rightarrow> string option \<Rightarrow> js_error + endpoint" where
  "plugins_enable i v = at_plugin i (\<lambda>p. (http_post (p @ ''/enable'')
     (if truthy_str v then Some (JObj [(''version'', JStr (the v))]) else None), Whole))"

definition plugins_disable :: "string \<Rightarrow> js_error + endpoint" where
  "plugins_disable i = at_plugin i (\<lambda>p. (http_post (p @ ''/disable'') None, Whole))"

definition plugins_switchVersion :: "string \<Rightarrow> string \<Rightarrow> js_error + endpoint" where
  "plugins_switchVersion i v = at_plugin i (\<lambda>p. (http_post (p @ ''/switch'')
     (Some (JObj [(''version'', JStr v)])), Whole))"

definition plugins_uninstall :: "string \<Rightarrow> string \<Rightarrow> js_error + endpoint" where
  "plugins_uninstall i v =
     at_plugin i (\<lambda>p. (http_del (p @ ''/versions/'' @ encodeURIComponent v) None, Whole))"

definition plugins_restoreBundled :: "string \<Rightarrow> js_error + endpoint" where
  "plugins_restoreBundled i = at_plugin i (\<lambda>p. (http_post (p @ ''/restore-bundled'') None, Whole))"

definition plugins_listKeyring :: endpoint where
  "plugins_listKeyring = (http_get ''/plugins/keyring'' None, FieldOrEmpty ''keys'')"

definition plugins_addKeyringEntry :: "string \<Rightarrow> string \<Rightarrow> string \<Rightarrow> endpoint" where
  "plugins_addKeyringEntry vendor keyId publicKey = (http_post ''/plugins/keyring''
     (Some (JObj [(''vendor'', JStr vendor), (''keyId'', JStr keyId), (''publicKey'', JStr publicKey)])), Whole)"

definition plugins_revokeKeyringEntry :: "string \<Rightarrow> string \<Rightarrow> endpoint" where
  "plugins_revokeKeyringEntry vendor keyId =
     (http_del ''/plugins/keyring'' (Some [(''vendor'', QStr vendor), (''keyId'', QStr keyId)]), Whole)"

definition plugins_catalog :: "string option \<Rightarrow> endpoint" where
  "plugins_catalog query = (http_get ''/plugins/catalog''
     (if truthy_str query then Some [(''q'', QStr (the query))] else None), FieldOrEmpty ''entries'')"

definition plugins_catalogEntry :: "string \<Rightarrow> js_error + endpoint" where
  "plugins_catalogEntry i = map_sum id
     (\<lambda>(vendor, name). (http_get (''/plugins/catalog/'' @ encodeURIComponent vendor @ ''/''
        @ encodeURIComponent name) None, Field ''entry''))
     (plugin_id_parts i)"

definition plugins_listIntegrationTokens :: "string \<Rightarrow> js_error + endpoint" where
  "plugins_listIntegrationTokens i =
     at_plugin i (\<lambda>p. (http_get (p @ ''/integration-tokens'') None, FieldOrEmpty ''tokens''))"

definition plugins_createIntegrationToken ::
    "string \<Rightarrow> string \<Rightarrow> string list \<Rightarrow> string option \<Rightarrow> js_error + endpoint" where
  "plugins_createIntegrationToken i label scopes expires = at_plugin i (\<lambda>p. (http_post (p @ ''/integration-tokens'')
     (Some (JObj ([(''label'', JStr label), (''scopes'', jstrs scopes)]
        @ jfield ''expires_at'' (jstr_opt expires)))), Whole))"

definition plugins_updateIntegrationToken :: "string \<Rightarrow> string \<Rightarrow> string list \<Rightarrow> js_error + endpoint" where
  "plugins_updateIntegrationToken i tok scopes = at_plugin i (\<lambda>p.
     (http_patch (p @ ''/integration-tokens/'' @ encodeURIComponent tok)
       (Some (JObj [(''scopes'', jstrs scopes)])), Whole))"

definition plugins_revokeIntegrationToken :: "string \<Rightarrow> string \<Rightarrow> js_error + endpoint" where
  "plugins_revokeIntegrationToken i tok =
     at_plugin i (\<lambda>p. (http_del (p @ ''/integration-tokens/'' @ encodeURIComponent tok) None, Whole))"

definition plugins_permissionRegistry :: endpoint where
  "plugins_permissionRegistry = (http_get ''/plugins/permissions/registry'' None, FieldOrEmpty ''scopes'')"

section \<open>Logs, database, observability\<close>

definition logs_sites :: endpoint where
  "logs_sites = (http_get ''/logs/sites'' None, FieldOrEmpty ''sites'')"

definition logs_tail :: "string \<Rightarrow> string \<Rightarrow> int \<Rightarrow> endpoint" where
  "logs_tail domain ty tail = (http_get ''/logs''
     (Some [(''domain'', QStr domain), (''type'', QStr ty), (''tail'', QNum tail)]), Whole)"

definition database_tables :: endpoint where
  "database_tables = (http_get ''/database/tables'' None, Whole)"

definition database_table :: "string \<Rightarrow> int \<Rightarrow> int \<Rightarrow> endpoint" where
  "database_table name limit offset = (http_get (''/database/tables/'' @ encodeURIComponent name)
     (Some [(''limit'', QNum limit), (''offset'', QNum offset)]), Whole)"

record query_payload =
  qp_source :: string
  qp_q :: string
  qp_site :: "string option"
  qp_from :: "string option"
  qp_to :: "string option"
  qp_limit :: "int option"
  qp_offset :: "int option"

text \<open>\<open>if (params.limit) qs.set(k, String(params.limit))\<close>: zero and undefined are skipped.\<close>

definition truthy_num :: "int option \<Rightarrow> bool" where
  "truthy_num n \<longleftrightarrow> n \<noteq> None \<and> n \<noteq> Some 0"

definition queryUrl :: "string \<Rightarrow> query_payload \<Rightarrow> string option \<Rightarrow> string" where
  "queryUrl path params stream =
     (let qs = params_set ''source'' (qp_source params) [];
          qs = (if qp_q params \<noteq> [] then params_set ''q'' (qp_q params) qs else qs);
          qs = (if truthy_str (qp_site params) then params_set ''site'' (the (qp_site params)) qs else qs);
          qs = (if truthy_str (qp_from params) then params_set ''from'' (the (qp_from params)) qs else qs);
          qs = (if truthy_str (qp_to params) then params_set ''to'' (the (qp_to params)) qs else qs);
          qs = (if truthy_num (qp_limit params) then params_set ''limit'' (dec_int (the (qp_limit params))) qs else qs);
          qs = (if truthy_num (qp_offset params) then params_set ''offset'' (dec_int (the (qp_offset params))) qs else qs);
          qs = (if truthy_str stream then params_set ''stream'' (the stream) qs else qs)
      in API_BASE @ path @ ''?'' @ params_string qs)"

definition queryStreamUrl :: "query_payload \<Rightarrow> string \<Rightarrow> string" where
  "queryStreamUrl payload mode = queryUrl ''/query'' payload (Some mode)"

definition opt_str :: "string option \<Rightarrow> query_value" where
  "opt_str s = (case s of None \<Rightarrow> QNone | Some t \<Rightarrow> QStr t)"

definition opt_num :: "int option \<Rightarrow> query_value" where
  "opt_num n = (case n of None \<Rightarrow> QNone | Some m \<Rightarrow> QNum m)"

definition observability_query :: "query_payload \<Rightarrow> endpoint" where
  "observability_query p = (http_get ''/query'' (Some [(''source'', QStr (qp_source p)), (''q'', QStr (qp_q p)),
     (''site'', opt_str (qp_site p)), (''from'', opt_str (qp_from p)), (''to'', opt_str (qp_to p)),
     (''limit'', opt_num (qp_limit p)), (''offset'', opt_num (qp_offset p))]), Whole)"

definition observability_queryMeta :: endpoint where
  "observability_queryMeta = (http_get ''/query/meta'' None, Whole)"

definition query_payload_json :: "query_payload \<Rightarrow> json" where
  "query_payload_json p = JObj ([(''source'', JStr (qp_source p)), (''q'', JStr (qp_q p))]
     @ jfield ''site'' (jstr_opt (qp_site p)) @ jfield ''from'' (jstr_opt (qp_from p))
     @ jfield ''to'' (jstr_opt (qp_to p)) @ jfield ''limit'' (map_option jint (qp_limit p))
     @ jfield ''offset'' (map_option jint (qp_offset p)))"

definition observability_queryPost :: "query_payload \<Rightarrow> endpoint" where
  "observability_queryPost p = (http_post ''/query'' (Some (query_payload_json p)), Whole)"

definition tailUrl :: "query_payload \<Rightarrow> string" where
  "tailUrl params =
     (let qs = params_set ''source'' (qp_source params) [];
          qs = (if qp_q params \<noteq> [] then params_set ''q'' (qp_q params) qs else qs);
          qs = (if truthy_str (qp_site params) then params_set ''site'' (the (qp_site params)) qs else qs);
          qs = (if truthy_str (qp_from params) then params_set ''from'' (the (qp_from params)) qs else qs);
          qs = (if truthy_str (qp_to params) then params_set ''to'' (the (qp_to params)) qs else qs)
      in API_BASE @ ''/query/tail?'' @ params_string qs)"

definition savedQueries :: endpoint where
  "savedQueries = (http_get ''/query/saved'' None, FieldOrEmpty ''queries'')"

definition saveQuery :: "string \<Rightarrow> string \<Rightarrow> string \<Rightarrow> endpoint" where
  "saveQuery name source q = (http_post ''/query/saved''
     (Some (JObj [(''name'', JStr name), (''source'', JStr source), (''q'', JStr q)])), Whole)"

definition updateSavedQuery :: "int \<Rightarrow> saved_query_update_request \<Rightarrow> endpoint" where
  "updateSavedQuery i b = (http_patch (''/query/saved/'' @ dec_int i)
     (Some (JObj (jfield ''name'' (jstr_opt (su_name b)) @ jfield ''source'' (jstr_opt (su_source b))
        @ jfield ''q'' (jstr_opt (su_q b))))), Whole)"

definition deleteSavedQuery :: "int \<Rightarrow> endpoint" where
  "deleteSavedQuery i = (http_del (''/query/saved/'' @ dec_int i) None, Whole)"

section \<open>Event streams\<close>

text \<open>The browser's \<open>EventSource\<close>: it delivers messages and errors until it is closed.  A
  message carries what \<open>JSON.parse\<close> makes of its data (\<open>None\<close>: it threw); a transport error
  leaves the source connecting or closed; a server-sent event named \<open>error\<close> carries data too.\<close>

datatype source_state = EsConnecting | EsOpen | EsClosed

datatype 'm es_event = EsMessage "'m option" | EsError source_state | EsNamedError "'m option" | EsStop

datatype 'm es_call = EsGot 'm | EsGone | EsFailed

record 'm event_source =
  es_state :: source_state
  es_log :: "'m es_call list"

definition es_open :: "'m event_source" where
  "es_open = \<lparr>es_state = EsConnecting, es_log = []\<rparr>"

definition es_close :: "'m event_source \<Rightarrow> 'm event_source" where
  "es_close es = es\<lparr>es_state := EsClosed\<rparr>"

definition es_emit :: "'m es_call \<Rightarrow> 'm event_source \<Rightarrow> 'm event_source" where
  "es_emit c es = es\<lparr>es_log := es_log es @ [c]\<rparr>"

text \<open>\<open>startTail\<close>: only a closed source is terminal; the returned function closes it.\<close>

definition startTail :: "'m event_source \<Rightarrow> 'm es_event \<Rightarrow> 'm event_source" where
  "startTail es ev =
     (if es_state es = EsClosed then es else
      case ev of
        EsMessage None \<Rightarrow> es\<lparr>es_state := EsOpen\<rparr>
      | EsMessage (Some m) \<Rightarrow> es_emit (EsGot m) (es\<lparr>es_state := EsOpen\<rparr>)
      | EsError rs \<Rightarrow>
          (let es = es\<lparr>es_state := rs\<rparr>
           in if rs = EsClosed then es_close (es_emit EsGone es) else es)
      | EsNamedError m \<Rightarrow> es
      | EsStop \<Rightarrow> es_close es)"

text \<open>\<open>startQueryStream\<close>: an \<open>error\<close> event with parseable data is a frame, any other is reported
  to \<open>onError\<close>; the stream is closed only by the returned function (or the browser).\<close>

definition startQueryStream :: "'m event_source \<Rightarrow> 'm es_event \<Rightarrow> 'm event_source" where
  "startQueryStream es ev =
     (if es_state es = EsClosed then es else
      case ev of
        EsMessage None \<Rightarrow> es\<lparr>es_state := EsOpen\<rparr>
      | EsMessage (Some m) \<Rightarrow> es_emit (EsGot m) (es\<lparr>es_state := EsOpen\<rparr>)
      | EsError rs \<Rightarrow> es_emit EsFailed (es\<lparr>es_state := rs\<rparr>)
      | EsNamedError None \<Rightarrow> es_emit EsFailed es
      | EsNamedError (Some m) \<Rightarrow> es_emit (EsGot m) es
      | EsStop \<Rightarrow> es_close es)"

section \<open>Metrics, health, terminal\<close>

definition metrics_series :: "string \<Rightarrow> endpoint" where
  "metrics_series r = (http_get ''/metrics/traffic/series'' (Some [(''range'', QStr r)]), Whole)"

definition metrics_topSites :: "string \<Rightarrow> endpoint" where
  "metrics_topSites r = (http_get ''/metrics/traffic/top-sites'' (Some [(''range'', QStr r)]), Whole)"

definition metrics_statusCodes :: "string \<Rightarrow> endpoint" where
  "metrics_statusCodes r = (http_get ''/metrics/traffic/status-codes'' (Some [(''range'', QStr r)]), Whole)"

definition metrics_summary :: "string \<Rightarrow> endpoint" where
  "metrics_summary r = (http_get ''/metrics/traffic/summary'' (Some [(''range'', QStr r)]), Whole)"

definition metrics_nginxCurrent :: endpoint where
  "metrics_nginxCurrent = (http_get ''/metrics/nginx/current'' None, Whole)"

definition metrics_nginxSeries :: "string \<Rightarrow> endpoint" where
  "metrics_nginxSeries r = (http_get ''/metrics/nginx/series'' (Some [(''range'', QStr r)]), Whole)"

definition metrics_nginxVTSStatus :: endpoint where
  "metrics_nginxVTSStatus = (http_get ''/metrics/nginx/vts/status'' None, Whole)"

definition metrics_nginxVTSServers :: "int \<Rightarrow> endpoint" where
  "metrics_nginxVTSServers limit = (http_get ''/metrics/nginx/vts/servers'' (Some [(''limit'', QNum limit)]), Whole)"

definition metrics_nginxVTSUpstreams :: "int \<Rightarrow> endpoint" where
  "metrics_nginxVTSUpstreams limit =
     (http_get ''/metrics/nginx/vts/upstreams'' (Some [(''limit'', QNum limit)]), Whole)"

definition rootHealth :: "string \<Rightarrow> call" where
  "rootHealth origin = rootRequest origin ''/health''"

record terminal_session =
  tse_id :: string
  tse_user_id :: int
  tse_shell :: string
  tse_cwd :: string
  tse_started_at :: string
  tse_last_attach :: string
  tse_last_input :: string
  tse_bytes :: int
  tse_first_seq :: int
  tse_end_seq :: int
  tse_active :: bool
  tse_role :: string

record terminal_snapshot =
  tsn_session_id :: string
  tsn_shell :: string
  tsn_cwd :: string
  tsn_started_at :: string
  tsn_bytes :: int
  tsn_first_seq :: int
  tsn_end_seq :: int
  tsn_data_b64 :: string

definition terminal_list :: endpoint where
  "terminal_list = (http_get ''/terminal/sessions'' None, FieldOrEmpty ''sessions'')"

definition terminal_snapshot_ep :: "string \<Rightarrow> endpoint" where
  "terminal_snapshot_ep i = (http_get (''/terminal/sessions/'' @ i @ ''/snapshot'') None, Whole)"

definition terminal_kill :: "string \<Rightarrow> endpoint" where
  "terminal_kill i = (http_del (''/terminal/sessions/'' @ i) None, Whole)"

lemma split_on_slash_free: "c \<notin> set s \<Longrightarrow> split_on c s = [s]"
  using split_on_join [of "[s]" c] by simp

lemma plugin_path_split:
  "split_on (CHR ''/'') (encodeURIComponent v @ CHR ''/'' # encodeURIComponent n)
     = [encodeURIComponent v, encodeURIComponent n]"
  using split_on_join [of "[encodeURIComponent v, encodeURIComponent n]" "CHR ''/''"]
  by (simp add: encodeURIComponent_no_slash)

text \<open>
  A plugin id addresses one plugin and nothing else.  The path the panel builds for an id splits into
  exactly the fixed segments and the two segments of the id, whatever characters the id has, and the
  server's decoding of those gives the vendor and the name back; an id without both parts is refused
  before any request.
\<close>

theorem pluginPath_segments:
  "case pluginPath i of
     Inl e \<Rightarrow> e = plugin_id_error \<and> (length (split_on (CHR ''/'') i) < 2 \<or> [] \<in> set (take 2 (split_on (CHR ''/'') i)))
   | Inr path \<Rightarrow> length (split_on (CHR ''/'') path) = 4
       \<and> take 2 (split_on (CHR ''/'') path) = [[], ''plugins'']
       \<and> map percent_decode (drop 2 (split_on (CHR ''/'') path)) = take 2 (split_on (CHR ''/'') i)
       \<and> [] \<notin> set (take 2 (split_on (CHR ''/'') i))"
  by (auto simp: pluginPath_def plugin_id_parts_def plugin_path_split encodeURIComponent_decode
      split: list.splits if_splits)

end
