(* ===== verification/Terminal_Store.thy ===== *)
theory Terminal_Store
  imports Terminal_Client Endpoints
begin

text \<open>
  The store of the floating terminal, \<open>web/src/lib/terminalStore.tsx\<close>, and its window,
  \<open>web/src/components/TerminalWindow.tsx\<close>.  The state of the provider, the ref with the last
  persisted state and the browser's local storage are one record; each callback of the store is a
  function on it, and each interaction of the window a step.  The requests sent to the server are
  a ghost list.
\<close>

section \<open>State\<close>

record geometry =
  g_x :: int
  g_y :: int
  g_w :: int
  g_h :: int
  g_maximized :: bool
  g_minimized :: bool

definition DEFAULT_GEOMETRY :: geometry where
  "DEFAULT_GEOMETRY = \<lparr>g_x = 80, g_y = 80, g_w = 720, g_h = 420, g_maximized = False, g_minimized = False\<rparr>"

record partial_geometry =
  pg_x :: "int option"
  pg_y :: "int option"
  pg_w :: "int option"
  pg_h :: "int option"
  pg_maximized :: "bool option"
  pg_minimized :: "bool option"

definition merge_geometry :: "geometry \<Rightarrow> partial_geometry \<Rightarrow> geometry" where
  "merge_geometry g p = \<lparr>g_x = nullish (pg_x p) (g_x g), g_y = nullish (pg_y p) (g_y g),
     g_w = nullish (pg_w p) (g_w g), g_h = nullish (pg_h p) (g_h g),
     g_maximized = nullish (pg_maximized p) (g_maximized g),
     g_minimized = nullish (pg_minimized p) (g_minimized g)\<rparr>"

record persisted =
  ps_popup :: geometry
  ps_session :: "string option"

definition defaultPersisted :: persisted where
  "defaultPersisted = \<lparr>ps_popup = DEFAULT_GEOMETRY, ps_session = None\<rparr>"

text \<open>What local storage yields: reading throws or the text is not JSON, no item, or a parsed
  object with a version and optional parts.\<close>

datatype stored = StThrows | StNone | StItem "int option" "partial_geometry option" "string option"

definition STORAGE_VERSION :: int where
  "STORAGE_VERSION = 1"

definition loadPersisted :: "stored \<Rightarrow> persisted" where
  "loadPersisted raw = (case raw of
       StThrows \<Rightarrow> defaultPersisted
     | StNone \<Rightarrow> defaultPersisted
     | StItem v popup session \<Rightarrow>
         (if v \<noteq> Some STORAGE_VERSION then defaultPersisted
          else \<lparr>ps_popup = (case popup of None \<Rightarrow> DEFAULT_GEOMETRY | Some p \<Rightarrow> merge_geometry DEFAULT_GEOMETRY p),
                ps_session = session\<rparr>))"

definition full_geometry :: "geometry \<Rightarrow> partial_geometry" where
  "full_geometry g = \<lparr>pg_x = Some (g_x g), pg_y = Some (g_y g), pg_w = Some (g_w g), pg_h = Some (g_h g),
     pg_maximized = Some (g_maximized g), pg_minimized = Some (g_minimized g)\<rparr>"

text \<open>Writing is best effort: \<open>StThrows\<close> stands for a storage that is disabled.\<close>

definition savePersisted :: "persisted \<Rightarrow> stored \<Rightarrow> stored" where
  "savePersisted p raw = (case raw of
       StThrows \<Rightarrow> StThrows
     | _ \<Rightarrow> StItem (Some STORAGE_VERSION) (Some (full_geometry (ps_popup p))) (ps_session p))"

record terminal_state =
  ts_open :: bool
  ts_minimized :: bool
  ts_maximized :: bool
  ts_session :: "string option"
  ts_role :: role
  ts_connection :: connection_state
  ts_sessions :: "terminal_session list"
  ts_popup :: geometry
  ts_lastError :: "string option"

datatype store_request = ReqList | ReqKill string

record terminal_store =
  st_state :: terminal_state
  st_ref :: persisted
  st_storage :: stored
  st_requests :: "store_request list"

definition terminal_provider :: "stored \<Rightarrow> terminal_store" where
  "terminal_provider raw = \<lparr>st_state = \<lparr>ts_open = False, ts_minimized = False,
       ts_maximized = g_maximized (ps_popup defaultPersisted), ts_session = None, ts_role = NoRole,
       ts_connection = Idle, ts_sessions = [], ts_popup = DEFAULT_GEOMETRY, ts_lastError = None\<rparr>,
     st_ref = defaultPersisted, st_storage = raw, st_requests = []\<rparr>"

definition map_state :: "(terminal_state \<Rightarrow> terminal_state) \<Rightarrow> terminal_store \<Rightarrow> terminal_store" where
  "map_state f s = s\<lparr>st_state := f (st_state s)\<rparr>"

definition hydrate :: "terminal_store \<Rightarrow> terminal_store" where
  "hydrate s =
     (let p = loadPersisted (st_storage s)
      in map_state (\<lambda>t. t\<lparr>ts_session := ps_session p, ts_popup := ps_popup p,
             ts_maximized := g_maximized (ps_popup p)\<rparr>) (s\<lparr>st_ref := p\<rparr>))"

section \<open>Callbacks\<close>

text \<open>\<open>persist\<close> is only used to set the session.\<close>

definition persist_session :: "string option \<Rightarrow> terminal_store \<Rightarrow> terminal_store" where
  "persist_session sid s =
     (let merged = (st_state s)\<lparr>ts_session := sid\<rparr>;
          p = \<lparr>ps_popup = ts_popup merged, ps_session = ts_session merged\<rparr>
      in s\<lparr>st_state := merged, st_storage := savePersisted p (st_storage s), st_ref := p\<rparr>)"

definition setSession :: "string \<Rightarrow> terminal_store \<Rightarrow> terminal_store" where
  "setSession sid s = persist_session (Some sid) s"

definition setRole :: "role \<Rightarrow> terminal_store \<Rightarrow> terminal_store" where
  "setRole r s = map_state (\<lambda>t. t\<lparr>ts_role := r\<rparr>) s"

definition setConnection :: "connection_state \<Rightarrow> terminal_store \<Rightarrow> terminal_store" where
  "setConnection c s = map_state (\<lambda>t. t\<lparr>ts_connection := c\<rparr>) s"

definition setLastError :: "string option \<Rightarrow> terminal_store \<Rightarrow> terminal_store" where
  "setLastError m s = map_state (\<lambda>t. t\<lparr>ts_lastError := m\<rparr>) s"

definition save_state :: "geometry \<Rightarrow> terminal_state \<Rightarrow> terminal_store \<Rightarrow> terminal_store" where
  "save_state popup t s =
     s\<lparr>st_state := t, st_storage := savePersisted \<lparr>ps_popup = popup, ps_session = ts_session t\<rparr> (st_storage s)\<rparr>"

definition setGeometry :: "partial_geometry \<Rightarrow> terminal_store \<Rightarrow> terminal_store" where
  "setGeometry g s =
     (let t = (st_state s)\<lparr>ts_popup := merge_geometry (ts_popup (st_state s)) g\<rparr>
      in save_state (ts_popup t) t s)"

definition setMinimized :: "bool \<Rightarrow> terminal_store \<Rightarrow> terminal_store" where
  "setMinimized v s =
     (let t = (st_state s)\<lparr>ts_minimized := v\<rparr>;
          t = (if \<not> v then t\<lparr>ts_maximized := False\<rparr> else t)
      in save_state ((ts_popup t)\<lparr>g_minimized := v, g_maximized := ts_maximized t\<rparr>) t s)"

definition setMaximized :: "bool \<Rightarrow> terminal_store \<Rightarrow> terminal_store" where
  "setMaximized v s =
     (let t = (st_state s)\<lparr>ts_maximized := v\<rparr>
      in save_state ((ts_popup t)\<lparr>g_maximized := v\<rparr>) t s)"

text \<open>A listing request with its outcome; a failed one is silent.\<close>

definition refreshSessions :: "js_error + terminal_session list \<Rightarrow> terminal_store \<Rightarrow> terminal_store" where
  "refreshSessions outcome s =
     (let s = s\<lparr>st_requests := st_requests s @ [ReqList]\<rparr> in
      case outcome of
        Inr ss \<Rightarrow> map_state (\<lambda>t. t\<lparr>ts_sessions := ss\<rparr>) s
      | Inl e \<Rightarrow> s)"

text \<open>\<open>openTerminal\<close> in the two halves around its \<open>await\<close>: the id it asks for, then what the
  listing makes of it.\<close>

definition open_id :: "string option \<Rightarrow> terminal_store \<Rightarrow> string option" where
  "open_id sid s = nullish_opt sid (ps_session (st_ref s))"

definition open_known :: "string option \<Rightarrow> js_error + terminal_session list \<Rightarrow> string option" where
  "open_known i outcome =
     (if truthy_str i then
        (case outcome of
           Inr ss \<Rightarrow> (if List.find (\<lambda>x. tse_id x = the i) ss = None then None else i)
         | Inl e \<Rightarrow> None)
      else i)"

definition openTerminal :: "string option \<Rightarrow> js_error + terminal_session list \<Rightarrow> terminal_store \<Rightarrow> terminal_store" where
  "openTerminal sid outcome s =
     (let i = open_id sid s;
          s = (if truthy_str i then s\<lparr>st_requests := st_requests s @ [ReqList]\<rparr> else s);
          i = open_known i outcome;
          s = map_state (\<lambda>t. t\<lparr>ts_open := True, ts_minimized := False, ts_session := i,
                 ts_connection := Connecting, ts_lastError := None\<rparr>) s
      in if \<not> truthy_str i then persist_session (Some []) s else persist_session i s)"

definition closeTerminal :: "terminal_store \<Rightarrow> terminal_store" where
  "closeTerminal s = map_state (\<lambda>t. t\<lparr>ts_open := False, ts_connection := Idle\<rparr>) s"

definition toggleTerminal :: "string option \<Rightarrow> js_error + terminal_session list \<Rightarrow> terminal_store \<Rightarrow> terminal_store" where
  "toggleTerminal sid outcome s =
     (if ts_open (st_state s) then closeTerminal s else openTerminal sid outcome s)"

section \<open>The window\<close>

definition clamp :: "int \<Rightarrow> int \<Rightarrow> int \<Rightarrow> int" where
  "clamp n lo hi = max lo (min hi n)"

text \<open>The direction of a drag: none for the title bar, or the edges of a resize handle.\<close>

record drag =
  d_x :: int
  d_y :: int
  d_startX :: int
  d_startY :: int
  d_startW :: int
  d_startH :: int
  d_dir :: "string option"

definition RESIZE_DIRS :: "string list" where
  "RESIZE_DIRS = [''n'', ''s'', ''e'', ''w'', ''ne'', ''nw'', ''se'', ''sw'']"

definition drag_start :: "int \<Rightarrow> int \<Rightarrow> string option \<Rightarrow> terminal_store \<Rightarrow> drag option" where
  "drag_start clientX clientY dir s =
     (if ts_maximized (st_state s) then None
      else (let p = ts_popup (st_state s) in
        Some \<lparr>d_x = clientX, d_y = clientY, d_startX = g_x p, d_startY = g_y p, d_startW = g_w p,
              d_startH = g_h p, d_dir = dir\<rparr>))"

definition move_geometry :: "int \<Rightarrow> int \<Rightarrow> int \<Rightarrow> int \<Rightarrow> drag \<Rightarrow> partial_geometry" where
  "move_geometry innerWidth innerHeight clientX clientY d =
     (let dx = clientX - d_x d; dy = clientY - d_y d in
      case d_dir d of
        None \<Rightarrow> \<lparr>pg_x = Some (clamp (d_startX d + dx) 0 (innerWidth - 120)),
                 pg_y = Some (clamp (d_startY d + dy) 0 (innerHeight - 40)),
                 pg_w = None, pg_h = None, pg_maximized = None, pg_minimized = None\<rparr>
      | Some dir \<Rightarrow>
          (let x = d_startX d; y = d_startY d; w = d_startW d; h = d_startH d;
               w = (if has_sub dir ''e'' then max 320 (d_startW d + dx) else w);
               h = (if has_sub dir ''s'' then max 200 (d_startH d + dy) else h);
               (x, w) = (if has_sub dir ''w''
                  then (let newW = max 320 (d_startW d - dx) in (d_startX d + (d_startW d - newW), newW))
                  else (x, w));
               (y, h) = (if has_sub dir ''n''
                  then (let newH = max 200 (d_startH d - dy) in (d_startY d + (d_startH d - newH), newH))
                  else (y, h))
           in \<lparr>pg_x = Some x, pg_y = Some y, pg_w = Some w, pg_h = Some h,
               pg_maximized = None, pg_minimized = None\<rparr>))"

definition onPointerMove :: "int \<Rightarrow> int \<Rightarrow> int \<Rightarrow> int \<Rightarrow> drag option \<Rightarrow> terminal_store \<Rightarrow> terminal_store" where
  "onPointerMove iw ih cx cy d s =
     (case d of None \<Rightarrow> s | Some o' \<Rightarrow> setGeometry (move_geometry iw ih cx cy o') s)"

text \<open>Escape minimizes first, then closes; the kill button asks the server only for a session it
  knows.\<close>

definition onEscape :: "terminal_store \<Rightarrow> terminal_store" where
  "onEscape s =
     (if \<not> ts_open (st_state s) then s
      else if ts_minimized (st_state s) then closeTerminal s else setMinimized True s)"

definition onKill :: "terminal_store \<Rightarrow> terminal_store" where
  "onKill s =
     (let sid = ts_session (st_state s);
          s = (if truthy_str sid then s\<lparr>st_requests := st_requests s @ [ReqKill (the sid)]\<rparr> else s)
      in setSession [] (closeTerminal s))"

definition window_status :: "connection_state option \<Rightarrow> terminal_state \<Rightarrow> connection_state" where
  "window_status override t =
     nullish override (if ts_connection t \<in> {Connected, Reconnecting, ConnError, Connecting}
       then ts_connection t else Idle)"

text \<open>The session the pane is given, and so the client: \<open>store.activeSessionId ?? undefined\<close>.\<close>

definition pane_session :: "terminal_store \<Rightarrow> string option" where
  "pane_session s = ts_session (st_state s)"

text \<open>The pane forwards the client's callbacks to the store.\<close>

fun pane_callback :: "effect \<Rightarrow> terminal_store \<Rightarrow> terminal_store" where
  "pane_callback (OnRole r) s = setRole r s"
| "pane_callback (OnConnectionChange c) s = setConnection c s"
| "pane_callback (OnError m) s = setLastError (Some m) s"
| "pane_callback _ s = s"

text \<open>Input is enabled exactly for the writer.\<close>

fun pane_stdin :: "effect \<Rightarrow> bool \<Rightarrow> bool" where
  "pane_stdin (OnRole r) d = (r \<noteq> Writer)"
| "pane_stdin _ d = d"

text \<open>Everything the user interface does with the store: the top bar's button, the window, and the
  pane's callbacks.\<close>

datatype ui_event = UiToggle "js_error + terminal_session list" | UiEscape | UiMinimize | UiMaximize
  | UiKill | UiClose | UiMove int int int int "drag option" | UiClient effect

fun ui_step :: "ui_event \<Rightarrow> terminal_store \<Rightarrow> terminal_store" where
  "ui_step (UiToggle outcome) s = toggleTerminal None outcome s"
| "ui_step UiEscape s = onEscape s"
| "ui_step UiMinimize s = setMinimized True s"
| "ui_step UiMaximize s = setMaximized (\<not> ts_maximized (st_state s)) s"
| "ui_step UiKill s = onKill s"
| "ui_step UiClose s = closeTerminal s"
| "ui_step (UiMove iw ih cx cy d) s = onPointerMove iw ih cx cy d s"
| "ui_step (UiClient e) s = pane_callback e s"

definition ui_run :: "ui_event list \<Rightarrow> terminal_store \<Rightarrow> terminal_store" where
  "ui_run es s = foldl (\<lambda>s e. ui_step e s) s es"

section \<open>Lemmas\<close>

lemma merge_full [simp]: "merge_geometry g (full_geometry h) = h"
  by (simp add: merge_geometry_def full_geometry_def)

lemma load_save [simp]: "raw \<noteq> StThrows \<Longrightarrow> loadPersisted (savePersisted p raw) = p"
  by (cases raw) (simp_all add: savePersisted_def loadPersisted_def)

lemma save_throws [simp]: "savePersisted p raw = StThrows \<longleftrightarrow> raw = StThrows"
  by (cases raw) (simp_all add: savePersisted_def)

lemma load_save_session:
  "\<not> truthy_str (ps_session p) \<Longrightarrow> \<not> truthy_str (ps_session (loadPersisted (savePersisted p raw)))"
  by (cases raw) (simp_all add: savePersisted_def loadPersisted_def defaultPersisted_def)

lemmas store_ops = map_state_def setRole_def setConnection_def setLastError_def closeTerminal_def
  save_state_def setGeometry_def setMinimized_def setMaximized_def Let_def

text \<open>A store that knows no session: neither in its state, nor in the ref, nor in the storage.\<close>

definition sessionless :: "terminal_store \<Rightarrow> bool" where
  "sessionless s \<longleftrightarrow> \<not> truthy_str (ts_session (st_state s)) \<and> \<not> truthy_str (ps_session (st_ref s))
     \<and> \<not> truthy_str (ps_session (loadPersisted (st_storage s))) \<and> st_requests s = []"

lemma sessionless_local:
  "sessionless s \<Longrightarrow> sessionless (setRole r s)"
  "sessionless s \<Longrightarrow> sessionless (setConnection c s)"
  "sessionless s \<Longrightarrow> sessionless (setLastError m s)"
  "sessionless s \<Longrightarrow> sessionless (closeTerminal s)"
  by (simp_all add: sessionless_def store_ops)

lemma sessionless_saved:
  "sessionless s \<Longrightarrow> sessionless (setGeometry g s)"
  "sessionless s \<Longrightarrow> sessionless (setMinimized v s)"
  "sessionless s \<Longrightarrow> sessionless (setMaximized v s)"
  by (simp_all add: sessionless_def store_ops load_save_session)

lemma sessionless_setSession: "sessionless s \<Longrightarrow> sessionless (setSession [] s)"
  by (simp add: sessionless_def setSession_def persist_session_def Let_def load_save_session)

lemma sessionless_open: "sessionless s \<Longrightarrow> sessionless (openTerminal None outcome s)"
proof -
  assume s: "sessionless s"
  then have i: "\<not> truthy_str (open_id None s)" by (simp add: sessionless_def open_id_def nullish_opt_def)
  then have k: "open_known (open_id None s) outcome = open_id None s" by (simp add: open_known_def)
  show ?thesis using s i
    by (simp add: openTerminal_def k Let_def persist_session_def map_state_def sessionless_def load_save_session)
qed

lemma sessionless_step: "sessionless s \<Longrightarrow> sessionless (ui_step e s)"
proof (cases e)
  case UiKill
  assume s: "sessionless s"
  then have "onKill s = setSession [] (closeTerminal s)" by (simp add: onKill_def sessionless_def Let_def)
  with s UiKill show ?thesis by (simp add: sessionless_local sessionless_setSession)
next
  case (UiClient c)
  assume "sessionless s"
  with UiClient show ?thesis by (cases c) (simp_all add: sessionless_local)
qed (auto simp: toggleTerminal_def onEscape_def onPointerMove_def sessionless_local sessionless_saved
    sessionless_open split: option.splits)

interpretation sessionless: machine_invariant "\<lambda>e s. True" ui_step sessionless
  by unfold_locales (rule sessionless_step)

lemma sessionless_run: "sessionless s \<Longrightarrow> sessionless (ui_run es s)"
  unfolding ui_run_def by (rule sessionless.foldl_preserves [OF TrueI])

section \<open>Properties\<close>

text \<open>
  C38.  The terminal's session is never resumed and never killed: the interface stores no session id
  but the empty one, so starting from a storage without a session, after any use of the window and any
  callbacks of the client, the pane still connects without a session, nothing but the empty id is
  persisted, and not one request has been sent, neither the listing that validates a session to resume
  nor the kill.
\<close>

theorem terminal_never_resumed:
  assumes "\<not> truthy_str (ps_session (loadPersisted raw))"
  shows "\<not> truthy_str (pane_session (ui_run es (hydrate (terminal_provider raw))))
     \<and> \<not> truthy_str (ps_session (loadPersisted (st_storage (ui_run es (hydrate (terminal_provider raw))))))
     \<and> st_requests (ui_run es (hydrate (terminal_provider raw))) = []"
proof -
  have "sessionless (hydrate (terminal_provider raw))"
    using assms by (simp add: sessionless_def hydrate_def terminal_provider_def map_state_def Let_def)
  from sessionless_run [OF this] show ?thesis by (simp add: sessionless_def pane_session_def)
qed

theorem terminal_never_resumed_witness:
  "st_requests (ui_run [UiToggle (Inr []), UiClient (OnRole Writer), UiToggle (Inr []), UiToggle (Inr []), UiKill]
     (hydrate (terminal_provider StNone))) = []"
  using terminal_never_resumed [of StNone] by (simp add: loadPersisted_def defaultPersisted_def)

text \<open>
  C33.  Resizing keeps the window usable: its size stays at least 320 by 200 whatever the pointer does,
  the edges that are not dragged stay where they were, and a move by the title bar keeps the corner
  between the origin and the far edge of the viewport.
\<close>

theorem drag_bounds:
  assumes "d_dir d = Some dir" "dir \<in> set RESIZE_DIRS" "320 \<le> d_startW d" "200 \<le> d_startH d"
    and g: "g' = merge_geometry g (move_geometry iw ih cx cy d)"
    and m: "m' = merge_geometry g (move_geometry iw ih cx cy (d\<lparr>d_dir := None\<rparr>))"
  shows "320 \<le> g_w g' \<and> 200 \<le> g_h g'
     \<and> (CHR ''w'' \<notin> set dir \<longrightarrow> g_x g' = d_startX d)
     \<and> (CHR ''e'' \<notin> set dir \<longrightarrow> g_x g' + g_w g' = d_startX d + d_startW d)
     \<and> (CHR ''n'' \<notin> set dir \<longrightarrow> g_y g' = d_startY d)
     \<and> (CHR ''s'' \<notin> set dir \<longrightarrow> g_y g' + g_h g' = d_startY d + d_startH d)
     \<and> g_maximized g' = g_maximized g
     \<and> 0 \<le> g_x m' \<and> g_x m' \<le> max 0 (iw - 120) \<and> 0 \<le> g_y m' \<and> g_y m' \<le> max 0 (ih - 40)
     \<and> g_w m' = g_w g \<and> g_h m' = g_h g"
proof -
  from assms(2) consider "dir = ''n''" | "dir = ''s''" | "dir = ''e''" | "dir = ''w''"
    | "dir = ''ne''" | "dir = ''nw''" | "dir = ''se''" | "dir = ''sw''"
    by (auto simp: RESIZE_DIRS_def)
  then have resize: "320 \<le> g_w g' \<and> 200 \<le> g_h g'
     \<and> (CHR ''w'' \<notin> set dir \<longrightarrow> g_x g' = d_startX d)
     \<and> (CHR ''e'' \<notin> set dir \<longrightarrow> g_x g' + g_w g' = d_startX d + d_startW d)
     \<and> (CHR ''n'' \<notin> set dir \<longrightarrow> g_y g' = d_startY d)
     \<and> (CHR ''s'' \<notin> set dir \<longrightarrow> g_y g' + g_h g' = d_startY d + d_startH d)
     \<and> g_maximized g' = g_maximized g"
    by cases (simp_all add: g assms(1,3,4) move_geometry_def merge_geometry_def Let_def)
  have "0 \<le> g_x m' \<and> g_x m' \<le> max 0 (iw - 120) \<and> 0 \<le> g_y m' \<and> g_y m' \<le> max 0 (ih - 40)
     \<and> g_w m' = g_w g \<and> g_h m' = g_h g"
    by (auto simp: m move_geometry_def merge_geometry_def clamp_def Let_def)
  with resize show ?thesis by blast
qed

theorem drag_bounds_witness:
  "g_w (merge_geometry DEFAULT_GEOMETRY (move_geometry 1000 800 900 100
     \<lparr>d_x = 80, d_y = 100, d_startX = 80, d_startY = 80, d_startW = 720, d_startH = 420, d_dir = Some ''w''\<rparr>)) = 320"
proof -
  let ?d = "\<lparr>d_x = 80, d_y = 100, d_startX = 80, d_startY = 80, d_startW = 720, d_startH = 420, d_dir = Some ''w''\<rparr>"
  have "320 \<le> g_w (merge_geometry DEFAULT_GEOMETRY (move_geometry 1000 800 900 100 ?d))"
    using drag_bounds [of ?d "''w''" "merge_geometry DEFAULT_GEOMETRY (move_geometry 1000 800 900 100 ?d)"
        DEFAULT_GEOMETRY 1000 800 900 100 _, OF _ _ _ _ refl refl]
    by (simp add: RESIZE_DIRS_def)
  then show ?thesis by (simp add: move_geometry_def merge_geometry_def Let_def)
qed

text \<open>
  The geometry that is persisted is what a reload restores, and every drag is persisted at once;
  but the maximize button writes its flag past the state, so that a window restored from a maximized
  one is persisted as maximized again by the next opening.
\<close>

theorem maximize_flag_reverts:
  assumes "st_storage s \<noteq> StThrows" "g_maximized (ts_popup (st_state s))"
  shows "(let s1 = setMaximized False s; s2 = openTerminal sid outcome s1 in
        \<not> g_maximized (ts_popup (st_state (hydrate s1)))
      \<and> \<not> ts_maximized (st_state s2) \<and> ts_maximized (st_state (hydrate s2)))
     \<and> ts_popup (st_state (hydrate (setGeometry g s))) = merge_geometry (ts_popup (st_state s)) g"
  using assms
  by (auto simp: Let_def setMaximized_def save_state_def openTerminal_def persist_session_def
      hydrate_def map_state_def setGeometry_def)

theorem maximize_flag_reverts_witness:
  "ts_maximized (st_state (hydrate (openTerminal None (Inr []) (setMaximized False
     (hydrate (terminal_provider (StItem (Some 1) (Some (full_geometry (DEFAULT_GEOMETRY\<lparr>g_maximized := True\<rparr>))) None)))))))"
proof -
  let ?s = "hydrate (terminal_provider (StItem (Some 1) (Some (full_geometry (DEFAULT_GEOMETRY\<lparr>g_maximized := True\<rparr>))) None))"
  have "st_storage ?s \<noteq> StThrows" "g_maximized (ts_popup (st_state ?s))"
    by (simp_all add: hydrate_def terminal_provider_def map_state_def loadPersisted_def STORAGE_VERSION_def Let_def)
  from maximize_flag_reverts [OF this, of None "Inr []"] show ?thesis by (simp add: Let_def)
qed

end
