(* ===== verification/Router.thy ===== *)
theory Router
  imports Api_Client
begin

text \<open>
  The hash router \<open>web/src/lib/router.ts\<close>.  The location's hash is the only state: \<open>navigate\<close>
  writes it, \<open>parseHash\<close> reads it.  \<open>set_hash\<close> is the browser's setter, which percent-encodes
  the fragment.  The parameters of a route are an object, an association list without
  repeated keys; what matters of it is its \<open>map_of\<close>.
\<close>

section \<open>The location's hash\<close>

text \<open>The browser drops one leading \<open>#\<close>, tabs and line ends, and percent-encodes the controls,
  the space, the characters \<open>" < > `\<close> and everything beyond ASCII; an empty fragment reads as
  the empty string.\<close>

definition fragment_char :: "char \<Rightarrow> string" where
  "fragment_char c =
     (if code c \<in> {9, 10, 13} then []
      else if code c \<le> 32 \<or> 127 \<le> code c \<or> code c \<in> {34, 60, 62, 96} then percent_char c
      else [c])"

definition set_hash :: "string \<Rightarrow> string" where
  "set_hash s =
     (let f = concat (map fragment_char (if starts_with s ''#'' then tl s else s))
      in if f = [] then [] else CHR ''#'' # f)"

section \<open>Routes\<close>

record route =
  rt_path :: string
  rt_params :: "(string \<times> string) list"

definition object_of :: "params \<Rightarrow> (string \<times> string) list" where
  "object_of ps = foldl (\<lambda>m (k, v). al_put k v m) [] ps"

definition parseHash :: "string \<Rightarrow> route" where
  "parseHash hash =
     (let raw = or_str (if starts_with hash ''#'' then tl hash else hash) ''/dashboard'';
          parts = split_on (CHR ''?'') raw;
          path = hd parts;
          queryStr = (case tl parts of [] \<Rightarrow> None | q # qs \<Rightarrow> Some q)
      in \<lparr>rt_path = or_str path ''/dashboard'',
          rt_params = (if truthy_str queryStr then object_of (params_parse (the queryStr)) else [])\<rparr>)"

text \<open>The parameters \<open>navigate\<close> keeps: those that are neither missing nor the empty string.\<close>

fun kept_params :: "(string \<times> query_value) list \<Rightarrow> params" where
  "kept_params [] = []"
| "kept_params ((k, v) # ps) =
     (case query_text v of
        None \<Rightarrow> kept_params ps
      | Some s \<Rightarrow> if s = [] then kept_params ps else params_append k s [] @ kept_params ps)"

definition navigate :: "string \<Rightarrow> (string \<times> query_value) list option \<Rightarrow> string" where
  "navigate path params =
     (let hash = (case params of
            None \<Rightarrow> path
          | Some ps \<Rightarrow> (let s = params_string (kept_params ps)
              in if s \<noteq> [] then path @ ''?'' @ s else path))
      in set_hash hash)"

text \<open>\<open>useRoute\<close>: the route is state, set again on every \<open>hashchange\<close> while mounted.\<close>

fun useRoute :: "string \<Rightarrow> string list \<Rightarrow> route" where
  "useRoute hash [] = parseHash hash"
| "useRoute hash (h # hs) = useRoute h hs"

section \<open>Lemmas\<close>

lemma foldl_al_put_fresh:
  assumes "distinct (map fst ps)" and "fst ` set m \<inter> fst ` set ps = {}"
  shows "foldl (\<lambda>m (k, v). al_put k v m) m ps = m @ ps"
  using assms
proof (induction ps arbitrary: m)
  case (Cons p ps)
  obtain k v where p: "p = (k, v)" by (cases p)
  have k: "k \<notin> fst ` set m" using Cons.prems(2) p by auto
  have "al_put k v m = m @ [(k, v)]"
    using k by (induction m) (auto simp: image_iff)
  moreover have "fst ` set (m @ [(k, v)]) \<inter> fst ` set ps = {}"
    using Cons.prems p by auto
  ultimately show ?case using Cons.IH [of "m @ [(k, v)]"] Cons.prems(1) p by simp
qed simp

lemma object_of_distinct: "distinct (map fst ps) \<Longrightarrow> object_of ps = ps"
  by (simp add: object_of_def foldl_al_put_fresh)

lemma map_of_object_of: "map_of (object_of ps) = map_of (rev ps)"
proof -
  have "map_of (foldl (\<lambda>m (k, v). al_put k v m) m ps) = map_of m ++ map_of (rev ps)" for m
    by (induction ps arbitrary: m) (auto simp: map_add_def fun_eq_iff split: option.splits)
  from this [of "[]"] show ?thesis by (simp add: object_of_def)
qed

lemma set_kept_params:
  "set (kept_params ps) = {(k, s) | k s v. (k, v) \<in> set ps \<and> query_text v = Some s \<and> s \<noteq> []}"
  by (induction ps rule: kept_params.induct) (auto simp: params_append_def split: option.splits)

lemma fst_kept_params: "fst ` set (kept_params ps) \<subseteq> fst ` set ps"
  by (force simp: set_kept_params)

lemma distinct_kept_params: "distinct (map fst ps) \<Longrightarrow> distinct (map fst (kept_params ps))"
proof (induction ps rule: kept_params.induct)
  case (2 k v ps)
  then show ?case using fst_kept_params [of ps] by (auto simp: params_append_def split: option.splits)
qed simp

definition fragment_plain :: "string \<Rightarrow> bool" where
  "fragment_plain s = list_all (\<lambda>c. fragment_char c = [c]) s"

lemma fragment_plain_append: "fragment_plain (s @ t) \<longleftrightarrow> fragment_plain s \<and> fragment_plain t"
  by (simp add: fragment_plain_def)

lemma fragment_plain_Cons:
  "fragment_plain (c # s) \<longleftrightarrow> fragment_char c = [c] \<and> fragment_plain s"
  by (simp add: fragment_plain_def)

lemma concat_fragment_plain: "fragment_plain s \<Longrightarrow> concat (map fragment_char s) = s"
  by (induction s) (simp_all add: fragment_plain_def)

lemma fragment_char_plain:
  "32 < code c \<Longrightarrow> code c < 127 \<Longrightarrow> code c \<notin> {34, 60, 62, 96} \<Longrightarrow> fragment_char c = [c]"
  by (simp add: fragment_char_def)

lemma alnum_plain: "is_alnum c \<Longrightarrow> fragment_char c = [c]"
  by (rule fragment_char_plain) (auto simp: is_alnum_def char_class_defs)

lemma percent_char_fragment: "fragment_plain (percent_char c)"
proof -
  have "fragment_char (hex_digit d) = [hex_digit d]" if "d < 16" for d
    using that by (intro alnum_plain hex_digit_alnum)
  moreover have "fragment_char (CHR ''%'') = ''%''" by (rule fragment_char_plain) auto
  ultimately show ?thesis using code_high [of c] by (simp add: percent_char_def fragment_plain_def)
qed

lemma form_encode_fragment: "fragment_plain (form_encode s)"
proof -
  have "fragment_plain (form_char c)" for c
  proof (cases "form_safe c")
    case True
    then have "fragment_char c = [c]"
      by (auto simp: form_safe_def alnum_plain intro: fragment_char_plain)
    then show ?thesis using True by (simp add: form_char_def fragment_plain_def)
  next
    case False
    have "fragment_char (CHR ''+'') = ''+''" by (rule fragment_char_plain) auto
    then show ?thesis using False percent_char_fragment [of c]
      by (auto simp: form_char_def fragment_plain_def)
  qed
  then show ?thesis by (induction s) (auto simp: form_encode_def fragment_plain_append,
      simp add: fragment_plain_def)
qed

lemma params_string_fragment: "fragment_plain (params_string ps)"
proof (induction ps)
  case (Cons p ps)
  obtain k v where p: "p = (k, v)" by (cases p)
  have c: "fragment_char (CHR ''='') = ''=''" "fragment_char (CHR ''&'') = ''&''"
    by (rule fragment_char_plain; simp)+
  show ?case using Cons c p form_encode_fragment [of k] form_encode_fragment [of v]
    by (cases ps) (simp_all add: params_string_def fragment_plain_append fragment_plain_Cons)
qed (simp add: params_string_def fragment_plain_def)

text \<open>The first piece of a text split at a separator.\<close>

lemma split_on_two: "c \<notin> set s \<Longrightarrow> c \<notin> set t \<Longrightarrow> split_on c (s @ c # t) = [s, t]"
  by (simp add: split_on_append split_on_id)

lemma params_string_no_qmark: "CHR ''?'' \<notin> set (params_string ps)"
  using params_string_no_special [of "CHR ''?''" ps] by auto

lemma set_hash_plain:
  assumes "fragment_plain s" "s \<noteq> []" "hd s \<noteq> CHR ''#''"
  shows "set_hash s = CHR ''#'' # s"
proof -
  from assms obtain c u where "s = c # u" "c \<noteq> CHR ''#''" by (cases s) auto
  then have "\<not> starts_with s ''#''" by simp
  then show ?thesis using assms(2) concat_fragment_plain [OF assms(1)]
    by (simp only: set_hash_def Let_def if_False)
qed

lemma parseHash_no_query:
  "p \<noteq> [] \<Longrightarrow> CHR ''?'' \<notin> set p \<Longrightarrow> parseHash (CHR ''#'' # p) = \<lparr>rt_path = p, rt_params = []\<rparr>"
  by (simp add: parseHash_def or_str_def split_on_id)

lemma parseHash_query:
  "p \<noteq> [] \<Longrightarrow> CHR ''?'' \<notin> set p \<Longrightarrow> CHR ''?'' \<notin> set q \<Longrightarrow> q \<noteq> [] \<Longrightarrow>
     parseHash (CHR ''#'' # p @ CHR ''?'' # q) = \<lparr>rt_path = p, rt_params = object_of (params_parse q)\<rparr>"
  by (simp add: parseHash_def or_str_def split_on_two)

lemma navigate_roundtrip:
  assumes "path \<noteq> []" "hd path \<noteq> CHR ''#''" "CHR ''?'' \<notin> set path" "fragment_plain path"
    and "distinct (map fst ps)"
  shows "parseHash (navigate path (Some ps)) = \<lparr>rt_path = path, rt_params = kept_params ps\<rparr>"
proof (cases "kept_params ps = []")
  case True
  then have "navigate path (Some ps) = CHR ''#'' # path"
    using assms by (simp add: navigate_def params_string_def set_hash_plain)
  with True assms show ?thesis by (simp add: parseHash_no_query)
next
  case False
  let ?q = "params_string (kept_params ps)"
  have "fragment_char (CHR ''?'') = ''?''" by (rule fragment_char_plain) auto
  then have "fragment_plain (path @ CHR ''?'' # ?q)"
    using assms(4) by (simp add: fragment_plain_append fragment_plain_Cons params_string_fragment)
  then have "navigate path (Some ps) = CHR ''#'' # path @ CHR ''?'' # ?q"
    using False assms(1,2) by (simp add: navigate_def params_string_eq_Nil set_hash_plain)
  with False assms show ?thesis
    by (simp add: parseHash_query params_string_no_qmark params_string_eq_Nil params_parse_string
        object_of_distinct distinct_kept_params)
qed



end
