(* ===== verification/Panel_Meta.thy ===== *)
theory Panel_Meta
  imports Api_Types
begin

text \<open>
  The panel's metadata and its messages: \<open>web/src/lib/meta.ts\<close> (merging the metadata of the
  panel with the login metadata, the file roots) and \<open>web/src/lib/errors.ts\<close> (what the user
  reads when a call failed).
\<close>

section \<open>Merging the metadata\<close>

text \<open>\<open>{ ...defaults, ...authMeta }\<close>: every property of the login metadata, when it is there,
  replaces the default above it.  A missing optional property is not an own property, so it
  replaces nothing.\<close>

definition merge_auth :: "ui_meta option \<Rightarrow> auth_metadata option \<Rightarrow> ui_auth" where
  "merge_auth uiMeta authMeta =
     (let ua = Option.bind uiMeta um_auth;
          base = \<lparr>ua_login_hint = nullish (map_option ua_login_hint ua) [],
             ua_login_email_placeholder = None,
             ua_remember_me = nullish (map_option ua_remember_me ua) False,
             ua_basic_auth_enabled = nullish (nullish_opt (map_option am_basic_auth_enabled authMeta)
               (map_option ua_basic_auth_enabled ua)) False,
             ua_lockscreen_enabled = nullish (nullish_opt (map_option am_lockscreen_enabled authMeta)
               (map_option ua_lockscreen_enabled ua)) False,
             ua_lock_after_seconds = nullish (nullish_opt (map_option am_lock_after_seconds authMeta)
               (map_option ua_lock_after_seconds ua)) 0,
             ua_web_root = None, ua_file_roots = None\<rparr>
      in case authMeta of
           None \<Rightarrow> base
         | Some a \<Rightarrow> base\<lparr>ua_lockscreen_enabled := am_lockscreen_enabled a,
             ua_basic_auth_enabled := am_basic_auth_enabled a,
             ua_lock_after_seconds := am_lock_after_seconds a,
             ua_web_root := am_web_root a, ua_file_roots := am_file_roots a\<rparr>)"

text \<open>\<open>!xs?.length\<close>.\<close>

definition no_items :: "'a list option \<Rightarrow> bool" where
  "no_items xs \<longleftrightarrow> xs = None \<or> xs = Some []"

definition mergePanelMeta :: "ui_meta option \<Rightarrow> auth_metadata option \<Rightarrow> ui_meta option" where
  "mergePanelMeta uiMeta authMeta =
     (if uiMeta = None \<and> authMeta = None then None
      else
        (let merged = (nullish uiMeta empty_ui_meta)\<lparr>um_auth := Some (merge_auth uiMeta authMeta)\<rparr>
         in Some (
           if no_items (map_option uf_roots (um_files merged))
              \<and> \<not> no_items (Option.bind authMeta am_file_roots)
           then merged\<lparr>um_files := Some \<lparr>uf_roots = the (am_file_roots (the authMeta)),
                  uf_actions = nullish (map_option uf_actions (um_files merged)) []\<rparr>\<rparr>
           else merged)))"

definition fileRootsFromMeta :: "ui_meta option \<Rightarrow> file_root list" where
  "fileRootsFromMeta meta =
     (case meta of
        None \<Rightarrow> []
      | Some m \<Rightarrow>
          (if \<not> no_items (map_option uf_roots (um_files m)) then uf_roots (the (um_files m))
           else nullish (Option.bind (um_auth m) ua_file_roots) []))"

section \<open>Messages\<close>

definition static_path_hint :: "ui_meta option \<Rightarrow> string option" where
  "static_path_hint meta = map_option uw_static_path_hint (Option.bind meta um_websites)"

definition replace_char :: "char \<Rightarrow> char \<Rightarrow> string \<Rightarrow> string" where
  "replace_char a b s = map (\<lambda>c. if c = a then b else c) s"

definition humanizeError :: "string \<Rightarrow> ui_meta option \<Rightarrow> string" where
  "humanizeError msg meta =
     (let lower = to_lower msg in
      if has_sub lower ''web root'' \<or> has_sub lower ''path outside'' then
        (let hint = static_path_hint meta in
         if truthy_str hint
         then ''Path must be inside your websites folder. Try: '' @ the hint
         else ''Path must be inside your websites folder.'')
      else if has_sub lower ''device and dir'' then
        ''Enter both device and mount directory before saving.''
      else if has_sub lower ''invalid token'' \<and> has_sub lower ''login'' then
        ''Try action:login or use the Sign-ins quick filter instead of plain \"login\".''
      else if has_sub lower ''auth_token_expired'' \<or> has_sub lower ''auth token expired'' then
        ''GitHub or GitLab token was rejected. Set GITHUB_TOKEN on the host (Settings '' @ right_arrow
        @ '' Plugins) or install via Artifact upload.''
      else if has_sub lower ''resolve_stale'' \<or> has_sub lower ''resolve stale'' then
        ''Release changed since preview '' @ em_dash @ '' click Resolve again.''
      else if has_sub lower ''resolve_failed'' \<or> has_sub lower ''resolve failed'' then
        ''Could not find that repo, tag, or asset. Public repos need no token; for private repos set GITHUB_TOKEN on the host or use Artifact upload.''
      else if has_sub lower ''fetch_digest_mismatch'' \<or> has_sub lower ''digest mismatch'' then
        ''Downloaded file does not match the expected SHA-256.''
      else if has_sub lower ''release_integrity'' then
        ''Release asset changed since the index was published. Contact the vendor or use a new tag.''
      else if has_sub lower ''platform_unsupported'' \<or> has_sub lower ''platform unsupported'' then
        ''No build for this server OS/architecture.''
      else if has_sub lower ''build_disabled'' \<or> has_sub lower ''build disabled'' then
        ''Docker build path is disabled on this host. Set PLUGIN_BUILD_ENABLED or install a release artifact.''
      else if has_sub lower ''build_failed'' \<or> has_sub lower ''build failed'' then
        ''Plugin build failed in the Docker sandbox. Check docker, git, and repository build config.''
      else replace_char (CHR ''_'') (CHR '' '') msg)"

definition humanizeValidation :: "string option \<Rightarrow> ui_meta option \<Rightarrow> string \<times> bool" where
  "humanizeValidation reason meta =
     (if \<not> truthy_str reason then ([], False)
      else if the reason = ''Valid'' then (''Looks good '' @ em_dash @ '' you can save.'', True)
      else
        (let lower = to_lower (the reason) in
         if has_sub lower ''web root'' \<or> has_sub lower ''path outside'' then
           (let hint = static_path_hint meta in
            (if truthy_str hint
             then ''Path must be inside your websites folder. Example: '' @ the hint
             else ''Path must be inside your websites folder.'', False))
         else (humanizeError (the reason) meta, False)))"

section \<open>Lemmas\<close>

lemma mergePanelMeta_auth:
  "mergePanelMeta u a = Some m \<Longrightarrow> um_auth m = Some (merge_auth u a)"
  by (auto simp: mergePanelMeta_def Let_def split: if_splits)

lemma merge_auth_roots: "ua_file_roots (merge_auth u a) = Option.bind a am_file_roots"
  by (cases a) (simp_all add: merge_auth_def Let_def)

lemma humanizeValidation_ok: "snd (humanizeValidation reason meta) \<longleftrightarrow> reason = Some ''Valid''"
  by (cases reason) (auto simp: humanizeValidation_def Let_def)

text \<open>
  File roots survive the merge: when the panel's own metadata lists none (it was fetched
  before login), the merged metadata gives the roots of the login metadata, and roots the panel
  does list are never replaced.  The lock settings always come from the login metadata when there
  is any.
\<close>

theorem merged_roots_and_lock:
  assumes "mergePanelMeta u a = Some m"
  shows "fileRootsFromMeta (Some m) =
      (if no_items (map_option uf_roots (Option.bind u um_files))
       then nullish (Option.bind a am_file_roots) []
       else uf_roots (the (um_files (the u))))
    \<and> (\<forall>am. a = Some am \<longrightarrow>
         map_option ua_lockscreen_enabled (um_auth m) = Some (am_lockscreen_enabled am)
       \<and> map_option ua_lock_after_seconds (um_auth m) = Some (am_lock_after_seconds am))"
proof
  have files: "um_files (nullish u empty_ui_meta) = Option.bind u um_files"
    by (cases u) (simp_all add: empty_ui_meta_def)
  show "fileRootsFromMeta (Some m) =
      (if no_items (map_option uf_roots (Option.bind u um_files))
       then nullish (Option.bind a am_file_roots) [] else uf_roots (the (um_files (the u))))"
    using assms mergePanelMeta_auth [OF assms] merge_auth_roots [of u a] files
    by (cases a; cases u; auto simp: mergePanelMeta_def fileRootsFromMeta_def no_items_def Let_def
        split: if_splits option.splits)
  show "\<forall>am. a = Some am \<longrightarrow>
         map_option ua_lockscreen_enabled (um_auth m) = Some (am_lockscreen_enabled am)
       \<and> map_option ua_lock_after_seconds (um_auth m) = Some (am_lock_after_seconds am)"
    using mergePanelMeta_auth [OF assms] by (auto simp: merge_auth_def Let_def)
qed

theorem merged_roots_and_lock_witness:
  "\<exists>m. mergePanelMeta None (Some \<lparr>am_lockscreen_enabled = True, am_basic_auth_enabled = False,
       am_lock_after_seconds = 300, am_web_root = None,
       am_file_roots = Some [\<lparr>root_path = ''/www'', root_label = None\<rparr>]\<rparr>) = Some m
     \<and> fileRootsFromMeta (Some m) = [\<lparr>root_path = ''/www'', root_label = None\<rparr>]"
proof -
  let ?a = "\<lparr>am_lockscreen_enabled = True, am_basic_auth_enabled = False,
       am_lock_after_seconds = 300, am_web_root = None,
       am_file_roots = Some [\<lparr>root_path = ''/www'', root_label = None\<rparr>]\<rparr>"
  obtain m where m: "mergePanelMeta None (Some ?a) = Some m"
    by (simp add: mergePanelMeta_def Let_def)
  with merged_roots_and_lock [OF m] show ?thesis by (simp add: no_items_def)
qed

text \<open>
  A field is reported as fit to save exactly when the server answered "Valid"; a refusal
  that names the web root never leaks the server's own text, with or without metadata.
\<close>

theorem validation_text_sound:
  "(snd (humanizeValidation reason meta) \<longleftrightarrow> reason = Some ''Valid'')
   \<and> (reason = Some r \<and> has_sub (to_lower r) ''path outside'' \<longrightarrow>
        starts_with (fst (humanizeValidation reason meta)) ''Path must be inside your websites folder.''
      \<and> starts_with (humanizeError r meta) ''Path must be inside your websites folder.'')"
proof -
  have v: "\<not> has_sub (to_lower ''Valid'') ''path outside''"
    by (simp add: to_lower_def lower_char_def is_upper_def)
  have p: "starts_with (''Path must be inside your websites folder. Example: '' @ h)
        ''Path must be inside your websites folder.''"
    "starts_with (''Path must be inside your websites folder. Try: '' @ h)
        ''Path must be inside your websites folder.''" for h
    by simp_all
  show ?thesis
  proof (intro conjI impI)
    assume r: "reason = Some r \<and> has_sub (to_lower r) ''path outside''"
    then have "r \<noteq> ''Valid''" "r \<noteq> []" using v by (auto simp: to_lower_def)
    with r show "starts_with (fst (humanizeValidation reason meta)) ''Path must be inside your websites folder.''"
      using p by (simp add: humanizeValidation_def Let_def)
    from r show "starts_with (humanizeError r meta) ''Path must be inside your websites folder.''"
      using p by (simp add: humanizeError_def Let_def)
  qed (rule humanizeValidation_ok)
qed

theorem validation_text_sound_witness:
  "snd (humanizeValidation (Some ''Valid'') None)
   \<and> starts_with (humanizeError ''path outside root'' None) ''Path must be inside your websites folder.''"
proof -
  have "has_sub (to_lower ''path outside root'') ''path outside''"
    by (simp add: to_lower_def lower_char_def is_upper_def)
  then show ?thesis
    using validation_text_sound [of "Some ''Valid''" None "''Valid''"]
      validation_text_sound [of "Some ''path outside root''" None "''path outside root''"] by blast
qed

end
