(* ===== verification/Js_Regex.thy ===== *)
theory Js_Regex
  imports Js_Prelude
begin

text \<open>
  The regular expressions of the language, as far as the panel uses them: a backtracking matcher
  that lists the successes of a pattern in the order the language tries them, and \<open>exec\<close>,
  \<open>test\<close>, \<open>replace\<close> and \<open>split\<close> on top of it.  A match state is the text before the position
  (reversed), the text after it, and the groups captured so far.
\<close>

section \<open>Patterns and the matcher\<close>

datatype regex =
    Chr "char \<Rightarrow> bool"
  | Eps
  | Seq regex regex
  | Alt regex regex
  | Star regex
  | LStar regex
  | Group nat regex
  | Bol | BolM
  | Eol | EolM
  | WordB

type_synonym mstate = "string \<times> string \<times> (nat \<times> string) list"

abbreviation m_pre :: "mstate \<Rightarrow> string" where
  "m_pre st \<equiv> fst st"

abbreviation m_rest :: "mstate \<Rightarrow> string" where
  "m_rest st \<equiv> fst (snd st)"

abbreviation m_caps :: "mstate \<Rightarrow> (nat \<times> string) list" where
  "m_caps st \<equiv> snd (snd st)"

definition line_end :: "char \<Rightarrow> bool" where
  "line_end c \<longleftrightarrow> code c = 10 \<or> code c = 13"

definition word_at :: "string \<Rightarrow> bool" where
  "word_at s = (case s of [] \<Rightarrow> False | c # s' \<Rightarrow> is_word c)"

fun chr_step :: "(char \<Rightarrow> bool) \<Rightarrow> mstate \<Rightarrow> mstate list" where
  "chr_step P (pre, [], caps) = []"
| "chr_step P (pre, c # s, caps) = (if P c then [(c # pre, s, caps)] else [])"

function m_all :: "regex \<Rightarrow> mstate \<Rightarrow> mstate list" where
  "m_all (Chr P) st = chr_step P st"
| "m_all Eps st = [st]"
| "m_all (Seq a b) st = concat (map (m_all b) (m_all a st))"
| "m_all (Alt a b) st = m_all a st @ m_all b st"
| "m_all (Star a) st =
     concat (map (\<lambda>st'. m_all (Star a) st')
       (filter (\<lambda>st'. length (m_rest st') < length (m_rest st)) (m_all a st))) @ [st]"
| "m_all (LStar a) st =
     st # concat (map (\<lambda>st'. m_all (LStar a) st')
       (filter (\<lambda>st'. length (m_rest st') < length (m_rest st)) (m_all a st)))"
| "m_all (Group n a) st =
     map (\<lambda>st'. (m_pre st', m_rest st',
       al_put n (rev (take (length (m_pre st') - length (m_pre st)) (m_pre st'))) (m_caps st')))
       (m_all a st)"
| "m_all Bol st = (if m_pre st = [] then [st] else [])"
| "m_all BolM st = (if m_pre st = [] \<or> line_end (hd (m_pre st)) then [st] else [])"
| "m_all Eol st = (if m_rest st = [] then [st] else [])"
| "m_all EolM st = (if m_rest st = [] \<or> line_end (hd (m_rest st)) then [st] else [])"
| "m_all WordB st = (if word_at (m_pre st) \<noteq> word_at (m_rest st) then [st] else [])"
  by pat_completeness auto
termination
  by (relation "measures [\<lambda>(r, st). size r, \<lambda>(r, st). length (m_rest st)]") auto

declare m_all.simps(5,6) [simp del]

lemmas m_all_Star = m_all.simps(5)

lemmas m_all_LStar = m_all.simps(6)

lemma m_all_Star_Chr_simps [simp]:
  "m_all (Star (Chr P)) (pre, [], caps) = [(pre, [], caps)]"
  "m_all (Star (Chr P)) (pre, c # s, caps) =
     (if P c then m_all (Star (Chr P)) (c # pre, s, caps) else []) @ [(pre, c # s, caps)]"
  by (subst m_all_Star, simp)+

text \<open>Abbreviations for the usual constructs: literal text, classes, \<open>+\<close>, \<open>?\<close>.\<close>

definition Lit :: "string \<Rightarrow> regex" where
  "Lit s = foldr (\<lambda>c r. Seq (Chr (\<lambda>d. d = c)) r) s Eps"

definition LitI :: "string \<Rightarrow> regex" where
  "LitI s = foldr (\<lambda>c r. Seq (Chr (\<lambda>d. lower_char d = lower_char c)) r) s Eps"

definition Plus :: "regex \<Rightarrow> regex" where
  "Plus r = Seq r (Star r)"

definition Maybe :: "regex \<Rightarrow> regex" where
  "Maybe r = Alt r Eps"

fun seqs :: "regex list \<Rightarrow> regex" where
  "seqs [] = Eps"
| "seqs [r] = r"
| "seqs (r # rs) = Seq r (seqs rs)"

text \<open>\<open>.\<close>: any character but a line end.\<close>

abbreviation Dot :: regex where "Dot \<equiv> Chr (\<lambda>c. \<not> line_end c)"

abbreviation Digit :: regex where "Digit \<equiv> Chr is_digit"
abbreviation Space :: regex where "Space \<equiv> Chr is_space"

section \<open>exec, test, replace, split\<close>

definition m_first :: "regex \<Rightarrow> string \<Rightarrow> string \<Rightarrow> mstate option" where
  "m_first r pre s = (case m_all r (pre, s, []) of [] \<Rightarrow> None | st # sts \<Rightarrow> Some st)"

text \<open>The leftmost match: the position's prefix (reversed) and the final state.\<close>

fun m_search :: "regex \<Rightarrow> string \<Rightarrow> string \<Rightarrow> (string \<times> mstate) option" where
  "m_search r pre s =
     (case m_first r pre s of
        Some st \<Rightarrow> Some (pre, st)
      | None \<Rightarrow> (case s of [] \<Rightarrow> None | c # s' \<Rightarrow> m_search r (c # pre) s'))"

declare m_search.simps [simp del]

definition re_test :: "regex \<Rightarrow> string \<Rightarrow> bool" where
  "re_test r s \<longleftrightarrow> m_search r [] s \<noteq> None"

definition group_of :: "nat \<Rightarrow> mstate \<Rightarrow> string option" where
  "group_of n st = map_of (m_caps st) n"

text \<open>\<open>s.match(r)?.[n]\<close>.\<close>

definition re_group :: "regex \<Rightarrow> nat \<Rightarrow> string \<Rightarrow> string option" where
  "re_group r n s = (case m_search r [] s of None \<Rightarrow> None | Some (pre, st) \<Rightarrow> group_of n st)"

text \<open>\<open>s.replace(r, t)\<close>: the first match is replaced.\<close>

definition re_replace :: "regex \<Rightarrow> string \<Rightarrow> string \<Rightarrow> string" where
  "re_replace r t s = (case m_search r [] s of None \<Rightarrow> s | Some (pre, st) \<Rightarrow> rev pre @ t @ m_rest st)"

text \<open>With the flag \<open>g\<close> every match is replaced, left to right; after an empty match the scan
  moves one character on.\<close>

function replace_all :: "regex \<Rightarrow> string \<Rightarrow> string \<Rightarrow> string \<Rightarrow> string" where
  "replace_all r t pre s =
     (case m_first r pre s of
        None \<Rightarrow> (case s of [] \<Rightarrow> [] | c # s' \<Rightarrow> c # replace_all r t (c # pre) s')
      | Some st \<Rightarrow>
          (if length (m_rest st) < length s then t @ replace_all r t (m_pre st) (m_rest st)
           else t @ (case s of [] \<Rightarrow> [] | c # s' \<Rightarrow> c # replace_all r t (c # pre) s')))"
  by pat_completeness auto
termination by (relation "measure (\<lambda>(r, t, pre, s). length s)") auto

declare replace_all.simps [simp del]

definition re_replace_all :: "regex \<Rightarrow> string \<Rightarrow> string \<Rightarrow> string" where
  "re_replace_all r t s = replace_all r t [] s"

text \<open>\<open>s.split(r)\<close> for a pattern that matches no empty text: the pieces between the matches.\<close>

function split_all :: "regex \<Rightarrow> string \<Rightarrow> string \<Rightarrow> string \<Rightarrow> string list" where
  "split_all r acc pre s =
     (case m_first r pre s of
        Some st \<Rightarrow>
          (if length (m_rest st) < length s then rev acc # split_all r [] (m_pre st) (m_rest st)
           else (case s of [] \<Rightarrow> [rev acc] | c # s' \<Rightarrow> split_all r (c # acc) (c # pre) s'))
      | None \<Rightarrow> (case s of [] \<Rightarrow> [rev acc] | c # s' \<Rightarrow> split_all r (c # acc) (c # pre) s'))"
  by pat_completeness auto
termination by (relation "measure (\<lambda>(r, acc, pre, s). length s)") auto

declare split_all.simps [simp del]

definition re_split :: "regex \<Rightarrow> string \<Rightarrow> string list" where
  "re_split r s = split_all r [] [] s"

section \<open>What a match is\<close>

text \<open>A success moves the position forward over text it consumed.\<close>

lemma chr_step_iff: "st' \<in> set (chr_step P st) \<longleftrightarrow>
    (\<exists>c s. m_rest st = c # s \<and> P c \<and> st' = (c # m_pre st, s, m_caps st))"
  by (cases "(P, st)" rule: chr_step.cases) auto

lemma m_all_consumes:
  "st' \<in> set (m_all r st) \<Longrightarrow> \<exists>u. m_rest st = u @ m_rest st' \<and> m_pre st' = rev u @ m_pre st"
proof (induction r st arbitrary: st' rule: m_all.induct)
  case (1 P st)
  then obtain c where "m_rest st = [c] @ m_rest st' \<and> m_pre st' = rev [c] @ m_pre st"
    by (auto simp: chr_step_iff)
  then show ?case ..
next
  case (3 a b st)
  from "3.prems" obtain st1 where st1: "st1 \<in> set (m_all a st)" "st' \<in> set (m_all b st1)" by auto
  from "3.IH"(1) [OF st1(1)] "3.IH"(2) [OF st1(1) st1(2)] obtain u v
    where u: "m_rest st = u @ m_rest st1 \<and> m_pre st1 = rev u @ m_pre st"
      and v: "m_rest st1 = v @ m_rest st' \<and> m_pre st' = rev v @ m_pre st1" by blast
  then show ?case by (intro exI [of _ "u @ v"]) simp
next
  case (5 a st)
  show ?case
  proof (cases "st' = st")
    case False
    with "5.prems" obtain st1 where st1: "st1 \<in> set (m_all a st)"
      "length (m_rest st1) < length (m_rest st)" "st' \<in> set (m_all (Star a) st1)"
      by (subst (asm) m_all_Star) auto
    then have "st1 \<in> set (filter (\<lambda>st'. length (m_rest st') < length (m_rest st)) (m_all a st))" by simp
    from "5.IH"(2) [OF this st1(3)] "5.IH"(1) [OF st1(1)] obtain u v
      where u: "m_rest st = u @ m_rest st1 \<and> m_pre st1 = rev u @ m_pre st"
        and v: "m_rest st1 = v @ m_rest st' \<and> m_pre st' = rev v @ m_pre st1" by blast
    then show ?thesis by (intro exI [of _ "u @ v"]) simp
  qed simp
next
  case (6 a st)
  show ?case
  proof (cases "st' = st")
    case False
    with "6.prems" obtain st1 where st1: "st1 \<in> set (m_all a st)"
      "length (m_rest st1) < length (m_rest st)" "st' \<in> set (m_all (LStar a) st1)"
      by (subst (asm) m_all_LStar) auto
    then have "st1 \<in> set (filter (\<lambda>st'. length (m_rest st') < length (m_rest st)) (m_all a st))" by simp
    from "6.IH"(2) [OF this st1(3)] "6.IH"(1) [OF st1(1)] obtain u v
      where u: "m_rest st = u @ m_rest st1 \<and> m_pre st1 = rev u @ m_pre st"
        and v: "m_rest st1 = v @ m_rest st' \<and> m_pre st' = rev v @ m_pre st1" by blast
    then show ?thesis by (intro exI [of _ "u @ v"]) simp
  qed simp
qed (auto split: if_splits)

lemma m_first_SomeD:
  "m_first r pre s = Some st \<Longrightarrow> st \<in> set (m_all r (pre, s, []))"
  by (auto simp: m_first_def split: list.splits)

lemma m_search_SomeD:
  "m_search r pre s = Some (p, st) \<Longrightarrow>
     \<exists>u v. s = u @ v \<and> p = rev u @ pre \<and> st \<in> set (m_all r (p, v, []))"
proof (induction s arbitrary: pre)
  case Nil
  then show ?case
    by (subst (asm) m_search.simps) (auto dest: m_first_SomeD split: option.splits)
next
  case (Cons c s)
  show ?case
  proof (cases "m_first r pre (c # s)")
    case None
    with Cons.prems have "m_search r (c # pre) s = Some (p, st)" by (subst (asm) m_search.simps) simp
    from Cons.IH [OF this] obtain u v where "s = u @ v" "p = rev u @ c # pre"
      "st \<in> set (m_all r (p, v, []))" by blast
    then show ?thesis by (intro exI [of _ "c # u"] exI [of _ v]) simp
  next
    case (Some st2)
    with Cons.prems have "p = pre" "st = st2" by (subst (asm) m_search.simps; simp)+
    with m_first_SomeD [OF Some] show ?thesis by (intro exI [of _ "[]"] exI [of _ "c # s"]) simp
  qed
qed

lemma m_search_NoneI:
  "(\<And>u v. s = u @ v \<Longrightarrow> m_all r (rev u @ pre, v, []) = []) \<Longrightarrow> m_search r pre s = None"
proof (induction s arbitrary: pre)
  case Nil
  then show ?case by (subst m_search.simps) (simp add: m_first_def)
next
  case (Cons c s)
  have "m_all r (pre, c # s, []) = []" using Cons.prems [of "[]" "c # s"] by simp
  moreover have "m_search r (c # pre) s = None"
    using Cons.prems [of "c # u" v for u v] by (intro Cons.IH) simp
  ultimately show ?case by (subst m_search.simps) (simp add: m_first_def)
qed

text \<open>Plus and literal text.\<close>

lemma m_all_Lit: "m_all (Lit t) (pre, s, caps) =
    (if starts_with s t then [(rev t @ pre, drop (length t) s, caps)] else [])"
proof (induction t arbitrary: pre s)
  case Nil
  then show ?case by (simp add: Lit_def)
next
  case (Cons c t)
  have L: "Lit (c # t) = Seq (Chr (\<lambda>d. d = c)) (Lit t)" by (simp add: Lit_def)
  show ?case by (cases s) (auto simp: L Cons.IH)
qed

lemma m_all_Star_Chr: "st' \<in> set (m_all (Star (Chr P)) (pre, s, caps)) \<Longrightarrow>
    \<exists>u v. s = u @ v \<and> st' = (rev u @ pre, v, caps) \<and> (\<forall>c \<in> set u. P c)"
proof (induction s arbitrary: pre)
  case (Cons c s)
  show ?case
  proof (cases "st' = (pre, c # s, caps)")
    case False
    with Cons.prems have "P c" "st' \<in> set (m_all (Star (Chr P)) (c # pre, s, caps))"
      by (auto split: if_splits)
    with Cons.IH obtain u v where "s = u @ v" "st' = (rev u @ c # pre, v, caps)" "\<forall>c \<in> set u. P c" by blast
    with \<open>P c\<close> show ?thesis by (intro exI [of _ "c # u"] exI [of _ v]) simp
  qed simp
qed simp

lemma m_all_Plus_Chr:
  assumes "st' \<in> set (m_all (Plus (Chr P)) (pre, s, caps))"
  shows "\<exists>u v. u \<noteq> [] \<and> s = u @ v \<and> st' = (rev u @ pre, v, caps) \<and> (\<forall>c \<in> set u. P c)"
proof -
  from assms obtain c s1 where s: "s = c # s1" "P c" "st' \<in> set (m_all (Star (Chr P)) (c # pre, s1, caps))"
    by (auto simp: Plus_def chr_step_iff)
  from m_all_Star_Chr [OF s(3)] obtain u v
    where "s1 = u @ v" "st' = (rev u @ c # pre, v, caps)" "\<forall>c \<in> set u. P c" by blast
  with s show ?thesis by (intro exI [of _ "c # u"] exI [of _ v]) simp
qed

text \<open>The first success of a greedy run takes all it can.\<close>

lemma m_all_Star_Chr_ne [simp]: "m_all (Star (Chr P)) st \<noteq> []"
  by (subst m_all_Star) simp

lemma hd_m_all_Star_Chr: "hd (m_all (Star (Chr P)) (pre, s, caps)) =
    (rev (takeWhile P s) @ pre, dropWhile P s, caps)"
  by (induction s arbitrary: pre) (simp_all add: hd_append)

text \<open>Sequences, characters and captured runs, one step at a time.\<close>

lemma m_all_Seq_iff: "st \<in> set (m_all (Seq a b) s) \<longleftrightarrow> (\<exists>s1 \<in> set (m_all a s). st \<in> set (m_all b s1))"
  by simp

lemma m_all_Chr_iff: "st \<in> set (m_all (Chr P) (pre, s, caps)) \<longleftrightarrow>
    (\<exists>c t. s = c # t \<and> P c \<and> st = (c # pre, t, caps))"
  by (simp add: chr_step_iff)

lemma m_all_Group_D:
  assumes "st \<in> set (m_all (Group n r) (pre, s, caps))"
    and "\<And>st'. st' \<in> set (m_all r (pre, s, caps)) \<Longrightarrow> \<exists>u v. s = u @ v \<and> st' = (rev u @ pre, v, caps) \<and> Q u"
  shows "\<exists>u v. s = u @ v \<and> st = (rev u @ pre, v, al_put n u caps) \<and> Q u"
proof -
  from assms(1) obtain st1 where st1: "st1 \<in> set (m_all r (pre, s, caps))"
    and st: "st = (m_pre st1, m_rest st1,
      al_put n (rev (take (length (m_pre st1) - length pre) (m_pre st1))) (m_caps st1))" by auto
  from assms(2) [OF st1] st show ?thesis by auto
qed

lemma m_all_Group_Plus_Chr:
  assumes "st \<in> set (m_all (Group n (Plus (Chr P))) (pre, s, caps))"
  shows "\<exists>u v. s = u @ v \<and> st = (rev u @ pre, v, al_put n u caps) \<and> u \<noteq> []"
  using assms by (rule m_all_Group_D) (blast dest: m_all_Plus_Chr)

lemma m_all_Group_Star_Chr:
  assumes "st \<in> set (m_all (Group n (Star (Chr P))) (pre, s, caps))"
  shows "\<exists>u v. s = u @ v \<and> st = (rev u @ pre, v, al_put n u caps) \<and> True"
  using assms by (rule m_all_Group_D) (blast dest: m_all_Star_Chr)

section \<open>Anchors and letters of either case\<close>

lemma starts_with_append_iff:
  "starts_with s (t @ u) \<longleftrightarrow> starts_with s t \<and> starts_with (drop (length t) s) u"
  by (induction s t rule: starts_with.induct) auto

lemma m_all_LitI: "m_all (LitI t) (pre, s, caps) =
    (if starts_with (to_lower s) (to_lower t) then [(rev (take (length t) s) @ pre, drop (length t) s, caps)] else [])"
proof (induction t arbitrary: pre s)
  case Nil
  then show ?case by (simp add: LitI_def to_lower_def)
next
  case (Cons c t)
  have L: "LitI (c # t) = Seq (Chr (\<lambda>d. lower_char d = lower_char c)) (LitI t)" by (simp add: LitI_def)
  show ?case by (cases s) (auto simp: L Cons.IH to_lower_def)
qed

lemma m_first_Bol: "m_first (Seq Bol r) pre s = (if pre = [] then m_first r [] s else None)"
  by (simp add: m_first_def)

lemma m_search_Bol_None: "pre \<noteq> [] \<Longrightarrow> m_search (Seq Bol r) pre s = None"
  by (induction s arbitrary: pre) (subst m_search.simps, simp add: m_first_Bol)+

lemma re_test_Bol: "re_test (Seq Bol r) s \<longleftrightarrow> m_all r ([], s, []) \<noteq> []"
  unfolding re_test_def
  by (subst m_search.simps)
    (auto simp: m_first_Bol m_search_Bol_None m_first_def split: option.splits list.splits)

section \<open>Replacing runs of characters\<close>


function squash :: "(char \<Rightarrow> bool) \<Rightarrow> string \<Rightarrow> string \<Rightarrow> string" where
  "squash P t [] = []"
| "squash P t (c # s) = (if P c then t @ squash P t (dropWhile P s) else c # squash P t s)"
  by pat_completeness auto
termination
  by (relation "measure (\<lambda>(P, t, s). length s)") (auto simp: le_imp_less_Suc length_dropWhile_le)

lemma m_first_Plus_Chr: "m_first (Plus (Chr P)) pre s =
    (case s of [] \<Rightarrow> None | c # s' \<Rightarrow>
       if P c then Some (rev (takeWhile P s') @ c # pre, dropWhile P s', []) else None)"
proof (cases s)
  case (Cons c s')
  have "m_all (Star (Chr P)) st = hd (m_all (Star (Chr P)) st) # tl (m_all (Star (Chr P)) st)" for st
    by simp
  from this [of "(c # pre, s', [])"] Cons show ?thesis
    by (auto simp: m_first_def Plus_def hd_m_all_Star_Chr split: list.splits)
qed (simp add: m_first_def Plus_def)

lemma replace_all_Plus_Chr: "replace_all (Plus (Chr P)) t pre s = squash P t s"
proof (induction s arbitrary: pre rule: length_induct)
  case (1 s)
  show ?case
  proof (cases s)
    case (Cons c s')
    have "length (dropWhile P s') < length s"
      using Cons length_dropWhile_le [of P s'] by simp
    with 1 Cons show ?thesis
      by (subst replace_all.simps) (auto simp: m_first_Plus_Chr)
  qed (subst replace_all.simps, simp add: m_first_Plus_Chr)
qed

lemma squash_chars: "set (squash P t s) \<subseteq> set t \<union> {c \<in> set s. \<not> P c}"
  by (induction P t s rule: squash.induct) (auto dest: set_dropWhileD)

lemma m_all_run_Eol: "m_all (Seq (Plus (Chr P)) Eol) (pre, s, []) \<noteq> [] \<longleftrightarrow> s \<noteq> [] \<and> (\<forall>c \<in> set s. P c)"
  (is "?l \<longleftrightarrow> ?r")
proof
  assume ?l
  then obtain st where st: "st \<in> set (m_all (Seq (Plus (Chr P)) Eol) (pre, s, []))"
    by (meson list.set_sel(1))
  then obtain st1 where st1: "st1 \<in> set (m_all (Plus (Chr P)) (pre, s, []))" "st \<in> set (m_all Eol st1)"
    unfolding m_all_Seq_iff by blast
  from st1(2) have "m_rest st1 = []" by (auto split: if_splits)
  with m_all_Plus_Chr [OF st1(1)] show ?r by auto
next
  assume ?r
  then obtain c s' where s: "s = c # s'" "P c" "\<forall>c \<in> set s'. P c" by (cases s) auto
  have "hd (m_all (Star (Chr P)) (c # pre, s', [])) \<in> set (m_all (Star (Chr P)) (c # pre, s', []))" by simp
  moreover have "takeWhile P s' = s'" "dropWhile P s' = []" using s(3) by simp_all
  ultimately have "(rev s' @ c # pre, [], []) \<in> set (m_all (Plus (Chr P)) (pre, s, []))"
    using s(1,2) by (simp add: hd_m_all_Star_Chr Plus_def)
  then have "(rev s' @ c # pre, [], []) \<in> set (m_all (Seq (Plus (Chr P)) Eol) (pre, s, []))"
    unfolding m_all_Seq_iff by (rule bexI [rotated]) simp
  then show ?l by (metis empty_iff list.set(1))
qed

lemma m_first_run_Eol: "m_first (Seq (Plus (Chr P)) Eol) pre s =
    (if s \<noteq> [] \<and> (\<forall>c \<in> set s. P c) then Some (rev s @ pre, [], []) else None)"
proof (cases "m_all (Seq (Plus (Chr P)) Eol) (pre, s, [])")
  case Nil
  then have "m_first (Seq (Plus (Chr P)) Eol) pre s = None"
    unfolding m_first_def by (simp only: list.case)
  moreover from Nil have "\<not> (s \<noteq> [] \<and> (\<forall>c \<in> set s. P c))" using m_all_run_Eol [of P pre s] by simp
  ultimately show ?thesis by (simp only: if_False)
next
  case (Cons st sts)
  then have st: "st \<in> set (m_all (Seq (Plus (Chr P)) Eol) (pre, s, []))" by simp
  then obtain st1 where st1: "st1 \<in> set (m_all (Plus (Chr P)) (pre, s, []))" "st \<in> set (m_all Eol st1)"
    unfolding m_all_Seq_iff by blast
  then have "st = st1" "m_rest st1 = []" by (auto split: if_splits)
  with m_all_Plus_Chr [OF st1(1)] have "st = (rev s @ pre, [], [])" by auto
  moreover from Cons have "m_first (Seq (Plus (Chr P)) Eol) pre s = Some st"
    unfolding m_first_def by (simp only: list.case)
  moreover from Cons have "s \<noteq> [] \<and> (\<forall>c \<in> set s. P c)" using m_all_run_Eol [of P pre s] by simp
  ultimately show ?thesis by metis
qed

lemma strip_end_Cons: "strip_end P (c # s) = (if P c \<and> (\<forall>d \<in> set s. P d) then [] else c # strip_end P s)"
  by (induction s rule: rev_induct) (auto simp: strip_end_def)

lemma strip_end_ne: "s \<noteq> [] \<Longrightarrow> (\<forall>c \<in> set s. P c) \<Longrightarrow> strip_end P s \<noteq> s"
  using strip_end_eq_Nil [of P s] by metis

lemma m_search_run_Eol: "m_search (Seq (Plus (Chr P)) Eol) pre s =
    (if strip_end P s = s then None else Some (rev (strip_end P s) @ pre, (rev s @ pre, [], [])))"
proof (induction s arbitrary: pre)
  case Nil
  then show ?case by (subst m_search.simps) (simp add: m_first_run_Eol)
next
  case (Cons c s)
  show ?case
    by (subst m_search.simps) (auto simp: m_first_run_Eol Cons.IH strip_end_Cons)
qed

lemma re_replace_run_Eol: "re_replace (Seq (Plus (Chr P)) Eol) [] s = strip_end P s"
  by (simp add: re_replace_def m_search_run_Eol)

end
