(* ===== verification/Format.thy ===== *)
theory Format
  imports Js_Regex
begin

text \<open>
  The display helpers \<open>web/src/lib/format.ts\<close>.  Numbers are exact (\<open>rat\<close>); \<open>toFixed\<close> rounds
  half away from zero, \<open>Math.round\<close> half up.  A missing value is \<open>None\<close>; NaN does not occur
  in exact numbers.  Dates are milliseconds; the parser of dates, the locale's renderings and the
  clock are parameters.
\<close>

section \<open>Numbers as text\<close>

text \<open>\<open>Math.round(x)\<close> and \<open>n.toFixed(d)\<close>.\<close>

definition js_round :: "rat \<Rightarrow> int" where
  "js_round x = \<lfloor>x + 1 / 2\<rfloor>"

fun zero_pad :: "nat \<Rightarrow> string \<Rightarrow> string" where
  "zero_pad n s = replicate (n - length s) (CHR ''0'') @ s"

definition to_fixed :: "nat \<Rightarrow> rat \<Rightarrow> string" where
  "to_fixed d x =
     (let m = nat (js_round (\<bar>x\<bar> * 10 ^ d));
          sign = (if x < 0 then ''-'' else [])
      in sign @ dec_nat (m div 10 ^ d)
         @ (if d = 0 then [] else CHR ''.'' # zero_pad d (dec_nat (m mod 10 ^ d))))"

text \<open>\<open>Math.floor(Math.log(x) / Math.log(1024))\<close> of a positive number.\<close>

function log1024 :: "rat \<Rightarrow> int" where
  "log1024 x =
     (if x \<le> 0 then 0
      else if 1024 \<le> x then 1 + log1024 (x / 1024)
      else if x < 1 then log1024 (x * 1024) - 1
      else 0)"
  by pat_completeness auto
termination
proof (relation "measure (\<lambda>x. if 1 \<le> x then nat \<lceil>x\<rceil> else 2000 + nat \<lceil>1 / x\<rceil>)")
  fix x :: rat
  assume x: "\<not> x \<le> 0" "1024 \<le> x"
  have "\<lceil>x / 1024\<rceil> < \<lceil>x\<rceil>"
  proof -
    have "x / 1024 \<le> x - 1" using x by simp
    then have "\<lceil>x / 1024\<rceil> \<le> \<lceil>x - 1\<rceil>" by (rule ceiling_mono)
    then show ?thesis by simp
  qed
  with x show "(x / 1024, x) \<in> measure (\<lambda>x. if 1 \<le> x then nat \<lceil>x\<rceil> else 2000 + nat \<lceil>1 / x\<rceil>)"
    by simp
next
  fix x :: rat
  assume x: "\<not> x \<le> 0" "\<not> 1024 \<le> x" "x < 1"
  show "(x * 1024, x) \<in> measure (\<lambda>x. if 1 \<le> x then nat \<lceil>x\<rceil> else 2000 + nat \<lceil>1 / x\<rceil>)"
  proof (cases "1 \<le> x * 1024")
    case True
    have "\<lceil>x * 1024\<rceil> \<le> 1024" using x by (simp add: ceiling_le_iff)
    then have "nat \<lceil>x * 1024\<rceil> \<le> 1024" by linarith
    then have "nat \<lceil>x * 1024\<rceil> < 2000 + nat \<lceil>1 / x\<rceil>" by linarith
    with True x show ?thesis by simp
  next
    case False
    have "1 / (x * 1024) \<le> 1 / x - 1"
      using x False by (simp add: field_simps)
    then have "\<lceil>1 / (x * 1024)\<rceil> \<le> \<lceil>1 / x - 1\<rceil>" by (rule ceiling_mono)
    then have c: "\<lceil>1 / (x * 1024)\<rceil> < \<lceil>1 / x\<rceil>" by simp
    have "0 < \<lceil>1 / x\<rceil>" using x by simp
    with c False x show ?thesis by (simp add: zless_nat_conj)
  qed
qed simp

declare log1024.simps [simp del]

section \<open>Sizes, counts, rates\<close>

definition units :: "string list" where
  "units = [''B'', ''KB'', ''MB'', ''GB'', ''TB'', ''PB'']"

text \<open>\<open>units[i]\<close> in a template: an index out of range reads \<open>undefined\<close>.\<close>

definition unit_at :: "int \<Rightarrow> string" where
  "unit_at i = (if 0 \<le> i \<and> nat i < length units then units ! nat i else ''undefined'')"

definition unit_index :: "rat \<Rightarrow> int" where
  "unit_index bytes = min (log1024 \<bar>bytes\<bar>) (int (length units) - 1)"

definition formatBytes :: "rat option \<Rightarrow> nat \<Rightarrow> string" where
  "formatBytes bytes digits =
     (case bytes of
        None \<Rightarrow> em_dash
      | Some b \<Rightarrow>
          (if b = 0 then ''0 B''
           else
             (let i = unit_index b;
                  v = b / 1024 powi i
              in to_fixed (if i = 0 then 0 else digits) v @ '' '' @ unit_at i)))"

definition formatKiB :: "rat option \<Rightarrow> nat \<Rightarrow> string" where
  "formatKiB kib digits =
     (case kib of None \<Rightarrow> em_dash | Some k \<Rightarrow> formatBytes (Some (k * 1024)) digits)"

text \<open>The locale's grouping of a number, \<open>n.toLocaleString()\<close>, is the parameter \<open>loc\<close>.\<close>

definition formatNumber :: "(rat \<Rightarrow> string) \<Rightarrow> rat option \<Rightarrow> string" where
  "formatNumber loc n = (case n of None \<Rightarrow> em_dash | Some x \<Rightarrow> loc x)"

definition formatRate :: "rat option \<Rightarrow> nat \<Rightarrow> string" where
  "formatRate n digits =
     (case n of
        None \<Rightarrow> em_dash
      | Some x \<Rightarrow>
          (if x = 0 then ''0''
           else if 100 \<le> \<bar>x\<bar> then to_fixed 0 x
           else if 10 \<le> \<bar>x\<bar> then to_fixed 1 x
           else to_fixed digits x))"

definition formatPercent :: "rat option \<Rightarrow> nat \<Rightarrow> string" where
  "formatPercent n digits =
     (case n of None \<Rightarrow> em_dash | Some x \<Rightarrow> to_fixed digits x @ ''%'')"

section \<open>Dates\<close>

text \<open>A date value: text, milliseconds, or missing; \<open>new Date(value)\<close> is \<open>parse\<close> on text
  (\<open>None\<close>: an invalid date).\<close>

datatype date_value = DText string | DMillis int | DMissing

fun date_falsy :: "date_value \<Rightarrow> bool" where
  "date_falsy (DText s) = (s = [])"
| "date_falsy (DMillis m) = (m = 0)"
| "date_falsy DMissing = True"

fun date_time :: "(string \<Rightarrow> int option) \<Rightarrow> date_value \<Rightarrow> int option" where
  "date_time parse (DText s) = parse s"
| "date_time parse (DMillis m) = Some m"
| "date_time parse DMissing = None"

fun date_string :: "date_value \<Rightarrow> string" where
  "date_string (DText s) = s"
| "date_string (DMillis m) = dec_int m"
| "date_string DMissing = ''undefined''"

definition formatDate :: "(string \<Rightarrow> int option) \<Rightarrow> (int \<Rightarrow> string) \<Rightarrow> date_value \<Rightarrow> string" where
  "formatDate parse loc v =
     (if date_falsy v then em_dash
      else (case date_time parse v of None \<Rightarrow> date_string v | Some t \<Rightarrow> loc t))"

definition formatAxisTime :: "(string \<Rightarrow> int option) \<Rightarrow> (int \<Rightarrow> string) \<Rightarrow> date_value \<Rightarrow> string" where
  "formatAxisTime parse loc v =
     (if date_falsy v then em_dash
      else (case date_time parse v of None \<Rightarrow> date_string v | Some t \<Rightarrow> loc t))"

definition formatRelative :: "(string \<Rightarrow> int option) \<Rightarrow> int \<Rightarrow> date_value \<Rightarrow> string" where
  "formatRelative parse now v =
     (if date_falsy v then em_dash
      else (case date_time parse v of
          None \<Rightarrow> date_string v
        | Some t \<Rightarrow>
            (let sec = js_round (of_int (now - t) / 1000);
                 minute = js_round (of_int sec / 60);
                 hr = js_round (of_int minute / 60);
                 day = js_round (of_int hr / 24)
             in if \<bar>sec\<bar> < 60 then ''just now''
                else if \<bar>minute\<bar> < 60 then dec_int minute @ ''m ago''
                else if \<bar>hr\<bar> < 24 then dec_int hr @ ''h ago''
                else dec_int day @ ''d ago'')))"

section \<open>Names, ranges, paths\<close>

text \<open>Characters are bytes here, so \<open>slice(0, 2)\<close> and \<open>[0]\<close> are the code's on ASCII names.\<close>

definition initials :: "string option \<Rightarrow> string" where
  "initials name =
     (if \<not> truthy_str name then ''?''
      else
        (let parts = re_split (Plus Space) (trim_str (the name)) in
         if length parts = 1 then to_upper (take 2 (hd parts))
         else to_upper (take 1 (hd parts) @ take 1 (last parts))))"

definition range_offsets :: "(string \<times> int) list" where
  "range_offsets = [(''1h'', 3600000), (''6h'', 21600000), (''24h'', 86400000), (''1d'', 86400000),
     (''7d'', 604800000), (''30d'', 2592000000)]"

text \<open>The backend's ranges are pairs of a token and an offset; the result is the time, whose ISO
  text the caller takes.\<close>

definition queryRangeFrom :: "int \<Rightarrow> string option \<Rightarrow> (string \<times> int option) list option \<Rightarrow> int option" where
  "queryRangeFrom now v ranges =
     (if \<not> truthy_str v \<or> v = Some ''all'' then None
      else
        (let hit = Option.bind ranges (\<lambda>rs. List.find (\<lambda>r. fst r = the v) rs) in
         case Option.bind hit snd of
           Some off \<Rightarrow>
             (if off \<noteq> 0 then Some (now - off)
              else map_option (\<lambda>ms. now - ms) (map_of range_offsets (the v)))
         | None \<Rightarrow> map_option (\<lambda>ms. now - ms) (map_of range_offsets (the v))))"

definition strip_slash :: "string \<Rightarrow> string" where
  "strip_slash s = (if starts_with s ''/'' then tl s else s)"

definition displayPath :: "string option \<Rightarrow> string option \<Rightarrow> string" where
  "displayPath webRoot path =
     (if \<not> truthy_str path then em_dash
      else if truthy_str webRoot \<and> starts_with (the path) (the webRoot)
      then or_str (strip_slash (drop (length (the webRoot)) (the path))) ''web root''
      else the path)"

definition formatDiskSectors :: "string option \<Rightarrow> string" where
  "formatDiskSectors v =
     (if \<not> truthy_str v then em_dash
      else
        (let raw = trim_str (the v);
             digits = filter is_digit raw
         in if digits = [] then raw
            else formatBytes (Some (of_nat (parse_nat digits) * 512)) 1))"

definition envLabel :: "string option \<Rightarrow> string" where
  "envLabel env =
     (if \<not> truthy_str env then ''Panel''
      else to_upper (take 1 (the env)) @ drop 1 (the env))"

section \<open>Lemmas\<close>

lemma log1024_bounds:
  assumes "0 < x"
  shows "1024 powi log1024 x \<le> x \<and> x < 1024 powi (log1024 x + 1)"
  using assms
proof (induction x rule: log1024.induct)
  case (1 x)
  consider "1024 \<le> x" | "x < 1" | "1 \<le> x" "x < 1024" by linarith
  then show ?case
  proof cases
    case 1
    with "1.prems" have e: "log1024 x = 1 + log1024 (x / 1024)" by (subst log1024.simps) simp
    have ih: "1024 powi log1024 (x / 1024) \<le> x / 1024 \<and> x / 1024 < 1024 powi (log1024 (x / 1024) + 1)"
      using "1.IH"(1) 1 "1.prems" by simp
    have "(1024 :: rat) powi (1 + log1024 (x / 1024)) = 1024 * 1024 powi log1024 (x / 1024)"
      "(1024 :: rat) powi (1 + log1024 (x / 1024) + 1) = 1024 * 1024 powi (log1024 (x / 1024) + 1)"
      by (simp_all add: power_int_add)
    with ih show ?thesis unfolding e by (simp add: field_simps)
  next
    case 2
    with "1.prems" have e: "log1024 x = log1024 (x * 1024) - 1" by (subst log1024.simps) simp
    have ih: "1024 powi log1024 (x * 1024) \<le> x * 1024 \<and> x * 1024 < 1024 powi (log1024 (x * 1024) + 1)"
      using "1.IH"(2) 2 "1.prems" by simp
    have "(1024 :: rat) powi (log1024 (x * 1024) - 1) * 1024 = 1024 powi log1024 (x * 1024)"
      "(1024 :: rat) powi (log1024 (x * 1024) - 1 + 1) * 1024 = 1024 powi (log1024 (x * 1024) + 1)"
      by (simp_all add: power_int_diff power_int_add)
    with ih show ?thesis unfolding e by (smt (verit) mult_le_cancel_right_pos mult_less_cancel_right_pos zero_less_numeral)
  next
    case 3
    then have "log1024 x = 0" by (subst log1024.simps) simp
    with 3 show ?thesis by simp
  qed
qed

lemma log1024_nonneg: "1 \<le> x \<Longrightarrow> 0 \<le> log1024 x"
proof (rule ccontr)
  assume x: "1 \<le> x" "\<not> 0 \<le> log1024 x"
  then have "x < 1024 powi (log1024 x + 1)" using log1024_bounds [of x] by simp
  also have "\<dots> \<le> 1024 powi 0" using x(2) by (intro power_int_increasing) auto
  finally show False using x(1) by simp
qed

text \<open>
  A size of at least one byte is shown in the unit that fits: the index is a real unit, the
  shown number is at least 1, and it is below 1024 unless the unit is the largest.
\<close>

theorem formatBytes_unit:
  assumes "1 \<le> \<bar>b\<bar>"
  shows "formatBytes (Some b) d = to_fixed (if unit_index b = 0 then 0 else d) (b / 1024 powi unit_index b)
           @ '' '' @ units ! nat (unit_index b)
       \<and> 0 \<le> unit_index b \<and> unit_index b \<le> 5
       \<and> 1 \<le> \<bar>b / 1024 powi unit_index b\<bar>
       \<and> (unit_index b < 5 \<longrightarrow> \<bar>b / 1024 powi unit_index b\<bar> < 1024)"
proof -
  let ?i = "unit_index b"
  have i: "0 \<le> ?i" "?i \<le> 5" "?i \<le> log1024 \<bar>b\<bar>" "?i < 5 \<longrightarrow> ?i = log1024 \<bar>b\<bar>"
    using log1024_nonneg [OF assms] by (auto simp: unit_index_def units_def)
  have lb: "1024 powi log1024 \<bar>b\<bar> \<le> \<bar>b\<bar>" "\<bar>b\<bar> < 1024 powi (log1024 \<bar>b\<bar> + 1)"
    using log1024_bounds [of "\<bar>b\<bar>"] assms by auto
  have "1024 powi ?i \<le> (1024 powi log1024 \<bar>b\<bar> :: rat)"
    using i(3) by (intro power_int_increasing) auto
  then have lo: "1024 powi ?i \<le> \<bar>b\<bar>" using lb(1) by simp
  have pos: "(0 :: rat) < 1024 powi ?i" by simp
  have abs: "\<bar>b / 1024 powi ?i\<bar> = \<bar>b\<bar> / 1024 powi ?i" using pos by (simp add: abs_divide)
  have "?i < 5 \<longrightarrow> \<bar>b\<bar> < 1024 * 1024 powi ?i"
    using i(4) lb(2) by (auto simp: power_int_add)
  then have hi: "?i < 5 \<longrightarrow> \<bar>b\<bar> / 1024 powi ?i < 1024" using pos by (simp add: divide_less_eq)
  have u: "unit_at ?i = units ! nat ?i" using i(1,2) by (simp add: unit_at_def units_def)
  have ne: "b \<noteq> 0" using assms by auto
  have "formatBytes (Some b) d = to_fixed (if ?i = 0 then 0 else d) (b / 1024 powi ?i) @ '' '' @ units ! nat ?i"
    using ne u by (simp add: formatBytes_def Let_def)
  moreover have "1 \<le> \<bar>b / 1024 powi ?i\<bar>" using abs lo pos by (simp add: le_divide_eq)
  ultimately show ?thesis using i hi abs by simp
qed

lemma dec_nat_digit: "n < 10 \<Longrightarrow> dec_nat n = [digit_char n]"
  by (simp add: dec_nat.simps)

lemma floor_31_2: "\<lfloor>31 / 2 :: rat\<rfloor> = 15"
  by (simp add: floor_eq_iff)

lemma unit_index_1536: "unit_index 1536 = 1"
  by (simp add: unit_index_def units_def log1024.simps)

theorem formatBytes_unit_witness:
  "formatBytes (Some 1536) 1 = ''1.5 KB''"
  using formatBytes_unit [of 1536 1]
  by (simp add: unit_index_1536 units_def to_fixed_def js_round_def dec_nat_digit digit_char_def char_of_eval floor_31_2 Let_def)

text \<open>
  A fraction of a byte has no unit: for every value strictly between 0 and 1 the text ends in
  "undefined".
\<close>

theorem formatBytes_fraction:
  assumes "0 < \<bar>b\<bar>" "\<bar>b\<bar> < 1"
  shows "\<exists>s. formatBytes (Some b) d = s @ '' undefined''"
proof -
  have "log1024 \<bar>b\<bar> < 0"
  proof (rule ccontr)
    assume "\<not> log1024 \<bar>b\<bar> < 0"
    then have "1024 powi 0 \<le> (1024 powi log1024 \<bar>b\<bar> :: rat)" by (intro power_int_increasing) auto
    with log1024_bounds [OF assms(1)] assms(2) show False by simp
  qed
  then have "unit_at (unit_index b) = ''undefined''" by (simp add: unit_at_def unit_index_def)
  then show ?thesis using assms(1) by (auto simp: formatBytes_def Let_def)
qed

theorem formatBytes_fraction_witness:
  "\<exists>s. formatBytes (Some (1 / 2)) 1 = s @ '' undefined''"
  by (rule formatBytes_fraction) simp_all

end
