(* ===== verification/Nginx_Lint.thy ===== *)
theory Nginx_Lint
  imports Js_Regex Panel_Meta
begin

text \<open>
  Reading the output of \<open>nginx -t\<close>: \<open>web/src/lib/nginxLint.ts\<close>, the validation results of
  \<open>web/src/lib/validation.ts\<close>, and \<open>runValidate\<close> of \<open>web/src/lib/nginxValidate.ts\<close>.
\<close>

section \<open>The line of an error\<close>

definition re_in_conf :: regex where
  "re_in_conf = seqs [Lit ''.conf:'', Group 1 (Plus Digit), WordB]"

definition re_emerg_line :: regex where
  "re_emerg_line = seqs [Lit ''[emerg]'', Star (Chr (\<lambda>c. code c \<noteq> 10)), Lit '':'', Group 1 (Plus Digit), WordB]"

definition re_trailing :: regex where
  "re_trailing = seqs [Lit '':'', Group 1 (Plus Digit), Star Space, EolM]"

definition parseNginxErrorLine :: "string \<Rightarrow> nat option" where
  "parseNginxErrorLine message =
     (case re_group re_in_conf 1 message of
        Some d \<Rightarrow> Some (parse_nat d)
      | None \<Rightarrow> (case re_group re_emerg_line 1 message of
          Some d \<Rightarrow> Some (parse_nat d)
        | None \<Rightarrow> map_option parse_nat (re_group re_trailing 1 message)))"

definition re_stamp :: regex where
  "re_stamp = seqs [Bol, Plus (Chr (\<lambda>c. is_digit c \<or> c = CHR ''/'')), Plus Space, Lit ''['',
     Plus (Chr is_word), Lit '']'', Plus Space, Plus Digit, Lit ''#'', Plus Digit, Lit '':'', Star Space]"

definition shortenNginxError :: "string \<Rightarrow> string" where
  "shortenNginxError message =
     (let lines = filter (\<lambda>l. l \<noteq> []) (map trim_str (split_on (CHR ''\<newline>'') message))
      in case List.find (\<lambda>l. has_sub l ''[emerg]'' \<or> has_sub l ''[error]'') lines of
           Some emerg \<Rightarrow> re_replace re_stamp [] emerg
         | None \<Rightarrow> (if lines = [] then message else last lines))"

section \<open>Validation results\<close>

record validation_result =
  vr_message :: string
  vr_line :: "nat option"

text \<open>What a validator returns: nothing, a message, or a result.\<close>

datatype validation_answer = VNone | VText string | VResult validation_result

definition normalizeValidationResult ::
    "validation_answer \<Rightarrow> (string \<Rightarrow> nat option) option \<Rightarrow> validation_result option" where
  "normalizeValidationResult answer fallbackLine =
     (case answer of
        VNone \<Rightarrow> None
      | VText s \<Rightarrow>
          (if s = [] then None
           else Some \<lparr>vr_message = s, vr_line = Option.bind fallbackLine (\<lambda>f. f s)\<rparr>)
      | VResult r \<Rightarrow> Some r)"

text \<open>\<open>runValidate\<close>: a refused test is a message for the user, an aborted one is thrown on.\<close>

definition runValidate :: "js_error + payload \<Rightarrow> js_error + string option" where
  "runValidate outcome =
     (case outcome of
        Inr r \<Rightarrow> Inr None
      | Inl err \<Rightarrow>
          (if err_name err = ''AbortError'' then Inl err
           else Inr (Some (humanizeError (err_message err) None))))"

section \<open>Lemmas\<close>

lemma m_all_Group: "m_all (Group n a) st = map (\<lambda>st'. (m_pre st', m_rest st',
    al_put n (rev (take (length (m_pre st') - length (m_pre st)) (m_pre st'))) (m_caps st'))) (m_all a st)"
  by simp

text \<open>The first success of a run of digits takes them all.\<close>

lemma m_all_Plus_digits:
  assumes "u \<noteq> []" "\<forall>c \<in> set u. is_digit c" "v = [] \<or> \<not> is_digit (hd v)"
  shows "\<exists>sts. m_all (Group 1 (Plus Digit)) (pre, u @ v, []) = (rev u @ pre, v, [(1, u)]) # sts"
proof -
  obtain c w where u: "u = c # w" using assms(1) by (cases u) auto
  have tw: "takeWhile is_digit (w @ v) = w" "dropWhile is_digit (w @ v) = v"
    using assms u by (cases v; simp add: takeWhile_append2 dropWhile_append2)+
  have "m_all (Star Digit) (c # pre, w @ v, []) \<noteq> []" by simp
  with hd_m_all_Star_Chr [of is_digit "c # pre" "w @ v" "[]"] tw obtain sts
    where "m_all (Star Digit) (c # pre, w @ v, []) = (rev w @ c # pre, v, []) # sts"
    by (metis list.collapse)
  then show ?thesis using assms(2) u by (simp add: Plus_def)
qed

lemma m_first_in_conf:
  assumes "u \<noteq> []" "\<forall>c \<in> set u. is_digit c" "\<not> word_at v"
  shows "m_first re_in_conf pre (''.conf:'' @ u @ v) =
    Some (rev u @ rev ''.conf:'' @ pre, v, [(1, u)])"
proof -
  have nd: "v = [] \<or> \<not> is_digit (hd v)"
    using assms(3) by (auto simp: word_at_def is_word_def split: list.splits)
  obtain sts where sts: "m_all (Group 1 (Plus Digit)) (rev ''.conf:'' @ pre, u @ v, []) =
      (rev u @ rev ''.conf:'' @ pre, v, [(1, u)]) # sts"
    using m_all_Plus_digits [OF assms(1,2) nd] by blast
  have "word_at (rev u @ t)" for t
    using assms(1,2) by (cases "rev u") (auto simp: word_at_def is_word_def)
  with assms(3) have wb: "m_all WordB (rev u @ rev ''.conf:'' @ pre, v, [(1, u)]) = [(rev u @ rev ''.conf:'' @ pre, v, [(1, u)])]"
    by simp
  have d: "drop (length ''.conf:'') (''.conf:'' @ u @ v) = u @ v" by simp
  have "m_all (Lit ''.conf:'') (pre, ''.conf:'' @ u @ v, []) = [(rev ''.conf:'' @ pre, u @ v, [])]"
    unfolding m_all_Lit using d by (simp only: starts_with_append if_True)
  then show ?thesis unfolding m_first_def re_in_conf_def seqs.simps m_all.simps(3)
    by (simp only: list.map concat.simps append_Nil2 sts wb) simp
qed

lemma m_search_skip:
  assumes "\<And>x y. a = x @ y \<Longrightarrow> y \<noteq> [] \<Longrightarrow> m_first r (rev x @ pre) (y @ s) = None"
  shows "m_search r pre (a @ s) = m_search r (rev a @ pre) s"
  using assms
proof (induction a arbitrary: pre)
  case (Cons c a)
  have "m_first r pre (c # a @ s) = None" using Cons.prems [of "[]" "c # a"] by simp
  then have "m_search r pre ((c # a) @ s) = m_search r (c # pre) (a @ s)"
    by (subst m_search.simps) simp
  also have "\<dots> = m_search r (rev a @ c # pre) s"
    using Cons.prems [of "c # x" for x] by (intro Cons.IH) simp
  finally show ?case by simp
qed simp

lemma m_first_Lit_None:
  "\<not> starts_with s t \<Longrightarrow> m_first (Seq (Lit t) r) pre s = None"
  by (simp add: m_first_def m_all_Lit)

text \<open>
  The line number of an error in a configuration file is found: in a message that names
  "<file>.conf:<n>" for the first time, followed by the end or a character that is no letter, digit or
  underscore, the result is n, whatever else the message holds.
\<close>

theorem parseNginxErrorLine_conf:
  assumes first: "\<And>x y. a @ ''.conf:'' = x @ ''.conf:'' @ y \<Longrightarrow> y = []"
    and b: "\<not> word_at b"
  shows "parseNginxErrorLine (a @ ''.conf:'' @ dec_nat n @ b) = Some n"
proof -
  let ?s = "''.conf:'' @ dec_nat n @ b"
  have "m_first re_in_conf (rev x) (y @ ?s) = None" if xy: "a = x @ y" "y \<noteq> []" for x y
  proof -
    have "\<not> starts_with (y @ ?s) ''.conf:''"
    proof
      assume "starts_with (y @ ?s) ''.conf:''"
      then obtain w where w: "y @ ?s = ''.conf:'' @ w" by (auto simp: starts_with_iff)
      have "take (length y + 6) (y @ ?s) = y @ ''.conf:''" by simp
      moreover have "take (length y + 6) (''.conf:'' @ w) = ''.conf:'' @ take (length y) w"
        by (simp add: numeral_eq_Suc)
      ultimately have "y @ ''.conf:'' = ''.conf:'' @ take (length y) w" by (metis w)
      then have t: "a @ ''.conf:'' = x @ ''.conf:'' @ take (length y) w" using xy by simp
      have "length (y @ ?s) = length (''.conf:'' @ w)" by (simp only: w)
      then have "length w = length y + length (dec_nat n @ b)" by simp
      with first [OF t] xy(2) show False by simp
    qed
    then show ?thesis unfolding re_in_conf_def seqs.simps by (rule m_first_Lit_None)
  qed
  then have "m_search re_in_conf [] (a @ ?s) = m_search re_in_conf (rev a) ?s"
    using m_search_skip [of a re_in_conf "[]" ?s] by simp
  also have "\<dots> = Some (rev a, rev (dec_nat n) @ rev ''.conf:'' @ rev a, b, [(1, dec_nat n)])"
    using m_first_in_conf [of "dec_nat n" b "rev a"] b dec_nat_digits
    by (subst m_search.simps) simp
  finally show ?thesis by (simp add: parseNginxErrorLine_def re_group_def group_of_def)
qed

theorem parseNginxErrorLine_conf_witness:
  "parseNginxErrorLine ''[emerg] 1#1: bad directive in /etc/nginx/a.conf:12'' = Some 12"
proof -
  have f: "y = []" if "''[emerg] 1#1: bad directive in /etc/nginx/a'' @ ''.conf:'' = x @ ''.conf:'' @ y" for x y
  proof (rule ccontr)
    assume "y \<noteq> []"
    then have "x @ ''.conf:'' @ butlast y = ''[emerg] 1#1: bad directive in /etc/nginx/a.conf''"
      using arg_cong [OF that, of butlast] by (simp add: butlast_append)
    then have "CHR '':'' \<in> set (drop 13 ''[emerg] 1#1: bad directive in /etc/nginx/a.conf'')
      \<or> starts_with (drop 6 ''[emerg] 1#1: bad directive in /etc/nginx/a.conf'') ''.conf:''
      \<or> has_sub ''[emerg] 1#1: bad directive in /etc/nginx/a.conf'' ''.conf:''"
      by (metis has_sub_iff)
    then show False by simp
  qed
  show ?thesis
    using parseNginxErrorLine_conf [of "''[emerg] 1#1: bad directive in /etc/nginx/a''" "[]" 12] f
    by (simp add: word_at_def dec_nat.simps digit_char_def char_of_eval)
qed

end
