(* ===== verification/Editor_Language.thy ===== *)
theory Editor_Language
  imports Js_Regex
begin

text \<open>
  Language detection of the editor, \<open>web/src/lib/editorLanguage.ts\<close>: by the kind of the entry,
  its extension, its path, and its content, in this order.
\<close>

datatype editor_language =
    LNginx | LShell | LJson | LYaml | LJavascript | LCss | LHtml | LXml | LToml
  | LDockerfile | LProperties | LText

record language_hint =
  lh_kind :: "string option"
  lh_extension :: "string option"

definition EXTENSION_LANGUAGE :: "(string \<times> editor_language) list" where
  "EXTENSION_LANGUAGE = [(''json'', LJson), (''yaml'', LYaml), (''yml'', LYaml), (''sh'', LShell),
     (''bash'', LShell), (''css'', LCss), (''js'', LJavascript), (''mjs'', LJavascript),
     (''cjs'', LJavascript), (''ts'', LJavascript), (''tsx'', LJavascript), (''jsx'', LJavascript),
     (''xml'', LXml), (''svg'', LXml), (''html'', LHtml), (''htm'', LHtml), (''xhtml'', LHtml),
     (''toml'', LToml), (''ini'', LProperties), (''cnf'', LProperties),
     (''properties'', LProperties), (''env'', LProperties)]"

definition KIND_LANGUAGE :: "(string \<times> editor_language) list" where
  "KIND_LANGUAGE = [(''json'', LJson), (''yaml'', LYaml)]"

section \<open>By path\<close>

definition fileNameFromPath :: "string \<Rightarrow> string" where
  "fileNameFromPath path = to_lower (last (split_on (CHR ''/'') path))"

definition extensionFromPath :: "string \<Rightarrow> string" where
  "extensionFromPath path =
     (let name = fileNameFromPath path in
      if name = ''dockerfile'' \<or> name = ''containerfile'' then ''dockerfile''
      else if \<not> has_sub name ''.'' then []
      else last (split_on (CHR ''.'') name))"

definition isNginxPath :: "string \<Rightarrow> string \<Rightarrow> bool" where
  "isNginxPath path ext \<longleftrightarrow>
     ext = ''conf'' \<or> has_sub (fileNameFromPath path) ''nginx'' \<or> has_sub path ''/site.d/''
     \<or> has_sub path ''/active.d/'' \<or> has_sub path ''/http.d/''"

definition languageFromExtension :: "string \<Rightarrow> editor_language option" where
  "languageFromExtension ext =
     (if ext = [] then None else map_of EXTENSION_LANGUAGE (to_lower ext))"

definition languageFromPath :: "string \<Rightarrow> editor_language" where
  "languageFromPath path =
     (let ext = extensionFromPath path in
      if ext = ''dockerfile'' then LDockerfile
      else if isNginxPath path ext then LNginx
      else nullish (languageFromExtension ext) LText)"

section \<open>By content\<close>

definition re_yaml_key :: regex where
  "re_yaml_key = seqs [BolM, Plus (Chr (\<lambda>c. is_word c \<or> c = CHR ''.'' \<or> c = CHR ''-'')), Star Space, Lit '':'']"

definition re_nginx_global :: regex where
  "re_nginx_global = seqs [BolM, Group 1 (Alt (Lit ''user'') (Alt (Lit ''worker_processes'')
     (Alt (Lit ''events'') (Lit ''http'')))), WordB]"

definition re_nginx_server :: regex where
  "re_nginx_server = seqs [BolM, Lit ''server'', Star Space, Lit ''{'']"

definition re_doctype :: regex where
  "re_doctype = seqs [Bol, LitI ''<!DOCTYPE'', Plus Space, LitI ''html'']"

definition re_html_tag :: regex where
  "re_html_tag = seqs [Bol, LitI ''<html'', Chr (\<lambda>c. is_space c \<or> c = CHR ''>'')]"

definition re_dockerfile :: regex where
  "re_dockerfile = seqs [BolM, Lit ''FROM'', Plus Space, Chr (\<lambda>c. \<not> is_space c)]"

definition languageFromContent :: "string \<Rightarrow> editor_language option" where
  "languageFromContent content =
     (let trimmed = trim_start content in
      if trimmed = [] then None
      else if starts_with trimmed ''{'' \<or> starts_with trimmed ''['' then Some LJson
      else if starts_with trimmed ''---'' \<or> re_test re_yaml_key trimmed then Some LYaml
      else if re_test re_nginx_global trimmed \<or> re_test re_nginx_server trimmed then Some LNginx
      else if re_test re_doctype trimmed \<or> re_test re_html_tag trimmed then Some LHtml
      else if starts_with trimmed ''<?xml'' then Some LXml
      else if starts_with trimmed ''<'' then Some LHtml
      else if re_test re_dockerfile trimmed then Some LDockerfile
      else None)"

section \<open>The detection\<close>

text \<open>By path, then by content.\<close>

definition by_path_or_content :: "string \<Rightarrow> string option \<Rightarrow> editor_language" where
  "by_path_or_content path content =
     (let fromPath = languageFromPath path in
      if fromPath \<noteq> LText then fromPath
      else if truthy_str content then nullish (languageFromContent (the content)) LText
      else LText)"

definition detectLanguage :: "string \<Rightarrow> language_hint option \<Rightarrow> string option \<Rightarrow> editor_language" where
  "detectLanguage path hint content =
     (let kind = map_option to_lower (Option.bind hint lh_kind);
          hintExt = map_option to_lower (Option.bind hint lh_extension)
      in case (if truthy_str kind then map_of KIND_LANGUAGE (the kind) else None) of
           Some l \<Rightarrow> l
         | None \<Rightarrow>
             (if truthy_str hintExt then
                (if the hintExt = ''dockerfile'' then LDockerfile
                 else if isNginxPath path (the hintExt) then LNginx
                 else (case languageFromExtension (the hintExt) of
                     Some l \<Rightarrow> l
                   | None \<Rightarrow> by_path_or_content path content))
              else by_path_or_content path content))"

definition languageForPath :: "string \<Rightarrow> editor_language" where
  "languageForPath path = detectLanguage path None None"

fun languageDisplayName :: "editor_language \<Rightarrow> string" where
  "languageDisplayName LHtml = ''HTML''"
| "languageDisplayName LXml = ''XML''"
| "languageDisplayName LJavascript = ''JavaScript''"
| "languageDisplayName LCss = ''CSS''"
| "languageDisplayName LJson = ''JSON''"
| "languageDisplayName LYaml = ''YAML''"
| "languageDisplayName LNginx = ''Nginx''"
| "languageDisplayName LShell = ''Shell''"
| "languageDisplayName LToml = ''TOML''"
| "languageDisplayName LDockerfile = ''Dockerfile''"
| "languageDisplayName LProperties = ''Properties''"
| "languageDisplayName LText = ''Text''"

definition displayKind :: "string \<Rightarrow> string \<Rightarrow> string option \<Rightarrow> string" where
  "displayKind path kind extension =
     (if kind \<in> {''image'', ''directory'', ''archive'', ''binary''} then kind
      else
        (let lang = detectLanguage path (Some \<lparr>lh_kind = Some kind, lh_extension = extension\<rparr>) None in
         if lang \<noteq> LText then to_lower (languageDisplayName lang) else or_str kind ''text''))"

datatype nginx_scope = ScopeDefault | ScopeGlobal

definition nginxTestScope :: "string \<Rightarrow> nginx_scope" where
  "nginxTestScope text =
     (if re_test re_nginx_global (trim_start text) then ScopeGlobal else ScopeDefault)"

definition isNginxLikePath :: "string \<Rightarrow> bool" where
  "isNginxLikePath path \<longleftrightarrow> detectLanguage path None None = LNginx"

definition isValidatableLanguage :: "editor_language \<Rightarrow> bool" where
  "isValidatableLanguage lang \<longleftrightarrow> lang = LJson \<or> lang = LYaml \<or> lang = LNginx"

fun validationLabel :: "editor_language \<Rightarrow> string" where
  "validationLabel LJson = ''JSON valid.''"
| "validationLabel LYaml = ''YAML valid.''"
| "validationLabel LNginx = ''Nginx config valid.''"
| "validationLabel lang = ''No validation for this file type.''"

section \<open>Lemmas\<close>

lemma fileNameFromPath_lower: "to_lower (fileNameFromPath p) = fileNameFromPath p"
  by (simp add: fileNameFromPath_def)

lemma last_split_append_length:
  "c \<notin> set t \<Longrightarrow> last (split_on c (s @ c # t)) = t \<and> 1 < length (split_on c (s @ c # t))"
proof (induction s)
  case (Cons d s)
  then obtain x y zs where "split_on c (s @ c # t) = x # y # zs"
    by (cases "split_on c (s @ c # t)" rule: remdups_adj.cases) auto
  with Cons show ?case by auto
qed (simp add: split_on_id)

lemma last_split_append: "c \<notin> set t \<Longrightarrow> last (split_on c (s @ c # t)) = t"
  using last_split_append_length by blast

lemma to_lower_set: "c \<in> set (to_lower s) \<Longrightarrow> \<exists>d \<in> set s. c = lower_char d"
  by (auto simp: to_lower_def)

lemma lower_char_eq_slash: "lower_char d = CHR ''/'' \<longleftrightarrow> d = CHR ''/''"
  by (auto simp: lower_char_def is_upper_def dest: arg_cong [where f = code])

lemma lower_char_eq_dot: "lower_char d = CHR ''.'' \<longleftrightarrow> d = CHR ''.''"
  by (auto simp: lower_char_def is_upper_def dest: arg_cong [where f = code])

lemma fileNameFromPath_dir: "CHR ''/'' \<notin> set t \<Longrightarrow> fileNameFromPath (s @ CHR ''/'' # t) = to_lower t"
  by (simp add: fileNameFromPath_def last_split_append)

lemma extensionFromPath_dot:
  assumes "CHR ''/'' \<notin> set n" "CHR ''/'' \<notin> set e" "CHR ''.'' \<notin> set e"
  shows "extensionFromPath (d @ CHR ''/'' # n @ CHR ''.'' # e) = to_lower e"
proof -
  have f: "fileNameFromPath (d @ CHR ''/'' # n @ CHR ''.'' # e) = to_lower n @ CHR ''.'' # to_lower e"
    using assms by (simp add: fileNameFromPath_dir to_lower_append)
      (simp add: to_lower_def lower_char_def is_upper_def)
  have dot: "CHR ''.'' \<notin> set (to_lower e)"
    using assms(3) lower_char_eq_dot by (metis to_lower_set)
  have "has_sub (to_lower n @ CHR ''.'' # to_lower e) ''.''" unfolding has_sub_iff
    by (intro exI [of _ "to_lower n"] exI [of _ "to_lower e"]) simp
  moreover have nd: "CHR ''.'' \<notin> set ''dockerfile''" "CHR ''.'' \<notin> set ''containerfile''" by simp_all
  have "CHR ''.'' \<in> set (to_lower n @ CHR ''.'' # to_lower e)" by simp
  then have "to_lower n @ CHR ''.'' # to_lower e \<noteq> ''dockerfile''"
    "to_lower n @ CHR ''.'' # to_lower e \<noteq> ''containerfile''" using nd by (rule_tac notI, simp only:)+
  ultimately show ?thesis using last_split_append [OF dot]
    by (simp add: extensionFromPath_def f Let_def)
qed

text \<open>
  The name decides before the content: with no kind and no extension from the caller, a path
  whose language is recognised keeps that language whatever the file holds, and the content is
  consulted only when the path says nothing; a kind json or yaml decides before everything.
\<close>

theorem detectLanguage_precedence:
  "(languageFromPath path \<noteq> LText \<longrightarrow> detectLanguage path None content = languageFromPath path)
   \<and> (languageFromPath path = LText \<longrightarrow>
        detectLanguage path None (Some text) =
          (if text = [] then LText else nullish (languageFromContent text) LText))
   \<and> (to_lower kind = ''json'' \<longrightarrow>
        detectLanguage path (Some \<lparr>lh_kind = Some kind, lh_extension = ext\<rparr>) content = LJson)"
  by (auto simp: detectLanguage_def by_path_or_content_def KIND_LANGUAGE_def Let_def)

theorem detectLanguage_precedence_witness:
  "detectLanguage ''/srv/a.json'' None (Some ''<html>'') = LJson"
proof -
  have "extensionFromPath ''/srv/a.json'' = ''json''"
    using extensionFromPath_dot [of "''a''" "''json''" "''/srv''"]
    by (simp add: to_lower_def lower_char_def is_upper_def)
  moreover have "fileNameFromPath ''/srv/a.json'' = ''a.json''"
    using fileNameFromPath_dir [of "''a.json''" "''/srv''"]
    by (simp add: to_lower_def lower_char_def is_upper_def)
  ultimately have "languageFromPath ''/srv/a.json'' = LJson"
    by (simp add: languageFromPath_def isNginxPath_def languageFromExtension_def
        EXTENSION_LANGUAGE_def to_lower_def lower_char_def is_upper_def Let_def)
  then show ?thesis
    using detectLanguage_precedence [of "''/srv/a.json''" "Some ''<html>''"] by simp
qed

end
