(* ===== verification/File_Validate.thy ===== *)
theory File_Validate
  imports Editor_Language Nginx_Lint
begin

text \<open>
  Validation of files in the editor, \<open>web/src/lib/fileValidate.ts\<close>.  \<open>JSON.parse\<close> is the
  parameter \<open>parse\<close> (the message of the thrown \<open>SyntaxError\<close>, if any) and the \<open>yaml\<close> package
  the parameter \<open>yaml\<close>; what \<open>nginx -t\<close> answers is an argument.
\<close>

section \<open>JSON and YAML\<close>

definition re_position :: regex where
  "re_position = seqs [LitI ''position '', Group 1 (Plus Digit)]"

text \<open>The loop of \<open>jsonErrorLine\<close>: one line more per line feed before the position.\<close>

fun count_lines :: "nat \<Rightarrow> string \<Rightarrow> nat \<Rightarrow> nat" where
  "count_lines pos [] lno = lno"
| "count_lines 0 (c # s) lno = lno"
| "count_lines (Suc pos) (c # s) lno = count_lines pos s (if code c = 10 then lno + 1 else lno)"

definition jsonErrorLine :: "string \<Rightarrow> string \<Rightarrow> nat option" where
  "jsonErrorLine text message =
     map_option (\<lambda>d. count_lines (parse_nat d) text 1) (re_group re_position 1 message)"

definition validateJson :: "(string \<Rightarrow> string option) \<Rightarrow> string \<Rightarrow> validation_result option" where
  "validateJson parse text =
     (if trim_str text = [] then None
      else map_option (\<lambda>m. \<lparr>vr_message = m, vr_line = jsonErrorLine text m\<rparr>) (parse text))"

datatype yaml_error = YamlParseError string "nat option" "nat option" | YamlOther string

definition validateYaml :: "(string \<Rightarrow> yaml_error option) \<Rightarrow> string \<Rightarrow> validation_result option" where
  "validateYaml yaml text =
     (if trim_str text = [] then None
      else (case yaml text of
          None \<Rightarrow> None
        | Some (YamlOther m) \<Rightarrow> Some \<lparr>vr_message = m, vr_line = None\<rparr>
        | Some (YamlParseError m line col) \<Rightarrow>
            (let truthy = (\<lambda>n. n \<noteq> None \<and> n \<noteq> Some (0 :: nat));
                 place = (if truthy line then
                     (if truthy col
                      then '' (line '' @ dec_nat (the line) @ '', column '' @ dec_nat (the col) @ '')''
                      else '' (line '' @ dec_nat (the line) @ '')'')
                   else [])
             in Some \<lparr>vr_message = m @ place, vr_line = line\<rparr>)))"

fun validateSync :: "(string \<Rightarrow> string option) \<Rightarrow> (string \<Rightarrow> yaml_error option)
    \<Rightarrow> editor_language \<Rightarrow> string \<Rightarrow> validation_result option" where
  "validateSync parse yaml LJson text = validateJson parse text"
| "validateSync parse yaml LYaml text = validateYaml yaml text"
| "validateSync parse yaml lang text = None"

section \<open>The diagnostic of a file\<close>

datatype diagnostic_kind = DiagOk | DiagDanger | DiagWarn

definition entry_hint :: "file_entry \<Rightarrow> language_hint" where
  "entry_hint e = \<lparr>lh_kind = Some (fe_kind e), lh_extension = Some (fe_extension e)\<rparr>"

definition lintDiagnosticForFile :: "(string \<Rightarrow> string option) \<Rightarrow> (string \<Rightarrow> yaml_error option)
    \<Rightarrow> file_entry \<Rightarrow> string \<Rightarrow> diagnostic_kind \<times> string" where
  "lintDiagnosticForFile parse yaml entry content =
     (let lang = detectLanguage (fe_path entry) (Some (entry_hint entry)) (Some content) in
      if lang = LJson \<or> lang = LYaml then
        (case validateSync parse yaml lang content of
           Some issue \<Rightarrow> (DiagDanger, vr_message issue)
         | None \<Rightarrow> (DiagOk, validationLabel lang))
      else if lang = LNginx then (DiagOk, ''Nginx syntax checked in editor.'')
      else if lang \<noteq> LText then (DiagOk, languageDisplayName lang @ '' file ready.'')
      else if fe_kind entry = ''config'' then
        (if count_list content (CHR ''{'') \<noteq> count_list content (CHR ''}'')
         then (DiagWarn, ''Braces look unbalanced.'')
         else (DiagOk, ''No obvious config issues.''))
      else if isValidatableLanguage lang then (DiagOk, validationLabel lang)
      else (if fe_editable entry then DiagOk else DiagWarn,
            if fe_editable entry then ''Text file ready.'' else ''Preview only.''))"

section \<open>Validators\<close>

definition validateFileNginx :: "(string \<Rightarrow> nginx_scope \<Rightarrow> js_error + payload) \<Rightarrow> string \<Rightarrow> js_error + string option" where
  "validateFileNginx test text = runValidate (test text (nginxTestScope text))"

definition validateScopedNginx :: "nginx_scope \<Rightarrow> (string \<Rightarrow> nginx_scope \<Rightarrow> js_error + payload)
    \<Rightarrow> string \<Rightarrow> js_error + string option" where
  "validateScopedNginx scope test text = runValidate (test text scope)"

definition validateSiteNginx :: "(int \<Rightarrow> string \<Rightarrow> js_error + payload) \<Rightarrow> int \<Rightarrow> string \<Rightarrow> js_error + string option" where
  "validateSiteNginx test siteId text = runValidate (test siteId text)"

definition validatorForLanguage :: "(string \<Rightarrow> string option) \<Rightarrow> (string \<Rightarrow> yaml_error option)
    \<Rightarrow> (string \<Rightarrow> nginx_scope \<Rightarrow> js_error + payload) \<Rightarrow> editor_language
    \<Rightarrow> (string \<Rightarrow> js_error + validation_answer) option" where
  "validatorForLanguage parse yaml test lang =
     (case lang of
        LJson \<Rightarrow> Some (\<lambda>text. Inr (case validateJson parse text of None \<Rightarrow> VNone | Some r \<Rightarrow> VResult r))
      | LYaml \<Rightarrow> Some (\<lambda>text. Inr (case validateYaml yaml text of None \<Rightarrow> VNone | Some r \<Rightarrow> VResult r))
      | LNginx \<Rightarrow> Some (\<lambda>text. (case validateFileNginx test text of
            Inl e \<Rightarrow> Inl e
          | Inr message \<Rightarrow>
              (if \<not> truthy_str message then Inr VNone
               else Inr (VResult \<lparr>vr_message = shortenNginxError (the message),
                      vr_line = parseNginxErrorLine (the message)\<rparr>))))
      | _ \<Rightarrow> None)"

definition validatorForFile :: "(string \<Rightarrow> string option) \<Rightarrow> (string \<Rightarrow> yaml_error option)
    \<Rightarrow> (string \<Rightarrow> nginx_scope \<Rightarrow> js_error + payload) \<Rightarrow> string \<Rightarrow> language_hint \<Rightarrow> string option
    \<Rightarrow> (string \<Rightarrow> js_error + validation_answer) option" where
  "validatorForFile parse yaml test path hint content =
     validatorForLanguage parse yaml test (detectLanguage path (Some hint) content)"

section \<open>Lemmas\<close>

lemma count_lines_eq:
  "count_lines pos s lno = lno + length (filter (\<lambda>c. code c = 10) (take pos s))"
  by (induction pos s lno rule: count_lines.induct) auto

lemma length_split_on: "length (split_on c s) = Suc (count_list s c)"
  by (induction s) (auto split: list.splits)

lemma count_take_le: "length (filter P (take n s)) \<le> length (filter P s)"
  by (metis append_take_drop_id filter_append le_add1 length_append)

lemma count_list_filter: "count_list s c = length (filter (\<lambda>d. d = c) s)"
  by (induction s) auto

lemma code_newline: "code c = 10 \<longleftrightarrow> c = CHR ''\<newline>''"
proof -
  have "code (CHR ''\<newline>'') = 10" by simp
  then show ?thesis by (metis of_char_eq_iff)
qed

text \<open>
  The line reported for a JSON syntax error lies in the text: it is one more than the line feeds
  before the reported position, at least 1 and at most the number of lines.
\<close>

theorem jsonErrorLine_in_text:
  assumes "jsonErrorLine text message = Some lno"
  shows "\<exists>d. re_group re_position 1 message = Some d
           \<and> lno = 1 + length (filter (\<lambda>c. code c = 10) (take (parse_nat d) text))
           \<and> 1 \<le> lno \<and> lno \<le> length (split_on (CHR ''\<newline>'') text)"
proof -
  from assms obtain d where d: "re_group re_position 1 message = Some d"
    "lno = count_lines (parse_nat d) text 1" by (auto simp: jsonErrorLine_def)
  then have lno: "lno = 1 + length (filter (\<lambda>c. code c = 10) (take (parse_nat d) text))"
    by (simp add: count_lines_eq)
  have "length (filter (\<lambda>c. code c = 10) (take (parse_nat d) text)) \<le> length (filter (\<lambda>c. code c = 10) text)"
    by (rule count_take_le)
  then have "lno \<le> length (split_on (CHR ''\<newline>'') text)"
    using lno by (simp add: length_split_on count_list_filter code_newline)
  with d(1) lno show ?thesis by auto
qed

lemma demo_position: "re_group re_position 1 ''position 4'' = Some ''4''"
  by (subst re_group_def, subst m_search.simps)
    (simp add: m_first_def re_position_def LitI_def Plus_def group_of_def lower_char_def is_upper_def is_digit_def)

theorem jsonErrorLine_in_text_witness:
  "jsonErrorLine ''{\<newline>\<newline> }'' ''position 4'' = Some 3"
proof -
  have e: "jsonErrorLine ''{\<newline>\<newline> }'' ''position 4'' = Some (count_lines (parse_nat ''4'') ''{\<newline>\<newline> }'' 1)"
    by (simp add: jsonErrorLine_def demo_position [simplified])
  from jsonErrorLine_in_text [OF e] show ?thesis
    using e by (simp add: demo_position [simplified] parse_nat_def digit_val_def)
qed

end
