(* ===== verification/Panel_Hooks.thy ===== *)
theory Panel_Hooks
  imports Api_Client
begin

text \<open>
  The data-fetching hooks \<open>web/src/lib/hooks.ts\<close>.  A hook's state is a record, its effect and
  the settling of a promise are steps.  The effect instances of \<open>useAsync\<close> are numbered: a
  settled promise carries the number of the instance that started it, and \<open>active\<close> is true of
  the latest instance only, because the cleanup of the one before has run.
\<close>

section \<open>useAsync\<close>

record ('d, 'a) async =
  as_deps :: "'d option"
  as_gen :: nat
  as_mounted :: bool
  as_data :: "'a option"
  as_error :: "js_error option"
  as_loading :: bool

definition async_init :: "('d, 'a) async" where
  "async_init = \<lparr>as_deps = None, as_gen = 0, as_mounted = True, as_data = None, as_error = None,
     as_loading = True\<rparr>"

text \<open>The effect: it runs on mount, when the dependencies change and when \<open>reload\<close> has raised
  the tick.  Old data stay visible only when the dependencies are the same.\<close>

definition async_effect :: "'d \<Rightarrow> ('d, 'a) async \<Rightarrow> ('d, 'a) async" where
  "async_effect deps s =
     (let depsChanged = (as_deps s \<noteq> Some deps);
          keepStale = (\<not> depsChanged \<and> as_data s \<noteq> None);
          s = s\<lparr>as_gen := as_gen s + 1, as_deps := Some deps\<rparr>;
          s = (if keepStale then s else s\<lparr>as_loading := True, as_data := None\<rparr>)
      in s\<lparr>as_error := None\<rparr>)"

definition async_settle :: "nat \<Rightarrow> js_error + 'a \<Rightarrow> ('d, 'a) async \<Rightarrow> ('d, 'a) async" where
  "async_settle gen outcome s =
     (let active = (as_mounted s \<and> gen = as_gen s) in
      case outcome of
        Inr res \<Rightarrow> (if active then s\<lparr>as_data := Some res, as_loading := False\<rparr> else s)
      | Inl err \<Rightarrow>
          (if active \<and> err_name err \<noteq> ''AbortError''
           then s\<lparr>as_error := Some err, as_loading := False\<rparr> else s))"

datatype ('d, 'a) async_event =
    ADeps 'd | AReload | ASettle nat "js_error + 'a" | AUnmount

fun async_step :: "('d, 'a) async_event \<Rightarrow> ('d, 'a) async \<Rightarrow> ('d, 'a) async" where
  "async_step (ADeps d) s =
     (if as_mounted s \<and> as_deps s \<noteq> Some d then async_effect d s else s)"
| "async_step AReload s =
     (case as_deps s of
        Some d \<Rightarrow> if as_mounted s then async_effect d s else s
      | None \<Rightarrow> s)"
| "async_step (ASettle g r) s = async_settle g r s"
| "async_step AUnmount s = s\<lparr>as_mounted := False\<rparr>"

definition async_run :: "('d, 'a) async_event list \<Rightarrow> ('d, 'a) async" where
  "async_run es = foldl (\<lambda>s e. async_step e s) async_init es"

section \<open>useAction\<close>

record action_state =
  ac_loading :: bool
  ac_error :: "js_error option"

definition action_init :: action_state where
  "action_init = \<lparr>ac_loading = False, ac_error = None\<rparr>"

definition action_start :: "action_state \<Rightarrow> action_state" where
  "action_start s = s\<lparr>ac_loading := True, ac_error := None\<rparr>"

text \<open>The end of \<open>run\<close>: what the caller gets (a rejection is thrown on) and the new state.\<close>

definition action_finish :: "js_error + 'r \<Rightarrow> action_state \<Rightarrow> (js_error + 'r) \<times> action_state" where
  "action_finish outcome s =
     (case outcome of
        Inr r \<Rightarrow> (Inr r, s\<lparr>ac_loading := False\<rparr>)
      | Inl err \<Rightarrow> (Inl err, s\<lparr>ac_error := Some err, ac_loading := False\<rparr>))"

definition action_run :: "js_error + 'r \<Rightarrow> action_state \<Rightarrow> (js_error + 'r) \<times> action_state" where
  "action_run outcome s = action_finish outcome (action_start s)"

section \<open>useInterval\<close>

record interval =
  iv_timer :: "nat option"
  iv_next :: nat
  iv_calls :: nat

datatype interval_event = IvStart | IvStop | IvFire nat bool

definition iv_stop :: "interval \<Rightarrow> interval" where
  "iv_stop s = s\<lparr>iv_timer := None\<rparr>"

definition iv_start :: "interval \<Rightarrow> interval" where
  "iv_start s = (let s = iv_stop s in s\<lparr>iv_timer := Some (iv_next s), iv_next := iv_next s + 1\<rparr>)"

text \<open>\<open>IvFire t hidden\<close>: the platform fires timer \<open>t\<close>; a cleared timer no longer fires.\<close>

fun interval_step :: "interval_event \<Rightarrow> interval \<Rightarrow> interval" where
  "interval_step IvStart s = iv_start s"
| "interval_step IvStop s = iv_stop s"
| "interval_step (IvFire t hidden) s =
     (if iv_timer s = Some t \<and> \<not> hidden then s\<lparr>iv_calls := iv_calls s + 1\<rparr> else s)"

section \<open>Lemmas\<close>

lemma async_settle_frame:
  "as_deps (async_settle g r s) = as_deps s" "as_gen (async_settle g r s) = as_gen s"
  "as_mounted (async_settle g r s) = as_mounted s"
  by (auto simp: async_settle_def Let_def split: sum.splits)

lemma async_effect_frame:
  "as_deps (async_effect d s) = Some d" "as_gen (async_effect d s) = as_gen s + 1"
  "as_mounted (async_effect d s) = as_mounted s"
  by (auto simp: async_effect_def Let_def)

lemma async_effect_data:
  "as_data (async_effect d s) = Some r \<Longrightarrow> as_deps s = Some d \<and> as_data s = Some r"
  by (auto simp: async_effect_def Let_def split: if_splits)

lemma async_settle_data:
  "as_data (async_settle g r s) = Some x \<Longrightarrow>
     as_data s = Some x \<or> (r = Inr x \<and> g = as_gen s \<and> as_mounted s)"
  by (auto simp: async_settle_def Let_def split: sum.splits if_splits)

lemma async_step_gen: "as_gen s \<le> as_gen (async_step e s)"
  by (cases e) (auto simp: async_settle_frame async_effect_frame split: option.splits)

lemma async_step_same_gen:
  "as_gen (async_step e s) = as_gen s \<Longrightarrow> as_deps (async_step e s) = as_deps s"
  by (cases e) (auto simp: async_settle_frame async_effect_frame split: option.splits if_splits)

text \<open>The run from any state: the data shown answer the current dependencies.\<close>

definition answers :: "('d \<Rightarrow> 'a \<Rightarrow> bool) \<Rightarrow> ('d, 'a) async \<Rightarrow> bool" where
  "answers ok s \<longleftrightarrow> (\<forall>r. as_data s = Some r \<longrightarrow> (\<exists>d. as_deps s = Some d \<and> ok d r))"

text \<open>Every result that settles is a result for the dependencies of its own instance, where
  \<open>known\<close> gives the dependencies of the instance current at the start.\<close>

fun honest :: "('d \<Rightarrow> 'a \<Rightarrow> bool) \<Rightarrow> ('d, 'a) async_event list \<Rightarrow> ('d, 'a) async \<Rightarrow> (nat \<Rightarrow> 'd option) \<Rightarrow> bool" where
  "honest ok [] s known = True"
| "honest ok (e # es) s known =
     ((case e of ASettle g (Inr r) \<Rightarrow> (\<exists>d. known g = Some d \<and> ok d r) | _ \<Rightarrow> True)
      \<and> (let s' = async_step e s in honest ok es s' (known(as_gen s' := as_deps s'))))"

lemma answers_step:
  assumes "answers ok s"
    and "\<And>g r. e = ASettle g (Inr r) \<Longrightarrow> g = as_gen s \<Longrightarrow> \<exists>d. as_deps s = Some d \<and> ok d r"
  shows "answers ok (async_step e s)"
proof (cases e)
  case (ADeps d)
  with assms(1) show ?thesis
    by (auto simp: answers_def async_effect_frame dest!: async_effect_data)
next
  case AReload
  with assms(1) show ?thesis
    by (auto simp: answers_def async_effect_frame dest!: async_effect_data split: option.splits)
next
  case (ASettle g r)
  with assms show ?thesis
    by (auto simp: answers_def async_settle_frame dest!: async_settle_data)
next
  case AUnmount
  with assms(1) show ?thesis by (simp add: answers_def)
qed

lemma answers_run:
  assumes "answers ok s" "honest ok es s known" "known (as_gen s) = as_deps s"
  shows "answers ok (foldl (\<lambda>s e. async_step e s) s es)"
  using assms
proof (induction es arbitrary: s known)
  case (Cons e es)
  have "answers ok (async_step e s)"
    using Cons.prems by (intro answers_step) auto
  moreover have "honest ok es (async_step e s) (known(as_gen (async_step e s) := as_deps (async_step e s)))"
    using Cons.prems(2) by (simp add: Let_def)
  ultimately show ?case using Cons.IH by simp
qed simp


definition demo_async :: "(nat, nat) async_event list" where
  "demo_async = [ADeps 1, ADeps 2, ASettle 2 (Inr 20), ASettle 1 (Inr 10), AReload]"


end
