(* ===== verification/App_Store.thy ===== *)
theory App_Store
  imports Api_Types Machine
begin

text \<open>
  The application store \<open>web/src/lib/store.tsx\<close>: the user, the metadata, the lock flag and the
  toasts, each toast with the timer that dismisses it.  The pending timers are a ghost list.
\<close>

datatype toast_kind = ToastInfo | ToastError

record toast_rec =
  t_id :: nat
  t_message :: string
  t_kind :: toast_kind

record app_store =
  app_user :: "user option"
  app_meta :: "ui_meta option"
  app_locked :: bool
  app_toasts :: "toast_rec list"
  app_nextId :: nat
  app_timers :: "(nat \<times> nat) list"

definition store_init :: app_store where
  "store_init = \<lparr>app_user = None, app_meta = None, app_locked = False, app_toasts = [],
     app_nextId = 1, app_timers = []\<rparr>"

definition dismissToast :: "nat \<Rightarrow> app_store \<Rightarrow> app_store" where
  "dismissToast i s = s\<lparr>app_toasts := filter (\<lambda>t. t_id t \<noteq> i) (app_toasts s)\<rparr>"

definition toast :: "string \<Rightarrow> toast_kind \<Rightarrow> app_store \<Rightarrow> nat \<times> app_store" where
  "toast message kind s =
     (let i = app_nextId s in
      (i, s\<lparr>app_nextId := i + 1,
            app_toasts := app_toasts s @ [\<lparr>t_id = i, t_message = message, t_kind = kind\<rparr>],
            app_timers := app_timers s @ [(i, if kind = ToastError then 6000 else 3500)]\<rparr>))"

definition setUser :: "user option \<Rightarrow> app_store \<Rightarrow> app_store" where
  "setUser u s = s\<lparr>app_user := u\<rparr>"

definition setMeta :: "ui_meta option \<Rightarrow> app_store \<Rightarrow> app_store" where
  "setMeta m s = s\<lparr>app_meta := m\<rparr>"

definition setLocked :: "bool \<Rightarrow> app_store \<Rightarrow> app_store" where
  "setLocked v s = s\<lparr>app_locked := v\<rparr>"

text \<open>A timer of a toast fires once.\<close>

definition toast_timer :: "nat \<Rightarrow> app_store \<Rightarrow> app_store" where
  "toast_timer i s =
     (if i \<in> fst ` set (app_timers s)
      then dismissToast i (s\<lparr>app_timers := filter (\<lambda>p. fst p \<noteq> i) (app_timers s)\<rparr>) else s)"

datatype store_op = SToast string toast_kind | SDismiss nat | STimer nat
  | SUser "user option" | SMeta "ui_meta option" | SLocked bool

fun store_step :: "store_op \<Rightarrow> app_store \<Rightarrow> app_store" where
  "store_step (SToast m k) s = snd (toast m k s)"
| "store_step (SDismiss i) s = dismissToast i s"
| "store_step (STimer i) s = toast_timer i s"
| "store_step (SUser u) s = setUser u s"
| "store_step (SMeta m) s = setMeta m s"
| "store_step (SLocked v) s = setLocked v s"

section \<open>Lemmas\<close>

lemma app_toasts_dismiss [simp]:
  "app_toasts (dismissToast i s) = filter (\<lambda>t. t_id t \<noteq> i) (app_toasts s)"
  by (simp add: dismissToast_def)

lemma app_toasts_toast [simp]:
  "app_toasts (snd (toast m k s)) = app_toasts s @ [\<lparr>t_id = app_nextId s, t_message = m, t_kind = k\<rparr>]"
  "fst (toast m k s) = app_nextId s"
  by (simp_all add: toast_def Let_def)

lemma app_toasts_timer:
  "set (app_toasts (toast_timer i s)) \<subseteq> set (app_toasts s)"
  by (auto simp: toast_timer_def dismissToast_def)

lemma app_toasts_setLocked [simp]: "app_toasts (setLocked v s) = app_toasts s"
  by (simp add: setLocked_def)

text \<open>Toasts have distinct ids below the next one, and each still has its timer.\<close>

definition store_ok :: "app_store \<Rightarrow> bool" where
  "store_ok s \<longleftrightarrow> distinct (map t_id (app_toasts s))
     \<and> (\<forall>t \<in> set (app_toasts s). t_id t < app_nextId s \<and> t_id t \<in> fst ` set (app_timers s))"

lemma store_ok_init: "store_ok store_init"
  by (simp add: store_ok_def store_init_def)

lemma store_ok_dismiss: "store_ok s \<Longrightarrow> store_ok (dismissToast i s)"
  by (auto simp: store_ok_def dismissToast_def distinct_map_filter)

lemma store_ok_toast: "store_ok s \<Longrightarrow> store_ok (snd (toast m k s))"
  by (fastforce simp: store_ok_def toast_def Let_def)

lemma store_ok_timer: "store_ok s \<Longrightarrow> store_ok (toast_timer i s)"
  by (force simp: store_ok_def toast_timer_def dismissToast_def distinct_map_filter)

lemma store_ok_locked: "store_ok s \<Longrightarrow> store_ok (setLocked v s)"
  by (simp add: store_ok_def setLocked_def)

lemma store_ok_step: "store_ok s \<Longrightarrow> store_ok (store_step e s)"
  by (cases e) (simp_all add: store_ok_toast store_ok_dismiss store_ok_timer,
      simp_all add: store_ok_def setUser_def setMeta_def setLocked_def)

interpretation store: open_machine store_step store_ok store_init
  by unfold_locales (simp_all add: store_ok_step store_ok_init)

text \<open>
  In every run toasts are told apart by their ids and none stays for ever: a toast that is
  shown has a pending timer, and when that timer fires exactly that toast goes, the others keeping
  their order.
\<close>

theorem toasts_expire:
  assumes "s = foldl (\<lambda>s e. store_step e s) store_init es"
    and "t \<in> set (app_toasts s)"
  shows "distinct (map t_id (app_toasts s))
     \<and> t_id t \<in> fst ` set (app_timers s)
     \<and> app_toasts (toast_timer (t_id t) s) = filter (\<lambda>u. u \<noteq> t) (app_toasts s)"
proof -
  have ok: "store_ok s" using assms(1) store.inv_foldl by blast
  then have "t_id u = t_id t \<longleftrightarrow> u = t" if "u \<in> set (app_toasts s)" for u
    using that assms(2) by (auto simp: store_ok_def distinct_map inj_on_def)
  then have "filter (\<lambda>u. t_id u \<noteq> t_id t) (app_toasts s) = filter (\<lambda>u. u \<noteq> t) (app_toasts s)"
    by (intro filter_cong) auto
  with ok assms(2) show ?thesis by (auto simp: store_ok_def toast_timer_def dismissToast_def)
qed

theorem toasts_expire_witness:
  "app_toasts (toast_timer 1 (foldl (\<lambda>s e. store_step e s) store_init
     [SToast ''a'' ToastInfo, SToast ''b'' ToastError])) = [\<lparr>t_id = 2, t_message = ''b'', t_kind = ToastError\<rparr>]"
  using toasts_expire [OF refl, of "\<lparr>t_id = 1, t_message = ''a'', t_kind = ToastInfo\<rparr>"
      "[SToast ''a'' ToastInfo, SToast ''b'' ToastError]"]
  by (simp add: store_init_def toast_def Let_def)

end
