(* ===== verification/Job_Stream.thy ===== *)
theory Job_Stream
  imports Js_Regex Machine
begin

text \<open>
  Job output streams: the consumer \<open>openJobStream\<close> of \<open>web/src/lib/sse.ts\<close> and the modal of
  \<open>web/src/components/JobStream.tsx\<close> that shows the lines and the status.  The browser's
  \<open>EventSource\<close> delivers events until it is closed.
\<close>

datatype sse_event = SseMessage "string option" | SseDone "string option" | SseFailure

datatype job_call = OnLine string | OnDone string | OnError string

text \<open>The state of the stream: whether it is open, and the handler calls made so far.\<close>

record job_stream =
  js_open :: bool
  js_calls :: "job_call list"

definition job_stream_init :: job_stream where
  "job_stream_init = \<lparr>js_open = True, js_calls = []\<rparr>"

definition re_crlf :: regex where
  "re_crlf = Seq (Maybe (Chr (\<lambda>c. code c = 13))) (Lit ''\<newline>'')"

definition onmessage :: "string option \<Rightarrow> job_stream \<Rightarrow> job_stream" where
  "onmessage data es =
     (let text = nullish data [] in
      if starts_with text ''status='' then
        (let status = drop (length ''status='') text in
         if status = ''done'' \<or> status = ''failed'' \<or> status = ''ok''
         then es\<lparr>js_calls := js_calls es @ [OnDone status], js_open := False\<rparr>
         else es)
      else es\<lparr>js_calls := js_calls es @ map OnLine (filter (\<lambda>l. l \<noteq> []) (re_split re_crlf text))\<rparr>)"

definition ondone :: "string option \<Rightarrow> job_stream \<Rightarrow> job_stream" where
  "ondone data es = es\<lparr>js_calls := js_calls es @ [OnDone (nullish data ''done'')], js_open := False\<rparr>"

definition onfailure :: "job_stream \<Rightarrow> job_stream" where
  "onfailure es = es\<lparr>js_calls := js_calls es @ [OnError ''Stream disconnected''], js_open := False\<rparr>"

definition openJobStream :: "sse_event \<Rightarrow> job_stream \<Rightarrow> job_stream" where
  "openJobStream e es =
     (if \<not> js_open es then es
      else (case e of
          SseMessage d \<Rightarrow> onmessage d es
        | SseDone d \<Rightarrow> ondone d es
        | SseFailure \<Rightarrow> onfailure es))"

definition job_close :: "job_stream \<Rightarrow> job_stream" where
  "job_close es = es\<lparr>js_open := False\<rparr>"

definition job_run :: "sse_event list \<Rightarrow> job_stream" where
  "job_run evs = foldl (\<lambda>es e. openJobStream e es) job_stream_init evs"

section \<open>The modal\<close>

record job_modal =
  jm_lines :: "string list"
  jm_status :: string

definition job_modal_init :: job_modal where
  "job_modal_init = \<lparr>jm_lines = [], jm_status = ''connecting''\<rparr>"

fun job_modal_call :: "job_modal \<Rightarrow> job_call \<Rightarrow> job_modal" where
  "job_modal_call m (OnLine l) =
     m\<lparr>jm_status := (if jm_status m = ''connecting'' then ''running'' else jm_status m),
       jm_lines := jm_lines m @ [l]\<rparr>"
| "job_modal_call m (OnDone st) = m\<lparr>jm_status := st\<rparr>"
| "job_modal_call m (OnError msg) = m\<lparr>jm_status := ''error'', jm_lines := jm_lines m @ [msg]\<rparr>"

definition job_modal_text :: "job_modal \<Rightarrow> string" where
  "job_modal_text m = or_str (join ''\<newline>'' (jm_lines m)) (''Waiting for output'' @ ellipsis)"

section \<open>Lemmas\<close>

fun terminal_call :: "job_call \<Rightarrow> bool" where
  "terminal_call (OnLine l) = False"
| "terminal_call _ = True"

definition job_ok :: "job_stream \<Rightarrow> bool" where
  "job_ok es \<longleftrightarrow> (\<exists>ls rest. js_calls es = map OnLine ls @ rest \<and> [] \<notin> set ls
      \<and> (if js_open es then rest = [] else \<exists>c. rest = [c] \<and> terminal_call c))"

lemma job_ok_step: "job_ok es \<Longrightarrow> job_ok (openJobStream e es)"
proof (cases "js_open es")
  case True
  assume "job_ok es"
  with True obtain ls where ls: "js_calls es = map OnLine ls" "[] \<notin> set ls"
    by (auto simp: job_ok_def)
  have fin: "job_ok (es\<lparr>js_calls := js_calls es @ [c], js_open := False\<rparr>)" if "terminal_call c" for c
    using ls that by (auto simp: job_ok_def)
  have lines: "job_ok (es\<lparr>js_calls := js_calls es @ map OnLine (filter (\<lambda>l. l \<noteq> []) ws)\<rparr>)" for ws
    using ls True by (auto simp: job_ok_def intro!: exI [of _ "ls @ filter (\<lambda>l. l \<noteq> []) ws"])
  have same: "job_ok es" by fact
  show ?thesis
    by (cases e) (auto simp: openJobStream_def onmessage_def ondone_def onfailure_def Let_def
        intro: fin lines same)
qed (simp add: openJobStream_def)

interpretation job: open_machine openJobStream job_ok job_stream_init
  by unfold_locales (simp_all add: job_ok_step, simp add: job_ok_def job_stream_init_def)

lemma job_ok_run: "job_ok (job_run evs)"
  unfolding job_run_def by (rule job.inv_foldl)

lemma job_modal_lines:
  "foldl job_modal_call m (map OnLine ls) =
     m\<lparr>jm_status := (if ls \<noteq> [] \<and> jm_status m = ''connecting'' then ''running'' else jm_status m),
       jm_lines := jm_lines m @ ls\<rparr>"
  by (induction ls arbitrary: m) auto

text \<open>
  Whatever the server sends, the handlers are called with non-empty lines first and with at most
  one end, a status or a disconnection, which comes last and closes the stream; the modal then shows
  every line in order and ends in the reported status.
\<close>

theorem job_stream_ends_once:
  "\<exists>ls. [] \<notin> set ls
     \<and> (js_open (job_run evs) \<longrightarrow> js_calls (job_run evs) = map OnLine ls
          \<and> jm_lines (foldl job_modal_call job_modal_init (js_calls (job_run evs))) = ls)
     \<and> (\<not> js_open (job_run evs) \<longrightarrow> (\<exists>c. terminal_call c \<and> js_calls (job_run evs) = map OnLine ls @ [c]
          \<and> (\<forall>st. c = OnDone st \<longrightarrow>
               jm_lines (foldl job_modal_call job_modal_init (js_calls (job_run evs))) = ls
             \<and> jm_status (foldl job_modal_call job_modal_init (js_calls (job_run evs))) = st)))"
proof -
  from job_ok_run [of evs] obtain ls rest where l: "js_calls (job_run evs) = map OnLine ls @ rest"
    "[] \<notin> set ls" "if js_open (job_run evs) then rest = [] else \<exists>c. rest = [c] \<and> terminal_call c"
    by (auto simp: job_ok_def)
  show ?thesis
    by (rule exI [of _ ls])
      (use l in \<open>auto simp: job_modal_lines job_modal_init_def split: if_splits\<close>)
qed

lemma demo_job: "\<not> js_open (job_run [SseMessage (Some ''status=done''), SseMessage (Some ''late'')])
    \<and> js_calls (job_run [SseMessage (Some ''status=done''), SseMessage (Some ''late'')]) = [OnDone ''done'']"
  by (simp add: job_run_def job_stream_init_def openJobStream_def onmessage_def Let_def)

theorem job_stream_ends_once_witness:
  "jm_status (foldl job_modal_call job_modal_init
     (js_calls (job_run [SseMessage (Some ''status=done''), SseMessage (Some ''late'')]))) = ''done''"
  using job_stream_ends_once [of "[SseMessage (Some ''status=done''), SseMessage (Some ''late'')]"]
  by (simp add: demo_job)

end
