(* ===== verification/Idle_Lock.thy ===== *)
theory Idle_Lock
  imports App_Store Machine
begin

text \<open>
  The idle lock \<open>web/src/lib/idleLock.ts\<close>: a heartbeat that warns in the last twenty seconds and
  asks the server to lock the session when nothing has happened for \<open>lock_after_seconds\<close>.  Time is
  in milliseconds and passes by the \<open>now\<close> of each event.  \<open>il_requests\<close> is the ghost list of the
  lock requests: the time of each and of the last activity before it.
\<close>

definition WARNING_LEAD_SECONDS :: int where
  "WARNING_LEAD_SECONDS = 20"

definition HEARTBEAT_MS :: int where
  "HEARTBEAT_MS = 1000"

record idle_lock =
  il_store :: app_store
  il_seconds :: int
  il_active :: bool
  il_lockAt :: int
  il_lastWarn :: int
  il_warn :: "nat option"
  il_ticker :: bool
  il_pending :: nat
  il_clock :: int
  il_activity :: int
  il_requests :: "(int \<times> int) list"

text \<open>The effect is installed only for a user with the lock enabled, not locked, and a positive
  time.\<close>

definition idle_enabled :: "app_store \<Rightarrow> bool" where
  "idle_enabled s \<longleftrightarrow> app_user s \<noteq> None
     \<and> truthy_bool (map_option ua_lockscreen_enabled (Option.bind (app_meta s) um_auth))
     \<and> \<not> app_locked s
     \<and> 0 < nullish (map_option ua_lock_after_seconds (Option.bind (app_meta s) um_auth)) 0"

definition startTicker :: "idle_lock \<Rightarrow> idle_lock" where
  "startTicker l = l\<lparr>il_ticker := True\<rparr>"

definition clearTicker :: "idle_lock \<Rightarrow> idle_lock" where
  "clearTicker l = l\<lparr>il_ticker := False\<rparr>"

definition clearWarn :: "idle_lock \<Rightarrow> idle_lock" where
  "clearWarn l = (case il_warn l of
       None \<Rightarrow> l
     | Some i \<Rightarrow> l\<lparr>il_store := dismissToast i (il_store l), il_warn := None\<rparr>)"

definition idle_mount :: "app_store \<Rightarrow> int \<Rightarrow> idle_lock" where
  "idle_mount s now =
     (let seconds = nullish (map_option ua_lock_after_seconds (Option.bind (app_meta s) um_auth)) 0;
          l = \<lparr>il_store = s, il_seconds = seconds, il_active = idle_enabled s,
               il_lockAt = now + seconds * 1000, il_lastWarn = -1, il_warn = None,
               il_ticker = False, il_pending = 0, il_clock = now, il_activity = now, il_requests = []\<rparr>
      in if idle_enabled s then startTicker l else l)"

definition fireLock :: "int \<Rightarrow> idle_lock \<Rightarrow> idle_lock" where
  "fireLock now l =
     (let l = clearTicker (clearWarn l)
      in l\<lparr>il_pending := il_pending l + 1, il_requests := il_requests l @ [(now, il_activity l)]\<rparr>)"

definition warn_text :: "int \<Rightarrow> string" where
  "warn_text remaining = ''Locking in '' @ dec_int remaining @ ''s '' @ em_dash @ '' move/click to stay''"

text \<open>\<open>Math.ceil(remainingMs / 1000)\<close>.\<close>

definition ceil_seconds :: "int \<Rightarrow> int" where
  "ceil_seconds ms = - ((- ms) div 1000)"

definition show_warning :: "int \<Rightarrow> idle_lock \<Rightarrow> idle_lock" where
  "show_warning remainingSec l =
     (let st = (case il_warn l of None \<Rightarrow> il_store l | Some i \<Rightarrow> dismissToast i (il_store l));
          (i, st) = toast (warn_text remainingSec) ToastInfo st
      in l\<lparr>il_store := st, il_warn := Some i, il_lastWarn := remainingSec\<rparr>)"

definition heartbeat :: "int \<Rightarrow> idle_lock \<Rightarrow> idle_lock" where
  "heartbeat now l =
     (let remainingMs = il_lockAt l - now in
      if remainingMs \<le> 0 then fireLock now l
      else
        (let remainingSec = ceil_seconds remainingMs in
         if remainingSec \<le> WARNING_LEAD_SECONDS then
           (if il_lastWarn l \<noteq> remainingSec then show_warning remainingSec l else l)
         else (clearWarn l)\<lparr>il_lastWarn := -1\<rparr>))"

definition idle_reset :: "int \<Rightarrow> idle_lock \<Rightarrow> idle_lock" where
  "idle_reset now l =
     startTicker (clearWarn (l\<lparr>il_lockAt := now + il_seconds l * 1000, il_lastWarn := -1, il_activity := now\<rparr>))"

text \<open>The cleanup of the effect; it runs when the dependencies change or the view goes.\<close>

definition idle_cleanup :: "idle_lock \<Rightarrow> idle_lock" where
  "idle_cleanup l = (clearWarn (clearTicker l))\<lparr>il_active := False\<rparr>"

text \<open>The two ends of \<open>auth.lock()\<close>.  Setting the lock flag runs the cleanup.\<close>

definition lock_ok :: "idle_lock \<Rightarrow> idle_lock" where
  "lock_ok l =
     (let st = snd (toast ''Session locked due to inactivity'' ToastInfo (setLocked True (il_store l)))
      in idle_cleanup (l\<lparr>il_store := st, il_pending := il_pending l - 1\<rparr>))"

definition lock_failed :: "int \<Rightarrow> idle_lock \<Rightarrow> idle_lock" where
  "lock_failed now l =
     startTicker (l\<lparr>il_pending := il_pending l - 1, il_lockAt := now + il_seconds l * 1000\<rparr>)"

datatype idle_event = IActivity int | ITick int | ILockOk int | ILockFailed int | IToastTimer int nat | ICleanup int

fun event_time :: "idle_event \<Rightarrow> int" where
  "event_time (IActivity t) = t"
| "event_time (ITick t) = t"
| "event_time (ILockOk t) = t"
| "event_time (ILockFailed t) = t"
| "event_time (IToastTimer t i) = t"
| "event_time (ICleanup t) = t"

text \<open>What can happen: time does not go back; a beat needs the ticker, activity is heard only while
  the effect is installed, and an answer needs a pending request.\<close>

fun idle_can :: "idle_event \<Rightarrow> idle_lock \<Rightarrow> bool" where
  "idle_can (IActivity t) l = (il_clock l \<le> t \<and> il_active l)"
| "idle_can (ITick t) l = (il_clock l \<le> t \<and> il_ticker l)"
| "idle_can (ILockOk t) l = (il_clock l \<le> t \<and> 0 < il_pending l)"
| "idle_can (ILockFailed t) l = (il_clock l \<le> t \<and> 0 < il_pending l)"
| "idle_can (IToastTimer t i) l = (il_clock l \<le> t)"
| "idle_can (ICleanup t) l = (il_clock l \<le> t \<and> il_active l)"

fun idle_apply :: "idle_event \<Rightarrow> idle_lock \<Rightarrow> idle_lock" where
  "idle_apply (IActivity t) l = idle_reset t l"
| "idle_apply (ITick t) l = heartbeat t l"
| "idle_apply (ILockOk t) l = lock_ok l"
| "idle_apply (ILockFailed t) l = lock_failed t l"
| "idle_apply (IToastTimer t i) l = l\<lparr>il_store := toast_timer i (il_store l)\<rparr>"
| "idle_apply (ICleanup t) l = idle_cleanup l"

definition idle_step :: "idle_event \<Rightarrow> idle_lock \<Rightarrow> idle_lock" where
  "idle_step e l = (idle_apply e l)\<lparr>il_clock := event_time e\<rparr>"

abbreviation idle_run :: "idle_lock \<Rightarrow> idle_event list \<Rightarrow> idle_lock \<Rightarrow> bool" where
  "idle_run \<equiv> machine_run idle_can idle_step"

section \<open>Lemmas\<close>

lemma clearWarn_frame [simp]:
  "il_seconds (clearWarn l) = il_seconds l" "il_lockAt (clearWarn l) = il_lockAt l"
  "il_activity (clearWarn l) = il_activity l" "il_requests (clearWarn l) = il_requests l"
  "il_clock (clearWarn l) = il_clock l" "il_ticker (clearWarn l) = il_ticker l"
  "il_active (clearWarn l) = il_active l" "il_pending (clearWarn l) = il_pending l"
  by (simp_all add: clearWarn_def split: option.splits)

lemmas idle_defs = startTicker_def clearTicker_def fireLock_def heartbeat_def idle_reset_def
  idle_cleanup_def lock_ok_def lock_failed_def show_warning_def

text \<open>The deadline is never earlier than the last activity plus the configured time.\<close>

definition idle_ok :: "int \<Rightarrow> idle_lock \<Rightarrow> bool" where
  "idle_ok secs l \<longleftrightarrow> il_seconds l = secs \<and> il_activity l \<le> il_clock l
     \<and> il_activity l + secs * 1000 \<le> il_lockAt l
     \<and> (\<forall>(t, a) \<in> set (il_requests l). a + secs * 1000 \<le> t)"

lemma idle_ok_frame:
  "idle_ok secs (l\<lparr>il_store := s\<rparr>) = idle_ok secs l"
  by (simp add: idle_ok_def)

lemma idle_ok_step:
  assumes "idle_ok secs l" "idle_can e l"
  shows "idle_ok secs (idle_step e l)"
  using assms by (cases e)
    (auto simp: idle_ok_def idle_step_def idle_defs Let_def split: prod.splits)

interpretation deadline: machine_invariant idle_can idle_step "idle_ok secs" for secs
  by unfold_locales (rule idle_ok_step)

lemma idle_ok_mount:
  "idle_ok (nullish (map_option ua_lock_after_seconds (Option.bind (app_meta s) um_auth)) 0) (idle_mount s now)"
  by (simp add: idle_ok_def idle_mount_def startTicker_def Let_def)

text \<open>Warnings: every warning toast on the screen is the one the hook remembers.\<close>

definition is_warning :: "toast_rec \<Rightarrow> bool" where
  "is_warning t \<longleftrightarrow> starts_with (t_message t) ''Locking in ''"

definition warn_ok :: "idle_lock \<Rightarrow> bool" where
  "warn_ok l \<longleftrightarrow> store_ok (il_store l)
     \<and> (\<forall>t \<in> set (app_toasts (il_store l)). is_warning t \<longrightarrow> il_warn l = Some (t_id t))"

lemma warn_ok_clearWarn:
  "warn_ok l \<Longrightarrow> warn_ok (clearWarn l) \<and> il_warn (clearWarn l) = None"
  using store_ok_dismiss by (auto simp: warn_ok_def clearWarn_def split: option.splits)

lemma warn_ok_cong:
  "il_store l' = il_store l \<Longrightarrow> il_warn l' = il_warn l \<Longrightarrow> warn_ok l \<Longrightarrow> warn_ok l'"
  by (simp add: warn_ok_def)

lemma show_warning_eq:
  "show_warning n l =
     (let st = il_store (clearWarn l)
      in l\<lparr>il_store := snd (toast (warn_text n) ToastInfo st), il_warn := Some (app_nextId st), il_lastWarn := n\<rparr>)"
  by (cases "il_warn l") (simp_all add: show_warning_def clearWarn_def Let_def prod.case_eq_if)

lemma warn_ok_none: "warn_ok l \<Longrightarrow> il_warn l = None \<Longrightarrow> t \<in> set (app_toasts (il_store l)) \<Longrightarrow> \<not> is_warning t"
  by (auto simp: warn_ok_def)

lemma warn_ok_show: "warn_ok l \<Longrightarrow> warn_ok (show_warning n l)"
  using warn_ok_clearWarn [of l] warn_ok_none [of "clearWarn l"] store_ok_toast
  by (fastforce simp: show_warning_eq warn_ok_def Let_def)

lemma warn_ok_toast:
  "warn_ok l \<Longrightarrow> \<not> starts_with m ''Locking in '' \<Longrightarrow>
     warn_ok (l\<lparr>il_store := snd (toast m k (setLocked v (il_store l)))\<rparr>)"
  using store_ok_toast [OF store_ok_locked]
  by (auto simp: warn_ok_def is_warning_def)

lemma warn_ok_apply:
  assumes "warn_ok l"
  shows "warn_ok (idle_apply e l)"
proof (cases e)
  case (IActivity t)
  let ?l = "l\<lparr>il_lockAt := t + il_seconds l * 1000, il_lastWarn := -1, il_activity := t\<rparr>"
  have "warn_ok (clearWarn ?l)" using assms warn_ok_clearWarn warn_ok_cong [of ?l l] by simp
  with IActivity show ?thesis
    using warn_ok_cong [of "startTicker (clearWarn ?l)" "clearWarn ?l"]
    by (simp add: idle_reset_def startTicker_def)
next
  case (ITick t)
  have "warn_ok (fireLock t l)"
    by (rule warn_ok_cong [of _ "clearWarn l"])
      (use assms warn_ok_clearWarn in \<open>simp_all add: fireLock_def clearTicker_def Let_def\<close>)
  moreover have "warn_ok ((clearWarn l)\<lparr>il_lastWarn := -1\<rparr>)"
    by (rule warn_ok_cong [of _ "clearWarn l"]) (use assms warn_ok_clearWarn in simp_all)
  ultimately show ?thesis using assms warn_ok_show [of l] ITick
    by (simp add: heartbeat_def Let_def)
next
  case (ILockOk t)
  let ?l = "l\<lparr>il_store := snd (toast ''Session locked due to inactivity'' ToastInfo (setLocked True (il_store l)))\<rparr>"
  have "warn_ok ?l" using assms by (rule warn_ok_toast) simp
  then have "warn_ok (clearTicker (?l\<lparr>il_pending := il_pending l - 1\<rparr>))"
    by (rule warn_ok_cong [rotated 2]) (simp_all add: clearTicker_def)
  then have c: "warn_ok (clearWarn (clearTicker (?l\<lparr>il_pending := il_pending l - 1\<rparr>)))"
    using warn_ok_clearWarn by blast
  show ?thesis
    by (rule warn_ok_cong [OF _ _ c]) (simp_all add: ILockOk lock_ok_def idle_cleanup_def Let_def)
next
  case (ILockFailed t)
  then show ?thesis using assms by (auto simp: lock_failed_def startTicker_def intro: warn_ok_cong)
next
  case (IToastTimer t i)
  then show ?thesis using assms app_toasts_timer [of i "il_store l"] store_ok_timer
    by (auto simp: warn_ok_def)
next
  case (ICleanup t)
  have c: "warn_ok (clearWarn (clearTicker l))"
    using warn_ok_clearWarn warn_ok_cong [of "clearTicker l" l] assms by (simp add: clearTicker_def)
  show ?thesis by (rule warn_ok_cong [OF _ _ c]) (simp_all add: ICleanup idle_cleanup_def)
qed

interpretation warnings: machine_invariant idle_can idle_step warn_ok
  by unfold_locales (auto simp: idle_step_def intro: warn_ok_cong [OF _ _ warn_ok_apply])

lemma warn_ok_mount:
  "store_ok s \<Longrightarrow> (\<And>t. t \<in> set (app_toasts s) \<Longrightarrow> \<not> is_warning t) \<Longrightarrow> warn_ok (idle_mount s now)"
  by (auto simp: warn_ok_def idle_mount_def startTicker_def Let_def)

section \<open>Properties\<close>

text \<open>A store with a user and a lock after thirty seconds, for the concrete runs.\<close>

definition demo_auth :: ui_auth where
  "demo_auth = \<lparr>ua_login_hint = [], ua_login_email_placeholder = None, ua_remember_me = False,
     ua_basic_auth_enabled = False, ua_lockscreen_enabled = True, ua_lock_after_seconds = 30,
     ua_web_root = None, ua_file_roots = None\<rparr>"

definition demo_store :: app_store where
  "demo_store = store_init\<lparr>app_user := Some \<lparr>u_id = 1, u_name = ''a'', u_email = ''b''\<rparr>,
     app_meta := Some (empty_ui_meta\<lparr>um_auth := Some demo_auth\<rparr>)\<rparr>"

lemma demo_store_facts:
  "app_meta demo_store = Some (empty_ui_meta\<lparr>um_auth := Some demo_auth\<rparr>)"
  "um_auth (empty_ui_meta\<lparr>um_auth := Some demo_auth\<rparr>) = Some demo_auth"
  "ua_lock_after_seconds demo_auth = 30" "idle_enabled demo_store"
  "app_toasts demo_store = []" "store_ok demo_store"
  by (simp_all add: demo_store_def demo_auth_def idle_enabled_def store_init_def store_ok_def)

lemma demo_mount:
  "idle_mount demo_store 0 = \<lparr>il_store = demo_store, il_seconds = 30, il_active = True,
     il_lockAt = 30000, il_lastWarn = -1, il_warn = None, il_ticker = True, il_pending = 0,
     il_clock = 0, il_activity = 0, il_requests = []\<rparr>"
  by (simp add: idle_mount_def startTicker_def demo_store_facts)

lemmas demo_eval = demo_mount idle_step_def heartbeat_def fireLock_def clearTicker_def
  clearWarn_def idle_cleanup_def


text \<open>
  C7.  The session is never locked under the user's hands: in every run a lock is requested only at a
  beat at least \<open>lock_after_seconds\<close> after the last activity; and the first beat at or after the
  deadline does request it.
\<close>

theorem lock_only_when_idle:
  assumes "idle_run (idle_mount s t0) es l"
    and "app_meta s = Some m" "um_auth m = Some a"
  shows "(\<forall>(t, act) \<in> set (il_requests l). act + ua_lock_after_seconds a * 1000 \<le> t)
     \<and> (il_ticker l \<and> il_lockAt l \<le> now \<longrightarrow>
          il_requests (idle_step (ITick now) l) = il_requests l @ [(now, il_activity l)]
        \<and> \<not> il_ticker (idle_step (ITick now) l))
     \<and> (now < il_lockAt l \<longrightarrow> il_requests (idle_step (ITick now) l) = il_requests l)"
proof -
  have "idle_ok (ua_lock_after_seconds a) (idle_mount s t0)"
    using idle_ok_mount [of s t0] assms(2,3) by simp
  with deadline.inv_run [OF assms(1)] have "idle_ok (ua_lock_after_seconds a) l" by blast
  then show ?thesis
    by (auto simp: idle_ok_def idle_step_def heartbeat_def fireLock_def clearTicker_def
        show_warning_eq Let_def)
qed

theorem lock_only_when_idle_witness:
  "il_requests (idle_step (ITick 30000) (idle_step (IActivity 0) (idle_mount demo_store 0))) = [(30000, 0)]"
proof -
  let ?l = "idle_step (IActivity 0) (idle_mount demo_store 0)"
  have "idle_run (idle_mount demo_store 0) [IActivity 0] ?l"
    by (rule machine_run_one) (simp add: demo_mount)
  from lock_only_when_idle [OF this demo_store_facts(1,2), of 30000] show ?thesis
    by (simp add: demo_eval idle_reset_def startTicker_def)
qed

text \<open>
  At most one countdown warning is on the screen, in every run, and none right after an activity.
\<close>

theorem one_warning:
  assumes "idle_run (idle_mount s t0) es l"
    and "store_ok s" "\<And>t. t \<in> set (app_toasts s) \<Longrightarrow> \<not> is_warning t"
  shows "length (filter is_warning (app_toasts (il_store l))) \<le> 1
     \<and> filter is_warning (app_toasts (il_store (idle_step (IActivity now) l))) = []"
proof
  have ok: "warn_ok l" using warnings.inv_run [OF assms(1)] warn_ok_mount assms(2,3) by blast
  then have d: "distinct (map t_id (filter is_warning (app_toasts (il_store l))))"
    and one: "set (map t_id (filter is_warning (app_toasts (il_store l)))) \<subseteq> set_option (il_warn l)"
    by (auto simp: warn_ok_def store_ok_def distinct_map_filter)
  have "card (set_option (il_warn l)) \<le> 1" by (cases "il_warn l") auto
  with card_mono [OF _ one] distinct_card [OF d]
  show "length (filter is_warning (app_toasts (il_store l))) \<le> 1" by (cases "il_warn l") auto
  have "il_warn (idle_reset now l) = None"
    by (simp add: idle_reset_def startTicker_def clearWarn_def split: option.splits)
  moreover have "warn_ok (idle_apply (IActivity now) l)" by (rule warn_ok_apply [OF ok])
  ultimately show "filter is_warning (app_toasts (il_store (idle_step (IActivity now) l))) = []"
    using warn_ok_none by (auto simp: idle_step_def filter_empty_conv)
qed

theorem one_warning_witness:
  "length (filter is_warning (app_toasts (il_store (idle_step (ITick 15000) (idle_mount demo_store 0))))) = 1"
proof -
  let ?l = "idle_step (ITick 15000) (idle_mount demo_store 0)"
  have "idle_run (idle_mount demo_store 0) [ITick 15000] ?l"
    by (rule machine_run_one) (simp add: demo_mount)
  from one_warning [OF this demo_store_facts(6)] have "length (filter is_warning (app_toasts (il_store ?l))) \<le> 1"
    by (simp add: demo_store_facts)
  moreover have "app_toasts (il_store ?l) = [\<lparr>t_id = app_nextId demo_store, t_message = warn_text 15, t_kind = ToastInfo\<rparr>]"
    by (simp add: demo_eval ceil_seconds_def WARNING_LEAD_SECONDS_def show_warning_eq demo_store_facts Let_def)
  then have "0 < length (filter is_warning (app_toasts (il_store ?l)))"
    by (simp add: is_warning_def warn_text_def)
  ultimately show ?thesis by linarith
qed

text \<open>
  A lock request that fails after the hook is gone arms the timer again: nobody hears activity
  any more, and the next beat after the configured time requests the lock once more.
\<close>

theorem failed_lock_rearms_after_cleanup:
  assumes "idle_run (idle_mount s t0) es l" "\<not> il_active l" "0 < il_pending l" "il_clock l \<le> t"
  shows "idle_can (ILockFailed t) l
     \<and> (let l1 = idle_step (ILockFailed t) l; t1 = t + max 0 (il_seconds l) * 1000 in
          idle_can (ITick t1) l1 \<and> \<not> idle_can (IActivity u) l1
        \<and> il_requests (idle_step (ITick t1) l1) = il_requests l @ [(t1, il_activity l)])"
  using assms
  by (auto simp: idle_step_def lock_failed_def startTicker_def heartbeat_def fireLock_def clearTicker_def Let_def)

theorem failed_lock_rearms_after_cleanup_witness:
  "idle_can (ITick 60002) (idle_step (ILockFailed 30002)
     (idle_step (ICleanup 30001) (idle_step (ITick 30000) (idle_mount demo_store 0))))"
proof -
  let ?l = "idle_step (ICleanup 30001) (idle_step (ITick 30000) (idle_mount demo_store 0))"
  have r: "idle_run (idle_mount demo_store 0) [ITick 30000, ICleanup 30001] ?l"
    unfolding machine_run_exec by (simp add: demo_eval)
  have l: "\<not> il_active ?l" "0 < il_pending ?l" "il_clock ?l \<le> 30002" "il_seconds ?l = 30"
    by (simp_all add: demo_eval)
  from failed_lock_rearms_after_cleanup [OF r l(1,2,3)] l(4) show ?thesis by (simp add: Let_def)
qed

section \<open>An idle panel is locked in time\<close>

text \<open>The beats of the ticker after the time \<open>t\<close>, one each second.\<close>

definition beats :: "int \<Rightarrow> nat \<Rightarrow> idle_event list" where
  "beats t n = map (\<lambda>k. ITick (t + int (k + 1) * 1000)) [0..<n]"

lemma beats_Suc: "beats t (Suc n) = beats t n @ [ITick (t + int (n + 1) * 1000)]"
  by (simp add: beats_def)

lemma idle_step_tick: "idle_step (ITick t) l = (heartbeat t l)\<lparr>il_clock := t\<rparr>"
  by (simp add: idle_step_def)

lemma heartbeat_early:
  assumes "now < il_lockAt l" "il_ticker l"
  shows "il_ticker (heartbeat now l)" "il_requests (heartbeat now l) = il_requests l"
    "il_lockAt (heartbeat now l) = il_lockAt l" "il_activity (heartbeat now l) = il_activity l"
  using assms by (simp_all add: heartbeat_def show_warning_def Let_def split: prod.splits)

lemma beats_early:
  assumes "il_ticker l" "il_clock l \<le> t" "t + int n * 1000 < il_lockAt l"
  shows "\<exists>q. machine_exec idle_can idle_step (beats t n) l = Some q \<and> il_ticker q \<and> il_clock q \<le> t + int n * 1000
    \<and> il_requests q = il_requests l \<and> il_lockAt q = il_lockAt l \<and> il_activity q = il_activity l"
  using assms(3)
proof (induction n)
  case 0
  with assms(1,2) show ?case by (simp add: beats_def)
next
  case (Suc n)
  then obtain q where q: "machine_exec idle_can idle_step (beats t n) l = Some q" "il_ticker q"
    "il_clock q \<le> t + int n * 1000" "il_requests q = il_requests l" "il_lockAt q = il_lockAt l"
    "il_activity q = il_activity l" by auto
  have "t + int (n + 1) * 1000 < il_lockAt q" using Suc.prems q(5) by simp
  note h = heartbeat_early [OF this q(2)]
  from q h show ?case
    by (simp add: beats_Suc machine_exec_append idle_step_tick)
qed

definition enabled_ok :: "idle_lock \<Rightarrow> bool" where
  "enabled_ok l \<longleftrightarrow> (il_active l \<longrightarrow> 0 < il_seconds l)"

interpretation enabled: machine_invariant idle_can idle_step enabled_ok
proof
  fix l e assume "enabled_ok l" "idle_can e l"
  then show "enabled_ok (idle_step e l)"
    by (cases e) (auto simp: enabled_ok_def idle_step_def idle_defs Let_def split: prod.splits)
qed

text \<open>
  C8.  An idle panel is locked in time: after any history of the hook, when the user's last activity is at
  a time \<open>t\<close> and the ticker beats each second after it, every beat is delivered, none before the
  configured time requests the lock, and the beat at exactly that time requests it.
\<close>

theorem idle_locks_in_time:
  assumes "idle_run (idle_mount st now) es l" and "il_active l" and "il_clock l \<le> t"
  shows "\<exists>q. machine_exec idle_can idle_step (IActivity t # beats t (nat (il_seconds l))) l = Some q
    \<and> il_requests q = il_requests l @ [(t + il_seconds l * 1000, t)] \<and> 0 < il_pending q"
proof -
  let ?l = "idle_step (IActivity t) l"
  have "enabled_ok (idle_mount st now)"
    by (simp add: enabled_ok_def idle_mount_def idle_enabled_def startTicker_def Let_def)
  with enabled.inv_run [OF assms(1)] assms(2) have pos: "0 < il_seconds l" by (simp add: enabled_ok_def)
  then obtain n where n: "nat (il_seconds l) = Suc n" by (cases "nat (il_seconds l)") auto
  then have secs: "il_seconds l = int n + 1" by linarith
  have l: "il_ticker ?l" "il_clock ?l \<le> t" "il_lockAt ?l = t + il_seconds l * 1000"
    "il_activity ?l = t" "il_requests ?l = il_requests l"
    by (simp_all add: idle_step_def idle_reset_def startTicker_def)
  have "t + int n * 1000 < il_lockAt ?l" using l(3) secs by simp
  from beats_early [OF l(1,2) this] obtain q where q: "machine_exec idle_can idle_step (beats t n) ?l = Some q"
    "il_ticker q" "il_clock q \<le> t + int n * 1000" "il_requests q = il_requests l"
    "il_lockAt q = t + il_seconds l * 1000" "il_activity q = t" using l by auto
  then show ?thesis
    using assms(2,3) unfolding n unfolding secs
    by (simp add: beats_Suc machine_exec_append idle_step_tick heartbeat_def fireLock_def clearTicker_def
        Let_def algebra_simps)
qed

theorem idle_locks_in_time_witness:
  "\<exists>q. machine_exec idle_can idle_step (IActivity 5 # beats 5 30) (idle_mount demo_store 0) = Some q
     \<and> il_requests q = [(30005, 5)]"
proof -
  have l: "il_active (idle_mount demo_store 0)" "il_clock (idle_mount demo_store 0) \<le> 5"
    "il_seconds (idle_mount demo_store 0) = 30" "il_requests (idle_mount demo_store 0) = []"
    by (simp_all add: demo_mount)
  have n: "nat 30 = 30" "[] @ [(5 + 30 * 1000, 5)] = [(30005::int, 5::int)]" by simp_all
  from idle_locks_in_time [OF machine_nil l(1,2)] show ?thesis
    unfolding l(3,4) n by blast
qed

end
