(* ===== verification/Plugins_View.thy ===== *)
theory Plugins_View
  imports Endpoints Format Panel_Meta
begin

text \<open>
  The plugin registry, \<open>web/src/views/Plugins.tsx\<close>: versions and their order, groups, what each
  row offers, the routes plugins contribute.  The locale's string comparison (\<open>localeCompare\<close>)
  is the parameter \<open>lc\<close>.
\<close>

section \<open>Versions\<close>

text \<open>\<open>Number.parseInt(part, 10) || 0\<close>.\<close>

definition parse_int_or_0 :: "string \<Rightarrow> int" where
  "parse_int_or_0 part =
     (let t = trim_start part;
          neg = starts_with t ''-'';
          t = (if neg \<or> starts_with t ''+'' then tl t else t);
          ds = takeWhile is_digit t;
          n = int (parse_nat ds)
      in if ds = [] then 0 else if neg then - n else n)"

definition semverParts :: "string \<Rightarrow> int list" where
  "semverParts version =
     (let v = (if starts_with version ''v'' then tl version else version);
          core = hd (split_on (CHR ''-'') v)
      in map parse_int_or_0 (take 3 (split_on (CHR ''.'') core)))"

definition part_at :: "int list \<Rightarrow> nat \<Rightarrow> int" where
  "part_at xs i = (if i < length xs then xs ! i else 0)"

text \<open>The loop over the three parts, then the comparison of the whole texts.\<close>

fun compare_parts :: "nat list \<Rightarrow> int list \<Rightarrow> int list \<Rightarrow> int" where
  "compare_parts [] left right = 0"
| "compare_parts (i # is) left right =
     (let delta = part_at right i - part_at left i
      in if delta \<noteq> 0 then delta else compare_parts is left right)"

definition compareSemverDesc :: "(string \<Rightarrow> string \<Rightarrow> int) \<Rightarrow> string \<Rightarrow> string \<Rightarrow> int" where
  "compareSemverDesc lc a b =
     (let d = compare_parts [0, 1, 2] (semverParts a) (semverParts b)
      in if d \<noteq> 0 then d else lc b a)"

section \<open>Groups\<close>

record plugin_group =
  pg_id :: string
  pg_name :: string
  pg_versions :: "plugin_version list"
  pg_enabled :: "plugin_version option"
  pg_latest :: "plugin_version option"

definition make_group :: "(string \<Rightarrow> string \<Rightarrow> int) \<Rightarrow> string \<times> plugin_version list \<Rightarrow> plugin_group" where
  "make_group lc g =
     (let sorted = sort_by (\<lambda>a b. compareSemverDesc lc (pv_version a) (pv_version b)) (snd g)
      in \<lparr>pg_id = fst g,
          pg_name = (case sorted of [] \<Rightarrow> fst g | p # ps \<Rightarrow> pv_name p),
          pg_versions = sorted,
          pg_enabled = List.find (\<lambda>p. pv_state p = Enabled) sorted,
          pg_latest = (case sorted of [] \<Rightarrow> None | p # ps \<Rightarrow> Some p)\<rparr>)"

definition groupPlugins :: "(string \<Rightarrow> string \<Rightarrow> int) \<Rightarrow> plugin_version list \<Rightarrow> plugin_group list" where
  "groupPlugins lc rows =
     (let m = group_by pv_plugin_id (filter (\<lambda>r. pv_state r \<noteq> Uninstalled) rows)
      in sort_by (\<lambda>a b. lc (pg_id a) (pg_id b)) (map (make_group lc) m))"

section \<open>Labels\<close>

datatype badge = BadgeOk | BadgeOff | BadgeWarn | BadgeDanger | BadgeInfo

definition stateKind :: "plugin_state \<Rightarrow> badge" where
  "stateKind state =
     (if state = Enabled then BadgeOk
      else if state = Installed then BadgeInfo
      else if ends_with (plugin_state_text state) ''_failed'' then BadgeDanger
      else if state = Enabling \<or> state = Disabling \<or> state = Installing \<or> state = Uninstalling
      then BadgeWarn
      else BadgeOff)"

definition stateLabel :: "string \<Rightarrow> string" where
  "stateLabel state = replace_char (CHR ''_'') (CHR '' '') state"

definition stableForUninstall :: "plugin_state \<Rightarrow> bool" where
  "stableForUninstall state \<longleftrightarrow> state = Installed \<or> state = InstallFailed \<or> state = EnableFailed"

definition capabilityLabels :: "plugin_version \<Rightarrow> string list" where
  "capabilityLabels plugin =
     (let caps = pv_capabilities plugin in
        (case pc_hooks caps of Some (h # hs) \<Rightarrow> [dec_nat (length (h # hs)) @ '' hooks''] | _ \<Rightarrow> [])
      @ (if truthy_bool (pc_loggingSink caps) then [''logging''] else [])
      @ (if truthy_bool (pc_uiSidebar caps) then [''sidebar''] else [])
      @ (if truthy_bool (pc_configSchema caps) then [''config''] else [])
      @ (if truthy_str (pc_rulesAndRoles caps) then [''rules:'' @ the (pc_rulesAndRoles caps)] else []))"

definition sidebarEntries :: "plugin_version \<Rightarrow> plugin_sidebar_entry list" where
  "sidebarEntries plugin =
     nullish (nullish_opt (ui_sidebar (pv_ui plugin)) (Option.bind (pm_ui (pv_manifest plugin)) ui_sidebar)) []"

definition permissions :: "plugin_version \<Rightarrow> string list" where
  "permissions plugin = nullish (pm_permissions (pv_manifest plugin)) []"

definition sourceDisplayLabel :: "string option \<Rightarrow> string" where
  "sourceDisplayLabel sourceType =
     (if \<not> truthy_str sourceType \<or> sourceType = Some ''upload'' then ''upload''
      else if sourceType = Some ''bundled'' then ''built-in''
      else if sourceType = Some ''github-release'' then ''github''
      else if sourceType = Some ''url'' then ''url''
      else the sourceType)"

definition isBundledPlugin :: "plugin_version \<Rightarrow> bool" where
  "isBundledPlugin plugin \<longleftrightarrow> pv_source_type plugin = Some ''bundled''"

definition truncateText :: "string \<Rightarrow> nat \<Rightarrow> string" where
  "truncateText v mx = (if length v \<le> mx then v else take (mx - 1) v @ ellipsis)"

definition truncateSha256 :: "string \<Rightarrow> string" where
  "truncateSha256 digest =
     (if length digest \<le> 16 then digest else take 8 digest @ ellipsis @ slice_last 8 digest)"

definition hasDistribution :: "plugin_version \<Rightarrow> bool" where
  "hasDistribution plugin \<longleftrightarrow> truthy_str (pv_source_type plugin) \<and> pv_source_type plugin \<noteq> Some ''upload''"

text \<open>The pattern of a pasted GitHub release address; decoding the tag may throw.\<close>

definition re_release :: regex where
  "re_release = seqs [LitI ''github.com/'',
     Group 1 (seqs [Plus (Chr (\<lambda>c. c \<noteq> CHR ''/'')), Lit ''/'', Plus (Chr (\<lambda>c. c \<noteq> CHR ''/''))]),
     LitI ''/releases/tag/'', Group 2 (Seq Dot (LStar Dot)), Maybe (Lit ''/''), Eol]"

definition parseGitHubReleasePaste :: "string \<Rightarrow> js_error + (string \<times> string) option" where
  "parseGitHubReleasePaste text =
     (let t = trim_str text in
      case (re_group re_release 1 t, re_group re_release 2 t) of
        (Some repo, Some tag) \<Rightarrow>
          (case decodeURIComponent tag of
             None \<Rightarrow> Inl (OtherError ''URIError'' ''URI malformed'')
           | Some tg \<Rightarrow> Inr (Some (repo, tg)))
      | _ \<Rightarrow> Inr None)"

section \<open>The actions of a row\<close>

datatype plugin_action = ActEnable | ActSwitch | ActDisable | ActUninstall

definition targetEnabledElsewhere :: "plugin_group \<Rightarrow> plugin_version \<Rightarrow> bool" where
  "targetEnabledElsewhere grp plugin \<longleftrightarrow>
     (case pg_enabled grp of None \<Rightarrow> False | Some e \<Rightarrow> pv_version e \<noteq> pv_version plugin)"

definition PluginActions :: "plugin_group \<Rightarrow> plugin_version \<Rightarrow> plugin_action list" where
  "PluginActions grp plugin =
     (if (pv_state plugin = Installed \<or> pv_state plugin = EnableFailed) \<and> \<not> targetEnabledElsewhere grp plugin
      then [ActEnable] else [])
     @ (if (pv_state plugin = Installed \<or> pv_state plugin = EnableFailed) \<and> targetEnabledElsewhere grp plugin
        then [ActSwitch] else [])
     @ (if pv_state plugin = Enabled then [ActDisable] else [])
     @ (if stableForUninstall (pv_state plugin) then [ActUninstall] else [])"

text \<open>What a button asks the server for, and the toast of its success; uninstalling asks the user
  first.\<close>

definition plugin_call :: "plugin_action \<Rightarrow> plugin_version \<Rightarrow> js_error + endpoint" where
  "plugin_call a plugin = (case a of
       ActEnable \<Rightarrow> plugins_enable (pv_plugin_id plugin) (Some (pv_version plugin))
     | ActSwitch \<Rightarrow> plugins_switchVersion (pv_plugin_id plugin) (pv_version plugin)
     | ActDisable \<Rightarrow> plugins_disable (pv_plugin_id plugin)
     | ActUninstall \<Rightarrow> plugins_uninstall (pv_plugin_id plugin) (pv_version plugin))"

definition plugin_done :: "plugin_action \<Rightarrow> plugin_version \<Rightarrow> string" where
  "plugin_done a plugin = pv_name plugin @ (case a of
       ActEnable \<Rightarrow> '' enabled'' | ActSwitch \<Rightarrow> '' switched''
     | ActDisable \<Rightarrow> '' disabled'' | ActUninstall \<Rightarrow> '' uninstalled'')"

text \<open>The outcome of \<open>run\<close>: the toast, whether it is an error, and whether the list reloads.\<close>

definition plugin_run :: "ui_meta option \<Rightarrow> string \<Rightarrow> js_error + payload \<Rightarrow> string \<times> bool \<times> bool" where
  "plugin_run meta message outcome = (case outcome of
       Inr r \<Rightarrow> (message, False, True)
     | Inl err \<Rightarrow> (humanizeError (err_message err) meta, True, False))"

section \<open>The registry's counters and the selected plugin\<close>

definition activeRows :: "plugin_version list \<Rightarrow> plugin_version list" where
  "activeRows rows = filter (\<lambda>r. pv_state r \<noteq> Uninstalled) rows"

definition plugin_stats :: "plugin_version list \<Rightarrow> nat \<times> nat \<times> nat \<times> nat" where
  "plugin_stats rows =
     (let active = activeRows rows
      in (length active, length (filter (\<lambda>r. pv_state r = Enabled) active),
          length (filter (\<lambda>r. ends_with (plugin_state_text (pv_state r)) ''_failed'') active),
          length (filter (\<lambda>r. sidebarEntries r \<noteq> []) active)))"

definition selected_plugin :: "plugin_version list \<Rightarrow> plugin_version option" where
  "selected_plugin rows =
     nullish_opt (List.find (\<lambda>r. pv_state r = Enabled) rows)
       (List.find (\<lambda>r. pv_state r \<noteq> Uninstalled) rows)"

section \<open>Contributed routes\<close>

definition strip_last_slash :: "string \<Rightarrow> string" where
  "strip_last_slash s = (if ends_with s ''/'' then butlast s else s)"

definition parsePluginRoute :: "string \<Rightarrow> (string \<times> string) option" where
  "parsePluginRoute path =
     (case filter (\<lambda>w. w \<noteq> []) (split_on (CHR ''/'') path) of
        p0 # p1 # p2 # rest \<Rightarrow>
          (if p0 = ''plugins''
           then (let pluginID = p1 @ ''/'' @ p2
                 in Some (pluginID, strip_last_slash (''/plugins/'' @ pluginID @ ''/'' @ join ''/'' rest)))
           else None)
      | _ \<Rightarrow> None)"

datatype contribution =
    RouteNotFound
  | PluginMissing
  | PluginDisabled plugin_version bool
  | PluginIntegration plugin_version
  | PluginPage plugin_version string "json option"

definition PluginContributionView :: "string \<Rightarrow> plugin_version list \<Rightarrow> contribution" where
  "PluginContributionView path rows =
     (case parsePluginRoute path of
        None \<Rightarrow> RouteNotFound
      | Some (pluginID, route) \<Rightarrow>
          (let versions = filter (\<lambda>r. pv_plugin_id r = pluginID \<and> pv_state r \<noteq> Uninstalled) rows in
           case versions of
             [] \<Rightarrow> PluginMissing
           | latest # others \<Rightarrow>
               (case List.find (\<lambda>r. pv_state r = Enabled) versions of
                  None \<Rightarrow> PluginDisabled latest (pv_state latest = Installed \<or> pv_state latest = EnableFailed)
                | Some enabled \<Rightarrow>
                    (if ends_with route ''/integration'' then PluginIntegration enabled
                     else PluginPage enabled route
                       (nullish_opt (ui_configSchema (pv_ui enabled))
                         (Option.bind (pm_ui (pv_manifest enabled)) ui_configSchema))))))"

section \<open>Lemmas\<close>

lemma compare_parts_012:
  "compare_parts [0, 1, 2] l r =
     (let d = part_at r 0 - part_at l 0; e = part_at r 1 - part_at l 1; f = part_at r 2 - part_at l 2
      in if d \<noteq> 0 then d else if e \<noteq> 0 then e else f)"
  by (simp add: Let_def)

lemma compareSemverDesc_le:
  "compareSemverDesc lc a b \<le> 0 \<longleftrightarrow>
     (let l = semverParts a; r = semverParts b in
        part_at r 0 < part_at l 0 \<or> (part_at r 0 = part_at l 0 \<and>
       (part_at r 1 < part_at l 1 \<or> (part_at r 1 = part_at l 1 \<and>
       (part_at r 2 < part_at l 2 \<or> (part_at r 2 = part_at l 2 \<and> lc b a \<le> 0))))))"
  unfolding compareSemverDesc_def compare_parts_012 Let_def by auto

sublocale collation \<subseteq> semver: comparator "compareSemverDesc lc"
proof
  show "0 < compareSemverDesc lc x y \<Longrightarrow> compareSemverDesc lc y x \<le> 0" for x y
    using compareSemverDesc_le [of lc x y] compareSemverDesc_le [of lc y x] cmp_antisym [of y x]
    by (auto simp: Let_def)
  show "compareSemverDesc lc x y \<le> 0 \<Longrightarrow> compareSemverDesc lc y z \<le> 0 \<Longrightarrow> compareSemverDesc lc x z \<le> 0" for x y z
    unfolding compareSemverDesc_le Let_def using cmp_trans [of z y x] by auto
qed

sublocale collation \<subseteq> versions: comparator "\<lambda>a b. compareSemverDesc lc (pv_version a) (pv_version b)"
  by unfold_locales (auto intro: semver.cmp_trans semver.cmp_antisym)

sublocale collation \<subseteq> groups: comparator "\<lambda>a b. lc (pg_id a) (pg_id b)"
  by unfold_locales (auto intro: cmp_trans cmp_antisym)

lemma make_group_facts:
  "pg_id (make_group lc (i, rows)) = i"
  "set (pg_versions (make_group lc (i, rows))) = set rows"
  "pg_latest (make_group lc (i, rows)) = (case pg_versions (make_group lc (i, rows)) of [] \<Rightarrow> None | p # ps \<Rightarrow> Some p)"
  "pg_enabled (make_group lc (i, rows)) = List.find (\<lambda>p. pv_state p = Enabled) (pg_versions (make_group lc (i, rows)))"
  "pg_versions (make_group lc (i, rows)) = [] \<longleftrightarrow> rows = []"
  by (simp_all add: make_group_def Let_def)

lemma set_groupPlugins:
  "set (groupPlugins lc rows) =
     make_group lc ` set (group_by pv_plugin_id (filter (\<lambda>r. pv_state r \<noteq> Uninstalled) rows))"
  by (simp add: groupPlugins_def)

text \<open>What every group is, whatever the comparison.\<close>

lemma groupPlugins_member:
  assumes "g \<in> set (groupPlugins lc rows)"
  shows "set (pg_versions g) = {r \<in> set rows. pv_state r \<noteq> Uninstalled \<and> pv_plugin_id r = pg_id g}"
    and "pg_versions g \<noteq> []"
proof -
  from assms obtain i vs where g: "(i, vs) \<in> set (group_by pv_plugin_id (filter (\<lambda>r. pv_state r \<noteq> Uninstalled) rows))"
    "g = make_group lc (i, vs)" by (auto simp: set_groupPlugins)
  from group_by_sound [OF g(1)] g(2)
  show "set (pg_versions g) = {r \<in> set rows. pv_state r \<noteq> Uninstalled \<and> pv_plugin_id r = pg_id g}"
    and "pg_versions g \<noteq> []"
    by (auto simp: make_group_facts filter_empty_conv)
qed

lemma groupPlugins_ids:
  "pg_id ` set (groupPlugins lc rows) = pv_plugin_id ` {r \<in> set rows. pv_state r \<noteq> Uninstalled}"
proof -
  have "pg_id ` set (groupPlugins lc rows) =
      fst ` set (group_by pv_plugin_id (filter (\<lambda>r. pv_state r \<noteq> Uninstalled) rows))"
    by (force simp: set_groupPlugins make_group_facts image_image)
  then show ?thesis by (simp add: group_by_keys)
qed

lemma distinct_group_ids: "distinct (map pg_id (groupPlugins lc rows))"
proof -
  have "pg_id \<circ> make_group lc = fst" by (rule ext) (auto simp: make_group_facts)
  then show ?thesis by (simp add: groupPlugins_def)
qed

context collation
begin

lemma group_sorted:
  assumes "g \<in> set (groupPlugins lc rows)"
  shows "sorted_wrt (\<lambda>a b. compareSemverDesc lc (pv_version a) (pv_version b) \<le> 0) (pg_versions g)"
  using assms versions.sorted_sort_by by (auto simp: set_groupPlugins make_group_def Let_def)

lemma groups_sorted: "sorted_wrt (\<lambda>a b. lc (pg_id a) (pg_id b) \<le> 0) (groupPlugins lc rows)"
  by (simp add: groupPlugins_def groups.sorted_sort_by)

lemma latest_least:
  assumes "g \<in> set (groupPlugins lc rows)" "r \<in> set (pg_versions g)"
  shows "\<exists>p. pg_latest g = Some p \<and> compareSemverDesc lc (pv_version p) (pv_version r) \<le> 0"
proof -
  from assms(1) obtain i vs where g: "g = make_group lc (i, vs)" by (auto simp: set_groupPlugins)
  obtain p ps where p: "pg_versions g = p # ps" using assms(2) by (cases "pg_versions g") auto
  then have "pg_latest g = Some p" using g by (simp add: make_group_facts)
  moreover have "compareSemverDesc lc (pv_version p) (pv_version r) \<le> 0"
    using group_sorted [OF assms(1)] assms(2) p versions.cmp_refl by auto
  ultimately show ?thesis by blast
qed

end

lemma semverParts_prerelease:
  "CHR ''-'' \<notin> set v \<Longrightarrow> v \<noteq> [] \<Longrightarrow> semverParts (v @ CHR ''-'' # pre) = semverParts v"
proof -
  assume v: "CHR ''-'' \<notin> set v" "v \<noteq> []"
  then obtain c u where cu: "v = c # u" by (cases v) auto
  have "CHR ''-'' \<notin> set u" using v cu by simp
  with v cu show ?thesis
    by (simp add: semverParts_def split_on_id split_on_append [of _ "c # u", simplified] split_on_append Let_def)
qed

section \<open>Properties\<close>


definition demo_plugin :: "string \<Rightarrow> plugin_state \<Rightarrow> plugin_version" where
  "demo_plugin v st = \<lparr>pv_id = 1, pv_plugin_id = ''acme/x'', pv_version = v, pv_name = ''X'', pv_tier = 1,
     pv_api_version = ''1'', pv_min_gosite_version = None, pv_rpc_version = None, pv_config_version = None,
     pv_artifact_digest = [], pv_state = st, pv_failure_class = None, pv_failure_message = None,
     pv_failure_at = None,
     pv_manifest = \<lparr>pm_id = None, pm_name = None, pm_version = None, pm_tier = None, pm_apiVersion = None,
       pm_minGoSiteVersion = None, pm_rpcVersion = None, pm_configVersion = None, pm_capabilities = None,
       pm_permissions = None, pm_entrypoints = None, pm_artifact_sha256 = None, pm_signatures = None,
       pm_ui = None\<rparr>,
     pv_capabilities = \<lparr>pc_hooks = None, pc_hookIsolation = None, pc_uiSidebar = None,
       pc_configSchema = None, pc_loggingSink = None, pc_rulesAndRoles = None\<rparr>,
     pv_ui = \<lparr>ui_sidebar = None, ui_configSchema = None\<rparr>, pv_source_type = None, pv_source_ref = None,
     pv_resolved_url = None, pv_install_path = None, pv_source_commit = None, pv_permissions_ack_at = None,
     pv_install_log = None, pv_created_at = [], pv_updated_at = []\<rparr>"

lemma demo_plugin_facts:
  "pv_plugin_id (demo_plugin v st) = ''acme/x''" "pv_version (demo_plugin v st) = v"
  "pv_state (demo_plugin v st) = st"
  by (simp_all add: demo_plugin_def)


text \<open>
  A pre-release is taken for the latest version: the comparison drops what follows the hyphen,
  and the tie is broken by the text, in which the longer pre-release comes first; semantic versioning
  orders them the other way.
\<close>

theorem prerelease_listed_first:
  assumes "CHR ''-'' \<notin> set v" "v \<noteq> []" "lc v (v @ CHR ''-'' # pre) < 0"
    and "pv_plugin_id r = pv_plugin_id q" "pv_version r = v" "pv_version q = v @ CHR ''-'' # pre"
    and "pv_state r \<noteq> Uninstalled" "pv_state q \<noteq> Uninstalled" "0 < lc (v @ CHR ''-'' # pre) v"
  shows "map pg_latest (groupPlugins lc [r, q]) = [Some q]"
proof -
  have "compareSemverDesc lc v (v @ CHR ''-'' # pre) = lc (v @ CHR ''-'' # pre) v"
    using semverParts_prerelease [OF assms(1,2)] by (simp add: compareSemverDesc_def compare_parts_012 Let_def)
  with assms show ?thesis
    by (simp add: groupPlugins_def group_by_def group_step_def make_group_def sort_by_simps Let_def)
qed

theorem prerelease_listed_first_witness:
  "map pg_latest (groupPlugins str_cmp [demo_plugin ''1.0.0'' Installed, demo_plugin ''1.0.0-rc1'' Installed])
     = [Some (demo_plugin ''1.0.0-rc1'' Installed)]"
  using prerelease_listed_first [of "''1.0.0''" str_cmp "''rc1''" "demo_plugin ''1.0.0'' Installed"
      "demo_plugin ''1.0.0-rc1'' Installed"]
  by (simp add: demo_plugin_facts)

text \<open>
  No row offers an action its state does not allow: a transitional state offers nothing, an
  enabled version only its disabling, uninstalling is never offered for an enabled version, and of
  enabling and switching exactly one is offered, switching exactly when another version is enabled.
\<close>

theorem plugin_actions_safe:
  "(pv_state p \<in> {Installing, Enabling, Disabling, Uninstalling, Uninstalled} \<longrightarrow> PluginActions g p = [])
   \<and> (pv_state p = Enabled \<longleftrightarrow> PluginActions g p = [ActDisable])
   \<and> (ActUninstall \<in> set (PluginActions g p) \<longleftrightarrow> pv_state p \<in> {Installed, InstallFailed, EnableFailed})
   \<and> (pv_state p \<in> {Installed, EnableFailed} \<longrightarrow>
        (ActSwitch \<in> set (PluginActions g p) \<longleftrightarrow>
           (\<exists>e. pg_enabled g = Some e \<and> pv_version e \<noteq> pv_version p))
      \<and> (ActEnable \<in> set (PluginActions g p) \<longleftrightarrow> ActSwitch \<notin> set (PluginActions g p)))
   \<and> (stateKind (pv_state p) = BadgeDanger \<longleftrightarrow> pv_state p \<in> {InstallFailed, EnableFailed})"
  by (cases "pv_state p")
    (auto simp: PluginActions_def targetEnabledElsewhere_def stableForUninstall_def stateKind_def
      ends_with_def split: option.splits)

theorem plugin_actions_safe_witness:
  "PluginActions (make_group str_cmp (''acme/x'', [demo_plugin ''1'' Enabled])) (demo_plugin ''1'' Enabled) = [ActDisable]"
  using plugin_actions_safe [of "demo_plugin ''1'' Enabled"] by (simp add: demo_plugin_facts)

end
