(* ===== verification/Plugin_Install.thy ===== *)
theory Plugin_Install
  imports Plugins_View App_Store Machine
begin

text \<open>
  The install dialog of \<open>web/src/views/Plugins.tsx\<close> (\<open>InstallModal\<close>): its fields, the
  asynchronous resolution of a remote source into a preview, the acknowledgement of the plugin's
  permissions, and the install request.  Requests are a ghost list.  \<open>im_source\<close> and
  \<open>im_ackedFor\<close> are ghosts too: the source the shown preview was resolved from, and the preview
  the box was ticked for.
\<close>

datatype install_mode = MArtifact | MUrl | MGithub | MGitlab | MCatalog | MManifest

definition HOST_CRITICAL_PERMS :: "string list" where
  "HOST_CRITICAL_PERMS = [''docker:manage'', ''nginx:modify'', ''ssl:issue'', ''filesystem:write'']"

datatype install_request =
    RqResolve plugin_install_source
  | RqFile string "string option"
  | RqManifest string "string option"
  | RqRemote plugin_install_source bool "string option"

record install_modal =
  im_mode :: install_mode
  im_remoteEnabled :: bool
  im_file :: "string option"
  im_sha256 :: string
  im_manifest :: string
  im_url :: string
  im_urlSha256 :: string
  im_repo :: string
  im_tag :: string
  im_gitlabRepo :: string
  im_gitlabTag :: string
  im_catalogQuery :: string
  im_catalogEntry :: "plugin_catalog_entry option"
  im_preview :: "plugin_resolve_preview option"
  im_permissionsAck :: bool
  im_resolving :: "plugin_install_source option"
  im_installing :: bool
  im_toasts :: "(string \<times> toast_kind) list"
  im_open :: bool
  im_requests :: "install_request list"
  im_source :: "plugin_install_source option"
  im_ackedFor :: "plugin_resolve_preview option"

definition install_init :: install_modal where
  "install_init = \<lparr>im_mode = MArtifact, im_remoteEnabled = False, im_file = None, im_sha256 = [],
     im_manifest = [], im_url = [], im_urlSha256 = [], im_repo = [], im_tag = [], im_gitlabRepo = [],
     im_gitlabTag = [], im_catalogQuery = [], im_catalogEntry = None, im_preview = None,
     im_permissionsAck = False, im_resolving = None, im_installing = False, im_toasts = [],
     im_open = True, im_requests = [], im_source = None, im_ackedFor = None\<rparr>"

definition isRemoteMode :: "install_mode \<Rightarrow> bool" where
  "isRemoteMode m \<longleftrightarrow> m = MUrl \<or> m = MGithub \<or> m = MGitlab \<or> m = MCatalog"

definition catalogBundled :: "install_modal \<Rightarrow> bool" where
  "catalogBundled s \<longleftrightarrow> im_mode s = MCatalog \<and> truthy_bool (Option.bind (im_catalogEntry s) ce_bundled)"

definition catalogInstalled :: "plugin_version list \<Rightarrow> install_modal \<Rightarrow> bool" where
  "catalogInstalled rows s = (case im_catalogEntry s of
       None \<Rightarrow> False
     | Some e \<Rightarrow> list_ex (\<lambda>r. pv_plugin_id r = ce_plugin_id e \<and> pv_state r \<noteq> Uninstalled) rows)"

definition install_toast :: "string \<Rightarrow> toast_kind \<Rightarrow> install_modal \<Rightarrow> install_modal" where
  "install_toast m k s = s\<lparr>im_toasts := im_toasts s @ [(m, k)]\<rparr>"

text \<open>The effect: a host without remote installs falls back to the artifact tab.\<close>

definition install_effect :: "install_modal \<Rightarrow> install_modal" where
  "install_effect s =
     (if \<not> im_remoteEnabled s \<and> isRemoteMode (im_mode s) then s\<lparr>im_mode := MArtifact\<rparr> else s)"

definition switchMode :: "install_mode \<Rightarrow> install_modal \<Rightarrow> install_modal" where
  "switchMode next s =
     install_effect (s\<lparr>im_mode := next, im_preview := None, im_permissionsAck := False, im_catalogEntry := None\<rparr>)"

section \<open>Resolving\<close>

definition remote_source :: "install_source_type \<Rightarrow> string \<Rightarrow> string \<Rightarrow> plugin_install_source" where
  "remote_source ty repo tag =
     \<lparr>is_type = ty, is_url = None, is_sha256 = None, is_repo = Some (trim_str repo), is_tag = Some (trim_str tag)\<rparr>"

definition url_source :: "install_modal \<Rightarrow> plugin_install_source" where
  "url_source s = \<lparr>is_type = SrcUrl, is_url = Some (trim_str (im_url s)),
     is_sha256 = Some (trim_str (im_urlSha256 s)), is_repo = None, is_tag = None\<rparr>"

definition plain_error :: "string \<Rightarrow> js_error" where
  "plain_error m = OtherError ''Error'' m"

definition bundled_error :: js_error where
  "bundled_error = plain_error (''Built-in plugins are seeded on init '' @ em_dash @ '' enable from the registry'')"

definition resolve_source :: "install_modal \<Rightarrow> js_error + plugin_install_source" where
  "resolve_source s = (case im_mode s of
       MUrl \<Rightarrow> Inr (url_source s)
     | MGitlab \<Rightarrow> Inr (remote_source SrcGitlabRelease (im_gitlabRepo s) (im_gitlabTag s))
     | MCatalog \<Rightarrow> (case im_catalogEntry s of
           None \<Rightarrow> Inl (plain_error ''Select a catalog entry first'')
         | Some e \<Rightarrow> (if truthy_bool (ce_bundled e) then Inl bundled_error else Inr (ce_source e)))
     | _ \<Rightarrow> Inr (remote_source SrcGithubRelease (im_repo s) (im_tag s)))"

definition resolve_failed :: "ui_meta option \<Rightarrow> js_error \<Rightarrow> install_modal \<Rightarrow> install_modal" where
  "resolve_failed meta err s =
     install_toast (humanizeError (err_message err) meta) ToastError (s\<lparr>im_preview := None, im_source := None\<rparr>)"

text \<open>The handler up to its \<open>await\<close>, and its end.\<close>

definition resolve_start :: "ui_meta option \<Rightarrow> install_modal \<Rightarrow> install_modal" where
  "resolve_start meta s = (case resolve_source s of
       Inl err \<Rightarrow> resolve_failed meta err s
     | Inr source \<Rightarrow> s\<lparr>im_resolving := Some source, im_requests := im_requests s @ [RqResolve source]\<rparr>)"

definition resolve_end :: "ui_meta option \<Rightarrow> js_error + plugin_resolve_preview option \<Rightarrow> install_modal \<Rightarrow> install_modal" where
  "resolve_end meta outcome s = (case outcome of
       Inr p \<Rightarrow> s\<lparr>im_resolving := None, im_preview := p, im_permissionsAck := False, im_source := im_resolving s\<rparr>
     | Inl err \<Rightarrow> resolve_failed meta err (s\<lparr>im_resolving := None\<rparr>))"

section \<open>Installing\<close>

definition or_undefined :: "string \<Rightarrow> string option" where
  "or_undefined s = (if trim_str s = [] then None else Some (trim_str s))"

definition remote_request :: "string \<Rightarrow> plugin_install_source \<Rightarrow> install_modal \<Rightarrow> js_error + install_request" where
  "remote_request missing source s = (case im_preview s of
       None \<Rightarrow> Inl (plain_error missing)
     | Some p \<Rightarrow>
         (if \<not> im_permissionsAck s then Inl (plain_error ''Acknowledge plugin permissions first'')
          else Inr (RqRemote source True (pp_resolveToken p))))"

text \<open>The request of \<open>submit\<close>; \<open>json_ok\<close> is whether \<open>JSON.parse(manifest)\<close> succeeds.\<close>

definition submit_request :: "(string \<Rightarrow> string option) \<Rightarrow> install_modal \<Rightarrow> js_error + install_request" where
  "submit_request json_error s = (case im_mode s of
       MArtifact \<Rightarrow> (case im_file s of
           None \<Rightarrow> Inl (plain_error ''Choose an artifact first'')
         | Some f \<Rightarrow> Inr (RqFile f (or_undefined (im_sha256 s))))
     | MManifest \<Rightarrow> (case json_error (im_manifest s) of
           Some m \<Rightarrow> Inl (OtherError ''SyntaxError'' m)
         | None \<Rightarrow> Inr (RqManifest (im_manifest s) (or_undefined (im_sha256 s))))
     | MUrl \<Rightarrow> remote_request ''Resolve the URL before installing'' (url_source s) s
     | MGitlab \<Rightarrow> remote_request ''Resolve the release before installing''
         (remote_source SrcGitlabRelease (im_gitlabRepo s) (im_gitlabTag s)) s
     | MCatalog \<Rightarrow>
         (if truthy_bool (Option.bind (im_catalogEntry s) ce_bundled) then Inl bundled_error
          else (case im_catalogEntry s of
              None \<Rightarrow> Inl (plain_error ''Resolve the catalog entry before installing'')
            | Some e \<Rightarrow> remote_request ''Resolve the catalog entry before installing'' (ce_source e) s))
     | MGithub \<Rightarrow> remote_request ''Resolve the release before installing''
         (remote_source SrcGithubRelease (im_repo s) (im_tag s)) s)"

definition submit_failed :: "ui_meta option \<Rightarrow> js_error \<Rightarrow> install_modal \<Rightarrow> install_modal" where
  "submit_failed meta err s = install_toast (humanizeError (err_message err) meta) ToastError s"

definition submit_start :: "ui_meta option \<Rightarrow> (string \<Rightarrow> string option) \<Rightarrow> install_modal \<Rightarrow> install_modal" where
  "submit_start meta json_error s = (case submit_request json_error s of
       Inl err \<Rightarrow> submit_failed meta err s
     | Inr rq \<Rightarrow> s\<lparr>im_installing := True, im_requests := im_requests s @ [rq]\<rparr>)"

definition submit_end :: "ui_meta option \<Rightarrow> js_error option \<Rightarrow> install_modal \<Rightarrow> install_modal" where
  "submit_end meta failure s = (case failure of
       Some err \<Rightarrow> submit_failed meta err (s\<lparr>im_installing := False\<rparr>)
     | None \<Rightarrow> install_toast ''Plugin installed'' ToastInfo (s\<lparr>im_installing := False, im_open := False\<rparr>))"

definition installDisabled :: "install_modal \<Rightarrow> bool" where
  "installDisabled s \<longleftrightarrow> im_installing s \<or> catalogBundled s
     \<or> (isRemoteMode (im_mode s) \<and> (im_preview s = None \<or> \<not> im_permissionsAck s
          \<or> (im_mode s = MCatalog \<and> im_catalogEntry s = None)))"

text \<open>Whether the Resolve button of the tab is enabled.\<close>

definition resolveEnabled :: "install_modal \<Rightarrow> bool" where
  "resolveEnabled s \<longleftrightarrow> im_resolving s = None \<and> (case im_mode s of
       MUrl \<Rightarrow> trim_str (im_url s) \<noteq> [] \<and> trim_str (im_urlSha256 s) \<noteq> []
     | MGithub \<Rightarrow> trim_str (im_repo s) \<noteq> [] \<and> trim_str (im_tag s) \<noteq> []
     | MGitlab \<Rightarrow> trim_str (im_gitlabRepo s) \<noteq> [] \<and> trim_str (im_gitlabTag s) \<noteq> []
     | MCatalog \<Rightarrow> im_catalogEntry s \<noteq> None \<and> \<not> catalogBundled s
     | _ \<Rightarrow> False)"

section \<open>The inputs\<close>

definition clear_preview :: "install_modal \<Rightarrow> install_modal" where
  "clear_preview s = s\<lparr>im_preview := None\<rparr>"

text \<open>A field of the dialog; those of a remote source clear the preview.\<close>

datatype install_field = FUrl string | FUrlSha string | FRepo string | FTag string | FGitlabRepo string
  | FGitlabTag string | FSha string | FManifest string | FArtifact "string option" | FQuery string

fun install_input :: "install_field \<Rightarrow> install_modal \<Rightarrow> install_modal" where
  "install_input (FUrl v) s = clear_preview (s\<lparr>im_url := v\<rparr>)"
| "install_input (FUrlSha v) s = clear_preview (s\<lparr>im_urlSha256 := v\<rparr>)"
| "install_input (FRepo v) s = clear_preview (s\<lparr>im_repo := v\<rparr>)"
| "install_input (FTag v) s = clear_preview (s\<lparr>im_tag := v\<rparr>)"
| "install_input (FGitlabRepo v) s = clear_preview (s\<lparr>im_gitlabRepo := v\<rparr>)"
| "install_input (FGitlabTag v) s = clear_preview (s\<lparr>im_gitlabTag := v\<rparr>)"
| "install_input (FSha v) s = s\<lparr>im_sha256 := v\<rparr>"
| "install_input (FManifest v) s = s\<lparr>im_manifest := v\<rparr>"
| "install_input (FArtifact f) s = s\<lparr>im_file := f\<rparr>"
| "install_input (FQuery v) s = s\<lparr>im_catalogQuery := v\<rparr>"

definition install_paste :: "string \<Rightarrow> install_modal \<Rightarrow> install_modal" where
  "install_paste text s = (case parseGitHubReleasePaste text of
       Inr (Some (repo, tag)) \<Rightarrow>
         (if repo = [] then s
          else (let s = s\<lparr>im_repo := repo\<rparr>;
                    s = (if tag \<noteq> [] then s\<lparr>im_tag := tag\<rparr> else s)
                in clear_preview s))
     | _ \<Rightarrow> s)"

definition pick_entry :: "plugin_catalog_entry \<Rightarrow> install_modal \<Rightarrow> install_modal" where
  "pick_entry e s = s\<lparr>im_catalogEntry := Some e, im_preview := None, im_permissionsAck := False\<rparr>"

definition setPermissionsAck :: "bool \<Rightarrow> install_modal \<Rightarrow> install_modal" where
  "setPermissionsAck v s =
     s\<lparr>im_permissionsAck := v, im_ackedFor := (if v then im_preview s else im_ackedFor s)\<rparr>"

datatype install_event = IeSettings bool | IeMode install_mode | IeInput install_field | IePaste string
  | IeEntry plugin_catalog_entry | IeResolve | IeResolved "js_error + plugin_resolve_preview option"
  | IeAck bool | IeSubmit | IeInstalled "js_error option"

text \<open>What the dialog lets happen: tabs of remote modes need remote installs, buttons need to be
  enabled, the box is on the preview card, and answers need a request in flight.\<close>

fun install_can :: "install_event \<Rightarrow> install_modal \<Rightarrow> bool" where
  "install_can (IeSettings v) s = True"
| "install_can (IeMode m) s = (isRemoteMode m \<longrightarrow> im_remoteEnabled s)"
| "install_can (IeInput f) s = True"
| "install_can (IePaste t) s = (im_mode s = MGithub)"
| "install_can (IeEntry e) s = (im_mode s = MCatalog)"
| "install_can IeResolve s = resolveEnabled s"
| "install_can (IeResolved r) s = (im_resolving s \<noteq> None)"
| "install_can (IeAck v) s = (im_preview s \<noteq> None \<and> isRemoteMode (im_mode s))"
| "install_can IeSubmit s = (\<not> installDisabled s)"
| "install_can (IeInstalled f) s = im_installing s"

fun install_step :: "ui_meta option \<Rightarrow> (string \<Rightarrow> string option) \<Rightarrow> install_event \<Rightarrow> install_modal \<Rightarrow> install_modal" where
  "install_step meta je (IeSettings v) s = install_effect (s\<lparr>im_remoteEnabled := v\<rparr>)"
| "install_step meta je (IeMode m) s = switchMode m s"
| "install_step meta je (IeInput f) s = install_input f s"
| "install_step meta je (IePaste t) s = install_paste t s"
| "install_step meta je (IeEntry e) s = pick_entry e s"
| "install_step meta je IeResolve s = resolve_start meta s"
| "install_step meta je (IeResolved r) s = resolve_end meta r s"
| "install_step meta je (IeAck v) s = setPermissionsAck v s"
| "install_step meta je IeSubmit s = submit_start meta je s"
| "install_step meta je (IeInstalled f) s = submit_end meta f s"

abbreviation install_run :: "ui_meta option \<Rightarrow> (string \<Rightarrow> string option) \<Rightarrow> install_event list \<Rightarrow> install_modal \<Rightarrow> bool" where
  "install_run meta je \<equiv> machine_run (\<lambda>e s. im_open s \<and> install_can e s) (install_step meta je) install_init"

section \<open>Lemmas\<close>

lemmas install_defs = install_effect_def switchMode_def resolve_failed_def resolve_end_def resolve_start_def
  install_toast_def submit_failed_def submit_start_def submit_end_def clear_preview_def install_paste_def
  pick_entry_def setPermissionsAck_def

text \<open>A ticked box was ticked for the preview that is shown.\<close>

definition ack_inv :: "install_modal \<Rightarrow> bool" where
  "ack_inv s \<longleftrightarrow> (\<forall>p. im_permissionsAck s \<longrightarrow> im_preview s = Some p \<longrightarrow> im_ackedFor s = Some p)"

lemma ack_inv_input: "ack_inv s \<Longrightarrow> ack_inv (install_input f s)"
  by (cases f) (simp_all add: ack_inv_def clear_preview_def)

lemma ack_inv_step: "ack_inv s \<Longrightarrow> ack_inv (install_step meta je e s)"
proof (cases e)
  case (IeInput f)
  assume "ack_inv s"
  with IeInput show ?thesis by (simp add: ack_inv_input)
next
  case (IeResolved r)
  assume "ack_inv s"
  with IeResolved show ?thesis by (auto simp: ack_inv_def install_defs split: sum.splits)
qed (auto simp: ack_inv_def install_defs Let_def split: sum.splits option.splits)

interpretation ack: started_machine "\<lambda>e s. im_open s \<and> install_can e s" "install_step meta je" ack_inv install_init for meta je
  by unfold_locales (erule ack_inv_step, simp add: ack_inv_def install_init_def)

lemma resolve_source_cong:
  "im_mode t = im_mode s \<Longrightarrow> im_url t = im_url s \<Longrightarrow> im_urlSha256 t = im_urlSha256 s \<Longrightarrow> im_repo t = im_repo s \<Longrightarrow>
     im_tag t = im_tag s \<Longrightarrow> im_gitlabRepo t = im_gitlabRepo s \<Longrightarrow> im_gitlabTag t = im_gitlabTag s \<Longrightarrow>
     im_catalogEntry t = im_catalogEntry s \<Longrightarrow> resolve_source t = resolve_source s"
  by (cases "im_mode s") (simp_all add: resolve_source_def url_source_def split: option.splits)

text \<open>In a remote mode the request asks for the source the fields name, and carries the token of
  the preview.\<close>

lemma submit_remote:
  assumes "isRemoteMode (im_mode s)" "\<not> installDisabled s"
  shows "\<exists>p src. im_preview s = Some p \<and> im_permissionsAck s \<and> resolve_source s = Inr src
     \<and> submit_request je s = Inr (RqRemote src True (pp_resolveToken p))"
proof -
  from assms obtain p where p: "im_preview s = Some p" "im_permissionsAck s" "\<not> catalogBundled s"
    "im_mode s = MCatalog \<longrightarrow> im_catalogEntry s \<noteq> None"
    by (auto simp: installDisabled_def)
  from assms(1) consider "im_mode s = MUrl" | "im_mode s = MGithub" | "im_mode s = MGitlab" | "im_mode s = MCatalog"
    by (auto simp: isRemoteMode_def)
  then show ?thesis
    by cases (use p in \<open>auto simp: submit_request_def remote_request_def resolve_source_def catalogBundled_def\<close>)
qed

text \<open>Runs in which nothing of the form changes while a resolution is in flight.\<close>

fun edits :: "install_event \<Rightarrow> bool" where
  "edits (IeMode m) = True"
| "edits (IeInput f) = True"
| "edits (IePaste t) = True"
| "edits (IeEntry e) = True"
| "edits _ = False"

abbreviation quiet_run :: "ui_meta option \<Rightarrow> (string \<Rightarrow> string option) \<Rightarrow> install_event list \<Rightarrow> install_modal \<Rightarrow> bool" where
  "quiet_run meta je \<equiv> machine_run (\<lambda>e s. (im_open s \<and> install_can e s) \<and> (edits e \<longrightarrow> im_resolving s = None))
     (install_step meta je) install_init"

lemma quiet_is_run: "quiet_run meta je es s \<Longrightarrow> install_run meta je es s"
  by (erule machine_run_mono) blast

definition source_inv :: "install_modal \<Rightarrow> bool" where
  "source_inv s \<longleftrightarrow> (isRemoteMode (im_mode s) \<longrightarrow>
       (im_preview s \<noteq> None \<longrightarrow> (\<exists>src. im_source s = Some src \<and> resolve_source s = Inr src))
     \<and> (\<forall>src. im_resolving s = Some src \<longrightarrow> resolve_source s = Inr src))"

lemma source_inv_input:
  "source_inv s \<Longrightarrow> im_resolving s = None \<Longrightarrow> source_inv (install_input f s)"
  by (cases f) (auto simp: source_inv_def clear_preview_def resolve_source_def url_source_def split: install_mode.splits)

lemma source_inv_cong:
  "im_preview t = im_preview s \<Longrightarrow> im_source t = im_source s \<Longrightarrow> im_resolving t = im_resolving s \<Longrightarrow>
     im_mode t = im_mode s \<Longrightarrow> resolve_source t = resolve_source s \<Longrightarrow> source_inv s \<Longrightarrow> source_inv t"
  by (simp add: source_inv_def)

lemma source_inv_step:
  assumes s: "source_inv s" "install_can e s" "edits e \<longrightarrow> im_resolving s = None"
  shows "source_inv (install_step meta je e s)"
proof (cases e)
  case (IeSettings v)
  have "resolve_source (s\<lparr>im_remoteEnabled := v\<rparr>) = resolve_source s" by (rule resolve_source_cong) simp_all
  then have "source_inv (s\<lparr>im_remoteEnabled := v\<rparr>)" using s(1) by (rule_tac source_inv_cong [of _ s]) simp_all
  with IeSettings show ?thesis by (auto simp: install_effect_def source_inv_def isRemoteMode_def)
next
  case (IeMode m)
  with s show ?thesis by (auto simp: switchMode_def install_effect_def source_inv_def)
next
  case (IeInput f)
  with s show ?thesis by (simp add: source_inv_input)
next
  case (IePaste t)
  with s show ?thesis
    by (auto simp: install_paste_def clear_preview_def source_inv_def Let_def split: sum.splits option.splits)
next
  case (IeEntry en)
  with s show ?thesis by (simp add: pick_entry_def source_inv_def)
next
  case IeResolve
  show ?thesis
  proof (cases "resolve_source s")
    case (Inl err)
    with IeResolve s show ?thesis
      by (auto simp: resolve_start_def resolve_failed_def install_toast_def source_inv_def resolveEnabled_def)
  next
    case (Inr src)
    have c: "resolve_source (s\<lparr>im_resolving := Some src, im_requests := im_requests s @ [RqResolve src]\<rparr>) = resolve_source s"
      by (rule resolve_source_cong) simp_all
    with Inr IeResolve s(1) show ?thesis by (auto simp: resolve_start_def source_inv_def)
  qed
next
  case (IeResolved r)
  show ?thesis
  proof (cases r)
    case (Inl err)
    with IeResolved show ?thesis
      by (auto simp: resolve_end_def resolve_failed_def install_toast_def source_inv_def)
  next
    case (Inr p)
    obtain src where src: "im_resolving s = Some src" using IeResolved s(2) by auto
    have c: "resolve_source (s\<lparr>im_resolving := None, im_preview := p, im_permissionsAck := False, im_source := Some src\<rparr>) = resolve_source s"
      by (rule resolve_source_cong) simp_all
    with Inr IeResolved s(1) src show ?thesis by (auto simp: resolve_end_def source_inv_def)
  qed
next
  case (IeAck v)
  have "resolve_source (setPermissionsAck v s) = resolve_source s"
    by (rule resolve_source_cong) (simp_all add: setPermissionsAck_def)
  with IeAck s(1) show ?thesis by (simp add: source_inv_def setPermissionsAck_def)
next
  case IeSubmit
  have "resolve_source (submit_start meta je s) = resolve_source s"
    by (rule resolve_source_cong) (auto simp: submit_start_def submit_failed_def install_toast_def split: sum.splits)
  with IeSubmit s(1) show ?thesis
    by (auto simp: source_inv_def submit_start_def submit_failed_def install_toast_def split: sum.splits)
next
  case (IeInstalled f)
  have "resolve_source (submit_end meta f s) = resolve_source s"
    by (rule resolve_source_cong) (auto simp: submit_end_def submit_failed_def install_toast_def split: option.splits)
  with IeInstalled s(1) show ?thesis
    by (auto simp: source_inv_def submit_end_def submit_failed_def install_toast_def split: option.splits)
qed

interpretation source: started_machine "\<lambda>e s. (im_open s \<and> install_can e s) \<and> (edits e \<longrightarrow> im_resolving s = None)"
  "install_step meta je" source_inv install_init for meta je
  by unfold_locales (erule source_inv_step, blast+, simp add: source_inv_def install_init_def isRemoteMode_def)

section \<open>Properties\<close>

text \<open>
  C12.  No remote plugin is installed without consent: in every run, when the install button of a
  remote tab can be pressed, the one request it sends carries the token of the preview on the screen,
  and the user has ticked the permissions box for exactly this preview; a built-in plugin is never
  requested.
\<close>

theorem install_needs_ack:
  assumes "install_run meta je es s" "im_open s" "install_can IeSubmit s" "isRemoteMode (im_mode s)"
  shows "\<exists>p src. im_preview s = Some p \<and> im_ackedFor s = Some p \<and> \<not> catalogBundled s
     \<and> im_requests (install_step meta je IeSubmit s) = im_requests s @ [RqRemote src True (pp_resolveToken p)]"
proof -
  have d: "\<not> installDisabled s" using assms(3) by simp
  from submit_remote [OF assms(4) d, of je] obtain p src where p: "im_preview s = Some p" "im_permissionsAck s"
    "submit_request je s = Inr (RqRemote src True (pp_resolveToken p))" by blast
  moreover have "im_ackedFor s = Some p" using ack.inv_reachable [OF assms(1)] p(1,2) by (simp add: ack_inv_def)
  moreover have "\<not> catalogBundled s" using d by (simp add: installDisabled_def)
  ultimately show ?thesis by (simp add: submit_start_def)
qed


definition stale_events :: "plugin_resolve_preview \<Rightarrow> install_event list" where
  "stale_events p = [IeSettings True, IeMode MGithub, IeInput (FRepo ''a''), IeInput (FTag ''1''), IeResolve,
     IeInput (FTag ''2''), IeResolved (Inr (Some p)), IeAck True]"

lemma trim_one: "\<not> is_space c \<Longrightarrow> trim_str [c] = [c]"
  by (simp add: trim_str_def trim_start_def trim_end_def strip_end_def)

lemma trim_demo [simp]: "trim_str ''a'' = ''a''" "trim_str ''1'' = ''1''" "trim_str ''2'' = ''2''"
  by (rule trim_one; simp add: is_space_def)+

definition stale_state :: "plugin_resolve_preview \<Rightarrow> install_modal" where
  "stale_state p = install_init\<lparr>im_mode := MGithub, im_remoteEnabled := True, im_repo := ''a'', im_tag := ''2'',
     im_preview := Some p, im_permissionsAck := True, im_requests := [RqResolve (remote_source SrcGithubRelease ''a'' ''1'')],
     im_source := Some (remote_source SrcGithubRelease ''a'' ''1''), im_ackedFor := Some p\<rparr>"

lemma stale_exec: "install_run meta je (stale_events p) (stale_state p)"
  unfolding machine_run_exec by (simp add: stale_events_def stale_state_def install_init_def install_defs isRemoteMode_def
      resolveEnabled_def resolve_source_def)

text \<open>
  Editing a field while a resolution is in flight lets the preview of the old source come back:
  the user can then acknowledge and install, and the request names the new source with the token of a
  preview that was resolved from another source.
\<close>

theorem install_stale_preview:
  "\<exists>es s src src' tok. install_run meta je es s \<and> im_open s \<and> install_can IeSubmit s
     \<and> im_source s = Some src \<and> src' \<noteq> src \<and> im_preview s = Some p \<and> tok = pp_resolveToken p
     \<and> im_requests (install_step meta je IeSubmit s) = im_requests s @ [RqRemote src' True tok]"
proof -
  have r: "install_run meta je (stale_events p) (stale_state p)"
    by (rule stale_exec)
  have o: "im_open (stale_state p)" "install_can IeSubmit (stale_state p)"
    by (simp_all add: stale_state_def install_init_def installDisabled_def catalogBundled_def isRemoteMode_def)
  have q: "im_requests (install_step meta je IeSubmit (stale_state p)) =
      im_requests (stale_state p) @ [RqRemote (remote_source SrcGithubRelease ''a'' ''2'') True (pp_resolveToken p)]"
    by (simp add: stale_state_def submit_start_def submit_request_def remote_request_def)
  have n: "remote_source SrcGithubRelease ''a'' ''2'' \<noteq> remote_source SrcGithubRelease ''a'' ''1''"
    by (simp add: remote_source_def)
  have i: "im_source (stale_state p) = Some (remote_source SrcGithubRelease ''a'' ''1'')"
    "im_preview (stale_state p) = Some p" by (simp_all add: stale_state_def)
  show ?thesis using r o i n q by blast
qed

theorem install_needs_ack_witness:
  "\<forall>p. \<exists>src. im_requests (install_step None (\<lambda>m. None) IeSubmit (stale_state p)) =
     im_requests (stale_state p) @ [RqRemote src True (pp_resolveToken p)]"
proof
  fix p
  have r: "install_run None (\<lambda>m. None) (stale_events p) (stale_state p)"
    by (rule stale_exec)
  have o: "im_open (stale_state p)" "install_can IeSubmit (stale_state p)" "isRemoteMode (im_mode (stale_state p))"
    by (simp_all add: stale_state_def install_init_def installDisabled_def catalogBundled_def isRemoteMode_def)
  from install_needs_ack [OF r o] show "\<exists>src. im_requests (install_step None (\<lambda>m. None) IeSubmit (stale_state p)) =
     im_requests (stale_state p) @ [RqRemote src True (pp_resolveToken p)]" by (auto simp: stale_state_def)
qed

text \<open>The same dialog left alone while it resolves.\<close>

definition quiet_events :: "plugin_resolve_preview \<Rightarrow> install_event list" where
  "quiet_events p = [IeSettings True, IeMode MGithub, IeInput (FRepo ''a''), IeInput (FTag ''1''), IeResolve,
     IeResolved (Inr (Some p)), IeAck True]"

definition quiet_state :: "plugin_resolve_preview \<Rightarrow> install_modal" where
  "quiet_state p = (stale_state p)\<lparr>im_tag := ''1''\<rparr>"

lemma quiet_exec_state: "quiet_run meta je (quiet_events p) (quiet_state p)"
  unfolding machine_run_exec by (simp add: quiet_events_def quiet_state_def stale_state_def install_init_def install_defs isRemoteMode_def
      resolveEnabled_def resolve_source_def)


end
