(* ===== verification/Files_View.thy ===== *)
theory Files_View
  imports Endpoints File_Validate Router Machine
begin

text \<open>
  The file manager, \<open>web/src/views/Files.tsx\<close>: the path functions, the formatter, the dialog of
  file actions, and the view's state with its handlers.  A handler that awaits the server is two
  functions, one up to its request and one from the answer on.  Requests and toasts are ghost
  lists; \<open>fv_disk\<close> is a ghost too, the contents of the files on the server.
\<close>

section \<open>Paths\<close>

definition parentPath :: "string \<Rightarrow> string" where
  "parentPath path =
     (if path = [] \<or> path = ''/'' then ''/''
      else
        (let trimmed = strip_end (\<lambda>c. c = CHR ''/'') path in
         case last_index_of trimmed (CHR ''/'') of
           None \<Rightarrow> ''/''
         | Some idx \<Rightarrow> (if idx = 0 then ''/'' else take idx trimmed)))"

definition joinPath :: "string \<Rightarrow> string \<Rightarrow> string" where
  "joinPath dir name =
     (let p = strip_end (\<lambda>c. c = CHR ''/'') dir @ ''/'' @ name
      in if starts_with p ''//'' then ''/'' @ drop 2 p else p)"

fun crumb_paths :: "string \<Rightarrow> string list \<Rightarrow> (string \<times> string) list" where
  "crumb_paths current [] = []"
| "crumb_paths current (part # parts) =
     (let c = current @ ''/'' @ part in (part, c) # crumb_paths c parts)"

definition pathCrumbs :: "string \<Rightarrow> (string \<times> string) list" where
  "pathCrumbs path =
     (let clean = or_str path ''/'' in
      if clean = ''/'' then [(''/'', ''/'')]
      else (''/'', ''/'') # crumb_paths [] (filter (\<lambda>w. w \<noteq> []) (split_on (CHR ''/'') clean)))"

definition baseName :: "string \<Rightarrow> string" where
  "baseName path = last (split_on (CHR ''/'') path)"

section \<open>Entries and contents\<close>

definition textKinds :: "string list" where
  "textKinds = [''text'', ''json'', ''yaml'', ''config'']"

definition entryTone :: "file_entry \<Rightarrow> string" where
  "entryTone e =
     (if fe_is_dir e then ''folder'' else if fe_archive e then ''archive''
      else if fe_kind e = ''image'' then ''image''
      else if fe_kind e \<in> set textKinds then ''text'' else ''binary'')"

definition lintContent :: "(string \<Rightarrow> string option) \<Rightarrow> (string \<Rightarrow> yaml_error option)
    \<Rightarrow> file_entry option \<Rightarrow> string \<Rightarrow> diagnostic_kind \<times> string" where
  "lintContent parse yaml entry content = (case entry of
       None \<Rightarrow> (DiagWarn, ''No file selected.'')
     | Some e \<Rightarrow> lintDiagnosticForFile parse yaml e content)"

definition one_newline :: "string \<Rightarrow> string" where
  "one_newline s = strip_end (\<lambda>c. code c = 10) s @ ''\<newline>''"

definition re_trailing_blank :: regex where
  "re_trailing_blank = Seq (Plus (Chr (\<lambda>c. code c = 32 \<or> code c = 9))) EolM"

definition around :: "char \<Rightarrow> regex" where
  "around c = seqs [Star Space, Lit [c], Star Space]"

text \<open>\<open>pretty\<close> is \<open>JSON.stringify(JSON.parse(content), null, 2)\<close>, which throws on bad JSON.\<close>

definition formatContent :: "(string \<Rightarrow> js_error + string) \<Rightarrow> file_entry option \<Rightarrow> string \<Rightarrow> js_error + string" where
  "formatContent pretty entry content = (case entry of
       None \<Rightarrow> Inr content
     | Some e \<Rightarrow>
         (let lang = detectLanguage (fe_path e) (Some (entry_hint e)) (Some content) in
          if lang = LJson then map_sum id (\<lambda>s. s @ ''\<newline>'') (pretty content)
          else if lang = LYaml then
            Inr (one_newline (join ''\<newline>'' (map trim_end (split_on (CHR ''\<newline>'') content))))
          else if fe_extension e = ''css'' then
            Inr (re_replace_all (around (CHR ''}'')) ''\<newline>}\<newline>''
              (re_replace_all (Seq (Lit '';'') (Star Space)) '';\<newline>  ''
                (re_replace_all (around (CHR ''{'')) '' {\<newline>  '' content)))
          else Inr (one_newline (re_replace_all re_trailing_blank [] content))))"

section \<open>The dialog of file actions\<close>

datatype modal_action = ActFile | ActFolder | ActUpload | ActCopy | ActMove | ActChmod | ActExtract

record file_action =
  fa_name :: string
  fa_content :: string
  fa_toPath :: string
  fa_mode :: string
  fa_uploads :: "string list"

definition is_octal :: "char \<Rightarrow> bool" where
  "is_octal c \<longleftrightarrow> 48 \<le> code c \<and> code c \<le> 55"

definition file_action_init :: "string \<Rightarrow> file_entry option \<Rightarrow> file_action" where
  "file_action_init dir entry =
     \<lparr>fa_name = [], fa_content = [],
      fa_toPath = (case entry of None \<Rightarrow> dir | Some e \<Rightarrow> joinPath dir (fe_name e)),
      fa_mode = (case entry of None \<Rightarrow> [] | Some e \<Rightarrow> slice_last 3 (dropWhile (\<lambda>c. \<not> is_octal c) (fe_mode e))),
      fa_uploads = []\<rparr>"

definition createPath :: "string \<Rightarrow> file_action \<Rightarrow> string" where
  "createPath dir a = (if fa_name a \<noteq> [] then joinPath dir (fa_name a) else dir)"

text \<open>The call of the dialog; without an entry the actions on one do nothing.\<close>

definition file_action_call :: "modal_action \<Rightarrow> string \<Rightarrow> file_entry option \<Rightarrow> file_action \<Rightarrow> endpoint option" where
  "file_action_call action dir entry a =
     (case action of
        ActFile \<Rightarrow> Some (files_createFile dir (fa_name a) (fa_content a))
      | ActFolder \<Rightarrow> Some (files_createFolder dir (fa_name a))
      | ActUpload \<Rightarrow> Some (files_uploadMany dir (fa_uploads a))
      | ActCopy \<Rightarrow> map_option (\<lambda>e. files_action ''copy'' (fe_path e) [(''to_path'', JStr (fa_toPath a))]) entry
      | ActMove \<Rightarrow> map_option (\<lambda>e. files_action ''move'' (fe_path e) [(''to_path'', JStr (fa_toPath a))]) entry
      | ActChmod \<Rightarrow> map_option (\<lambda>e. files_action ''chmod'' (fe_path e) [(''mode'', JStr (fa_mode a))]) entry
      | ActExtract \<Rightarrow> map_option (\<lambda>e. files_action ''extract'' (fe_path e) [(''to_path'', JStr (fa_toPath a))]) entry)"

fun action_title :: "modal_action \<Rightarrow> string" where
  "action_title ActFile = ''Create file''"
| "action_title ActFolder = ''Create folder''"
| "action_title ActUpload = ''Upload files''"
| "action_title ActCopy = ''Copy path''"
| "action_title ActMove = ''Move path''"
| "action_title ActChmod = ''Change mode''"
| "action_title ActExtract = ''Extract archive''"

section \<open>The view\<close>

record draft =
  df_content :: string
  df_dirty :: bool
  df_entry :: file_entry

record files_view =
  fv_current :: string
  fv_rows :: "file_entry list"
  fv_typed :: string
  fv_selected :: "file_entry option"
  fv_viewer :: "file_entry option"
  fv_checked :: "(string \<times> bool) list"
  fv_drafts :: "(string \<times> draft) list"
  fv_saving :: "(file_entry \<times> draft) option"
  fv_batch :: "(string \<times> string) list option"
  fv_requests :: "endpoint list"
  fv_toasts :: "string list"
  fv_reloads :: nat
  fv_hash :: "string option"
  fv_disk :: "string \<rightharpoonup> string"

definition files_init :: "string \<Rightarrow> (string \<rightharpoonup> string) \<Rightarrow> files_view" where
  "files_init current disk = \<lparr>fv_current = current, fv_rows = [], fv_typed = current, fv_selected = None,
     fv_viewer = None, fv_checked = [], fv_drafts = [], fv_saving = None, fv_batch = None, fv_requests = [],
     fv_toasts = [], fv_reloads = 0, fv_hash = None, fv_disk = disk\<rparr>"

definition currentPath_of :: "ui_meta option \<Rightarrow> string \<Rightarrow> string" where
  "currentPath_of meta path =
     or_str path (case fileRootsFromMeta meta of [] \<Rightarrow> ''/'' | r # rs \<Rightarrow> root_path r)"

definition go_to :: "string \<Rightarrow> files_view \<Rightarrow> files_view" where
  "go_to path s = s\<lparr>fv_hash := Some (navigate ''/files'' (Some [(''path'', QStr path)]))\<rparr>"

text \<open>A new path: the typed path and the check marks start over.\<close>

definition path_effect :: "string \<Rightarrow> files_view \<Rightarrow> files_view" where
  "path_effect path s = s\<lparr>fv_current := path, fv_typed := path, fv_checked := []\<rparr>"

definition say :: "string \<Rightarrow> files_view \<Rightarrow> files_view" where
  "say m s = s\<lparr>fv_toasts := fv_toasts s @ [m]\<rparr>"

definition ask :: "endpoint \<Rightarrow> files_view \<Rightarrow> files_view" where
  "ask ep s = s\<lparr>fv_requests := fv_requests s @ [ep]\<rparr>"

definition reload_files :: "files_view \<Rightarrow> files_view" where
  "reload_files s = s\<lparr>fv_reloads := fv_reloads s + 1\<rparr>"

definition selectedPaths :: "files_view \<Rightarrow> string list" where
  "selectedPaths s = map fst (filter snd (fv_checked s))"

definition selectedEntries :: "files_view \<Rightarrow> file_entry list" where
  "selectedEntries s = filter (\<lambda>e. map_of (fv_checked s) (fe_path e) = Some True) (fv_rows s)"

definition dirtyDrafts :: "files_view \<Rightarrow> draft list" where
  "dirtyDrafts s = filter df_dirty (map snd (fv_drafts s))"

definition check_all :: "bool \<Rightarrow> files_view \<Rightarrow> files_view" where
  "check_all v s = s\<lparr>fv_checked := foldl (\<lambda>m e. al_put (fe_path e) v m) [] (fv_rows s)\<rparr>"

definition check_one :: "string \<Rightarrow> bool \<Rightarrow> files_view \<Rightarrow> files_view" where
  "check_one p v s = s\<lparr>fv_checked := al_put p v (fv_checked s)\<rparr>"

definition openEntry :: "file_entry \<Rightarrow> files_view \<Rightarrow> files_view" where
  "openEntry e s =
     (if fe_is_dir e then go_to (fe_path e) s
      else (let s = s\<lparr>fv_viewer := Some e\<rparr>
            in if fe_editable e \<and> map_of (fv_drafts s) (fe_path e) = None
               then ask (files_read (fe_path e)) s else s))"

definition opened :: "file_entry \<Rightarrow> js_error + string \<times> file_entry \<Rightarrow> files_view \<Rightarrow> files_view" where
  "opened e outcome s = (case outcome of
       Inl err \<Rightarrow> s
     | Inr (content, entry) \<Rightarrow>
         s\<lparr>fv_drafts := al_put (fe_path e) \<lparr>df_content = content, df_dirty = False, df_entry = entry\<rparr> (fv_drafts s)\<rparr>)"

definition onDraft :: "string \<Rightarrow> string \<Rightarrow> file_entry \<Rightarrow> files_view \<Rightarrow> files_view" where
  "onDraft path content entry s =
     s\<lparr>fv_drafts := al_put path \<lparr>df_content = content, df_dirty = True, df_entry = entry\<rparr> (fv_drafts s)\<rparr>"

definition viewer_draft :: "files_view \<Rightarrow> (file_entry \<times> draft) option" where
  "viewer_draft s = (case fv_viewer s of
       None \<Rightarrow> None
     | Some v \<Rightarrow> map_option (Pair v) (map_of (fv_drafts s) (fe_path v)))"

definition formatSelected :: "(string \<Rightarrow> js_error + string) \<Rightarrow> files_view \<Rightarrow> files_view" where
  "formatSelected pretty s = (case viewer_draft s of
       None \<Rightarrow> s
     | Some (v, d) \<Rightarrow> (case formatContent pretty (Some v) (df_content d) of
           Inl err \<Rightarrow> say (err_message err) s
         | Inr c \<Rightarrow> s\<lparr>fv_drafts := al_put (fe_path v) (d\<lparr>df_content := c, df_dirty := True\<rparr>) (fv_drafts s)\<rparr>))"

text \<open>Saving the file of the viewer: the draft is the one of the render the button was pressed in.\<close>

definition save_start :: "files_view \<Rightarrow> files_view" where
  "save_start s = (case viewer_draft s of
       None \<Rightarrow> s
     | Some (v, d) \<Rightarrow> ask (files_save (fe_path v) (df_content d)) (s\<lparr>fv_saving := Some (v, d)\<rparr>))"

definition save_end :: "js_error option \<Rightarrow> files_view \<Rightarrow> files_view" where
  "save_end failure s = (case fv_saving s of
       None \<Rightarrow> s
     | Some (v, d) \<Rightarrow> (case failure of
           Some err \<Rightarrow> say (humanizeError (err_message err) None) (s\<lparr>fv_saving := None\<rparr>)
         | None \<Rightarrow> reload_files (say (fe_name v @ '' saved'')
             (s\<lparr>fv_saving := None, fv_disk := (fv_disk s)(fe_path v \<mapsto> df_content d),
                fv_drafts := al_put (fe_path v) (d\<lparr>df_dirty := False\<rparr>) (fv_drafts s)\<rparr>))))"

definition batch_items :: "files_view \<Rightarrow> (string \<times> string) list" where
  "batch_items s = map (\<lambda>d. (fe_path (df_entry d), df_content d)) (dirtyDrafts s)"

definition batch_start :: "files_view \<Rightarrow> files_view" where
  "batch_start s = ask (files_batchSave (batch_items s)) (s\<lparr>fv_batch := Some (batch_items s)\<rparr>)"

definition all_clean :: "(string \<times> draft) list \<Rightarrow> (string \<times> draft) list" where
  "all_clean ds = map (\<lambda>(p, d). (p, d\<lparr>df_dirty := False\<rparr>)) ds"

definition batch_end :: "js_error option \<Rightarrow> files_view \<Rightarrow> files_view" where
  "batch_end failure s = (case fv_batch s of
       None \<Rightarrow> s
     | Some items \<Rightarrow> (case failure of
           Some err \<Rightarrow> say (humanizeError (err_message err) None) (s\<lparr>fv_batch := None\<rparr>)
         | None \<Rightarrow> reload_files (say (dec_nat (length items) @ '' draft(s) saved'')
             (s\<lparr>fv_batch := None, fv_disk := fv_disk s ++ map_of (rev items),
                fv_drafts := all_clean (fv_drafts s)\<rparr>))))"

text \<open>Deleting one entry and the selected ones, after the user's confirmation.\<close>

definition deleteEntry :: "bool \<Rightarrow> file_entry \<Rightarrow> files_view \<Rightarrow> files_view" where
  "deleteEntry confirmed e s = (if confirmed then ask (files_remove (fe_path e)) s else s)"

definition clear_if :: "string \<Rightarrow> file_entry option \<Rightarrow> file_entry option" where
  "clear_if p v = (if map_option fe_path v = Some p then None else v)"

definition deleted :: "js_error option \<Rightarrow> file_entry \<Rightarrow> files_view \<Rightarrow> files_view" where
  "deleted failure e s = (case failure of
       Some err \<Rightarrow> s
     | None \<Rightarrow> reload_files (say (fe_name e @ '' deleted'')
         (s\<lparr>fv_selected := clear_if (fe_path e) (fv_selected s), fv_viewer := clear_if (fe_path e) (fv_viewer s),
            fv_disk := (fv_disk s)(fe_path e := None)\<rparr>)))"

definition runBatchDelete :: "bool \<Rightarrow> files_view \<Rightarrow> files_view" where
  "runBatchDelete confirmed s =
     (if selectedPaths s = [] \<or> \<not> confirmed then s else ask (files_batchDelete (selectedPaths s)) s)"

definition batch_deleted :: "js_error option \<Rightarrow> string list \<Rightarrow> files_view \<Rightarrow> files_view" where
  "batch_deleted failure paths s = (case failure of
       Some err \<Rightarrow> s
     | None \<Rightarrow> reload_files (say (dec_nat (length paths) @ '' path(s) deleted'')
         (s\<lparr>fv_checked := [], fv_selected := None, fv_viewer := None\<rparr>)))"

text \<open>The loops that send one request per selected entry and stop at the first failure: the
  outcomes are given, one per request.\<close>

fun send_each :: "string \<Rightarrow> string \<Rightarrow> file_entry list \<Rightarrow> bool list \<Rightarrow> files_view \<Rightarrow> bool \<times> files_view" where
  "send_each action dest [] oks s = (True, s)"
| "send_each action dest (e # es) oks s =
     (let s = ask (files_action action (fe_path e) [(''to_path'', JStr (joinPath dest (fe_name e)))]) s
      in case oks of
           [] \<Rightarrow> (False, s)
         | ok # oks' \<Rightarrow> (if ok then send_each action dest es oks' s else (False, s)))"

definition copySelectedToParent :: "bool list \<Rightarrow> files_view \<Rightarrow> files_view" where
  "copySelectedToParent oks s =
     (let es = selectedEntries s; (ok, t) = send_each ''copy'' (parentPath (fv_current s)) es oks s
      in if ok then reload_files (say (dec_nat (length es) @ '' path(s) copied to parent'') t) else t)"

definition moveSelectedToParent :: "bool list \<Rightarrow> files_view \<Rightarrow> files_view" where
  "moveSelectedToParent oks s =
     (let es = selectedEntries s; (ok, t) = send_each ''move'' (parentPath (fv_current s)) es oks s
      in if ok then reload_files ((say (dec_nat (length es) @ '' path(s) moved to parent'') t)\<lparr>fv_checked := []\<rparr>) else t)"

text \<open>Drag and drop: a path of the panel is moved, files from outside are uploaded.\<close>

definition moveDroppedPath :: "string option \<Rightarrow> string \<Rightarrow> files_view \<Rightarrow> files_view" where
  "moveDroppedPath movedPath dest s =
     (case movedPath of
        None \<Rightarrow> s
      | Some p \<Rightarrow>
          (if p = [] \<or> p = dest \<or> parentPath p = dest then s
           else ask (files_action ''move'' p [(''to_path'', JStr (joinPath dest (baseName p)))]) s))"

definition uploadDropped :: "bool \<Rightarrow> string list \<Rightarrow> string \<Rightarrow> files_view \<Rightarrow> files_view" where
  "uploadDropped external fs dest s =
     (if external \<and> fs \<noteq> [] then ask (files_uploadMany dest fs) s else s)"

section \<open>Lemmas on paths\<close>

text \<open>The abstraction: an absolute path is a list of names.\<close>

definition abs_path :: "string list \<Rightarrow> string" where
  "abs_path ps = (if ps = [] then ''/'' else concat (map (\<lambda>w. CHR ''/'' # w) ps))"

definition is_name :: "string \<Rightarrow> bool" where
  "is_name w \<longleftrightarrow> w \<noteq> [] \<and> CHR ''/'' \<notin> set w"

abbreviation slashed :: "string list \<Rightarrow> string" where
  "slashed ps \<equiv> concat (map (\<lambda>w. CHR ''/'' # w) ps)"

lemma abs_path_snoc: "abs_path (ps @ [p]) = slashed ps @ CHR ''/'' # p"
  by (simp add: abs_path_def)

lemma last_name: "is_name p \<Longrightarrow> last (s @ CHR ''/'' # p) \<noteq> CHR ''/''"
  by (auto simp: is_name_def) (metis last_in_set)

lemma strip_name: "is_name p \<Longrightarrow> strip_end (\<lambda>c. c = CHR ''/'') (s @ CHR ''/'' # p) = s @ CHR ''/'' # p"
  using last_name [of p s] by (intro strip_end_id) simp

lemma slashed_eq_Nil: "slashed ps = [] \<longleftrightarrow> ps = []"
  by (cases ps) simp_all

lemma parentPath_abs:
  assumes "is_name p"
  shows "parentPath (abs_path (ps @ [p])) = abs_path ps"
proof -
  have ne: "slashed ps @ CHR ''/'' # p \<noteq> ''/''" "slashed ps @ CHR ''/'' # p \<noteq> []"
    using assms by (cases ps; auto simp: is_name_def)+
  have l: "last_index_of (slashed ps @ CHR ''/'' # p) (CHR ''/'') = Some (length (slashed ps))"
    using assms by (intro last_index_of_append) (simp add: is_name_def)
  show ?thesis
    unfolding abs_path_snoc parentPath_def strip_name [OF assms] Let_def l
    using ne by (simp add: abs_path_def slashed_eq_Nil del: concat_eq_Nil_conv)
qed

lemma joinPath_abs:
  assumes "\<forall>w \<in> set ps. is_name w" "is_name p"
  shows "joinPath (abs_path ps) p = abs_path (ps @ [p])"
proof (cases ps rule: rev_cases)
  case Nil
  obtain c q where "p = c # q" "c \<noteq> CHR ''/''" using assms(2) by (cases p) (auto simp: is_name_def)
  then show ?thesis using Nil by (simp add: joinPath_def abs_path_def strip_end_def)
next
  case (snoc qs q)
  have q: "is_name q" using assms(1) snoc by simp
  have st: "strip_end (\<lambda>c. c = CHR ''/'') (abs_path ps) = abs_path ps"
    unfolding snoc abs_path_snoc by (rule strip_name [OF q])
  have "\<not> starts_with (abs_path ps @ ''/'' @ p) ''//''"
  proof (cases ps)
    case Nil
    then show ?thesis using snoc by simp
  next
    case (Cons w ws)
    then obtain c v where "w = c # v" "c \<noteq> CHR ''/''" using assms(1) by (cases w) (auto simp: is_name_def)
    then show ?thesis using Cons by (simp add: abs_path_def)
  qed
  then show ?thesis unfolding joinPath_def st Let_def using snoc by (simp add: abs_path_def)
qed

lemma split_slashed: "\<forall>w \<in> set ps. is_name w \<Longrightarrow> split_on (CHR ''/'') (slashed ps) = [] # ps"
proof (induction ps)
  case (Cons w ws)
  have "split_on (CHR ''/'') (w @ slashed ws) = w # ws"
  proof (cases ws)
    case Nil
    then show ?thesis using Cons.prems by (simp add: split_on_id is_name_def)
  next
    case (Cons v vs)
    have "split_on (CHR ''/'') (slashed ws) = [] # ws" using Cons.IH Cons.prems by simp
    then have "split_on (CHR ''/'') (v @ slashed vs) = ws" using Cons by simp
    then show ?thesis using Cons Cons.prems by (simp add: split_on_append is_name_def)
  qed
  then show ?case by simp
qed simp

lemma crumb_paths_eq:
  "map snd (crumb_paths cur ps) = map (\<lambda>k. cur @ slashed (take (Suc k) ps)) [0..<length ps]"
proof (induction ps arbitrary: cur)
  case (Cons p ps)
  have "map (\<lambda>k. cur @ slashed (take (Suc k) (p # ps))) [0..<length (p # ps)] =
      (cur @ CHR ''/'' # p) # map (\<lambda>k. (cur @ CHR ''/'' # p) @ slashed (take (Suc k) ps)) [0..<length ps]"
    by (simp add: upt_conv_Cons map_Suc_upt [symmetric] comp_def del: upt_Suc)
  then show ?case using Cons.IH [of "cur @ CHR ''/'' # p"] by (simp add: Let_def)
qed simp

lemma pathCrumbs_abs:
  assumes "\<forall>w \<in> set ps. is_name w"
  shows "map snd (pathCrumbs (abs_path ps)) = map (\<lambda>k. abs_path (take k ps)) [0..<Suc (length ps)]"
proof (cases ps)
  case Nil
  then show ?thesis by (simp add: pathCrumbs_def abs_path_def Let_def)
next
  case (Cons w ws)
  have ab: "abs_path ps = slashed ps" using Cons by (simp add: abs_path_def)
  have "slashed ps \<noteq> ''/''" using Cons assms by (auto simp: is_name_def)
  moreover have "filter (\<lambda>w. w \<noteq> []) (split_on (CHR ''/'') (slashed ps)) = ps"
    using assms by (simp add: split_slashed) (rule filter_True, simp add: is_name_def)
  moreover have "or_str (slashed ps) ''/'' = slashed ps" using Cons by simp
  ultimately have "pathCrumbs (abs_path ps) = (''/'', ''/'') # crumb_paths [] ps"
    unfolding pathCrumbs_def ab Let_def by simp
  then have "map snd (pathCrumbs (abs_path ps)) = ''/'' # map (\<lambda>k. slashed (take (Suc k) ps)) [0..<length ps]"
    by (simp add: crumb_paths_eq)
  also have "\<dots> = map (\<lambda>k. abs_path (take k ps)) (0 # map Suc [0..<length ps])"
    using Cons by (auto simp: abs_path_def)
  also have "0 # map Suc [0..<length ps] = [0..<Suc (length ps)]"
    by (simp add: map_Suc_upt upt_conv_Cons del: upt_Suc)
  finally show ?thesis .
qed

text \<open>
  C25.  The path functions compute on names: with an absolute path as the list of its names, joining
  appends a name, the parent drops the last, and the breadcrumbs are all prefixes from the root to the
  path, so that every crumb is the parent of the next.
\<close>

theorem paths_refine_names:
  assumes "\<forall>w \<in> set ps. is_name w" "is_name p"
  shows "joinPath (abs_path ps) p = abs_path (ps @ [p])
     \<and> parentPath (abs_path (ps @ [p])) = abs_path ps
     \<and> map snd (pathCrumbs (abs_path ps)) = map (\<lambda>k. abs_path (take k ps)) [0..<Suc (length ps)]
     \<and> moveDroppedPath (Some (abs_path (ps @ [p]))) (abs_path ps) s = s"
  using joinPath_abs [OF assms] parentPath_abs [OF assms(2)] pathCrumbs_abs [OF assms(1)]
  by (simp add: moveDroppedPath_def)

theorem paths_refine_names_witness:
  "parentPath ''/srv/www'' = ''/srv'' \<and> joinPath ''/srv'' ''www'' = ''/srv/www''"
  using paths_refine_names [of "[''srv'']" "''www''"] by (simp add: is_name_def abs_path_def)

section \<open>Drafts\<close>

lemma map_of_all_clean: "map_of (all_clean ds) p = map_option (\<lambda>d. d\<lparr>df_dirty := False\<rparr>) (map_of ds p)"
  by (induction ds) (auto simp: all_clean_def)

lemma files_frame [simp]:
  "fv_drafts (say m s) = fv_drafts s" "fv_drafts (ask e s) = fv_drafts s" "fv_drafts (reload_files s) = fv_drafts s"
  "fv_drafts (go_to q s) = fv_drafts s" "fv_disk (say m s) = fv_disk s" "fv_disk (ask e s) = fv_disk s"
  "fv_disk (reload_files s) = fv_disk s" "fv_disk (go_to q s) = fv_disk s"
  "fv_saving (say m s) = fv_saving s" "fv_saving (ask e s) = fv_saving s" "fv_saving (reload_files s) = fv_saving s"
  "fv_saving (go_to q s) = fv_saving s" "fv_batch (say m s) = fv_batch s" "fv_batch (ask e s) = fv_batch s"
  "fv_batch (reload_files s) = fv_batch s" "fv_batch (go_to q s) = fv_batch s"
  by (simp_all add: say_def ask_def reload_files_def go_to_def)

text \<open>A clean draft holds what is on the server.\<close>

definition drafts_saved :: "files_view \<Rightarrow> bool" where
  "drafts_saved s \<longleftrightarrow> (\<forall>p d. map_of (fv_drafts s) p = Some d \<longrightarrow> \<not> df_dirty d \<longrightarrow> fv_disk s p = Some (df_content d))"

text \<open>The editing session of one view: opening files, editing, formatting, saving one draft or all.
  \<open>fe_open\<close> carries the answer of the read, which is what is on the server.\<close>

datatype edit_event = EvOpen file_entry | EvRead file_entry file_entry | EvEdit string string file_entry
  | EvFormat | EvSave | EvSaved "js_error option" | EvBatch | EvBatchSaved "js_error option"

fun edit_step :: "(string \<Rightarrow> js_error + string) \<Rightarrow> edit_event \<Rightarrow> files_view \<Rightarrow> files_view" where
  "edit_step pretty (EvOpen e) s = openEntry e s"
| "edit_step pretty (EvRead e en) s =
     (case fv_disk s (fe_path e) of Some c \<Rightarrow> opened e (Inr (c, en)) s | None \<Rightarrow> s)"
| "edit_step pretty (EvEdit p c en) s = onDraft p c en s"
| "edit_step pretty EvFormat s = formatSelected pretty s"
| "edit_step pretty EvSave s = save_start s"
| "edit_step pretty (EvSaved f) s = save_end f s"
| "edit_step pretty EvBatch s = batch_start s"
| "edit_step pretty (EvBatchSaved f) s = batch_end f s"

definition idle :: "files_view \<Rightarrow> bool" where
  "idle s \<longleftrightarrow> fv_saving s = None \<and> fv_batch s = None"

text \<open>Nothing but the answer happens while a save is in flight, and entries keep their paths.\<close>

fun edit_quiet :: "edit_event \<Rightarrow> files_view \<Rightarrow> bool" where
  "edit_quiet (EvSaved f) s = (fv_saving s \<noteq> None)"
| "edit_quiet (EvBatchSaved f) s = (fv_batch s \<noteq> None)"
| "edit_quiet (EvRead e en) s = (idle s \<and> fe_path en = fe_path e)"
| "edit_quiet (EvEdit p c en) s = (idle s \<and> fe_path en = p)"
| "edit_quiet _ s = idle s"

abbreviation edit_run :: "(string \<Rightarrow> js_error + string) \<Rightarrow> files_view \<Rightarrow> edit_event list \<Rightarrow> files_view \<Rightarrow> bool" where
  "edit_run pretty \<equiv> machine_run edit_quiet (edit_step pretty)"

text \<open>The invariant: keys are distinct and are the paths of their entries, a save in flight is of the
  present draft, and at most one save is in flight.\<close>

definition drafts_inv :: "files_view \<Rightarrow> bool" where
  "drafts_inv s \<longleftrightarrow> drafts_saved s \<and> distinct (map fst (fv_drafts s))
     \<and> (\<forall>p d. map_of (fv_drafts s) p = Some d \<longrightarrow> fe_path (df_entry d) = p)
     \<and> (\<forall>v d. fv_saving s = Some (v, d) \<longrightarrow> map_of (fv_drafts s) (fe_path v) = Some d \<and> fv_batch s = None)
     \<and> (\<forall>items. fv_batch s = Some items \<longrightarrow> items = batch_items s \<and> fv_saving s = None)"

lemma map_fst_all_clean: "map fst (all_clean ds) = map fst ds"
  by (induction ds) (auto simp: all_clean_def)

lemma batch_items_map:
  assumes "distinct (map fst (fv_drafts s))"
    and "\<forall>p d. map_of (fv_drafts s) p = Some d \<longrightarrow> fe_path (df_entry d) = p"
  shows "map_of (rev (batch_items s)) p =
    (case map_of (fv_drafts s) p of Some d \<Rightarrow> if df_dirty d then Some (df_content d) else None | None \<Rightarrow> None)"
proof -
  have key: "fe_path (df_entry d) = q" if "(q, d) \<in> set (fv_drafts s)" for q d
    using assms that by simp
  have items: "batch_items s = map (\<lambda>(q, d). (q, df_content d)) (filter (\<lambda>(q, d). df_dirty d) (fv_drafts s))"
  proof -
    have "map (\<lambda>d. (fe_path (df_entry d), df_content d)) (filter df_dirty (map snd ds)) =
        map (\<lambda>(q, d). (q, df_content d)) (filter (\<lambda>(q, d). df_dirty d) ds)"
      if "\<forall>(q, d) \<in> set ds. fe_path (df_entry d) = q" for ds :: "(string \<times> draft) list"
      using that by (induction ds) auto
    then show ?thesis using key by (auto simp: batch_items_def dirtyDrafts_def)
  qed
  have dist: "distinct (map fst (batch_items s))"
    unfolding items using assms(1) by (simp add: comp_def case_prod_unfold distinct_map_filter)
  have "map_of (rev (batch_items s)) = map_of (batch_items s)" using dist
    by (subst map_of_inject_set) (simp_all add: rev_map [symmetric])
  moreover have "map_of (map (\<lambda>(q, d). (q, df_content d)) (filter (\<lambda>(q, d). df_dirty d) ds)) p =
      (case map_of ds p of Some d \<Rightarrow> if df_dirty d then Some (df_content d) else None | None \<Rightarrow> None)"
    if "distinct (map fst ds)" for ds :: "(string \<times> draft) list"
    using that
  proof (induction ds)
    case (Cons x ds)
    obtain q d where x: "x = (q, d)" by (cases x)
    have "map_of ds q = None" using Cons.prems x by (simp add: map_of_eq_None_iff)
    with Cons x show ?case by auto
  qed simp
  ultimately show ?thesis using items assms(1) by simp
qed

lemma drafts_inv_put:
  assumes "drafts_inv s" "idle s" "fe_path (df_entry d) = p" "\<not> df_dirty d \<longrightarrow> fv_disk s p = Some (df_content d)"
  shows "drafts_inv (s\<lparr>fv_drafts := al_put p d (fv_drafts s)\<rparr>)"
  using assms by (auto simp: drafts_inv_def drafts_saved_def idle_def split: if_splits)

lemma drafts_inv_cong:
  "fv_drafts t = fv_drafts s \<Longrightarrow> fv_disk t = fv_disk s \<Longrightarrow> fv_saving t = fv_saving s \<Longrightarrow> fv_batch t = fv_batch s \<Longrightarrow>
     drafts_inv s \<Longrightarrow> drafts_inv t"
  by (simp add: drafts_inv_def drafts_saved_def batch_items_def dirtyDrafts_def)

lemma drafts_inv_saved:
  assumes "drafts_inv s" "fv_saving s \<noteq> None"
  shows "drafts_inv (save_end f s)"
proof -
  obtain v d where vd: "fv_saving s = Some (v, d)" using assms(2) by auto
  have d: "map_of (fv_drafts s) (fe_path v) = Some d" "fv_batch s = None" "fe_path (df_entry d) = fe_path v"
    using assms(1) vd by (auto simp: drafts_inv_def)
  show ?thesis
  proof (cases f)
    case None
    then show ?thesis using assms(1) vd d
      by (auto simp: save_end_def drafts_inv_def drafts_saved_def say_def reload_files_def)
  next
    case (Some err)
    then show ?thesis using assms(1) vd d
      by (auto simp: save_end_def drafts_inv_def drafts_saved_def say_def)
  qed
qed

lemma drafts_inv_batch_saved:
  assumes "drafts_inv s" "fv_batch s \<noteq> None"
  shows "drafts_inv (batch_end f s)"
proof -
  have b: "fv_batch s = Some (batch_items s)" "fv_saving s = None" using assms by (auto simp: drafts_inv_def)
  have ok: "distinct (map fst (fv_drafts s))" "\<forall>p d. map_of (fv_drafts s) p = Some d \<longrightarrow> fe_path (df_entry d) = p"
    using assms(1) by (auto simp: drafts_inv_def)
  show ?thesis
  proof (cases f)
    case (Some err)
    then show ?thesis using assms(1) b
      by (auto simp: batch_end_def drafts_inv_def drafts_saved_def say_def)
  next
    case None
    have "(fv_disk s ++ map_of (rev (batch_items s))) p = Some (df_content d)"
      if "map_of (fv_drafts s) p = Some d" for p d
      using that assms(1) batch_items_map [OF ok, of p]
      by (cases "df_dirty d") (auto simp: map_add_def drafts_inv_def drafts_saved_def)
    then show ?thesis using None b ok
      by (auto simp: batch_end_def drafts_inv_def drafts_saved_def say_def reload_files_def map_of_all_clean
          map_fst_all_clean)
  qed
qed

lemma drafts_inv_step:
  assumes "drafts_inv s" "edit_quiet e s"
  shows "drafts_inv (edit_step pretty e s)"
proof (cases e)
  case (EvOpen en)
  with assms(1) show ?thesis by (auto simp: openEntry_def Let_def intro: drafts_inv_cong)
next
  case (EvRead en e2)
  show ?thesis
  proof (cases "fv_disk s (fe_path en)")
    case (Some c)
    with EvRead assms show ?thesis by (auto simp: opened_def intro: drafts_inv_put)
  qed (use EvRead assms in simp)
next
  case (EvEdit p c en)
  with assms show ?thesis by (auto simp: onDraft_def intro: drafts_inv_put)
next
  case EvFormat
  show ?thesis
  proof (cases "viewer_draft s")
    case (Some vd)
    obtain v d where vd: "vd = (v, d)" by (cases vd)
    have d: "map_of (fv_drafts s) (fe_path v) = Some d"
      using Some vd by (auto simp: viewer_draft_def split: option.splits)
    then have pth: "fe_path (df_entry d) = fe_path v" using assms(1) by (simp add: drafts_inv_def)
    have sy: "drafts_inv (say m s)" for m by (rule drafts_inv_cong [OF _ _ _ _ assms(1)]) simp_all
    have pt: "drafts_inv (s\<lparr>fv_drafts := al_put (fe_path v) (d\<lparr>df_content := c, df_dirty := True\<rparr>) (fv_drafts s)\<rparr>)" for c
      using drafts_inv_put [OF assms(1), of "d\<lparr>df_content := c, df_dirty := True\<rparr>" "fe_path v"] assms(2) EvFormat pth by simp
    show ?thesis using EvFormat Some vd sy pt by (auto simp: formatSelected_def split: sum.splits)
  qed (use EvFormat assms in \<open>simp add: formatSelected_def\<close>)
next
  case EvSave
  show ?thesis
  proof (cases "viewer_draft s")
    case (Some vd)
    obtain v d where vd: "vd = (v, d)" by (cases vd)
    have "map_of (fv_drafts s) (fe_path v) = Some d"
      using Some vd by (auto simp: viewer_draft_def split: option.splits)
    then show ?thesis using EvSave Some vd assms
      by (auto simp: save_start_def drafts_inv_def drafts_saved_def idle_def ask_def)
  qed (use EvSave assms in \<open>simp add: save_start_def\<close>)
next
  case (EvSaved f)
  with assms show ?thesis by (simp add: drafts_inv_saved)
next
  case EvBatch
  with assms show ?thesis
    by (auto simp: batch_start_def drafts_inv_def drafts_saved_def idle_def ask_def batch_items_def dirtyDrafts_def)
next
  case (EvBatchSaved f)
  with assms show ?thesis by (simp add: drafts_inv_batch_saved)
qed

lemma drafts_inv_init: "drafts_inv (files_init cur disk)"
  by (simp add: drafts_inv_def drafts_saved_def files_init_def)

interpretation drafts: started_machine edit_quiet "edit_step pretty" drafts_inv "files_init cur disk" for pretty cur disk
  by unfold_locales (rule drafts_inv_step, assumption+, rule drafts_inv_init)

section \<open>Properties of the editor\<close>


definition demo_file :: file_entry where
  "demo_file = \<lparr>fe_name = ''f'', fe_path = ''/f'', fe_size = 0, fe_mode = [], fe_is_dir = False, fe_mod_time = [],
     fe_kind = ''text'', fe_mime_type = [], fe_extension = [], fe_editable = True, fe_viewable = True,
     fe_archive = False, fe_symlink = False, fe_target = None\<rparr>"

lemma demo_file_facts: "fe_path demo_file = ''/f''" "fe_is_dir demo_file = False" "fe_editable demo_file"
  by (simp_all add: demo_file_def)

definition demo_fs :: files_view where
  "demo_fs = files_init ''/'' (Map.empty(''/f'' \<mapsto> ''x''))"


text \<open>
  Typing while a save is in flight is lost: when the save of a draft succeeds, the view puts the
  draft as it was when the button was pressed back over the newer text, and marks it as saved.
\<close>

theorem save_discards_edits:
  assumes "viewer_draft s = Some (v, d)" "new \<noteq> df_content d"
  shows "map_of (fv_drafts (onDraft (fe_path v) new v (save_start s))) (fe_path v)
           = Some \<lparr>df_content = new, df_dirty = True, df_entry = v\<rparr>
     \<and> map_of (fv_drafts (save_end None (onDraft (fe_path v) new v (save_start s)))) (fe_path v)
           = Some (d\<lparr>df_dirty := False\<rparr>)"
  using assms by (simp add: save_start_def onDraft_def ask_def save_end_def say_def reload_files_def)

theorem save_discards_edits_witness:
  "map_option df_content (map_of (fv_drafts (save_end None (onDraft ''/f'' ''new'' demo_file (save_start
     (onDraft ''/f'' ''old'' demo_file (openEntry demo_file demo_fs)))))) ''/f'') = Some ''old''"
proof -
  let ?s = "onDraft ''/f'' ''old'' demo_file (openEntry demo_file demo_fs)"
  have "viewer_draft ?s = Some (demo_file, \<lparr>df_content = ''old'', df_dirty = True, df_entry = demo_file\<rparr>)"
    by (simp add: viewer_draft_def onDraft_def openEntry_def demo_file_facts ask_def Let_def)
  from save_discards_edits [OF this, of "''new''"] show ?thesis by (simp add: demo_file_facts)
qed

text \<open>
  Saving all drafts marks text as saved that was never sent: what is typed while the batch is in
  flight stays in the draft, the draft counts as unchanged, and the server still has the older text.
\<close>

theorem batch_save_hides_edits:
  assumes "map_of (fv_drafts s) p = Some d" "df_dirty d" "distinct (map fst (fv_drafts s))"
    and "\<forall>q e. map_of (fv_drafts s) q = Some e \<longrightarrow> fe_path (df_entry e) = q" "new \<noteq> df_content d"
  shows "let t = batch_end None (onDraft p new (df_entry d) (batch_start s)) in
       map_of (fv_drafts t) p = Some \<lparr>df_content = new, df_dirty = False, df_entry = df_entry d\<rparr>
     \<and> fv_disk t p = Some (df_content d) \<and> fv_disk t p \<noteq> Some new"
  using assms batch_items_map [OF assms(3,4), of p]
  by (simp add: batch_start_def onDraft_def ask_def batch_end_def say_def reload_files_def map_of_all_clean map_add_def Let_def)

theorem batch_save_hides_edits_witness:
  "fv_disk (batch_end None (onDraft ''/f'' ''new'' demo_file (batch_start
     (onDraft ''/f'' ''old'' demo_file (openEntry demo_file demo_fs))))) ''/f'' = Some ''old''"
proof -
  let ?s = "onDraft ''/f'' ''old'' demo_file (openEntry demo_file demo_fs)"
  have ds: "fv_drafts ?s = [(''/f'', \<lparr>df_content = ''old'', df_dirty = True, df_entry = demo_file\<rparr>)]"
    by (simp add: onDraft_def openEntry_def demo_file_facts demo_fs_def files_init_def ask_def Let_def)
  from batch_save_hides_edits [of ?s "''/f''" "\<lparr>df_content = ''old'', df_dirty = True, df_entry = demo_file\<rparr>" "''new''"]
  show ?thesis by (simp add: ds demo_file_facts Let_def split: if_splits)
qed

end
