(* ===== verification/Logs_View.thy ===== *)
theory Logs_View
  imports Endpoints Format Panel_Meta App_Store Machine
begin

text \<open>
  The log search, \<open>web/src/views/Logs.tsx\<close>: history runs, the live tail with its batching and
  its dedup ring, the cleanup that ends a run, saved queries and the persisted search.  A run is
  named by the epoch its cleanup reached; the abort controllers carry the same number.
  \<open>lv_session\<close> is a ghost, the run whose events are shown, and the animation frames and microtasks
  the browser owes are state.
\<close>

section \<open>State\<close>

definition LAYPERSON_DEFAULT_QUERY :: string where
  "LAYPERSON_DEFAULT_QUERY = ''action=login''"

definition LAYPERSON_DEFAULT_RANGE :: string where
  "LAYPERSON_DEFAULT_RANGE = ''24h''"

definition MAX_LIVE_EVENTS :: nat where
  "MAX_LIVE_EVENTS = 200"

definition liveSeenCap :: nat where
  "liveSeenCap = 5000"

datatype log_mode = ModeHistory | ModeLive

datatype log_format = FmtRaw | FmtSmart

record search_state =
  ss_sourceId :: "string option"
  ss_query :: "string option"
  ss_timeRange :: "string option"
  ss_mode :: "log_mode option"
  ss_format :: "log_format option"
  ss_savedId :: "int option"

definition no_search :: search_state where
  "no_search = \<lparr>ss_sourceId = None, ss_query = None, ss_timeRange = None, ss_mode = None,
     ss_format = None, ss_savedId = None\<rparr>"

text \<open>Local storage: no item, an item that does not parse to an object, or a search state.\<close>

definition readPersistedState :: "search_state option option \<Rightarrow> search_state" where
  "readPersistedState raw = nullish (nullish raw None) no_search"

record logs_view =
  lv_meta :: "query_meta_response option"
  lv_metaError :: "js_error option"
  lv_saved :: "saved_query list"
  lv_refetches :: nat
  lv_activeSaved :: "int option"
  lv_persisted :: search_state
  lv_storage :: search_state
  lv_source :: "query_source_meta option"
  lv_query :: string
  lv_timeRange :: string
  lv_mode :: log_mode
  lv_format :: log_format
  lv_running :: bool
  lv_events :: "query_event list"
  lv_totalHits :: int
  lv_error :: "js_error option"
  lv_toasts :: "(string \<times> toast_kind) list"
  lv_abort :: "nat option"
  lv_aborted :: "nat set"
  lv_tail :: "nat option"
  lv_autoRun :: bool
  lv_epoch :: nat
  lv_queue :: "query_event list"
  lv_flush :: bool
  lv_seen :: "string set"
  lv_order :: "string list"
  lv_microtasks :: "(nat \<times> query_event list) list"
  lv_history :: "(nat \<times> query_payload) list"
  lv_seeds :: "(nat \<times> query_payload) list"
  lv_opened :: "(nat \<times> string) list"
  lv_session :: nat

definition logs_init :: "search_state \<Rightarrow> logs_view" where
  "logs_init p = \<lparr>lv_meta = None, lv_metaError = None, lv_saved = [], lv_refetches = 0, lv_activeSaved = None, lv_persisted = p, lv_storage = p,
     lv_source = None, lv_query = nullish (ss_query p) [], lv_timeRange = nullish (ss_timeRange p) [],
     lv_mode = nullish (ss_mode p) ModeHistory, lv_format = nullish (ss_format p) FmtSmart,
     lv_running = False, lv_events = [], lv_totalHits = 0, lv_error = None, lv_toasts = [],
     lv_abort = None, lv_aborted = {}, lv_tail = None,
     lv_autoRun = (\<not> truthy_str (ss_query p) \<and> \<not> truthy_str (ss_sourceId p)),
     lv_epoch = 0, lv_queue = [], lv_flush = False, lv_seen = {}, lv_order = [], lv_microtasks = [],
     lv_history = [], lv_seeds = [], lv_opened = [], lv_session = 0\<rparr>"

definition say_log :: "string \<Rightarrow> toast_kind \<Rightarrow> logs_view \<Rightarrow> logs_view" where
  "say_log m k s = s\<lparr>lv_toasts := lv_toasts s @ [(m, k)]\<rparr>"

section \<open>The live queue\<close>

definition event_key :: "query_event \<Rightarrow> string" where
  "event_key ev = or_str (qe_id ev) (qe_source ev @ ''|'' @ qe_ts ev @ ''|'' @ take 64 (qe_message ev))"

text \<open>The loop of a flush: the events not seen yet, with the ring of the last keys.\<close>

fun accept_events :: "nat \<Rightarrow> query_event list \<Rightarrow> string set \<times> string list \<Rightarrow> query_event list \<times> string set \<times> string list" where
  "accept_events cap [] (seen, order) = ([], seen, order)"
| "accept_events cap (ev # evs) (seen, order) =
     (let key = event_key ev in
      if key \<in> seen then accept_events cap evs (seen, order)
      else
        (let order' = order @ [key]; seen' = insert key seen;
             (seen2, order2) = (if length order' > cap then (seen' - {hd order'}, tl order') else (seen', order'));
             (acc, rest) = accept_events cap evs (seen2, order2)
         in (ev # acc, rest)))"

text \<open>The animation frame, and the microtask it leaves: dropped when the epoch has moved on.\<close>

definition flushLiveQueue :: "logs_view \<Rightarrow> logs_view" where
  "flushLiveQueue s =
     (let s = s\<lparr>lv_flush := False\<rparr> in
      if lv_queue s = [] then s
      else s\<lparr>lv_queue := [], lv_microtasks := lv_microtasks s @ [(lv_epoch s, lv_queue s)]\<rparr>)"

definition commit_events :: "nat \<Rightarrow> query_event list \<Rightarrow> logs_view \<Rightarrow> logs_view" where
  "commit_events epoch queued s =
     (if lv_epoch s \<noteq> epoch then s
      else
        (let (accepted, seen, order) = accept_events liveSeenCap queued (lv_seen s, lv_order s);
             s = s\<lparr>lv_seen := seen, lv_order := order\<rparr>
         in if accepted = [] then s
            else s\<lparr>lv_events := take MAX_LIVE_EVENTS (accepted @ lv_events s),
                   lv_totalHits := lv_totalHits s + int (length accepted)\<rparr>))"

definition run_microtask :: "logs_view \<Rightarrow> logs_view" where
  "run_microtask s = (case lv_microtasks s of
       [] \<Rightarrow> s
     | (e, q) # ms \<Rightarrow> commit_events e q (s\<lparr>lv_microtasks := ms\<rparr>))"

section \<open>Runs\<close>

definition cleanup :: "logs_view \<Rightarrow> logs_view" where
  "cleanup s = s\<lparr>lv_aborted := lv_aborted s \<union> set_option (lv_abort s), lv_abort := None, lv_tail := None,
     lv_flush := False, lv_queue := [], lv_seen := {}, lv_order := [], lv_epoch := lv_epoch s + 1\<rparr>"

definition normalizedQuery :: "string \<Rightarrow> string" where
  "normalizedQuery q = (if trim_str q = ''*'' then [] else q)"

definition history_payload :: "query_source_meta \<Rightarrow> string \<Rightarrow> string option \<Rightarrow> query_payload" where
  "history_payload src q from = \<lparr>qp_source = sqy_source (qs_query src), qp_q = normalizedQuery q,
     qp_site = sqy_site (qs_query src), qp_from = from, qp_to = None, qp_limit = None, qp_offset = None\<rparr>"

text \<open>What both kinds of run do first.\<close>

definition begin_run :: "logs_view \<Rightarrow> logs_view" where
  "begin_run s =
     (let s = cleanup s
      in s\<lparr>lv_error := None, lv_events := [], lv_totalHits := 0, lv_running := True,
           lv_abort := Some (lv_epoch s), lv_session := lv_epoch s\<rparr>)"

text \<open>The requests sent and not answered are kept with the run they belong to; \<open>from\<close> is the text
  \<open>queryRangeFrom\<close> gave, whose instant \<open>Format\<close> models.\<close>

definition runHistory :: "string option \<Rightarrow> logs_view \<Rightarrow> logs_view" where
  "runHistory from s = (case lv_source s of
       None \<Rightarrow> s
     | Some src \<Rightarrow> (let s = begin_run s
         in s\<lparr>lv_history := lv_history s @ [(lv_epoch s, history_payload src (lv_query s) from)]\<rparr>))"

definition startLive :: "string option \<Rightarrow> logs_view \<Rightarrow> logs_view" where
  "startLive from s = (case lv_source s of
       None \<Rightarrow> s
     | Some src \<Rightarrow> (let s = begin_run s
         in s\<lparr>lv_seeds := lv_seeds s @ [(lv_epoch s, history_payload src (lv_query s) from)]\<rparr>))"

definition release_abort :: "nat \<Rightarrow> logs_view \<Rightarrow> logs_view" where
  "release_abort c s = (if lv_abort s = Some c then s\<lparr>lv_abort := None\<rparr> else s)"

text \<open>\<open>runHistoryInternal\<close> after its request: an aborted run shows nothing.\<close>

definition query_answer :: "nat \<Rightarrow> query_response \<Rightarrow> logs_view \<Rightarrow> query_event list \<times> logs_view" where
  "query_answer c res s =
     (if c \<in> lv_aborted s then ([], s) else (qr_events res, s\<lparr>lv_totalHits := qr_hits res\<rparr>))"

definition run_failed :: "js_error \<Rightarrow> logs_view \<Rightarrow> logs_view" where
  "run_failed err s = say_log (humanizeError (err_message err) None) ToastError (s\<lparr>lv_error := Some err\<rparr>)"

definition history_end :: "nat \<Rightarrow> js_error + query_response \<Rightarrow> logs_view \<Rightarrow> logs_view" where
  "history_end c outcome s =
     (let s = s\<lparr>lv_history := filter (\<lambda>p. fst p \<noteq> c) (lv_history s)\<rparr>;
          s = (case outcome of
            Inr res \<Rightarrow> (let (list, s) = query_answer c res s
                in if c \<notin> lv_aborted s then s\<lparr>lv_events := list\<rparr> else s)
          | Inl err \<Rightarrow> (if err_name err = ''AbortError'' then s else run_failed err s))
      in (release_abort c s)\<lparr>lv_running := False\<rparr>)"

definition live_end :: "nat \<Rightarrow> js_error + query_response \<Rightarrow> logs_view \<Rightarrow> logs_view" where
  "live_end c outcome s =
     (let sent = map_of (lv_seeds s) c;
          s = s\<lparr>lv_seeds := filter (\<lambda>p. fst p \<noteq> c) (lv_seeds s)\<rparr>;
          s = (case outcome of
            Inr res \<Rightarrow> (let (seed, s) = query_answer c res s
                in if c \<in> lv_aborted s then s else s\<lparr>lv_events := seed, lv_tail := Some c,
                    lv_opened := lv_opened s @ map (\<lambda>p. (c, tailUrl p)) ((case sent of None \<Rightarrow> [] | Some p \<Rightarrow> [p]))\<rparr>)
          | Inl err \<Rightarrow> (if err_name err = ''AbortError'' then s else (run_failed err s)\<lparr>lv_running := False\<rparr>))
      in release_abort c s)"

text \<open>An event of the tail, and the end of the tail: those of a tail that was stopped never come,
  because the stream is closed.\<close>

definition tail_event :: "nat \<Rightarrow> query_event \<Rightarrow> logs_view \<Rightarrow> logs_view" where
  "tail_event c ev s =
     (if lv_tail s = Some c then s\<lparr>lv_queue := lv_queue s @ [ev], lv_flush := True\<rparr> else s)"

definition tail_closed :: "nat \<Rightarrow> logs_view \<Rightarrow> logs_view" where
  "tail_closed c s = (if lv_tail s = Some c then s\<lparr>lv_tail := None, lv_running := False\<rparr> else s)"

definition handleRun :: "string option \<Rightarrow> logs_view \<Rightarrow> logs_view" where
  "handleRun from s = (if lv_mode s = ModeLive then startLive from s else runHistory from s)"

definition handleStop :: "logs_view \<Rightarrow> logs_view" where
  "handleStop s = (cleanup s)\<lparr>lv_running := False\<rparr>"

text \<open>The button and the Enter key of the search bar: Run, or Stop while a run is shown as running.\<close>

definition run_button :: "string option \<Rightarrow> logs_view \<Rightarrow> logs_view" where
  "run_button from s = (if lv_running s then handleStop s else handleRun from s)"

definition setMode :: "log_mode \<Rightarrow> logs_view \<Rightarrow> logs_view" where
  "setMode m s = (if m = lv_mode s then s else (cleanup (s\<lparr>lv_mode := m\<rparr>))\<lparr>lv_running := False\<rparr>)"

definition onSourceChange :: "query_source_meta \<Rightarrow> logs_view \<Rightarrow> logs_view" where
  "onSourceChange src s = (cleanup s)\<lparr>lv_source := Some src, lv_activeSaved := None\<rparr>"

section \<open>Defaults and persistence\<close>

definition find_source :: "string \<Rightarrow> query_source_meta list \<Rightarrow> query_source_meta option" where
  "find_source i srcs = List.find (\<lambda>x. qs_id x = i) srcs"

definition first_source :: "query_source_meta list \<Rightarrow> query_source_meta option" where
  "first_source srcs = (case srcs of [] \<Rightarrow> None | x # xs \<Rightarrow> Some x)"

definition apply_defaults :: "logs_view \<Rightarrow> logs_view" where
  "apply_defaults s = (case lv_meta s of
       None \<Rightarrow> s
     | Some meta \<Rightarrow>
         (if lv_source s \<noteq> None \<or> qm_sources meta = [] then s
          else
            (let p = lv_persisted s; srcs = qm_sources meta;
                 audit = nullish_opt (find_source ''audit'' srcs) (first_source srcs)
             in if truthy_str (ss_sourceId p) \<or> truthy_str (ss_query p) then
                  (let restored = (if truthy_str (ss_sourceId p) then find_source (the (ss_sourceId p)) srcs else None);
                       initial = nullish_opt restored audit;
                       s = s\<lparr>lv_source := initial\<rparr>;
                       s = (if lv_timeRange s = []
                            then s\<lparr>lv_timeRange := nullish (nullish_opt (ss_timeRange p)
                                   (case qm_time_ranges meta of [] \<Rightarrow> None | r # rs \<Rightarrow> Some (tr_value r))) []\<rparr> else s)
                   in if lv_query s = []
                      then s\<lparr>lv_query := nullish (nullish_opt (ss_query p)
                             (case qs_examples (the initial) of [] \<Rightarrow> None | x # xs \<Rightarrow> Some x)) []\<rparr> else s)
                else s\<lparr>lv_source := audit, lv_timeRange := LAYPERSON_DEFAULT_RANGE,
                       lv_query := LAYPERSON_DEFAULT_QUERY\<rparr>)))"

definition persist_search :: "logs_view \<Rightarrow> logs_view" where
  "persist_search s = s\<lparr>lv_storage := \<lparr>ss_sourceId = nullish_opt (map_option qs_id (lv_source s)) (ss_sourceId (lv_persisted s)),
     ss_query = Some (lv_query s), ss_timeRange = Some (lv_timeRange s), ss_mode = Some (lv_mode s),
     ss_format = Some (lv_format s), ss_savedId = lv_activeSaved s\<rparr>\<rparr>"

definition meta_loaded :: "js_error + query_meta_response \<Rightarrow> logs_view \<Rightarrow> logs_view" where
  "meta_loaded outcome s = (case outcome of
       Inr data \<Rightarrow> s\<lparr>lv_meta := Some data\<rparr>
     | Inl err \<Rightarrow> s\<lparr>lv_metaError := Some err\<rparr>)"

text \<open>The first visit runs the default search by itself, once.\<close>

definition auto_run :: "string option \<Rightarrow> logs_view \<Rightarrow> logs_view" where
  "auto_run from s =
     (if \<not> lv_autoRun s \<or> lv_source s = None \<or> lv_meta s = None then s
      else if lv_query s \<noteq> LAYPERSON_DEFAULT_QUERY \<or> lv_timeRange s \<noteq> LAYPERSON_DEFAULT_RANGE then s
      else runHistory from (s\<lparr>lv_autoRun := False\<rparr>))"

section \<open>Saved queries\<close>

text \<open>\<open>lv_refetches\<close> counts the reloads of the list that were started.\<close>

definition refetchSaved :: "logs_view \<Rightarrow> logs_view" where
  "refetchSaved s = s\<lparr>lv_refetches := lv_refetches s + 1\<rparr>"

definition saved_loaded :: "js_error + saved_query list option \<Rightarrow> logs_view \<Rightarrow> logs_view" where
  "saved_loaded outcome s = (case outcome of
       Inr items \<Rightarrow> s\<lparr>lv_saved := nullish items []\<rparr>
     | Inl err \<Rightarrow> say_log (humanizeError (err_message err) None) ToastError s)"

definition saved_created :: "js_error + saved_query \<Rightarrow> logs_view \<Rightarrow> logs_view" where
  "saved_created outcome s = (case outcome of
       Inr q \<Rightarrow> say_log (''Saved '' @ left_quote @ sq_name q @ right_quote) ToastInfo
         (refetchSaved (s\<lparr>lv_activeSaved := Some (sq_id q)\<rparr>))
     | Inl err \<Rightarrow> say_log (humanizeError (err_message err) None) ToastError s)"

definition saved_renamed :: "js_error option \<Rightarrow> logs_view \<Rightarrow> logs_view" where
  "saved_renamed failure s = (case failure of
       None \<Rightarrow> say_log ''Renamed'' ToastInfo (refetchSaved s)
     | Some err \<Rightarrow> say_log (humanizeError (err_message err) None) ToastError s)"

definition saved_deleted :: "int \<Rightarrow> js_error option \<Rightarrow> logs_view \<Rightarrow> logs_view" where
  "saved_deleted i failure s = (case failure of
       None \<Rightarrow> say_log ''Deleted'' ToastInfo
         (s\<lparr>lv_saved := filter (\<lambda>q. sq_id q \<noteq> i) (lv_saved s),
            lv_activeSaved := (if lv_activeSaved s = Some i then None else lv_activeSaved s)\<rparr>)
     | Some err \<Rightarrow> say_log (humanizeError (err_message err) None) ToastError s)"

definition handleLoadSaved :: "saved_query \<Rightarrow> logs_view \<Rightarrow> logs_view" where
  "handleLoadSaved item s =
     (let hit = Option.bind (lv_meta s) (\<lambda>m. List.find (\<lambda>x. sqy_source (qs_query x) = sq_source item) (qm_sources m));
          s = (if hit \<noteq> None then s\<lparr>lv_source := hit\<rparr> else s)
      in say_log (''Loaded '' @ left_quote @ sq_name item @ right_quote) ToastInfo
           (s\<lparr>lv_query := sq_query item, lv_activeSaved := Some (sq_id item)\<rparr>))"

section \<open>The view as a machine\<close>

datatype log_event = LRun "string option" | LMode log_mode | LSource query_source_meta
  | LHistory nat "js_error + query_response" | LSeed nat "js_error + query_response"
  | LTail nat query_event | LTailClosed nat | LFrame | LMicrotask | LLoad saved_query
  | LAuto "string option" | LMeta "js_error + query_meta_response" | LDefaults | LPersist
  | LSavedList "js_error + saved_query list option" | LCreated "js_error + saved_query"
  | LRenamed "js_error option" | LDeleted int "js_error option"

fun logs_can :: "log_event \<Rightarrow> logs_view \<Rightarrow> bool" where
  "logs_can (LHistory c r) s = (c \<in> fst ` set (lv_history s))"
| "logs_can (LSeed c r) s = (c \<in> fst ` set (lv_seeds s))"
| "logs_can LFrame s = lv_flush s"
| "logs_can _ s = True"

fun logs_step :: "log_event \<Rightarrow> logs_view \<Rightarrow> logs_view" where
  "logs_step (LRun from) s = run_button from s"
| "logs_step (LMode m) s = setMode m s"
| "logs_step (LSource x) s = onSourceChange x s"
| "logs_step (LHistory c r) s = history_end c r s"
| "logs_step (LSeed c r) s = live_end c r s"
| "logs_step (LTail c ev) s = tail_event c ev s"
| "logs_step (LTailClosed c) s = tail_closed c s"
| "logs_step LFrame s = flushLiveQueue s"
| "logs_step LMicrotask s = run_microtask s"
| "logs_step (LLoad q) s = handleLoadSaved q s"
| "logs_step (LAuto from) s = auto_run from s"
| "logs_step (LMeta r) s = meta_loaded r s"
| "logs_step LDefaults s = apply_defaults s"
| "logs_step LPersist s = persist_search s"
| "logs_step (LSavedList r) s = saved_loaded r s"
| "logs_step (LCreated r) s = saved_created r s"
| "logs_step (LRenamed r) s = saved_renamed r s"
| "logs_step (LDeleted i r) s = saved_deleted i r s"

text \<open>The answers are honest: what settles for a run, and what its tail delivers, belongs to it.\<close>

fun belongs :: "(nat \<Rightarrow> query_event \<Rightarrow> bool) \<Rightarrow> log_event \<Rightarrow> bool" where
  "belongs ok (LHistory c (Inr res)) = (\<forall>ev \<in> set (qr_events res). ok c ev)"
| "belongs ok (LSeed c (Inr res)) = (\<forall>ev \<in> set (qr_events res). ok c ev)"
| "belongs ok (LTail c ev) = ok c ev"
| "belongs ok _ = True"

abbreviation logs_run :: "(nat \<Rightarrow> query_event \<Rightarrow> bool) \<Rightarrow> logs_view \<Rightarrow> log_event list \<Rightarrow> logs_view \<Rightarrow> bool" where
  "logs_run ok \<equiv> machine_run (\<lambda>e s. logs_can e s \<and> belongs ok e) logs_step"

section \<open>The dedup ring\<close>

lemma accept_events_ring:
  assumes "accept_events cap evs (seen, order) = (acc, seen', order')"
    and "seen = set order" "distinct order" "length order \<le> cap" "0 < cap"
  shows "seen' = set order' \<and> distinct order' \<and> length order' \<le> cap
     \<and> order' = drop (length order + length acc - cap) (order @ map event_key acc)
     \<and> set acc \<subseteq> set evs
     \<and> (length order + length acc \<le> cap \<longrightarrow> distinct (order @ map event_key acc))"
  using assms
proof (induction evs arbitrary: seen order acc)
  case Nil
  then show ?case by auto
next
  case (Cons ev evs)
  let ?k = "event_key ev"
  show ?case
  proof (cases "?k \<in> seen")
    case True
    with Cons.prems have "accept_events cap evs (seen, order) = (acc, seen', order')" by simp
    from Cons.IH [OF this Cons.prems(2-5)] show ?thesis by auto
  next
    case False
    define o1 where "o1 = order @ [?k]"
    define o2 where "o2 = (if length o1 > cap then tl o1 else o1)"
    define s2 where "s2 = (if length o1 > cap then insert ?k seen - {hd o1} else insert ?k seen)"
    obtain acc2 where acc: "acc = ev # acc2" "accept_events cap evs (s2, o2) = (acc2, seen', order')"
      using Cons.prems(1) False
      by (auto simp: Let_def o1_def o2_def s2_def split: prod.splits if_splits)
    have d1: "distinct o1" using Cons.prems(2,3) False by (simp add: o1_def)
    have o1: "o1 \<noteq> []" by (simp add: o1_def)
    then have hd: "o1 = hd o1 # tl o1" by simp
    have o2: "s2 = set o2" "distinct o2" "length o2 \<le> cap"
    proof -
      have "insert ?k seen = set o1" using Cons.prems(2) by (simp add: o1_def)
      moreover have "set o1 - {hd o1} = set (tl o1)"
        using d1 hd by (metis Diff_insert_absorb distinct.simps(2) list.simps(15))
      ultimately show "s2 = set o2" by (simp add: s2_def o2_def)
      show "distinct o2" using d1 by (simp add: o2_def distinct_tl)
      show "length o2 \<le> cap" using Cons.prems(4) by (auto simp: o2_def o1_def)
    qed
    from Cons.IH [OF acc(2) o2 Cons.prems(5)] have ih: "seen' = set order'" "distinct order'" "length order' \<le> cap"
      "order' = drop (length o2 + length acc2 - cap) (o2 @ map event_key acc2)" "set acc2 \<subseteq> set evs"
      "length o2 + length acc2 \<le> cap \<longrightarrow> distinct (o2 @ map event_key acc2)" by auto
    have whole: "o1 @ map event_key acc2 = order @ map event_key acc" by (simp add: o1_def acc(1))
    show ?thesis
    proof (cases "length o1 > cap")
      case True
      then have lo: "length order = cap" using Cons.prems(4) by (simp add: o1_def)
      have "o2 = tl o1" using True by (simp add: o2_def)
      moreover have "length o2 = cap" using True lo by (simp add: o2_def o1_def)
      moreover have "drop (length acc2) (tl (o1 @ map event_key acc2)) = drop (Suc (length acc2)) (o1 @ map event_key acc2)"
        by (simp only: drop_Suc)
      ultimately have "order' = drop (Suc (length acc2)) (o1 @ map event_key acc2)"
        using ih(4) o1 by (simp add: tl_append2)
      then show ?thesis using ih lo acc whole by auto
    next
      case f: False
      then have "o2 = o1" by (simp add: o2_def)
      then show ?thesis using ih acc whole by (auto simp: o1_def)
    qed
  qed
qed

section \<open>Events and runs\<close>

text \<open>The parts of the invariant: what is shown belongs to the run \<open>n\<close>; the tail and its queue are
  those of the present epoch; a microtask of the present epoch carries events of its run; a request
  that is pending and not aborted is the one the view would abort; the ring is a ring.\<close>

definition shown_ok :: "(nat \<Rightarrow> query_event \<Rightarrow> bool) \<Rightarrow> nat \<Rightarrow> query_event list \<Rightarrow> bool" where
  "shown_ok ok n evs \<longleftrightarrow> (\<forall>ev \<in> set evs. ok n ev)"

definition live_ok :: "(nat \<Rightarrow> query_event \<Rightarrow> bool) \<Rightarrow> nat option \<Rightarrow> query_event list \<Rightarrow> nat \<Rightarrow> nat \<Rightarrow> bool" where
  "live_ok ok tail q ep n \<longleftrightarrow> (\<forall>c. tail = Some c \<longrightarrow> c = ep \<and> c = n) \<and> (q \<noteq> [] \<longrightarrow> n = ep \<and> shown_ok ok n q)"

definition micro_ok :: "(nat \<Rightarrow> query_event \<Rightarrow> bool) \<Rightarrow> (nat \<times> query_event list) list \<Rightarrow> nat \<Rightarrow> nat \<Rightarrow> bool" where
  "micro_ok ok ms ep n \<longleftrightarrow> (\<forall>(e, q) \<in> set ms. e \<le> ep \<and> (e = ep \<longrightarrow> e = n \<and> shown_ok ok e q))"

definition pending_ok :: "nat list \<Rightarrow> nat option \<Rightarrow> nat set \<Rightarrow> nat \<Rightarrow> nat \<Rightarrow> bool" where
  "pending_ok ids ab gone ep n \<longleftrightarrow> distinct ids \<and> n \<le> ep \<and> (\<forall>c. ab = Some c \<longrightarrow> c = ep \<and> c = n)
     \<and> (\<forall>c \<in> set ids. c \<le> ep \<and> (c \<notin> gone \<longrightarrow> ab = Some c))"

definition ring_ok :: "string set \<Rightarrow> string list \<Rightarrow> bool" where
  "ring_ok seen order \<longleftrightarrow> seen = set order \<and> distinct order \<and> length order \<le> liveSeenCap"

definition pending_ids :: "logs_view \<Rightarrow> nat list" where
  "pending_ids s = map fst (lv_history s) @ map fst (lv_seeds s)"

definition logs_inv :: "(nat \<Rightarrow> query_event \<Rightarrow> bool) \<Rightarrow> logs_view \<Rightarrow> bool" where
  "logs_inv ok s \<longleftrightarrow> shown_ok ok (lv_session s) (lv_events s)
     \<and> live_ok ok (lv_tail s) (lv_queue s) (lv_epoch s) (lv_session s)
     \<and> micro_ok ok (lv_microtasks s) (lv_epoch s) (lv_session s)
     \<and> pending_ok (pending_ids s) (lv_abort s) (lv_aborted s) (lv_epoch s) (lv_session s)
     \<and> ring_ok (lv_seen s) (lv_order s)"

lemma shown_ok_Nil [simp]: "shown_ok ok n []"
  by (simp add: shown_ok_def)

lemma live_ok_clear [simp]: "live_ok ok None [] ep n"
  by (simp add: live_ok_def)

lemma live_ok_stop: "live_ok ok tail q ep n \<Longrightarrow> live_ok ok None q ep n"
  by (auto simp: live_ok_def)

lemma live_ok_event:
  "live_ok ok (Some c) q ep n \<Longrightarrow> ok c ev \<Longrightarrow> live_ok ok (Some c) (q @ [ev]) ep n"
  by (auto simp: live_ok_def shown_ok_def)

lemma live_ok_open: "live_ok ok tail q n n \<Longrightarrow> live_ok ok (Some n) q n n"
  by (auto simp: live_ok_def)

lemma live_ok_flush: "live_ok ok tail q ep n \<Longrightarrow> live_ok ok tail [] ep n"
  by (simp add: live_ok_def)

lemma micro_ok_bump: "micro_ok ok ms ep n \<Longrightarrow> micro_ok ok ms (Suc ep) n'"
  by (fastforce simp: micro_ok_def)

lemma micro_ok_tl: "micro_ok ok (m # ms) ep n \<Longrightarrow> micro_ok ok ms ep n"
  by (simp add: micro_ok_def)

lemma micro_ok_flush:
  "micro_ok ok ms ep n \<Longrightarrow> live_ok ok tail q ep n \<Longrightarrow> q \<noteq> [] \<Longrightarrow> micro_ok ok (ms @ [(ep, q)]) ep n"
  by (auto simp: micro_ok_def live_ok_def)

lemma pending_cleanup:
  "pending_ok ids ab gone ep n \<Longrightarrow> pending_ok ids None (gone \<union> set_option ab) (Suc ep) n"
  by (fastforce simp: pending_ok_def)

lemma pending_begin:
  assumes "pending_ok ids ab gone ep n" "set ids' = insert (Suc ep) (set ids)" "length ids' = Suc (length ids)"
  shows "pending_ok ids' (Some (Suc ep)) (gone \<union> set_option ab) (Suc ep) (Suc ep)"
proof -
  have "Suc ep \<notin> set ids" using assms(1) by (auto simp: pending_ok_def)
  then have "card (set ids') = length ids'"
    using assms by (simp add: pending_ok_def distinct_card)
  then have "distinct ids'" by (rule card_distinct)
  then show ?thesis using assms by (fastforce simp: pending_ok_def)
qed

lemma pending_settle:
  assumes "pending_ok ids ab gone ep n" "set ids' \<subseteq> set ids - {c}" "distinct ids'"
  shows "pending_ok ids' (if ab = Some c then None else ab) gone ep n"
  using assms by (auto simp: pending_ok_def)

lemma pending_current:
  "pending_ok ids ab gone ep n \<Longrightarrow> c \<in> set ids \<Longrightarrow> c \<notin> gone \<Longrightarrow> ep = n \<and> c = n"
  by (auto simp: pending_ok_def)

lemmas logs_parts = logs_inv_def pending_ids_def

lemma logs_inv_init: "logs_inv ok (logs_init p)"
  by (simp add: logs_parts logs_init_def micro_ok_def pending_ok_def ring_ok_def)

lemma logs_inv_say [simp]: "logs_inv ok (say_log m k s) = logs_inv ok s"
  by (simp add: logs_parts say_log_def)

lemma ring_ok_empty [simp]: "ring_ok {} []"
  by (simp add: ring_ok_def)

lemma logs_inv_cleanup: "logs_inv ok s \<Longrightarrow> logs_inv ok (cleanup s)"
  by (auto simp: logs_parts cleanup_def intro: pending_cleanup micro_ok_bump)

lemma pending_append:
  assumes "pending_ok (xs @ ys) ab gone ep n"
  shows "pending_ok (xs @ Suc ep # ys) (Some (Suc ep)) (gone \<union> set_option ab) (Suc ep) (Suc ep)"
    "pending_ok (xs @ ys @ [Suc ep]) (Some (Suc ep)) (gone \<union> set_option ab) (Suc ep) (Suc ep)"
  by (rule pending_begin [OF assms]; simp)+

lemma logs_inv_runHistory: "logs_inv ok s \<Longrightarrow> logs_inv ok (runHistory from s)"
  by (cases "lv_source s")
    (auto simp: logs_parts runHistory_def begin_run_def cleanup_def intro: micro_ok_bump pending_append)

lemma logs_inv_startLive: "logs_inv ok s \<Longrightarrow> logs_inv ok (startLive from s)"
  by (cases "lv_source s")
    (auto simp: logs_parts startLive_def begin_run_def cleanup_def intro: micro_ok_bump pending_append)

lemma pending_filter:
  assumes "pending_ok (xs @ ys) ab gone ep n"
  shows "c \<in> set xs \<Longrightarrow> pending_ok (filter (\<lambda>x. x \<noteq> c) xs @ ys) (if ab = Some c then None else ab) gone ep n"
    "c \<in> set ys \<Longrightarrow> pending_ok (xs @ filter (\<lambda>x. x \<noteq> c) ys) (if ab = Some c then None else ab) gone ep n"
proof -
  have d: "distinct (xs @ ys)" using assms by (simp add: pending_ok_def)
  show "pending_ok (filter (\<lambda>x. x \<noteq> c) xs @ ys) (if ab = Some c then None else ab) gone ep n" if "c \<in> set xs"
    by (rule pending_settle [OF assms]) (use d that in auto)
  show "pending_ok (xs @ filter (\<lambda>x. x \<noteq> c) ys) (if ab = Some c then None else ab) gone ep n" if "c \<in> set ys"
    by (rule pending_settle [OF assms]) (use d that in auto)
qed

lemma map_filter_fst: "map fst (filter (\<lambda>p. fst p \<noteq> c) ps) = filter (\<lambda>x. x \<noteq> c) (map fst ps)"
  by (induction ps) auto

lemma pending_answered:
  assumes "pending_ok (map fst hs @ map fst ss) ab gone ep n"
  shows "c \<in> fst ` set hs \<Longrightarrow>
      pending_ok (map fst (filter (\<lambda>p. fst p \<noteq> c) hs) @ map fst ss) (if ab = Some c then None else ab) gone ep n"
    "c \<in> fst ` set ss \<Longrightarrow>
      pending_ok (map fst hs @ map fst (filter (\<lambda>p. fst p \<noteq> c) ss)) (if ab = Some c then None else ab) gone ep n"
  using pending_filter [OF assms, of c] by (simp_all add: map_filter_fst)

lemma logs_current:
  assumes "logs_inv ok s" "c \<in> fst ` set (lv_history s) \<union> fst ` set (lv_seeds s)" "c \<notin> lv_aborted s"
  shows "c = lv_session s \<and> lv_epoch s = lv_session s"
proof -
  have "pending_ok (pending_ids s) (lv_abort s) (lv_aborted s) (lv_epoch s) (lv_session s)"
    using assms(1) by (simp add: logs_inv_def)
  moreover have "c \<in> set (pending_ids s)" using assms(2) by (auto simp: pending_ids_def)
  ultimately show ?thesis using pending_current assms(3) by blast
qed

lemma logs_inv_answered:
  assumes "logs_inv ok s"
  shows "c \<in> fst ` set (lv_history s) \<Longrightarrow> logs_inv ok (release_abort c (s\<lparr>lv_history := filter (\<lambda>p. fst p \<noteq> c) (lv_history s)\<rparr>))"
    "c \<in> fst ` set (lv_seeds s) \<Longrightarrow> logs_inv ok (release_abort c (s\<lparr>lv_seeds := filter (\<lambda>p. fst p \<noteq> c) (lv_seeds s)\<rparr>))"
proof -
  have p: "pending_ok (map fst (lv_history s) @ map fst (lv_seeds s)) (lv_abort s) (lv_aborted s) (lv_epoch s) (lv_session s)"
    using assms by (simp add: logs_parts)
  note q = pending_answered [OF p, of c]
  show "logs_inv ok (release_abort c (s\<lparr>lv_history := filter (\<lambda>p. fst p \<noteq> c) (lv_history s)\<rparr>))"
    if "c \<in> fst ` set (lv_history s)"
    using q(1) [OF that] assms by (cases "lv_abort s = Some c") (simp_all add: logs_parts release_abort_def)
  show "logs_inv ok (release_abort c (s\<lparr>lv_seeds := filter (\<lambda>p. fst p \<noteq> c) (lv_seeds s)\<rparr>))"
    if "c \<in> fst ` set (lv_seeds s)"
    using q(2) [OF that] assms by (cases "lv_abort s = Some c") (simp_all add: logs_parts release_abort_def)
qed

text \<open>Updates the invariant does not see, or sees only through the events.\<close>

lemma logs_inv_frame [simp]:
  "logs_inv ok (s\<lparr>lv_running := b\<rparr>) = logs_inv ok s" "logs_inv ok (s\<lparr>lv_error := e\<rparr>) = logs_inv ok s"
  "logs_inv ok (s\<lparr>lv_toasts := ts\<rparr>) = logs_inv ok s" "logs_inv ok (s\<lparr>lv_totalHits := k\<rparr>) = logs_inv ok s"
  "logs_inv ok (s\<lparr>lv_source := src\<rparr>) = logs_inv ok s" "logs_inv ok (s\<lparr>lv_activeSaved := i\<rparr>) = logs_inv ok s"
  "logs_inv ok (s\<lparr>lv_query := qu\<rparr>) = logs_inv ok s" "logs_inv ok (s\<lparr>lv_mode := m\<rparr>) = logs_inv ok s"
  "logs_inv ok (s\<lparr>lv_autoRun := b\<rparr>) = logs_inv ok s" "logs_inv ok (s\<lparr>lv_flush := b\<rparr>) = logs_inv ok s"
  "logs_inv ok (s\<lparr>lv_opened := os\<rparr>) = logs_inv ok s" "logs_inv ok (s\<lparr>lv_saved := qs\<rparr>) = logs_inv ok s"
  "logs_inv ok (s\<lparr>lv_meta := mt\<rparr>) = logs_inv ok s" "logs_inv ok (s\<lparr>lv_metaError := e\<rparr>) = logs_inv ok s"
  "logs_inv ok (s\<lparr>lv_refetches := i2\<rparr>) = logs_inv ok s" "logs_inv ok (s\<lparr>lv_timeRange := qu\<rparr>) = logs_inv ok s"
  "logs_inv ok (s\<lparr>lv_storage := st\<rparr>) = logs_inv ok s"
  by (simp_all add: logs_parts)

lemma logs_inv_events: "logs_inv ok s \<Longrightarrow> shown_ok ok (lv_session s) evs \<Longrightarrow> logs_inv ok (s\<lparr>lv_events := evs\<rparr>)"
  by (simp add: logs_parts)

lemma logs_inv_history_end:
  assumes "logs_inv ok s" "c \<in> fst ` set (lv_history s)" "belongs ok (LHistory c outcome)"
  shows "logs_inv ok (history_end c outcome s)"
  using logs_inv_answered(1) [OF assms(1,2)] logs_current [OF assms(1), of c] assms(2,3)
  by (cases "lv_abort s = Some c"; cases outcome; cases "c \<in> lv_aborted s")
    (auto simp: logs_parts history_end_def query_answer_def run_failed_def say_log_def release_abort_def Let_def shown_ok_def)

lemma logs_inv_live_end:
  assumes "logs_inv ok s" "c \<in> fst ` set (lv_seeds s)" "belongs ok (LSeed c outcome)"
  shows "logs_inv ok (live_end c outcome s)"
  using logs_inv_answered(2) [OF assms(1,2)] logs_current [OF assms(1), of c] assms(2,3)
  by (cases "lv_abort s = Some c"; cases outcome; cases "c \<in> lv_aborted s")
    (auto simp: logs_parts live_end_def query_answer_def run_failed_def say_log_def release_abort_def Let_def shown_ok_def
      live_ok_open)

lemma logs_inv_flush: "logs_inv ok s \<Longrightarrow> logs_inv ok (flushLiveQueue s)"
  by (cases "lv_queue s = []")
    (auto simp: logs_parts flushLiveQueue_def Let_def intro: live_ok_flush micro_ok_flush)

lemma accept_events_ok:
  assumes "accept_events liveSeenCap q (seen, order) = (acc, seen', order')" "ring_ok seen order"
  shows "set acc \<subseteq> set q" "ring_ok seen' order'"
proof -
  have "0 < liveSeenCap" by (simp add: liveSeenCap_def)
  with accept_events_ring [OF assms(1)] assms(2) show "set acc \<subseteq> set q" "ring_ok seen' order'"
    by (auto simp: ring_ok_def)
qed

lemma shown_ok_take: "shown_ok ok n q \<Longrightarrow> set acc \<subseteq> set q \<Longrightarrow> shown_ok ok n evs \<Longrightarrow> shown_ok ok n (take k (acc @ evs))"
  unfolding shown_ok_def by (metis Un_iff in_set_takeD set_append subsetD)

lemma logs_inv_microtask: "logs_inv ok s \<Longrightarrow> logs_inv ok (run_microtask s)"
proof (cases "lv_microtasks s")
  case (Cons m ms)
  assume inv: "logs_inv ok s"
  obtain e q where m: "m = (e, q)" by (cases m)
  obtain acc seen order where acc: "accept_events liveSeenCap q (lv_seen s, lv_order s) = (acc, seen, order)"
    by (metis prod_cases3)
  have ring: "ring_ok (lv_seen s) (lv_order s)" using inv by (simp add: logs_parts)
  note a = accept_events_ok [OF acc ring]
  have ms: "micro_ok ok ms (lv_epoch s) (lv_session s)"
    using inv Cons by (auto simp: logs_parts micro_ok_def)
  have "e = lv_epoch s \<Longrightarrow> shown_ok ok (lv_session s) q"
    using inv Cons m by (auto simp: logs_parts micro_ok_def)
  then show ?thesis
    using inv ms a shown_ok_take [OF _ a(1)] Cons m acc
    by (auto simp: run_microtask_def commit_events_def logs_parts Let_def simp del: take_append)
qed (simp add: run_microtask_def)

lemma logs_inv_defaults: "logs_inv ok s \<Longrightarrow> logs_inv ok (apply_defaults s)"
  by (auto simp: apply_defaults_def Let_def logs_parts split: option.splits)

lemma logs_inv_saved:
  assumes "logs_inv ok s"
  shows "logs_inv ok (saved_loaded a s)" "logs_inv ok (saved_created b s)" "logs_inv ok (saved_renamed c s)"
    "logs_inv ok (saved_deleted i d s)" "logs_inv ok (meta_loaded e s)" "logs_inv ok (persist_search s)"
  using assms by (auto simp: saved_loaded_def saved_created_def saved_renamed_def saved_deleted_def meta_loaded_def
      persist_search_def refetchSaved_def split: sum.splits option.splits)

lemma logs_inv_step:
  assumes "logs_inv ok s" "logs_can e s" "belongs ok e"
  shows "logs_inv ok (logs_step e s)"
proof (cases e)
  case (LTail c ev)
  with assms(1,3) show ?thesis by (auto simp: tail_event_def logs_parts live_ok_event)
next
  case (LTailClosed c)
  with assms(1) show ?thesis by (auto simp: tail_closed_def logs_parts live_ok_stop)
qed (use assms in \<open>auto simp: run_button_def handleRun_def handleStop_def setMode_def onSourceChange_def handleLoadSaved_def
    auto_run_def Let_def logs_inv_runHistory logs_inv_startLive logs_inv_cleanup logs_inv_history_end
    logs_inv_live_end logs_inv_flush logs_inv_microtask logs_inv_defaults logs_inv_saved simp del: belongs.simps\<close>)

interpretation logs: started_machine "\<lambda>e s. logs_can e s \<and> belongs ok e" logs_step "logs_inv ok" "logs_init p" for ok p
  by unfold_locales (simp_all add: logs_inv_step logs_inv_init)

lemma accept_events_small:
  "accept_events cap q (set order, order) = (acc, seen', order') \<Longrightarrow> length order + length q \<le> cap \<Longrightarrow>
    order' = order @ map event_key acc \<and> event_key ` set q \<subseteq> set order'"
proof (induction q arbitrary: order acc)
  case (Cons ev q)
  show ?case
  proof (cases "event_key ev \<in> set order")
    case True
    with Cons.prems have "accept_events cap q (set order, order) = (acc, seen', order')" by simp
    from Cons.IH [OF this] Cons.prems(2) True show ?thesis by auto
  next
    case False
    with Cons.prems obtain acc2 where acc: "acc = ev # acc2"
      "accept_events cap q (set (order @ [event_key ev]), order @ [event_key ev]) = (acc2, seen', order')"
      by (auto simp: Let_def split: prod.splits if_splits)
    from Cons.IH [OF acc(2)] Cons.prems(2) show ?thesis by (auto simp: acc(1))
  qed
qed auto

lemma accept_events_fresh:
  assumes "distinct (map event_key q)" "event_key ` set q \<inter> set order = {}" "length order + length q \<le> cap"
  shows "accept_events cap q (set order, order) = (q, set (order @ map event_key q), order @ map event_key q)"
  using assms
proof (induction q arbitrary: order)
  case (Cons ev q)
  have "accept_events cap q (set (order @ [event_key ev]), order @ [event_key ev])
      = (q, set ((order @ [event_key ev]) @ map event_key q), (order @ [event_key ev]) @ map event_key q)"
    by (rule Cons.IH) (use Cons.prems in \<open>auto simp: image_iff\<close>)
  then show ?case using Cons.prems by (simp add: Let_def)
qed simp

text \<open>
  C5.
  What the log view shows, in any interleaving of runs, stops, mode and source changes, answers, tail
  events, frames and microtasks, belongs to the run it last started: no answer of a superseded query
  and no event of a stopped tail is ever among the rows, and the tail that is open, if any, is the
  tail of that run.  The answers and the stream are assumed to deliver the events of their own query.
\<close>

theorem logs_show_current_run:
  assumes "logs_run ok (logs_init p) es s"
  shows "(\<forall>ev \<in> set (lv_events s). ok (lv_session s) ev)
    \<and> (\<forall>c. lv_tail s = Some c \<longrightarrow> c = lv_session s)
    \<and> (\<forall>c \<in> fst ` set (lv_history s) \<union> fst ` set (lv_seeds s). c \<notin> lv_aborted s \<longrightarrow> c = lv_session s)"
proof -
  have inv: "logs_inv ok s" using logs.inv_reachable [OF assms] .
  then have "shown_ok ok (lv_session s) (lv_events s)" "\<forall>c. lv_tail s = Some c \<longrightarrow> c = lv_session s"
    by (auto simp: logs_parts live_ok_def)
  then show ?thesis using logs_current [OF inv] by (auto simp: shown_ok_def)
qed

definition demo_log_event :: "string \<Rightarrow> query_event" where
  "demo_log_event i = \<lparr>qe_id = i, qe_ts = ''t'', qe_source = ''audit'', qe_action = ''login'', qe_user = ''u'',
     qe_message = i, qe_meta = []\<rparr>"

definition demo_log_source :: query_source_meta where
  "demo_log_source = \<lparr>qs_id = ''audit'', qs_label = ''Audit'', qs_group = ''g'', qs_description = [],
     qs_search_profile = None, qs_log_path = None, qs_query = \<lparr>sqy_source = ''audit'', sqy_site = None\<rparr>,
     qs_fields = [], qs_quick_filters = [], qs_examples = []\<rparr>"

text \<open>A history run is stopped and a live run started; the answer of the first comes late.\<close>

definition demo_log_script :: "log_event list" where
  "demo_log_script = [LSource demo_log_source, LRun None, LMode ModeLive, LRun None,
     LHistory 2 (Inr \<lparr>qr_hits = 1, qr_events = [demo_log_event ''old'']\<rparr>),
     LSeed 4 (Inr \<lparr>qr_hits = 1, qr_events = [demo_log_event ''new'']\<rparr>),
     LTail 4 (demo_log_event ''live''), LFrame, LMicrotask]"

definition demo_log_view :: logs_view where
  "demo_log_view = fold logs_step demo_log_script (logs_init no_search)"

definition demo_log_ok :: "nat \<Rightarrow> query_event \<Rightarrow> bool" where
  "demo_log_ok c ev \<longleftrightarrow> (if qe_id ev = ''old'' then c = 2 else c = 4)"

lemmas logs_eval = demo_log_script_def demo_log_event_def demo_log_source_def logs_init_def no_search_def
  run_button_def handleRun_def runHistory_def startLive_def begin_run_def cleanup_def setMode_def onSourceChange_def
  history_end_def live_end_def query_answer_def release_abort_def tail_event_def flushLiveQueue_def run_microtask_def
  commit_events_def Let_def demo_log_ok_def liveSeenCap_def MAX_LIVE_EVENTS_def event_key_def handleStop_def

lemma demo_log_run: "logs_run demo_log_ok (logs_init no_search) demo_log_script demo_log_view"
  unfolding machine_run_exec demo_log_view_def by (simp add: logs_eval)

lemma demo_log_events:
  "lv_events demo_log_view = [demo_log_event ''live'', demo_log_event ''new'']"
  "lv_session demo_log_view = 4" "lv_tail demo_log_view = Some 4"
  "lv_history demo_log_view = []" "lv_seeds demo_log_view = []" "lv_order demo_log_view = [''live'']"
  "lv_seen demo_log_view = {''live''}" "lv_source demo_log_view = Some demo_log_source" "lv_epoch demo_log_view = 4"
  by (simp_all add: demo_log_view_def logs_eval)

theorem logs_show_current_run_witness:
  "lv_events demo_log_view = [demo_log_event ''live'', demo_log_event ''new'']
   \<and> list_all (demo_log_ok (lv_session demo_log_view)) (lv_events demo_log_view)"
  using logs_show_current_run [OF demo_log_run] by (simp add: demo_log_events list_all_iff)

text \<open>
  The batch of a frame goes into the list without duplicates: the events accepted have distinct keys
  none of which the session showed before, no event of the batch is lost (its key is remembered
  afterwards), the memory stays within its 5000 keys and the list within 200 rows.
\<close>

theorem logs_dedup:
  assumes "logs_run ok (logs_init p) es s" and room: "length (lv_order s) + length q \<le> liveSeenCap"
    and "length (lv_events s) \<le> MAX_LIVE_EVENTS"
  shows "\<exists>acc. lv_events (commit_events (lv_epoch s) q s) = take MAX_LIVE_EVENTS (acc @ lv_events s)
    \<and> set acc \<subseteq> set q \<and> distinct (map event_key acc)
    \<and> event_key ` set acc \<inter> lv_seen s = {}
    \<and> event_key ` set q \<subseteq> lv_seen (commit_events (lv_epoch s) q s)
    \<and> lv_totalHits (commit_events (lv_epoch s) q s) = lv_totalHits s + int (length acc)
    \<and> card (lv_seen (commit_events (lv_epoch s) q s)) \<le> liveSeenCap"
proof -
  have "logs_inv ok s" using logs.inv_reachable [OF assms(1)] .
  then have seen: "lv_seen s = set (lv_order s)" and ring: "ring_ok (lv_seen s) (lv_order s)"
    by (auto simp: logs_parts ring_ok_def)
  obtain acc seen order where acc: "accept_events liveSeenCap q (lv_seen s, lv_order s) = (acc, seen, order)"
    by (metis prod_cases3)
  note small = accept_events_small [OF acc [unfolded seen] room]
  have r: "ring_ok seen order" "set acc \<subseteq> set q" using accept_events_ok [OF acc ring] by auto
  then have d: "distinct (lv_order s @ map event_key acc)" using small by (simp add: ring_ok_def)
  have "card seen \<le> liveSeenCap" using r(1) by (simp add: ring_ok_def distinct_card)
  moreover have "commit_events (lv_epoch s) q s = (let s = s\<lparr>lv_seen := seen, lv_order := order\<rparr> in
      if acc = [] then s else s\<lparr>lv_events := take MAX_LIVE_EVENTS (acc @ lv_events s),
        lv_totalHits := lv_totalHits s + int (length acc)\<rparr>)"
    by (simp add: commit_events_def acc)
  ultimately show ?thesis using d r small seen assms(3)
    by (intro exI [of _ acc]) (auto simp: Let_def ring_ok_def)
qed

theorem logs_dedup_witness:
  "lv_events (commit_events 4 [demo_log_event ''x'', demo_log_event ''live'', demo_log_event ''x''] demo_log_view)
     = [demo_log_event ''x'', demo_log_event ''live'', demo_log_event ''new'']
   \<and> event_key ` {demo_log_event ''x'', demo_log_event ''live''}
       \<subseteq> lv_seen (commit_events 4 [demo_log_event ''x'', demo_log_event ''live'', demo_log_event ''x''] demo_log_view)"
proof -
  let ?q = "[demo_log_event ''x'', demo_log_event ''live'', demo_log_event ''x'']"
  have "event_key ` set ?q \<subseteq> lv_seen (commit_events (lv_epoch demo_log_view) ?q demo_log_view)"
    using logs_dedup [OF demo_log_run, of ?q] by (auto simp: demo_log_events liveSeenCap_def MAX_LIVE_EVENTS_def)
  then show ?thesis
    by (simp add: demo_log_events commit_events_def Let_def demo_log_event_def event_key_def liveSeenCap_def MAX_LIVE_EVENTS_def)
qed

text \<open>
  The order of the live rows depends on the frames.  New events that come in one frame are put at the
  top in the order they came, the oldest first; the same events one frame each are put at the top one
  after the other, the newest first.  The list, whose earlier rows are newest-first, is therefore out
  of order as soon as a frame carries two events.
\<close>

theorem logs_frame_order:
  assumes "logs_run ok (logs_init p) es s" "distinct (map event_key q)" "event_key ` set q \<inter> lv_seen s = {}"
    and "length (lv_order s) + length q \<le> liveSeenCap" "length (lv_events s) + length q \<le> MAX_LIVE_EVENTS"
  shows "lv_events (commit_events (lv_epoch s) q s) = q @ lv_events s
    \<and> lv_events (fold (\<lambda>ev. commit_events (lv_epoch s) [ev]) q s) = rev q @ lv_events s"
proof -
  have seen: "lv_seen s = set (lv_order s)"
    using logs.inv_reachable [OF assms(1)] by (simp add: logs_parts ring_ok_def)
  have one: "commit_events (lv_epoch t) ev t =
      (if ev = [] then t else t\<lparr>lv_seen := set (lv_order t @ map event_key ev), lv_order := lv_order t @ map event_key ev,
         lv_events := ev @ lv_events t, lv_totalHits := lv_totalHits t + int (length ev)\<rparr>)"
    if "lv_seen t = set (lv_order t)" "distinct (map event_key ev)" "event_key ` set ev \<inter> set (lv_order t) = {}"
      "length (lv_order t) + length ev \<le> liveSeenCap" "length (lv_events t) + length ev \<le> MAX_LIVE_EVENTS" for t ev
    using accept_events_fresh [OF that(2,3,4)] that by (auto simp: commit_events_def Let_def)
  have "lv_events (fold (\<lambda>ev. commit_events (lv_epoch t) [ev]) q t) = rev q @ lv_events t"
    if "lv_seen t = set (lv_order t)" "distinct (map event_key q)" "event_key ` set q \<inter> set (lv_order t) = {}"
      "length (lv_order t) + length q \<le> liveSeenCap" "length (lv_events t) + length q \<le> MAX_LIVE_EVENTS" for t q
    using that
  proof (induction q arbitrary: t)
    case (Cons ev q)
    let ?t = "commit_events (lv_epoch t) [ev] t"
    have t: "?t = t\<lparr>lv_seen := set (lv_order t @ [event_key ev]), lv_order := lv_order t @ [event_key ev],
         lv_events := ev # lv_events t, lv_totalHits := lv_totalHits t + 1\<rparr>"
      using one [of t "[ev]"] Cons.prems by simp
    have "lv_events (fold (\<lambda>ev. commit_events (lv_epoch ?t) [ev]) q ?t) = rev q @ lv_events ?t"
      by (rule Cons.IH) (use Cons.prems in \<open>auto simp: t image_iff\<close>)
    then show ?case by (simp add: t)
  qed simp
  with one [of s q] assms seen show ?thesis by auto
qed

theorem logs_frame_order_witness:
  "lv_events (commit_events 4 [demo_log_event ''a'', demo_log_event ''b''] demo_log_view)
     = [demo_log_event ''a'', demo_log_event ''b'', demo_log_event ''live'', demo_log_event ''new'']
   \<and> lv_events (fold (\<lambda>ev. commit_events 4 [ev]) [demo_log_event ''a'', demo_log_event ''b''] demo_log_view)
     = [demo_log_event ''b'', demo_log_event ''a'', demo_log_event ''live'', demo_log_event ''new'']"
  using logs_frame_order [OF demo_log_run, of "[demo_log_event ''a'', demo_log_event ''b'']"]
  by (simp add: demo_log_events demo_log_event_def event_key_def liveSeenCap_def MAX_LIVE_EVENTS_def)

text \<open>What the browser and the backend do by themselves, as against the user.\<close>

fun log_background :: "log_event \<Rightarrow> bool" where
  "log_background (LHistory c r) = True"
| "log_background (LSeed c r) = True"
| "log_background (LTail c ev) = True"
| "log_background (LTailClosed c) = True"
| "log_background LFrame = True"
| "log_background LMicrotask = True"
| "log_background _ = False"

definition log_idle :: "logs_view \<Rightarrow> bool" where
  "log_idle s \<longleftrightarrow> lv_tail s = None \<and> lv_abort s = None \<and> lv_history s = [] \<and> lv_seeds s = []
     \<and> lv_queue s = [] \<and> \<not> lv_flush s"

lemma log_idle_step:
  assumes "log_idle s" "logs_can e s" "log_background e"
  shows "log_idle (logs_step e s) \<and> lv_running (logs_step e s) = lv_running s"
  using assms
  by (cases e) (auto simp: log_idle_def tail_event_def tail_closed_def run_microtask_def commit_events_def
      Let_def split: list.splits prod.splits)

interpretation idle_logs: machine_invariant "\<lambda>e s. (logs_can e s \<and> belongs ok e) \<and> log_background e" logs_step
  "\<lambda>s. log_idle s \<and> lv_running s" for ok
  by unfold_locales (use log_idle_step in auto)

text \<open>
  Changing the source during a live tail leaves the view showing a run that is over.  The tail is
  closed, nothing is pending and no event will ever come, but \<open>running\<close> stays set: no answer, frame,
  microtask or stream event, in any order and number, clears it, so the dot keeps pulsing and the next
  press of the button stops the run that is not there instead of starting one.
\<close>

theorem source_change_leaves_running:
  assumes "logs_run ok (logs_init p) es0 s" "lv_tail s = Some c" "lv_running s" "lv_history s = []" "lv_seeds s = []"
    and "logs_run ok (onSourceChange src s) es t" "\<forall>e \<in> set es. log_background e"
  shows "lv_running t \<and> lv_tail t = None \<and> log_idle t \<and> logs_step (LRun from) t = handleStop t"
proof -
  have "log_idle (onSourceChange src s)" "lv_running (onSourceChange src s)"
    using assms(3-5) by (simp_all add: log_idle_def onSourceChange_def cleanup_def)
  moreover have "machine_run (\<lambda>e s. (logs_can e s \<and> belongs ok e) \<and> log_background e) logs_step (onSourceChange src s) es t"
    using machine_run_restrict [OF assms(6)] assms(7) by blast
  ultimately have "log_idle t \<and> lv_running t" using idle_logs.inv_run by blast
  then show ?thesis by (simp add: log_idle_def run_button_def)
qed

definition demo_tail_script :: "log_event list" where
  "demo_tail_script = [LSource demo_log_source, LMode ModeLive, LRun None,
     LSeed 3 (Inr \<lparr>qr_hits = 0, qr_events = []\<rparr>), LTail 3 (demo_log_event ''a'')]"

definition demo_tail_view :: logs_view where
  "demo_tail_view = fold logs_step demo_tail_script (logs_init no_search)"

lemma demo_tail_run: "logs_run (\<lambda>c ev. True) (logs_init no_search) demo_tail_script demo_tail_view"
  unfolding machine_run_exec demo_tail_view_def by (simp add: demo_tail_script_def logs_eval)

lemma demo_tail_state:
  "lv_tail demo_tail_view = Some 3" "lv_running demo_tail_view" "lv_history demo_tail_view = []" "lv_seeds demo_tail_view = []"
  by (simp_all add: demo_tail_view_def demo_tail_script_def logs_eval)

theorem source_change_leaves_running_witness:
  "lv_running (onSourceChange demo_log_source demo_tail_view)
   \<and> lv_tail (onSourceChange demo_log_source demo_tail_view) = None"
  using source_change_leaves_running [OF demo_tail_run demo_tail_state machine_nil, of demo_log_source None] by simp

end
