(* ===== verification/Event_Stream.thy ===== *)
theory Event_Stream
  imports Js_Regex Api_Types
begin

text \<open>
  The event list of the logs view, \<open>web/src/components/EventStream.tsx\<close>: the highlighting of
  \<open>key=value\<close> pairs in a message, the status class and the source badge, the row key, the row that
  is expanded and the states of the list.  The loop over the matches of \<open>FIELD_REGEX\<close> is a partial
  function of the pattern, because \<open>exec\<close> with the flag \<open>g\<close> never ends on a pattern that can match
  the empty text; the theorem shows that it ends for this one.
\<close>

section \<open>Highlighting of fields\<close>

definition field_char :: "char \<Rightarrow> bool" where
  "field_char c \<longleftrightarrow> is_word c \<or> c = CHR ''.'' \<or> c = CHR ''-''"

definition dquote :: char where
  "dquote = CHR 0x22"

definition FIELD_REGEX :: regex where
  "FIELD_REGEX = Seq (Group 1 (Plus (Chr field_char))) (Seq (Chr (\<lambda>c. c = CHR ''=''))
     (Alt (Seq (Chr (\<lambda>c. c = dquote)) (Seq (Group 2 (Star (Chr (\<lambda>c. c \<noteq> dquote)))) (Chr (\<lambda>c. c = dquote))))
          (Group 3 (Plus (Chr (\<lambda>c. \<not> is_space c))))))"

text \<open>A part of the rendered message: its class, the number in its key and its text.\<close>

datatype part_class = BarePart | KeyPart | EqPart | ValPart

type_synonym part = "part_class \<times> nat \<times> string"

text \<open>The parts one match adds, and the number of the next key.\<close>

definition bare_part :: "nat \<Rightarrow> string \<Rightarrow> part list \<times> nat" where
  "bare_part key bare = (if bare = [] then ([], key) else ([(BarePart, key, bare)], key + 1))"

definition match_parts :: "nat \<Rightarrow> string \<Rightarrow> mstate \<Rightarrow> part list \<times> nat" where
  "match_parts key bare st =
     (let (parts, key) = bare_part key bare;
          field = nullish (group_of 1 st) [];
          val = nullish (nullish_opt (group_of 2 st) (group_of 3 st)) []
      in (parts @ [(KeyPart, key, field), (EqPart, key + 1, ''=''), (ValPart, key + 2, val)], key + 3))"

text \<open>\<open>pre\<close> is the text before \<open>lastIndex\<close> (reversed), \<open>s\<close> the text after it.\<close>

partial_function (option) field_loop :: "regex \<Rightarrow> string \<Rightarrow> string \<Rightarrow> nat \<Rightarrow> part list option" where
  "field_loop r pre s key =
     (case m_search r pre s of
        None \<Rightarrow> Some (fst (bare_part key s))
      | Some (p, st) \<Rightarrow>
          (let (parts, key') = match_parts key (rev (take (length p - length pre) p)) st
           in Option.bind (field_loop r (m_pre st) (m_rest st) key') (\<lambda>rest. Some (parts @ rest))))"

datatype rendered = PlainMessage string | PartList "part list"

definition renderSmartMessage :: "string \<Rightarrow> rendered option" where
  "renderSmartMessage message =
     (if message = [] then Some (PlainMessage [])
      else map_option (\<lambda>parts. if parts = [] then PlainMessage message else PartList parts)
        (field_loop FIELD_REGEX [] message 0))"

section \<open>Rows\<close>

text \<open>\<open>new Date(value)\<close> in the local zone is a parameter: month (from 0), day, hours, minutes,
  seconds, or \<open>None\<close> for an invalid date.\<close>

type_synonym local_date = "nat \<times> nat \<times> nat \<times> nat \<times> nat"

definition pad2 :: "nat \<Rightarrow> string" where
  "pad2 n = (let s = dec_nat n in replicate (2 - length s) CHR ''0'' @ s)"

definition formatTimestamp :: "(string \<Rightarrow> local_date option) \<Rightarrow> string \<Rightarrow> string" where
  "formatTimestamp date val =
     (if val = [] then em_dash
      else case date val of
        None \<Rightarrow> val
      | Some (month, day, h, m, s) \<Rightarrow>
          pad2 (month + 1) @ ''/'' @ pad2 day @ '' '' @ pad2 h @ '':'' @ pad2 m @ '':'' @ pad2 s)"

definition statusClass :: "rat option \<Rightarrow> string" where
  "statusClass cd = (case cd of
       None \<Rightarrow> []
     | Some c \<Rightarrow> (if c \<ge> 500 then ''s5'' else if c \<ge> 400 then ''s4'' else if c \<ge> 300 then ''s3''
         else if c \<ge> 200 then ''s2'' else []))"

definition sourceBadgeClass :: "string \<Rightarrow> string" where
  "sourceBadgeClass source =
     (if source \<in> set [''audit'', ''access'', ''error'', ''job''] then ''evt-source-'' @ source else [])"

definition present :: "json option \<Rightarrow> json option" where
  "present j = (case j of Some JNull \<Rightarrow> None | _ \<Rightarrow> j)"

definition getStatusCode :: "(string \<times> json) list \<Rightarrow> rat option" where
  "getStatusCode meta =
     (let candidate = nullish_opt (present (map_of meta ''status_code''))
            (nullish_opt (present (map_of meta ''status'')) (present (map_of meta ''code'')))
      in case candidate of
           Some (JNum n) \<Rightarrow> Some n
         | Some (JStr s) \<Rightarrow> (if s \<noteq> [] \<and> list_all is_digit s then Some (of_nat (parse_nat s)) else None)
         | _ \<Rightarrow> None)"

definition eventKey :: "query_event \<Rightarrow> string" where
  "eventKey e =
     (if qe_id e \<noteq> [] then qe_id e
      else let msg = (if length (qe_message e) > 80 then slice 0 80 (qe_message e) else qe_message e)
           in qe_source e @ ''|'' @ qe_ts e @ ''|'' @ qe_action e @ ''|'' @ msg)"

text \<open>What \<open>EventRow\<close> shows; the detail is the metadata of the event.\<close>

record event_row =
  er_key :: string
  er_time :: string
  er_source :: string
  er_class :: string
  er_message :: "rendered option"
  er_user :: "string option"
  er_status :: "(string \<times> rat) option"
  er_detail :: "(string \<times> json) list option"

definition EventRow :: "(string \<Rightarrow> local_date option) \<Rightarrow> bool \<Rightarrow> bool \<Rightarrow> query_event \<Rightarrow> event_row" where
  "EventRow date isSmart isOpen e =
     \<lparr>er_key = eventKey e,
      er_time = formatTimestamp date (qe_ts e),
      er_source = or_str (qe_source e) em_dash,
      er_class = ''src '' @ sourceBadgeClass (qe_source e),
      er_message = (if isSmart then renderSmartMessage (qe_message e) else Some (PlainMessage (qe_message e))),
      er_user = (if qe_user e = [] then None else Some (qe_user e)),
      er_status = map_option (\<lambda>cd. (''status '' @ statusClass (Some cd), cd)) (getStatusCode (qe_meta e)),
      er_detail = (if isOpen then Some (qe_meta e) else None)\<rparr>"

definition row_keydown :: "string \<Rightarrow> bool" where
  "row_keydown pressed = (pressed = ''Enter'' \<or> pressed = '' '')"

definition handleToggle :: "string \<Rightarrow> string option \<Rightarrow> string option" where
  "handleToggle key current = (if current = Some key then None else Some key)"

section \<open>The list\<close>

datatype stream_body =
    QueryFailed string | Scanning | NothingMatched string | EventRows "event_row list"

definition EventStream ::
  "(string \<Rightarrow> local_date option) \<Rightarrow> query_event list \<Rightarrow> bool \<Rightarrow> js_error option \<Rightarrow> bool \<Rightarrow>
   string option \<Rightarrow> string option \<Rightarrow> stream_body" where
  "EventStream date events loading err isSmart emptyHint expanded =
     (case (err, events) of
        (Some e, []) \<Rightarrow> QueryFailed (or_str (err_message e) ''Something went wrong while running the search.'')
      | (None, []) \<Rightarrow>
          (if loading then Scanning
           else NothingMatched (nullish emptyHint ''Try a different time range, a broader query, or switch to Live Tail.''))
      | _ \<Rightarrow> EventRows (map (\<lambda>e. EventRow date isSmart (expanded = Some (eventKey e)) e) events))"

definition shown_count :: "(nat \<Rightarrow> string) \<Rightarrow> nat \<Rightarrow> string" where
  "shown_count locale n = locale n @ '' event'' @ (if n = 1 then [] else ''s'') @ '' shown''"

section \<open>The loop ends and loses nothing\<close>

text \<open>What a match of the pattern is: the field, the sign, and the value with or without quotes.\<close>

definition quoted :: "string \<Rightarrow> string" where
  "quoted w = dquote # w @ [dquote]"

definition VALUE_REGEX :: regex where
  "VALUE_REGEX = Alt (Seq (Chr (\<lambda>c. c = dquote)) (Seq (Group 2 (Star (Chr (\<lambda>c. c \<noteq> dquote)))) (Chr (\<lambda>c. c = dquote))))
     (Group 3 (Plus (Chr (\<lambda>c. \<not> is_space c))))"

lemma VALUE_REGEX_match:
  assumes "st \<in> set (m_all VALUE_REGEX (p, v, [(1, k)]))"
  shows "\<exists>raw w. raw \<noteq> [] \<and> v = raw @ m_rest st \<and> group_of 1 st = Some k
     \<and> nullish_opt (group_of 2 st) (group_of 3 st) = Some w \<and> (raw = w \<or> raw = quoted w)"
proof -
  from assms consider
      (quoted) "st \<in> set (m_all (Seq (Chr (\<lambda>c. c = dquote)) (Seq (Group 2 (Star (Chr (\<lambda>c. c \<noteq> dquote))))
        (Chr (\<lambda>c. c = dquote)))) (p, v, [(1, k)]))"
    | (bare) "st \<in> set (m_all (Group 3 (Plus (Chr (\<lambda>c. \<not> is_space c)))) (p, v, [(1, k)]))"
    unfolding VALUE_REGEX_def m_all.simps(4) by auto
  then show ?thesis
  proof cases
    case quoted
    then obtain st2 st3 where st2: "st2 \<in> set (m_all (Chr (\<lambda>c. c = dquote)) (p, v, [(1, k)]))"
      and "st3 \<in> set (m_all (Group 2 (Star (Chr (\<lambda>c. c \<noteq> dquote)))) st2)"
      and st: "st \<in> set (m_all (Chr (\<lambda>c. c = dquote)) st3)"
      unfolding m_all_Seq_iff by blast
    moreover from st2 obtain s where v: "v = dquote # s" "st2 = (dquote # p, s, [(1, k)])"
      unfolding m_all_Chr_iff by blast
    ultimately have st3: "st3 \<in> set (m_all (Group 2 (Star (Chr (\<lambda>c. c \<noteq> dquote)))) (dquote # p, s, [(1, k)]))"
      by simp
    from m_all_Group_Star_Chr [OF st3] obtain w s4 where w: "s = w @ s4"
      "st3 = (rev w @ dquote # p, s4, [(1, k), (2, w)])" by auto
    with st obtain s5 where "s4 = dquote # s5" "st = (dquote # rev w @ dquote # p, s5, [(1, k), (2, w)])"
      unfolding w(2) m_all_Chr_iff by blast
    with v w show ?thesis
      by (intro exI [of _ "quoted w"] exI [of _ w]) (simp add: quoted_def group_of_def)
  next
    case bare
    from m_all_Group_Plus_Chr [OF bare] obtain w s4 where "v = w @ s4" "w \<noteq> []"
      "st = (rev w @ p, s4, [(1, k), (3, w)])" by auto
    then show ?thesis by (intro exI [of _ w] exI [of _ w]) (simp add: group_of_def)
  qed
qed

lemma FIELD_REGEX_match:
  assumes "st \<in> set (m_all FIELD_REGEX (p, v, []))"
  shows "\<exists>k raw w. k \<noteq> [] \<and> raw \<noteq> [] \<and> v = k @ CHR ''='' # raw @ m_rest st
     \<and> group_of 1 st = Some k \<and> nullish_opt (group_of 2 st) (group_of 3 st) = Some w
     \<and> (raw = w \<or> raw = quoted w)"
proof -
  from assms obtain st1 st2 where
      st1: "st1 \<in> set (m_all (Group 1 (Plus (Chr field_char))) (p, v, []))"
    and st2: "st2 \<in> set (m_all (Chr (\<lambda>c. c = CHR ''='')) st1)"
    and st: "st \<in> set (m_all VALUE_REGEX st2)"
    unfolding FIELD_REGEX_def VALUE_REGEX_def [symmetric] m_all_Seq_iff by blast
  from m_all_Group_Plus_Chr [OF st1] obtain k v1
    where k: "v = k @ v1" "k \<noteq> []" "st1 = (rev k @ p, v1, [(1, k)])" by auto
  from st2 obtain v2 where v2: "v1 = CHR ''='' # v2" "st2 = (CHR ''='' # rev k @ p, v2, [(1, k)])"
    unfolding k(3) m_all_Chr_iff by blast
  from VALUE_REGEX_match [OF st [unfolded v2(2)]] k v2(1) show ?thesis by fastforce
qed

text \<open>The piece of the message a part stands for: its own text, a value perhaps in quotes.\<close>

definition stands_for :: "part \<Rightarrow> string \<Rightarrow> bool" where
  "stands_for q raw \<longleftrightarrow> raw = snd (snd q) \<or> (fst q = ValPart \<and> raw = quoted (snd (snd q)))"

definition part_key :: "part \<Rightarrow> nat" where
  "part_key q = fst (snd q)"

lemma bare_part_stands: "list_all2 stands_for (fst (bare_part key s)) (if s = [] then [] else [s])"
  by (simp add: bare_part_def stands_for_def)

lemma bare_part_keys: "map part_key (fst (bare_part key s)) = [key..<snd (bare_part key s)]"
  "key \<le> snd (bare_part key s)"
  by (simp_all add: bare_part_def part_key_def)

lemma match_parts_keys:
  "map part_key (fst (match_parts key s st)) = [key..<snd (match_parts key s st)]"
  "key \<le> snd (match_parts key s st)"
proof -
  obtain ps k where b: "bare_part key s = (ps, k)" by force
  from bare_part_keys [of key s] b have "map part_key ps = [key..<k]" "key \<le> k" by simp_all
  moreover have "[key..<k + 3] = [key..<k] @ [k, k + 1, k + 2]" if "key \<le> k"
    using that by (simp add: numeral_3_eq_3)
  ultimately show "map part_key (fst (match_parts key s st)) = [key..<snd (match_parts key s st)]"
    and "key \<le> snd (match_parts key s st)"
    by (simp_all add: match_parts_def b part_key_def)
qed

lemma match_parts_stands:
  assumes "group_of 1 st = Some k" "nullish_opt (group_of 2 st) (group_of 3 st) = Some w"
    and "raw = w \<or> raw = quoted w"
  shows "list_all2 stands_for (fst (match_parts key s st)) ((if s = [] then [] else [s]) @ [k, ''='', raw])"
proof -
  obtain ps n where b: "bare_part key s = (ps, n)" by force
  with bare_part_stands [of key s] have "list_all2 stands_for ps (if s = [] then [] else [s])" by simp
  then have "list_all2 stands_for (ps @ [(KeyPart, n, k), (EqPart, n + 1, ''=''), (ValPart, n + 2, w)])
      ((if s = [] then [] else [s]) @ [k, ''='', raw])"
    using assms(3) by (intro list_all2_appendI) (auto simp: stands_for_def)
  with b assms(1,2) show ?thesis by (simp add: match_parts_def)
qed

lemma concat_bare: "concat (if s = [] then [] else [s]) = s"
  by simp

lemma field_loop_total:
  "\<exists>parts raws. field_loop FIELD_REGEX pre s key = Some parts \<and> list_all2 stands_for parts raws
     \<and> concat raws = s \<and> (\<exists>n. map part_key parts = [key..<n])"
proof (induction s arbitrary: pre key rule: length_induct)
  case (1 s)
  show ?case
  proof (cases "m_search FIELD_REGEX pre s")
    case None
    then have loop: "field_loop FIELD_REGEX pre s key = Some (fst (bare_part key s))"
      by (subst field_loop.simps) simp
    show ?thesis
      unfolding loop using bare_part_stands concat_bare bare_part_keys(1) by blast
  next
    case (Some pst)
    then obtain p st where ps: "m_search FIELD_REGEX pre s = Some (p, st)" by (cases pst) auto
    from m_search_SomeD [OF ps] obtain u v where uv: "s = u @ v" "p = rev u @ pre"
      "st \<in> set (m_all FIELD_REGEX (p, v, []))" by blast
    from FIELD_REGEX_match [OF uv(3)] obtain k raw w where
      m: "k \<noteq> []" "raw \<noteq> []" "v = k @ CHR ''='' # raw @ m_rest st"
      "group_of 1 st = Some k" "nullish_opt (group_of 2 st) (group_of 3 st) = Some w"
      "raw = w \<or> raw = quoted w" by blast
    define mp where "mp = match_parts key u st"
    have "length (m_rest st) < length s" using uv(1) m(3) by simp
    with 1 obtain parts raws n where IH: "field_loop FIELD_REGEX (m_pre st) (m_rest st) (snd mp) = Some parts"
      "list_all2 stands_for parts raws" "concat raws = m_rest st" "map part_key parts = [snd mp..<n]" by blast
    have loop: "field_loop FIELD_REGEX pre s key = Some (fst mp @ parts)"
      using ps IH(1) uv(2) by (subst field_loop.simps) (simp add: mp_def case_prod_unfold)
    let ?raws = "((if u = [] then [] else [u]) @ [k, ''='', raw]) @ raws"
    have "list_all2 stands_for (fst mp @ parts) ?raws"
      unfolding mp_def by (rule list_all2_appendI [OF match_parts_stands [OF m(4-6)] IH(2)])
    moreover have "concat ?raws = s" using uv(1) m(3) IH(3) by simp
    moreover have "\<exists>n. map part_key (fst mp @ parts) = [key..<n]"
    proof (cases "snd mp \<le> n")
      case True
      moreover have "key \<le> snd mp" unfolding mp_def by (rule match_parts_keys)
      ultimately have "[key..<n] = [key..<snd mp] @ [snd mp..<n]" using upt_add_eq_append [of key "snd mp" "n - snd mp"] by simp
      then have "map part_key (fst mp @ parts) = [key..<n]"
        using IH(4) match_parts_keys(1) [of key u st] by (simp add: mp_def)
      then show ?thesis ..
    next
      case False
      then show ?thesis using IH(4) match_parts_keys [of key u st] by (simp add: mp_def) blast
    qed
    ultimately show ?thesis using loop by blast
  qed
qed


section \<open>Rows\<close>

lemma digits_status: "s \<noteq> [] \<Longrightarrow> list_all is_digit s \<Longrightarrow>
    getStatusCode [(''status'', JStr s)] = Some (of_nat (parse_nat s))"
  by (simp add: getStatusCode_def present_def)

text \<open>At most one row is open, the one toggled last.\<close>

lemma handleToggle_key: "handleToggle k cur = Some j \<Longrightarrow> j = k"
  by (auto simp: handleToggle_def split: if_splits)

text \<open>
  A list that holds events always shows all of them, in order, whatever the error and the loading
  flag say; a row shows its detail exactly if its key is the expanded one, so a click opens the row
  clicked and closes every other row, and a second click closes it.
\<close>

theorem EventStream_rows:
  "(events \<noteq> [] \<longrightarrow> (\<exists>rows. EventStream date events loading err isSmart hint (handleToggle k cur) = EventRows rows
      \<and> map er_key rows = map eventKey events
      \<and> map er_detail rows = map (\<lambda>e. if eventKey e = k \<and> cur \<noteq> Some k then Some (qe_meta e) else None) events))
   \<and> handleToggle k (handleToggle k (Some k)) = Some k
   \<and> (events = [] \<longrightarrow> (\<forall>rows. EventStream date events loading err isSmart hint cur \<noteq> EventRows rows))"
  by (cases events; cases err) (auto simp: EventStream_def EventRow_def handleToggle_def)

definition demo_query_event :: query_event where
  "demo_query_event = \<lparr>qe_id = ''a'', qe_ts = [], qe_source = ''job'', qe_action = [], qe_user = [],
     qe_message = ''ok'', qe_meta = [(''code'', JNum 500)]\<rparr>"

theorem EventStream_rows_witness:
  "\<exists>rows. EventStream (\<lambda>x. None) [demo_query_event] True (Some (AbortError [])) False None (Some ''a'') = EventRows rows
     \<and> map er_detail rows = [Some [(''code'', JNum 500)]]"
proof -
  have ne: "[demo_query_event] \<noteq> []" by simp
  have t: "handleToggle ''a'' None = Some ''a''" by (simp add: handleToggle_def)
  have k: "eventKey demo_query_event = ''a''" by (simp add: eventKey_def demo_query_event_def)
  from EventStream_rows [of "[demo_query_event]" "\<lambda>x. None" True "Some (AbortError [])" False None "''a''" None] ne
  show ?thesis by (simp add: t k) (auto simp: demo_query_event_def)
qed

end
