(* ===== verification/Saved_Queries.thy ===== *)
theory Saved_Queries
  imports Js_Regex Logs_View Event_Stream
begin

text \<open>
  The search bar of the logs view and its popover of saved queries,
  \<open>web/src/components/LogsSearch.tsx\<close>, with the properties \<open>web/src/views/Logs.tsx\<close> passes to
  them.  The popover is an event machine: an event is possible when the control it comes from is on
  the screen.  \<open>sd_calls\<close> is the ghost list of the callbacks it made.
\<close>

section \<open>Guards on what is linked and styled\<close>

definition safe_url_regex :: regex where
  "safe_url_regex = seqs [Bol, LitI ''http'', Maybe (LitI ''s''), Lit ''://'']"

definition isSafeUrl :: "string \<Rightarrow> bool" where
  "isSafeUrl url = re_test safe_url_regex url"

definition token_char :: "char \<Rightarrow> bool" where
  "token_char c \<longleftrightarrow> is_lower (lower_char c) \<or> is_digit c \<or> c = CHR ''_'' \<or> c = CHR ''-''"

definition safeSourceToken :: "string \<Rightarrow> string" where
  "safeSourceToken source = filter token_char source"

section \<open>The search bar\<close>

datatype search_call = OnQuery string | OnTime string | OnSource query_source_meta
  | OnMode log_mode | OnFormat log_format | OnRun | OnStop

record search_bar =
  sb_help :: bool
  sb_advanced :: bool

definition help_doc_click :: "bool \<Rightarrow> search_bar \<Rightarrow> search_bar" where
  "help_doc_click inside b = (if sb_help b \<and> \<not> inside then b\<lparr>sb_help := False\<rparr> else b)"

definition help_key :: "string \<Rightarrow> search_bar \<Rightarrow> search_bar" where
  "help_key key b = (if sb_help b \<and> key = ''Escape'' then b\<lparr>sb_help := False\<rparr> else b)"

definition search_button :: "bool \<Rightarrow> search_call" where
  "search_button running = (if running then OnStop else OnRun)"

definition onPromptClick :: search_call where
  "onPromptClick = OnQuery []"

definition onInputKeyDown :: "string \<Rightarrow> bool \<Rightarrow> search_call option" where
  "onInputKeyDown key running = (if key = ''Enter'' then Some (search_button running) else None)"

definition source_select :: "query_source_meta list \<Rightarrow> string \<Rightarrow> search_call option" where
  "source_select sources val = map_option OnSource (List.find (\<lambda>s. qs_id s = val) sources)"

definition queryPlaceholder :: "query_source_meta option \<Rightarrow> string" where
  "queryPlaceholder source =
     (if Option.bind source qs_search_profile = Some Structured
      then ''Use quick filters below '' @ em_dash @ '' e.g. Sign-ins '' @ em_dash @ '' or field=value''
      else ''status>=300 status<400 | head 50'')"

text \<open>The chips: the quick filters, in the advanced mode the examples, and the switch.\<close>

definition search_chips :: "query_source_meta option \<Rightarrow> search_bar \<Rightarrow> ((string \<times> search_call) list \<times> string) option" where
  "search_chips source b =
     (let quickFilters = (case source of None \<Rightarrow> [] | Some s \<Rightarrow> qs_quick_filters s);
          examples = (case source of None \<Rightarrow> [] | Some s \<Rightarrow> qs_examples s)
      in if quickFilters \<noteq> [] \<or> (sb_advanced b \<and> examples \<noteq> [])
         then Some (map (\<lambda>c. (qk_label c, OnQuery (qk_value c))) quickFilters
                    @ (if sb_advanced b then map (\<lambda>x. (x, OnQuery x)) examples else []),
                    if sb_advanced b then ''Hide syntax'' else ''Advanced syntax'')
         else None)"

text \<open>The link of the help panel.\<close>

definition help_link :: "string option \<Rightarrow> search_bar \<Rightarrow> string option" where
  "help_link helpUrl b =
     (if sb_advanced b \<and> sb_help b \<and> truthy_str helpUrl \<and> isSafeUrl (the helpUrl) then helpUrl else None)"

text \<open>What the view does with a callback of the bar.\<close>

fun search_apply :: "string option \<Rightarrow> search_call \<Rightarrow> logs_view \<Rightarrow> logs_view" where
  "search_apply from (OnQuery q) s = s\<lparr>lv_query := q\<rparr>"
| "search_apply from (OnTime r) s = s\<lparr>lv_timeRange := r\<rparr>"
| "search_apply from (OnSource x) s = onSourceChange x s"
| "search_apply from (OnMode m) s = setMode m s"
| "search_apply from (OnFormat f) s = s\<lparr>lv_format := f\<rparr>"
| "search_apply from OnRun s = handleRun from s"
| "search_apply from OnStop s = handleStop s"

definition logs_empty_hint :: "string \<Rightarrow> string option" where
  "logs_empty_hint query =
     (if trim_str query = LAYPERSON_DEFAULT_QUERY
      then Some ''No sign-ins in this time range. Try Last 7 days or All time, or click Sign-outs / Failed above.''
      else None)"

datatype logs_page = MetaError string | MetaLoading | LogsPage stream_body

definition logs_shown :: "(string \<Rightarrow> local_date option) \<Rightarrow> string option \<Rightarrow> logs_view \<Rightarrow> logs_page" where
  "logs_shown date expanded s = (case lv_meta s of
       None \<Rightarrow> (case lv_metaError s of
           Some err \<Rightarrow> MetaError (humanizeError (err_message err) None)
         | None \<Rightarrow> MetaLoading)
     | Some meta \<Rightarrow> LogsPage (EventStream date (lv_events s) (lv_running s) (lv_error s)
         (lv_format s = FmtSmart) (logs_empty_hint (lv_query s)) expanded))"

section \<open>The popover of saved queries\<close>

datatype saved_call = CallSave string | CallRename int string | CallDelete int | CallLoad saved_query

record saved_dropdown =
  sd_saved :: "saved_query list"
  sd_open :: bool
  sd_filter :: string
  sd_renamingId :: "int option"
  sd_renameValue :: string
  sd_confirmDeleteId :: "int option"
  sd_activeSaved :: "saved_query option"
  sd_saving :: nat
  sd_renaming :: nat
  sd_calls :: "saved_call list"

definition dropdown_init :: "saved_query list \<Rightarrow> saved_dropdown" where
  "dropdown_init saved = \<lparr>sd_saved = saved, sd_open = False, sd_filter = [], sd_renamingId = None,
     sd_renameValue = [], sd_confirmDeleteId = None, sd_activeSaved = None, sd_saving = 0,
     sd_renaming = 0, sd_calls = []\<rparr>"

definition call_saved :: "saved_call \<Rightarrow> saved_dropdown \<Rightarrow> saved_dropdown" where
  "call_saved c d = d\<lparr>sd_calls := sd_calls d @ [c]\<rparr>"

definition close_popover :: "saved_dropdown \<Rightarrow> saved_dropdown" where
  "close_popover d = d\<lparr>sd_open := False, sd_filter := [], sd_renamingId := None, sd_confirmDeleteId := None\<rparr>"

definition trimmed :: "saved_dropdown \<Rightarrow> string" where
  "trimmed d = trim_str (sd_filter d)"

definition saved_matches :: "saved_dropdown \<Rightarrow> saved_query list" where
  "saved_matches d =
     (let lower = to_lower (trimmed d) in
      if lower \<noteq> []
      then filter (\<lambda>q. has_sub (to_lower (sq_name q)) lower \<or> has_sub (to_lower (sq_query q)) lower) (sd_saved d)
      else sd_saved d)"

definition exactName :: "saved_dropdown \<Rightarrow> bool" where
  "exactName d = list_ex (\<lambda>q. to_lower (sq_name q) = to_lower (trimmed d)) (sd_saved d)"

definition showSaveAs :: "saved_dropdown \<Rightarrow> bool" where
  "showSaveAs d = (length (trimmed d) > 0 \<and> \<not> exactName d)"

definition triggerLabel :: "saved_dropdown \<Rightarrow> string" where
  "triggerLabel d = (case sd_activeSaved d of Some q \<Rightarrow> sq_name q | None \<Rightarrow> ''Saved'')"

definition popover_empty :: "saved_dropdown \<Rightarrow> string option" where
  "popover_empty d =
     (if saved_matches d = [] \<and> \<not> showSaveAs d
      then Some (if sd_saved d = [] then ''No saved queries yet '' @ em_dash @ '' type a name to save the current one.''
                 else ''No matches.'')
      else None)"

text \<open>The callbacks are asynchronous: what follows an \<open>await\<close> is the function ending in \<open>_end\<close>.\<close>

definition handleSaveAs :: "saved_dropdown \<Rightarrow> saved_dropdown" where
  "handleSaveAs d =
     (if trimmed d = [] then d else (call_saved (CallSave (trimmed d)) d)\<lparr>sd_saving := sd_saving d + 1\<rparr>)"

definition saveAs_end :: "saved_dropdown \<Rightarrow> saved_dropdown" where
  "saveAs_end d = d\<lparr>sd_filter := [], sd_saving := sd_saving d - 1\<rparr>"

definition beginRename :: "saved_query \<Rightarrow> saved_dropdown \<Rightarrow> saved_dropdown" where
  "beginRename item d = d\<lparr>sd_renamingId := Some (sq_id item), sd_renameValue := sq_name item\<rparr>"

definition cancelRename :: "saved_dropdown \<Rightarrow> saved_dropdown" where
  "cancelRename d = d\<lparr>sd_renamingId := None, sd_renameValue := []\<rparr>"

definition commitRename :: "int \<Rightarrow> saved_dropdown \<Rightarrow> saved_dropdown" where
  "commitRename i d =
     (let val = trim_str (sd_renameValue d) in
      if val \<noteq> [] then (call_saved (CallRename i val) d)\<lparr>sd_renaming := sd_renaming d + 1\<rparr>
      else cancelRename d)"

definition commitRename_end :: "saved_dropdown \<Rightarrow> saved_dropdown" where
  "commitRename_end d = (cancelRename d)\<lparr>sd_renaming := sd_renaming d - 1\<rparr>"

definition handleDelete :: "saved_query \<Rightarrow> saved_dropdown \<Rightarrow> saved_dropdown" where
  "handleDelete item d =
     (if sd_confirmDeleteId d = Some (sq_id item) then
        (let d = call_saved (CallDelete (sq_id item)) d;
             d = (if map_option sq_id (sd_activeSaved d) = Some (sq_id item) then d\<lparr>sd_activeSaved := None\<rparr> else d)
         in d\<lparr>sd_confirmDeleteId := None\<rparr>)
      else d\<lparr>sd_confirmDeleteId := Some (sq_id item)\<rparr>)"

definition cancelDelete :: "saved_dropdown \<Rightarrow> saved_dropdown" where
  "cancelDelete d = d\<lparr>sd_confirmDeleteId := None\<rparr>"

definition handleLoad :: "saved_query \<Rightarrow> saved_dropdown \<Rightarrow> saved_dropdown" where
  "handleLoad item d =
     (call_saved (CallLoad item) d)\<lparr>sd_activeSaved := Some item, sd_open := False, sd_filter := []\<rparr>"

text \<open>The form in which a saved query is listed.\<close>

datatype saved_row = RenameRow | ConfirmRow | PlainRow

definition saved_row_of :: "saved_dropdown \<Rightarrow> saved_query \<Rightarrow> saved_row" where
  "saved_row_of d item =
     (if sd_renamingId d = Some (sq_id item) then RenameRow
      else if sd_confirmDeleteId d = Some (sq_id item) then ConfirmRow else PlainRow)"

text \<open>What a row shows: the field with the new name, the question, or name, source (with its class),
  query and whether the query is the one loaded.\<close>

datatype saved_row_view = RenameField string | DeleteQuestion string | SavedRow string string string string bool

definition saved_row_view :: "saved_dropdown \<Rightarrow> saved_query \<Rightarrow> saved_row_view" where
  "saved_row_view d item = (case saved_row_of d item of
       RenameRow \<Rightarrow> RenameField (sd_renameValue d)
     | ConfirmRow \<Rightarrow> DeleteQuestion (''Delete '' @ left_quote @ sq_name item @ right_quote @ ''?'')
     | PlainRow \<Rightarrow> SavedRow (sq_name item) (''badge src-'' @ safeSourceToken (sq_source item)) (sq_source item)
         (or_str (sq_query item) em_dash) (map_option sq_id (sd_activeSaved d) = Some (sq_id item)))"

definition row_shown :: "saved_row \<Rightarrow> saved_query \<Rightarrow> saved_dropdown \<Rightarrow> bool" where
  "row_shown r item d = (sd_open d \<and> item \<in> set (saved_matches d) \<and> saved_row_of d item = r)"

datatype saved_event = DTrigger | DOutside | DEscape | DFilter string | DFilterEnter | DSaveAsClick
  | DSaveSettled | DRenameInput saved_query string | DRenameEnter saved_query | DRenameBlur saved_query
  | DRenameEscape saved_query | DRenameSettled | DBegin saved_query | DDelete saved_query
  | DConfirm saved_query | DCancel saved_query | DLoad saved_query | DList "saved_query list"

fun saved_can :: "saved_event \<Rightarrow> saved_dropdown \<Rightarrow> bool" where
  "saved_can DTrigger d = True"
| "saved_can (DList xs) d = True"
| "saved_can DSaveAsClick d = (sd_open d \<and> showSaveAs d)"
| "saved_can DSaveSettled d = (sd_saving d > 0)"
| "saved_can (DRenameInput q v) d = row_shown RenameRow q d"
| "saved_can (DRenameEnter q) d = row_shown RenameRow q d"
| "saved_can (DRenameBlur q) d = row_shown RenameRow q d"
| "saved_can (DRenameEscape q) d = row_shown RenameRow q d"
| "saved_can DRenameSettled d = (sd_renaming d > 0)"
| "saved_can (DBegin q) d = row_shown PlainRow q d"
| "saved_can (DDelete q) d = row_shown PlainRow q d"
| "saved_can (DLoad q) d = row_shown PlainRow q d"
| "saved_can (DConfirm q) d = row_shown ConfirmRow q d"
| "saved_can (DCancel q) d = row_shown ConfirmRow q d"
| "saved_can _ d = sd_open d"

fun saved_step :: "saved_event \<Rightarrow> saved_dropdown \<Rightarrow> saved_dropdown" where
  "saved_step DTrigger d = d\<lparr>sd_open := \<not> sd_open d\<rparr>"
| "saved_step DOutside d = close_popover d"
| "saved_step DEscape d = close_popover d"
| "saved_step (DFilter s) d = d\<lparr>sd_filter := s\<rparr>"
| "saved_step DFilterEnter d = (if showSaveAs d then handleSaveAs d else d)"
| "saved_step DSaveAsClick d = handleSaveAs d"
| "saved_step DSaveSettled d = saveAs_end d"
| "saved_step (DRenameInput q v) d = d\<lparr>sd_renameValue := v\<rparr>"
| "saved_step (DRenameEnter q) d = commitRename (sq_id q) d"
| "saved_step (DRenameBlur q) d = commitRename (sq_id q) d"
| "saved_step (DRenameEscape q) d = cancelRename d"
| "saved_step DRenameSettled d = commitRename_end d"
| "saved_step (DBegin q) d = beginRename q d"
| "saved_step (DDelete q) d = handleDelete q d"
| "saved_step (DConfirm q) d = handleDelete q d"
| "saved_step (DCancel q) d = cancelDelete d"
| "saved_step (DLoad q) d = handleLoad q d"
| "saved_step (DList xs) d = d\<lparr>sd_saved := xs\<rparr>"

abbreviation saved_run :: "saved_query list \<Rightarrow> saved_event list \<Rightarrow> saved_dropdown \<Rightarrow> bool" where
  "saved_run saved \<equiv> machine_run saved_can saved_step (dropdown_init saved)"

section \<open>A saved query is deleted only after its confirmation\<close>

text \<open>The user's way back from a confirmation.\<close>

fun deletion_off :: "saved_event \<Rightarrow> bool" where
  "deletion_off (DCancel q) = True"
| "deletion_off DOutside = True"
| "deletion_off DEscape = True"
| "deletion_off (DDelete q) = True"
| "deletion_off (DConfirm q) = True"
| "deletion_off _ = False"

text \<open>The first click on the bin of item \<open>i\<close> is the last of the events that bear on a deletion.\<close>

definition asked :: "int \<Rightarrow> saved_event list \<Rightarrow> bool" where
  "asked i = unanswered (\<lambda>e. \<exists>a. e = DDelete a \<and> sq_id a = i) deletion_off"

definition confirmed :: "int \<Rightarrow> saved_event list \<Rightarrow> bool" where
  "confirmed i es \<longleftrightarrow> (\<exists>pre b post. es = pre @ DConfirm b # post \<and> sq_id b = i \<and> asked i pre)"

lemma asked_snoc: "asked i es \<Longrightarrow> \<not> deletion_off e \<Longrightarrow> asked i (es @ [e])"
  by (simp add: asked_def)

lemma asked_click: "asked (sq_id a) (es @ [DDelete a])"
  by (simp add: asked_def)

lemma confirmed_snoc: "confirmed i es \<Longrightarrow> confirmed i (es @ [e])"
  by (fastforce simp: confirmed_def)

lemma confirmed_click: "asked (sq_id b) es \<Longrightarrow> confirmed (sq_id b) (es @ [DConfirm b])"
  by (auto simp: confirmed_def)

lemmas saved_defs = handleSaveAs_def saveAs_end_def beginRename_def cancelRename_def commitRename_def
  commitRename_end_def handleDelete_def cancelDelete_def handleLoad_def close_popover_def call_saved_def

lemma saved_step_confirm:
  "sd_confirmDeleteId (saved_step e d) = Some i \<Longrightarrow> saved_can e d \<Longrightarrow>
     (sd_confirmDeleteId d = Some i \<and> \<not> deletion_off e) \<or> (\<exists>a. e = DDelete a \<and> sq_id a = i)"
  by (cases e) (auto simp: saved_defs Let_def row_shown_def saved_row_of_def split: if_splits)

lemma saved_step_delete:
  "CallDelete i \<in> set (sd_calls (saved_step e d)) \<Longrightarrow> saved_can e d \<Longrightarrow> CallDelete i \<notin> set (sd_calls d) \<Longrightarrow>
     \<exists>b. e = DConfirm b \<and> sq_id b = i \<and> sd_confirmDeleteId d = Some i"
  by (cases e) (auto simp: saved_defs Let_def row_shown_def saved_row_of_def split: if_splits)

lemma saved_run_confirm:
  "saved_run saved es d \<Longrightarrow>
     (\<forall>i. sd_confirmDeleteId d = Some i \<longrightarrow> asked i es)
     \<and> (\<forall>i. CallDelete i \<in> set (sd_calls d) \<longrightarrow> confirmed i es)"
proof (induction rule: machine_run.induct)
  case machine_nil
  then show ?case by (simp add: dropdown_init_def)
next
  case (machine_snoc es t e)
  then have IH: "sd_confirmDeleteId t = Some i \<Longrightarrow> asked i es"
    "CallDelete i \<in> set (sd_calls t) \<Longrightarrow> confirmed i es" for i by blast+
  have "asked i (es @ [e])" if "sd_confirmDeleteId (saved_step e t) = Some i" for i
    using saved_step_confirm [OF that machine_snoc.hyps(2)] IH(1) asked_snoc asked_click by blast
  moreover have "confirmed i (es @ [e])" if "CallDelete i \<in> set (sd_calls (saved_step e t))" for i
  proof (cases "CallDelete i \<in> set (sd_calls t)")
    case False
    from saved_step_delete [OF that machine_snoc.hyps(2) False] IH(1) confirmed_click show ?thesis by blast
  qed (use IH(2) confirmed_snoc in blast)
  ultimately show ?case by blast
qed

text \<open>
  C28.  A saved query is deleted only when the user confirmed it: in every use of the popover each
  deletion that was requested comes from a click on the Delete button of a confirmation, and the
  confirmation was opened by a click on the bin of the same query, with no cancel, no escape, no click
  outside and no other deletion in between.
\<close>

theorem saved_delete_confirmed:
  assumes "saved_run saved es d" and "CallDelete i \<in> set (sd_calls d)"
  shows "\<exists>pre a mid b post. es = pre @ DDelete a # mid @ DConfirm b # post
    \<and> sq_id a = i \<and> sq_id b = i \<and> (\<forall>e \<in> set mid. \<not> deletion_off e)"
proof -
  from saved_run_confirm [OF assms(1)] assms(2) have "confirmed i es" by blast
  then obtain pre1 b post where b: "es = pre1 @ DConfirm b # post" "sq_id b = i" "asked i pre1"
    by (auto simp: confirmed_def)
  then obtain pre a mid where "pre1 = pre @ DDelete a # mid" "sq_id a = i" "\<forall>e \<in> set mid. \<not> deletion_off e"
    by (auto simp: asked_def unanswered_def)
  with b show ?thesis by (intro exI [of _ pre] exI [of _ a] exI [of _ mid] exI [of _ b] exI [of _ post]) simp
qed

definition demo_saved :: saved_query where
  "demo_saved = \<lparr>sq_id = 7, sq_name = ''mine'', sq_source = ''audit'', sq_query = ''a=1'', sq_created_at = [],
     sq_updated_at = []\<rparr>"

definition demo_saved_script :: "saved_event list" where
  "demo_saved_script = [DTrigger, DDelete demo_saved, DTrigger, DTrigger, DConfirm demo_saved]"

theorem saved_delete_confirmed_witness:
  "\<exists>pre a mid b post. demo_saved_script = pre @ DDelete a # mid @ DConfirm b # post \<and> sq_id a = 7 \<and> sq_id b = 7"
proof -
  obtain d where d: "machine_exec saved_can saved_step demo_saved_script (dropdown_init [demo_saved]) = Some d"
    and i: "CallDelete 7 \<in> set (sd_calls d)"
    by (simp add: demo_saved_script_def dropdown_init_def row_shown_def saved_row_of_def saved_matches_def
        to_lower_def Let_def trimmed_def trim_str_def trim_start_def trim_end_def demo_saved_def handleDelete_def call_saved_def)
  then have "saved_run [demo_saved] demo_saved_script d" by (simp add: machine_run_exec)
  from saved_delete_confirmed [OF this i] show ?thesis by blast
qed

section \<open>The names sent are good names\<close>

lemma dropWhile_last: "s \<noteq> [] \<Longrightarrow> \<not> P (last s) \<Longrightarrow> dropWhile P s \<noteq> [] \<and> last (dropWhile P s) = last s"
  by (induction s) auto

lemma trim_str_idem [simp]: "trim_str (trim_str s) = trim_str s"
proof -
  let ?t = "trim_str s"
  obtain u where u: "dropWhile is_space s = ?t @ u"
    using strip_end_prefix [of "dropWhile is_space s" is_space]
    by (auto simp: trim_str_def trim_end_def trim_start_def)
  have "trim_start ?t = ?t"
  proof (cases ?t)
    case (Cons c cs)
    with u have "hd (dropWhile is_space s) = c" "dropWhile is_space s \<noteq> []" by auto
    then have "\<not> is_space c" using hd_dropWhile by blast
    with Cons show ?thesis by (simp add: trim_start_def)
  qed (simp add: trim_start_def)
  then show ?thesis by (simp add: trim_str_def trim_end_def)
qed

lemma has_name_iff: "exactName d \<longleftrightarrow> (\<exists>q \<in> set (sd_saved d). to_lower (sq_name q) = to_lower (trimmed d))"
  by (auto simp: exactName_def list_ex_iff)

text \<open>
  The popover sends only good names: an event that saves the current query under a name does so
  under a trimmed name that is not empty and that no saved query has, upper and lower case alike, and
  a new name given to a saved query is trimmed and not empty.  Every event makes at most one callback.
\<close>

theorem saved_names_good:
  assumes "saved_can e d"
  shows "\<exists>new. sd_calls (saved_step e d) = sd_calls d @ new \<and> length new \<le> 1
    \<and> (\<forall>n. CallSave n \<in> set new \<longrightarrow> n \<noteq> [] \<and> trim_str n = n
         \<and> (\<forall>q \<in> set (sd_saved d). to_lower (sq_name q) \<noteq> to_lower n))
    \<and> (\<forall>i n. CallRename i n \<in> set new \<longrightarrow> n \<noteq> [] \<and> trim_str n = n \<and> sd_renamingId d = Some i)"
proof -
  have save: "\<exists>new. sd_calls (handleSaveAs d) = sd_calls d @ new \<and> length new \<le> 1
    \<and> (\<forall>n. CallSave n \<in> set new \<longrightarrow> n \<noteq> [] \<and> trim_str n = n
         \<and> (\<forall>q \<in> set (sd_saved d). to_lower (sq_name q) \<noteq> to_lower n))
    \<and> (\<forall>i n. CallRename i n \<notin> set new)" if "showSaveAs d"
    using that by (auto simp: showSaveAs_def handleSaveAs_def call_saved_def has_name_iff trimmed_def)
  show ?thesis
    using assms save
    by (cases e) (auto simp: saved_defs Let_def row_shown_def saved_row_of_def split: if_splits)
qed

theorem saved_names_good_witness:
  "\<exists>new. sd_calls (saved_step DSaveAsClick ((dropdown_init [demo_saved])\<lparr>sd_open := True, sd_filter := ''b''\<rparr>)) = new
     \<and> length new \<le> 1"
proof -
  let ?d = "(dropdown_init [demo_saved])\<lparr>sd_open := True, sd_filter := ''b''\<rparr>"
  have "saved_can DSaveAsClick ?d"
    by (simp add: dropdown_init_def showSaveAs_def exactName_def trimmed_def trim_str_def trim_start_def
        trim_end_def strip_end_def is_space_def demo_saved_def to_lower_def)
  from saved_names_good [OF this] show ?thesis by (simp add: dropdown_init_def)
qed

section \<open>Links and classes\<close>

lemma lower_char_fixed: "\<not> is_lower d \<Longrightarrow> \<not> is_upper d \<Longrightarrow> lower_char c = d \<longleftrightarrow> c = d"
  by (auto simp: lower_char_def is_lower_def is_upper_def)

lemma starts_with_map: "(\<And>d c. d \<in> set t \<Longrightarrow> f c = d \<longleftrightarrow> c = d) \<Longrightarrow> starts_with (map f s) t \<longleftrightarrow> starts_with s t"
  by (induction s t rule: starts_with.induct) auto

lemma starts_with_mark: "starts_with (to_lower s) ''://'' \<longleftrightarrow> starts_with s ''://''"
  unfolding to_lower_def by (rule starts_with_map) (auto simp: lower_char_fixed is_lower_def is_upper_def)

lemma drop_lower: "drop n (to_lower s) = to_lower (drop n s)"
  by (simp add: to_lower_def drop_map)

text \<open>
  The help panel links only to web pages: a link it shows begins with \<open>http://\<close> or \<open>https://\<close>
  (in any case), so never a script, and the class built from a source name holds only letters,
  digits, underscores and dashes.
\<close>

theorem help_link_safe:
  "(help_link helpUrl b = Some url \<longrightarrow> helpUrl = Some url
      \<and> (starts_with (to_lower url) ''http://'' \<or> starts_with (to_lower url) ''https://''))
   \<and> (isSafeUrl url \<longleftrightarrow> starts_with (to_lower url) ''http://'' \<or> starts_with (to_lower url) ''https://'')
   \<and> (\<forall>c \<in> set (safeSourceToken source). is_word c \<or> c = CHR ''-'')"
proof -
  have low: "to_lower ''http'' = ''http''" "to_lower ''s'' = ''s''"
    by (simp_all add: to_lower_def lower_char_def is_upper_def)
  have "isSafeUrl url \<longleftrightarrow> starts_with (to_lower url) (''http'' @ ''s'' @ ''://'') \<or> starts_with (to_lower url) (''http'' @ ''://'')"
    unfolding isSafeUrl_def safe_url_regex_def seqs.simps re_test_Bol starts_with_append_iff
    by (auto simp: m_all_LitI m_all_Lit Maybe_def low drop_lower starts_with_mark)
  then have safe: "isSafeUrl url \<longleftrightarrow> starts_with (to_lower url) ''http://'' \<or> starts_with (to_lower url) ''https://''"
    by auto
  moreover have "is_word c \<or> c = CHR ''-''" if "c \<in> set (safeSourceToken source)" for c
    using that by (auto simp: safeSourceToken_def token_char_def is_word_def lower_char_def split: if_splits)
  ultimately show ?thesis by (auto simp: help_link_def split: if_splits)
qed

theorem help_link_safe_witness:
  "starts_with (to_lower ''HTTPS://x'') ''https://'' \<and> (isSafeUrl ''http://a'' \<longleftrightarrow> True)"
proof -
  have "isSafeUrl ''http://a''"
    using help_link_safe [of None "\<lparr>sb_help = True, sb_advanced = True\<rparr>" "''http://a''" "[]"]
    by (simp add: to_lower_def lower_char_def is_upper_def)
  then show ?thesis by (simp add: to_lower_def lower_char_def is_upper_def js_simps)
qed

end
