(* ===== verification/Session.thy ===== *)
theory Session
  imports Endpoints Panel_Hooks Panel_Meta App_Store Idle_Lock Machine
begin

text \<open>
  The session of the panel: the gate that boots it and chooses what is shown (\<open>BootGate\<close> of
  \<open>web/src/components/Layout.tsx\<close>), the two forms of \<open>web/src/views/Login.tsx\<close>, and the
  buttons of the shell that lock it and sign out.  The requests in flight are state; each carries the
  number of the screen that sent it, because the state of a form is lost with its screen.  The gate is
  the root of the page, so its own effect is never cleaned up.
\<close>

section \<open>State\<close>

text \<open>The answer of \<open>/auth/me\<close>: a user, an object that holds one, or nothing.\<close>

datatype me_value = MeUser user | MeWrapped user | MeNothing

text \<open>What is in flight; a login remembers the login metadata of the form that sent it.\<close>

datatype in_flight = PBoot | PLogin "ui_auth option" | PFresh user "ui_auth option" | PUnlock
  | PLogout | PLock | PIdleLock

record panel =
  pn_store :: app_store
  pn_loading :: bool
  pn_error :: "js_error option"
  pn_screen :: nat
  pn_email :: string
  pn_password :: string
  pn_remember :: bool
  pn_form :: action_state
  pn_logout :: action_state
  pn_lock :: action_state
  pn_flight :: "(nat \<times> in_flight) list"
  pn_requests :: "endpoint list"

definition panel_init :: panel where
  "panel_init = \<lparr>pn_store = store_init, pn_loading = True, pn_error = None, pn_screen = 0,
     pn_email = [], pn_password = [], pn_remember = False, pn_form = action_init,
     pn_logout = action_init, pn_lock = action_init, pn_flight = [(0, PBoot)],
     pn_requests = [ui_meta_ep, auth_metadata_ep, auth_me, auth_lockscreen]\<rparr>"

datatype screen = ScreenLoading | ScreenError js_error | ScreenLock | ScreenLogin | ScreenShell

definition BootGate :: "panel \<Rightarrow> screen" where
  "BootGate p =
     (if pn_loading p then ScreenLoading
      else case pn_error p of
        Some err \<Rightarrow> ScreenError err
      | None \<Rightarrow> (if app_locked (pn_store p) then ScreenLock
          else if app_user (pn_store p) = None then ScreenLogin else ScreenShell))"

abbreviation on_store :: "(app_store \<Rightarrow> app_store) \<Rightarrow> panel \<Rightarrow> panel" where
  "on_store f p \<equiv> p\<lparr>pn_store := f (pn_store p)\<rparr>"

definition panel_say :: "string \<Rightarrow> panel \<Rightarrow> panel" where
  "panel_say m p = on_store (\<lambda>s. snd (toast m ToastInfo s)) p"

definition send_panel :: "in_flight \<Rightarrow> endpoint \<Rightarrow> panel \<Rightarrow> panel" where
  "send_panel w ep p = p\<lparr>pn_flight := pn_flight p @ [(pn_screen p, w)], pn_requests := pn_requests p @ [ep]\<rparr>"

definition landed :: "nat \<Rightarrow> in_flight \<Rightarrow> panel \<Rightarrow> panel" where
  "landed g w p = p\<lparr>pn_flight := remove1 (g, w) (pn_flight p)\<rparr>"

section \<open>Booting\<close>

record boot_answers =
  ba_meta :: "js_error + ui_meta"
  ba_auth :: "js_error + auth_metadata"
  ba_me :: "js_error + me_value"
  ba_lock :: "js_error + lockscreen_response option"

text \<open>The metadata; then the user and the lock, where reading an answer without a body throws.\<close>

definition boot_meta :: "boot_answers \<Rightarrow> app_store \<Rightarrow> app_store" where
  "boot_meta a s = (case ba_auth a of
       Inr auth \<Rightarrow> setMeta (mergePanelMeta (case ba_meta a of Inr m \<Rightarrow> Some m | Inl e \<Rightarrow> None) (Some auth)) s
     | Inl e \<Rightarrow> (case ba_meta a of Inr m \<Rightarrow> setMeta (Some m) s | Inl e \<Rightarrow> s))"

definition boot_user :: "boot_answers \<Rightarrow> app_store \<Rightarrow> js_error + app_store" where
  "boot_user a s = (case ba_me a of
       Inl e \<Rightarrow> Inr s
     | Inr (MeWrapped u) \<Rightarrow> Inr (setUser (Some u) s)
     | Inr (MeUser u) \<Rightarrow> Inr (setUser (Some u) s)
     | Inr MeNothing \<Rightarrow> Inl (type_error ''Cannot use 'in' operator to search for 'user' in undefined''))"

definition boot_lock :: "boot_answers \<Rightarrow> app_store \<Rightarrow> js_error + app_store" where
  "boot_lock a s = (case ba_lock a of
       Inl e \<Rightarrow> Inr s
     | Inr (Some l) \<Rightarrow> Inr (setLocked (lk_locked l) s)
     | Inr None \<Rightarrow> Inl (type_error ''undefined''))"

definition boot_end :: "boot_answers \<Rightarrow> panel \<Rightarrow> panel" where
  "boot_end a p =
     (let p = on_store (boot_meta a) p in
      case boot_user a (pn_store p) of
        Inl err \<Rightarrow> p\<lparr>pn_error := Some err, pn_loading := False\<rparr>
      | Inr s \<Rightarrow> (case boot_lock a s of
            Inl err \<Rightarrow> p\<lparr>pn_store := s, pn_error := Some err, pn_loading := False\<rparr>
          | Inr s' \<Rightarrow> p\<lparr>pn_store := s', pn_loading := False\<rparr>))"

section \<open>Signing in\<close>

text \<open>\<open>mergePanelMeta(fresh, meta?.auth)\<close>: the second argument is the merged metadata of the
  store, whose properties all replace those of the fresh one.\<close>

definition merge_fresh :: "ui_meta option \<Rightarrow> ui_auth option \<Rightarrow> ui_meta option" where
  "merge_fresh fresh old = (case old of
       None \<Rightarrow> mergePanelMeta fresh None
     | Some a \<Rightarrow>
         (let merged = (nullish fresh empty_ui_meta)\<lparr>um_auth := Some a\<rparr>
          in Some (if no_items (map_option uf_roots (um_files merged)) \<and> \<not> no_items (ua_file_roots a)
              then merged\<lparr>um_files := Some \<lparr>uf_roots = the (ua_file_roots a),
                     uf_actions = nullish (map_option uf_actions (um_files merged)) []\<rparr>\<rparr>
              else merged)))"

definition login_submit :: "panel \<Rightarrow> panel" where
  "login_submit p =
     send_panel (PLogin (Option.bind (app_meta (pn_store p)) um_auth))
       (auth_login (pn_email p) (pn_password p) (pn_remember p)) (p\<lparr>pn_form := action_start (pn_form p)\<rparr>)"

text \<open>\<open>useAction\<close> settles in the form that ran it.\<close>

definition form_settles :: "nat \<Rightarrow> js_error + 'r \<Rightarrow> panel \<Rightarrow> panel" where
  "form_settles g outcome p =
     (if g = pn_screen p then p\<lparr>pn_form := snd (action_finish outcome (pn_form p))\<rparr> else p)"

definition login_end :: "nat \<Rightarrow> ui_auth option \<Rightarrow> js_error + login_response option \<Rightarrow> panel \<Rightarrow> panel" where
  "login_end g old outcome p =
     (let p = form_settles g outcome (landed g (PLogin old) p) in
      case outcome of
        Inr (Some res) \<Rightarrow>
          send_panel (PFresh (lr_user res) old) ui_meta_ep
            (on_store (\<lambda>s. setLocked False (setUser (Some (lr_user res)) s)) p)
      | _ \<Rightarrow> p)"

definition fresh_end :: "nat \<Rightarrow> user \<Rightarrow> ui_auth option \<Rightarrow> js_error + ui_meta option \<Rightarrow> panel \<Rightarrow> panel" where
  "fresh_end g u old outcome p =
     (let p = landed g (PFresh u old) p;
          p = (case outcome of Inr fresh \<Rightarrow> on_store (setMeta (merge_fresh fresh old)) p | Inl e \<Rightarrow> p)
      in panel_say (''Welcome back, '' @ u_name u) p)"

definition form_error :: "string \<Rightarrow> panel \<Rightarrow> string option" where
  "form_error fallback p = (case ac_error (pn_form p) of
       None \<Rightarrow> None
     | Some (ApiError st cd m) \<Rightarrow> Some m
     | Some err \<Rightarrow> Some fallback)"

text \<open>The texts of the two forms.\<close>

definition Login_view :: "panel \<Rightarrow> string \<times> string \<times> string \<times> bool \<times> string option" where
  "Login_view p =
     (let app = Option.bind (app_meta (pn_store p)) um_app;
          authMeta = Option.bind (app_meta (pn_store p)) um_auth
      in (nullish (map_option app_logo_letter app) ''G'', nullish (map_option app_name app) ''GoSite'',
          nullish (map_option ua_login_hint authMeta) ''Sign in to your control panel'',
          truthy_bool (map_option ua_remember_me authMeta), form_error ''Login failed'' p))"

definition Lockscreen_view :: "(string option \<Rightarrow> string) \<Rightarrow> panel \<Rightarrow> string \<times> string \<times> string \<times> string option" where
  "Lockscreen_view initials p =
     (let user = app_user (pn_store p); app = Option.bind (app_meta (pn_store p)) um_app
      in (initials (map_option u_name user), nullish (map_option u_name user) ''Locked'',
          nullish (map_option app_name app) ''GoSite'' @ '' is locked'', form_error ''Unlock failed'' p))"

section \<open>Unlocking, locking, signing out\<close>

definition unlock_submit :: "panel \<Rightarrow> panel" where
  "unlock_submit p = send_panel PUnlock (auth_unlock (pn_password p)) (p\<lparr>pn_form := action_start (pn_form p)\<rparr>)"

definition unlock_end :: "nat \<Rightarrow> js_error + lockscreen_response option \<Rightarrow> panel \<Rightarrow> panel" where
  "unlock_end g outcome p =
     (let p = form_settles g outcome (landed g PUnlock p) in
      case outcome of
        Inr (Some res) \<Rightarrow>
          (let p = on_store (setLocked False) p;
               p = (if g = pn_screen p then p\<lparr>pn_password := []\<rparr> else p)
           in panel_say ''Unlocked'' p)
      | _ \<Rightarrow> p)"

definition logout_start :: "panel \<Rightarrow> panel" where
  "logout_start p = send_panel PLogout auth_logout (p\<lparr>pn_logout := action_start (pn_logout p)\<rparr>)"

text \<open>A rejection leaves the handler before the user is cleared.\<close>

definition logout_end :: "nat \<Rightarrow> js_error option \<Rightarrow> panel \<Rightarrow> panel" where
  "logout_end g failure p =
     (let p = landed g PLogout p;
          outcome = (case failure of None \<Rightarrow> Inr () | Some e \<Rightarrow> Inl e);
          p = (if g = pn_screen p then p\<lparr>pn_logout := snd (action_finish outcome (pn_logout p))\<rparr> else p)
      in if failure = None then panel_say ''Signed out'' (on_store (setUser None) p) else p)"

definition lock_start :: "panel \<Rightarrow> panel" where
  "lock_start p = send_panel PLock auth_lock (p\<lparr>pn_lock := action_start (pn_lock p)\<rparr>)"

definition lock_end :: "nat \<Rightarrow> js_error option \<Rightarrow> panel \<Rightarrow> panel" where
  "lock_end g failure p =
     (let p = landed g PLock p;
          outcome = (case failure of None \<Rightarrow> Inr () | Some e \<Rightarrow> Inl e);
          p = (if g = pn_screen p then p\<lparr>pn_lock := snd (action_finish outcome (pn_lock p))\<rparr> else p)
      in if failure = None then on_store (setLocked True) p else p)"

text \<open>The idle lock of the shell (\<open>Idle_Lock\<close>): its request, and the answer, which nothing cancels.\<close>

definition idle_fire :: "panel \<Rightarrow> panel" where
  "idle_fire p = send_panel PIdleLock auth_lock p"

definition idle_end :: "nat \<Rightarrow> bool \<Rightarrow> panel \<Rightarrow> panel" where
  "idle_end g ok p =
     (let p = landed g PIdleLock p
      in if ok then panel_say ''Session locked due to inactivity'' (on_store (setLocked True) p) else p)"

section \<open>The panel as a machine\<close>

datatype panel_event =
    EBoot boot_answers
  | EEmail string | EPassword string | ERemember bool
  | ELogin | ELoginEnd nat "ui_auth option" "js_error + login_response option"
  | EFresh nat user "ui_auth option" "js_error + ui_meta option"
  | EUnlock | EUnlockEnd nat "js_error + lockscreen_response option"
  | ELogout | ELogoutEnd nat "js_error option"
  | ELock | ELockEnd nat "js_error option"
  | EIdle | EIdleEnd nat bool
  | EToastTimer nat | EDismiss nat

definition lock_button :: "panel \<Rightarrow> bool" where
  "lock_button p = truthy_bool (map_option ua_lockscreen_enabled (Option.bind (app_meta (pn_store p)) um_auth))"

fun panel_can :: "panel_event \<Rightarrow> panel \<Rightarrow> bool" where
  "panel_can (EBoot a) p = ((0, PBoot) \<in> set (pn_flight p))"
| "panel_can (EEmail s) p = (BootGate p = ScreenLogin)"
| "panel_can (EPassword s) p = (BootGate p = ScreenLogin \<or> BootGate p = ScreenLock)"
| "panel_can (ERemember b) p = (BootGate p = ScreenLogin)"
| "panel_can ELogin p = (BootGate p = ScreenLogin \<and> \<not> ac_loading (pn_form p))"
| "panel_can (ELoginEnd g old r) p = ((g, PLogin old) \<in> set (pn_flight p))"
| "panel_can (EFresh g u old r) p = ((g, PFresh u old) \<in> set (pn_flight p))"
| "panel_can EUnlock p = (BootGate p = ScreenLock \<and> \<not> ac_loading (pn_form p))"
| "panel_can (EUnlockEnd g r) p = ((g, PUnlock) \<in> set (pn_flight p))"
| "panel_can ELogout p = (BootGate p = ScreenShell \<and> \<not> ac_loading (pn_logout p))"
| "panel_can (ELogoutEnd g f) p = ((g, PLogout) \<in> set (pn_flight p))"
| "panel_can ELock p = (BootGate p = ScreenShell \<and> lock_button p \<and> \<not> ac_loading (pn_lock p))"
| "panel_can (ELockEnd g f) p = ((g, PLock) \<in> set (pn_flight p))"
| "panel_can EIdle p = (BootGate p = ScreenShell \<and> idle_enabled (pn_store p))"
| "panel_can (EIdleEnd g ok) p = ((g, PIdleLock) \<in> set (pn_flight p))"
| "panel_can (EToastTimer i) p = True"
| "panel_can (EDismiss i) p = True"

fun panel_apply :: "panel_event \<Rightarrow> panel \<Rightarrow> panel" where
  "panel_apply (EBoot a) p = boot_end a (landed 0 PBoot p)"
| "panel_apply (EEmail s) p = p\<lparr>pn_email := s\<rparr>"
| "panel_apply (EPassword s) p = p\<lparr>pn_password := s\<rparr>"
| "panel_apply (ERemember b) p = p\<lparr>pn_remember := b\<rparr>"
| "panel_apply ELogin p = login_submit p"
| "panel_apply (ELoginEnd g old r) p = login_end g old r p"
| "panel_apply (EFresh g u old r) p = fresh_end g u old r p"
| "panel_apply EUnlock p = unlock_submit p"
| "panel_apply (EUnlockEnd g r) p = unlock_end g r p"
| "panel_apply ELogout p = logout_start p"
| "panel_apply (ELogoutEnd g f) p = logout_end g f p"
| "panel_apply ELock p = lock_start p"
| "panel_apply (ELockEnd g f) p = lock_end g f p"
| "panel_apply EIdle p = idle_fire p"
| "panel_apply (EIdleEnd g ok) p = idle_end g ok p"
| "panel_apply (EToastTimer i) p = on_store (toast_timer i) p"
| "panel_apply (EDismiss i) p = on_store (dismissToast i) p"

text \<open>When another screen is shown the one before is unmounted with the state of its forms.\<close>

definition remounted :: "screen \<Rightarrow> panel \<Rightarrow> panel" where
  "remounted before p =
     (if BootGate p = before then p
      else p\<lparr>pn_screen := pn_screen p + 1, pn_email := [], pn_password := [], pn_remember := False,
             pn_form := action_init, pn_logout := action_init, pn_lock := action_init\<rparr>)"

definition panel_step :: "panel_event \<Rightarrow> panel \<Rightarrow> panel" where
  "panel_step e p = remounted (BootGate p) (panel_apply e p)"

abbreviation panel_run :: "panel_event list \<Rightarrow> panel \<Rightarrow> bool" where
  "panel_run \<equiv> machine_run panel_can panel_step panel_init"

section \<open>Frames\<close>

lemmas panel_defs = panel_say_def send_panel_def landed_def login_submit_def form_settles_def login_end_def
  fresh_end_def unlock_submit_def unlock_end_def logout_start_def logout_end_def lock_start_def
  lock_end_def idle_fire_def idle_end_def setUser_def setMeta_def setLocked_def

lemma BootGate_cong:
  "pn_loading p = pn_loading q \<Longrightarrow> pn_error p = pn_error q \<Longrightarrow> pn_store p = pn_store q \<Longrightarrow> BootGate p = BootGate q"
  by (simp only: BootGate_def)

lemma remounted_frame [simp]:
  "pn_store (remounted b p) = pn_store p" "pn_loading (remounted b p) = pn_loading p"
  "pn_error (remounted b p) = pn_error p" "pn_flight (remounted b p) = pn_flight p"
  "pn_requests (remounted b p) = pn_requests p"
  by (simp_all add: remounted_def)

lemma BootGate_remounted [simp]: "BootGate (remounted b p) = BootGate p"
  by (rule BootGate_cong) simp_all

lemma toast_store_frame [simp]:
  "app_user (snd (toast m k s)) = app_user s" "app_locked (snd (toast m k s)) = app_locked s"
  "app_meta (snd (toast m k s)) = app_meta s"
  "app_user (toast_timer i s) = app_user s" "app_locked (toast_timer i s) = app_locked s"
  "app_user (dismissToast i s) = app_user s" "app_locked (dismissToast i s) = app_locked s"
  by (simp_all add: toast_def Let_def toast_timer_def dismissToast_def)

section \<open>Who may see the shell\<close>

text \<open>The events that lock the panel, open it, sign a user in, and sign out.\<close>

fun locks :: "panel_event \<Rightarrow> bool" where
  "locks (EBoot a) = (ba_me a \<noteq> Inr MeNothing \<and> (case ba_lock a of Inr (Some l) \<Rightarrow> lk_locked l | _ \<Rightarrow> False))"
| "locks (ELockEnd g f) = (f = None)"
| "locks (EIdleEnd g ok) = ok"
| "locks _ = False"

fun logs_in :: "panel_event \<Rightarrow> bool" where
  "logs_in (ELoginEnd g old (Inr (Some r))) = True"
| "logs_in _ = False"

fun unlocks :: "panel_event \<Rightarrow> bool" where
  "unlocks (EUnlockEnd g (Inr (Some r))) = True"
| "unlocks e = logs_in e"

fun known_user :: "panel_event \<Rightarrow> bool" where
  "known_user (EBoot a) = (case ba_me a of Inr (MeUser u) \<Rightarrow> True | Inr (MeWrapped u) \<Rightarrow> True | _ \<Rightarrow> False)"
| "known_user e = logs_in e"

fun logs_out :: "panel_event \<Rightarrow> bool" where
  "logs_out (ELogoutEnd g f) = (f = None)"
| "logs_out _ = False"

definition booting_ok :: "panel_event list \<Rightarrow> panel \<Rightarrow> bool" where
  "booting_ok es p \<longleftrightarrow>
     (if pn_loading p
      then pn_flight p = [(0, PBoot)] \<and> \<not> app_locked (pn_store p) \<and> \<not> unanswered logs_out logs_in es
      else (0, PBoot) \<notin> set (pn_flight p))"

definition session_ok :: "panel_event list \<Rightarrow> panel \<Rightarrow> bool" where
  "session_ok es p \<longleftrightarrow>
     booting_ok es p
     \<and> (unanswered locks unlocks es \<longrightarrow> app_locked (pn_store p))
     \<and> (unanswered logs_out logs_in es \<longrightarrow> app_user (pn_store p) = None)
     \<and> (app_user (pn_store p) \<noteq> None \<longrightarrow> (\<exists>e \<in> set es. known_user e))"

lemma boot_end_frame:
  "\<not> pn_loading (boot_end a p)" "pn_flight (boot_end a p) = pn_flight p"
  by (simp_all add: boot_end_def Let_def split: sum.splits)

lemma boot_meta_frame [simp]:
  "app_user (boot_meta a s) = app_user s" "app_locked (boot_meta a s) = app_locked s"
  by (simp_all add: boot_meta_def setMeta_def split: sum.splits)

lemma boot_end_locked: "locks (EBoot a) \<Longrightarrow> app_locked (pn_store (boot_end a p))"
  by (auto simp: boot_end_def Let_def boot_user_def boot_lock_def setLocked_def
      split: sum.splits me_value.splits option.splits)

lemma boot_end_user: "app_user (pn_store (boot_end a p)) \<noteq> None \<Longrightarrow>
    app_user (pn_store p) \<noteq> None \<or> known_user (EBoot a)"
  by (auto simp: boot_end_def Let_def boot_user_def boot_lock_def setUser_def setLocked_def
      split: sum.splits me_value.splits option.splits)

lemma panel_step_store: "pn_store (panel_step e p) = pn_store (panel_apply e p)"
  by (simp add: panel_step_def)

lemma locked_step:
  assumes "\<not> (\<exists>a. e = EBoot a)"
  shows "app_locked (pn_store (panel_step e p)) \<longleftrightarrow> (locks e \<or> (app_locked (pn_store p) \<and> \<not> unlocks e))"
  using assms
  by (cases e) (auto simp: panel_step_store panel_defs Let_def split: sum.splits option.splits)

lemma user_step:
  assumes "\<not> (\<exists>a. e = EBoot a)"
  shows "app_user (pn_store (panel_step e p)) \<noteq> None \<longleftrightarrow> logs_in e \<or> (app_user (pn_store p) \<noteq> None \<and> \<not> logs_out e)"
  using assms
  by (cases e) (auto simp: panel_step_store panel_defs Let_def split: sum.splits option.splits)

lemma booting_step:
  assumes "booting_ok es p" "panel_can e p"
  shows "booting_ok (es @ [e]) (panel_step e p)"
proof (cases "pn_loading p")
  case True
  with assms show ?thesis
    by (cases e) (auto simp: booting_ok_def BootGate_def panel_step_def boot_end_frame landed_def)
next
  case False
  then show ?thesis
    using assms notin_set_remove1
    by (cases e) (auto simp: booting_ok_def panel_step_def panel_defs Let_def boot_end_frame
        split: sum.splits option.splits)
qed

lemma session_step:
  assumes "session_ok es p" "panel_can e p"
  shows "session_ok (es @ [e]) (panel_step e p)"
proof (cases "\<exists>a. e = EBoot a")
  case True
  then obtain a where e: "e = EBoot a" by blast
  with assms have load: "pn_loading p" "\<not> unanswered logs_out logs_in es" "\<not> unanswered locks unlocks es"
    by (auto simp: session_ok_def booting_ok_def split: if_splits)
  have known: "app_user (pn_store (panel_step e p)) \<noteq> None \<longrightarrow> (\<exists>x \<in> set (es @ [e]). known_user x)"
    using assms(1) boot_end_user [of a "landed 0 PBoot p"]
    by (auto simp: e panel_step_store session_ok_def landed_def)
  show ?thesis
    using booting_step [of es p e] assms load known boot_end_locked [of a "landed 0 PBoot p"]
    by (simp add: session_ok_def e panel_step_store)
next
  case False
  have "logs_in x \<Longrightarrow> known_user x \<and> \<not> logs_out x" for x by (cases x) auto
  then show ?thesis
    using booting_step [of es p e] assms locked_step [OF False, of p] user_step [OF False, of p]
    by (auto simp: session_ok_def)
qed

lemma session_run: "panel_run es p \<Longrightarrow> session_ok es p"
proof (induction rule: machine_run.induct)
  case machine_nil
  show ?case by (simp add: session_ok_def booting_ok_def panel_init_def store_init_def)
next
  case (machine_snoc es t e)
  then show ?case using session_step by blast
qed

lemma BootGate_shell: "BootGate p = ScreenShell \<Longrightarrow> app_user (pn_store p) \<noteq> None \<and> \<not> app_locked (pn_store p)"
  by (auto simp: BootGate_def split: if_splits option.splits)

text \<open>
  C6.  The shell is shown only to a user who may see it: in every run of the panel in which it is
  shown, the backend named a user at boot or accepted a login; after every lock (of the button, of the
  idle timer, or reported at boot) a password was accepted since; and after every sign-out a login was.
  This holds whatever the order in which the answers of these requests arrive.
\<close>

theorem shell_needs_session:
  assumes "panel_run es p" and "BootGate p = ScreenShell"
  shows "(\<exists>e \<in> set es. known_user e)
    \<and> (\<forall>pre a post. es = pre @ a # post \<longrightarrow> locks a \<longrightarrow> (\<exists>e \<in> set post. unlocks e))
    \<and> (\<forall>pre a post. es = pre @ a # post \<longrightarrow> logs_out a \<longrightarrow> (\<exists>e \<in> set post. logs_in e))"
  using session_run [OF assms(1)] BootGate_shell [OF assms(2)] answered [of locks unlocks] answered [of logs_out logs_in]
  by (auto simp: session_ok_def)

definition demo_session_user :: user where
  "demo_session_user = \<lparr>u_id = 1, u_name = ''ann'', u_email = ''a@b''\<rparr>"

definition demo_boot :: "bool \<Rightarrow> boot_answers" where
  "demo_boot lk = \<lparr>ba_meta = Inl (AbortError []), ba_auth = Inr \<lparr>am_lockscreen_enabled = True,
     am_basic_auth_enabled = False, am_lock_after_seconds = 60, am_web_root = None, am_file_roots = None\<rparr>,
     ba_me = Inr (MeUser demo_session_user), ba_lock = Inr (Some \<lparr>lk_locked = lk, lk_user = None\<rparr>)\<rparr>"

definition demo_session :: "panel_event list" where
  "demo_session = [EBoot (demo_boot True), EPassword ''x'', EUnlock,
     EUnlockEnd 1 (Inr (Some \<lparr>lk_locked = False, lk_user = None\<rparr>))]"

lemmas demo_session_eval = panel_init_def store_init_def panel_step_def remounted_def BootGate_def
  boot_end_def boot_meta_def boot_user_def boot_lock_def mergePanelMeta_def merge_auth_def panel_defs
  demo_boot_def Let_def no_items_def empty_ui_meta_def action_init_def action_start_def action_finish_def toast_def

theorem shell_needs_session_witness:
  "\<exists>p. machine_exec panel_can panel_step demo_session panel_init = Some p \<and> BootGate p = ScreenShell
     \<and> locks (hd demo_session) \<and> (\<exists>e. e \<in> set (tl demo_session) \<and> unlocks e)"
proof -
  obtain p where p: "machine_exec panel_can panel_step demo_session panel_init = Some p"
      "BootGate p = ScreenShell"
    by (simp add: demo_session_def demo_session_eval)
  then have run: "panel_run demo_session p" by (simp add: machine_run_exec)
  have "demo_session = [] @ hd demo_session # tl demo_session" "locks (hd demo_session)"
    by (simp_all add: demo_session_def demo_boot_def)
  with shell_needs_session [OF run p(2)] p show ?thesis by blast
qed

section \<open>A late lock answer\<close>

definition stranded :: "panel \<Rightarrow> bool" where
  "stranded p \<longleftrightarrow> \<not> pn_loading p \<and> pn_error p = None \<and> (0, PBoot) \<notin> set (pn_flight p)
     \<and> app_locked (pn_store p) \<and> app_user (pn_store p) = None"

lemma error_step:
  assumes "\<not> (\<exists>a. e = EBoot a)"
  shows "pn_error (panel_step e p) = pn_error p" "pn_loading (panel_step e p) = pn_loading p"
  using assms
  by (cases e; auto simp: panel_step_def panel_defs Let_def split: sum.splits option.splits)+

lemma stranded_step:
  assumes "stranded p" "panel_can e p" "\<not> unlocks e"
  shows "stranded (panel_step e p)"
proof -
  from assms(1,2) have nb: "\<not> (\<exists>a. e = EBoot a)" by (auto simp: stranded_def)
  have "\<not> logs_in e" using assms(3) by (cases e) auto
  moreover have "booting_ok [] p" using assms(1) by (simp add: stranded_def booting_ok_def)
  then have "(0, PBoot) \<notin> set (pn_flight (panel_step e p))"
    using booting_step [of "[]" p e] assms(1,2) error_step [OF nb, of p] by (simp add: booting_ok_def stranded_def)
  ultimately show ?thesis
    using assms locked_step [OF nb, of p] user_step [OF nb, of p] error_step [OF nb, of p]
    by (auto simp: stranded_def)
qed

interpretation strand: machine_invariant "\<lambda>e p. panel_can e p \<and> \<not> unlocks e" panel_step stranded
  by unfold_locales (simp add: stranded_step)

lemma BootGate_stranded: "stranded p \<Longrightarrow> BootGate p = ScreenLock"
  by (simp add: stranded_def BootGate_def)

text \<open>
  C40.  The answer to a lock request of the idle timer is not cancelled by a sign-out: when it arrives
  after the user signed out, the lock screen takes the place of the login screen, without a user, and
  it stays: until the backend accepts a password for the ended session, no event shows the login form.
\<close>

theorem late_lock_strands:
  assumes "panel_run es p" and "BootGate p = ScreenShell"
    and "machine_exec panel_can panel_step (ELogoutEnd g None # EIdleEnd h True # later) p = Some q"
    and "\<forall>e \<in> set later. \<not> unlocks e"
  shows "BootGate q = ScreenLock \<and> app_user (pn_store q) = None"
proof -
  let ?p1 = "panel_step (ELogoutEnd g None) p" and ?p2 = "panel_step (EIdleEnd h True) (panel_step (ELogoutEnd g None) p)"
  from assms(3) have can: "panel_can (ELogoutEnd g None) p" "panel_can (EIdleEnd h True) ?p1"
    and rest: "machine_exec panel_can panel_step later ?p2 = Some q" by (auto split: if_splits)
  have "\<not> pn_loading p" "pn_error p = None" using assms(2) by (auto simp: BootGate_def split: if_splits option.splits)
  moreover from this have "booting_ok (es @ [ELogoutEnd g None] @ [EIdleEnd h True]) ?p2"
    using booting_step [OF booting_step [OF _ can(1)] can(2)] session_run [OF assms(1)] by (simp add: session_ok_def)
  moreover have "app_user (pn_store ?p2) = None"
    using user_step [of "ELogoutEnd g None" p] user_step [of "EIdleEnd h True" ?p1] by simp
  moreover have "app_locked (pn_store ?p2)" using locked_step [of "EIdleEnd h True" ?p1] by simp
  ultimately have "stranded ?p2"
    using error_step [of "ELogoutEnd g None" p] error_step [of "EIdleEnd h True" ?p1]
    by (simp add: stranded_def booting_ok_def)
  moreover have "machine_run (\<lambda>e p. panel_can e p \<and> \<not> unlocks e) panel_step ?p2 later q"
    using rest assms(4) by (intro machine_run_restrict) (auto simp: machine_run_exec)
  ultimately have "stranded q" by (rule strand.inv_run [rotated])
  then show ?thesis using BootGate_stranded by (simp add: stranded_def)
qed

definition demo_strand :: "panel_event list" where
  "demo_strand = [EBoot (demo_boot False), ELogout, EIdle]"

theorem late_lock_strands_witness:
  "\<exists>q. machine_exec panel_can panel_step (demo_strand @ [ELogoutEnd 1 None, EIdleEnd 1 True, EPassword ''x'']) panel_init = Some q
     \<and> BootGate q = ScreenLock \<and> app_user (pn_store q) = None"
proof -
  obtain p where p: "machine_exec panel_can panel_step demo_strand panel_init = Some p" "BootGate p = ScreenShell"
    by (simp add: demo_strand_def demo_session_eval lock_button_def idle_enabled_def)
  then have run: "panel_run demo_strand p" by (simp add: machine_run_exec)
  obtain q where q: "machine_exec panel_can panel_step (demo_strand @ [ELogoutEnd 1 None, EIdleEnd 1 True, EPassword ''x'']) panel_init = Some q"
    by (simp add: demo_strand_def demo_session_eval lock_button_def idle_enabled_def)
  then have "machine_exec panel_can panel_step (ELogoutEnd 1 None # EIdleEnd 1 True # [EPassword ''x'']) p = Some q"
    using p(1) by (simp add: machine_exec_append)
  from late_lock_strands [OF run p(2) this] q show ?thesis by simp
qed

text \<open>What the idle hook does with its answer (\<open>Idle_Lock\<close>) is what the panel does.\<close>

lemma idle_end_refines:
  "il_store l = pn_store p \<Longrightarrow> il_warn l = None \<Longrightarrow> pn_store (idle_end g True p) = il_store (lock_ok l)"
  by (simp add: idle_end_def panel_say_def landed_def lock_ok_def idle_cleanup_def clearTicker_def clearWarn_def Let_def)

text \<open>After a login the lock settings stay those of the store before it.\<close>

lemma merge_fresh_auth: "Option.bind (merge_fresh fresh (Some a)) um_auth = Some a"
  by (simp add: merge_fresh_def Let_def)

end
