(* ===== verification/Layout.thy ===== *)
theory Layout
  imports Session Router Format
begin

text \<open>
  The frame of the panel, \<open>web/src/components/Layout.tsx\<close> without its gate (\<open>Session\<close>): the
  navigation and the view each path opens, the crumb, the health pill, and the small components the
  views share.
\<close>

section \<open>Navigation\<close>

datatype icon = IcoDashboard | IcoGlobe | IcoChart | IcoSearch | IcoFolder | IcoDatabase | IcoDocker
  | IcoClock | IcoDisk | IcoPlug | IcoServer | IcoSettings

definition iconByKey :: "(string \<times> icon) list" where
  "iconByKey = [(''dashboard'', IcoDashboard), (''globe'', IcoGlobe), (''chart'', IcoChart),
     (''search'', IcoSearch), (''folder'', IcoFolder), (''database'', IcoDatabase), (''docker'', IcoDocker),
     (''clock'', IcoClock), (''disk'', IcoDisk), (''plug'', IcoPlug), (''server'', IcoServer),
     (''settings'', IcoSettings)]"

record nav_item =
  ni_path :: string
  ni_label :: string
  ni_group :: string
  ni_icon :: icon
  ni_meta :: "string option"

definition nav_fallback :: "string \<Rightarrow> string \<Rightarrow> string \<Rightarrow> icon \<Rightarrow> string \<Rightarrow> nav_item" where
  "nav_fallback p l g i m = \<lparr>ni_path = p, ni_label = l, ni_group = g, ni_icon = i, ni_meta = Some m\<rparr>"

definition navItems :: "nav_item list" where
  "navItems = [
     nav_fallback ''/dashboard'' ''Dashboard'' ''Observe'' IcoDashboard ''live'',
     nav_fallback ''/metrics'' ''Traffic'' ''Observe'' IcoChart ''metrics'',
     nav_fallback ''/logs'' ''Logs'' ''Observe'' IcoSearch ''query'',
     nav_fallback ''/websites'' ''Websites'' ''Operate'' IcoGlobe ''sites'',
     nav_fallback ''/nginx'' ''Nginx'' ''Config'' IcoServer ''config'',
     nav_fallback ''/settings'' ''Settings'' ''Config'' IcoSettings ''account'',
     nav_fallback ''/files'' ''Files'' ''Storage'' IcoFolder ''storage'',
     nav_fallback ''/database'' ''Database'' ''Storage'' IcoDatabase ''sqlite'',
     nav_fallback ''/docker'' ''Docker'' ''Runtime'' IcoDocker ''containers'',
     nav_fallback ''/cron'' ''Cron'' ''Runtime'' IcoClock ''jobs'',
     nav_fallback ''/mounts'' ''Mounts'' ''Runtime'' IcoDisk ''fstab'',
     nav_fallback ''/plugins'' ''Plugins'' ''Runtime'' IcoPlug ''extensions'']"

text \<open>An icon key is looked up among the keys of the table; a name every object inherits is not one.\<close>

definition navFromMeta :: "ui_meta option \<Rightarrow> nav_item list" where
  "navFromMeta meta =
     (let items = Option.bind meta um_navigation in
      if no_items items then navItems
      else map (\<lambda>it. \<lparr>ni_path = nav_path it, ni_label = nav_label it, ni_group = nav_group it,
             ni_icon = nullish (map_of iconByKey (nav_icon it)) IcoDashboard, ni_meta = None\<rparr>) (the items))"

definition nav_groups :: "ui_meta option \<Rightarrow> (string \<times> nav_item list) list" where
  "nav_groups meta = group_by ni_group (navFromMeta meta)"

definition nav_active :: "string \<Rightarrow> nav_item \<Rightarrow> bool" where
  "nav_active path it \<longleftrightarrow> path = ni_path it \<or> (ni_path it = ''/plugins'' \<and> starts_with path ''/plugins/'')"

definition nav_click :: "nav_item \<Rightarrow> string" where
  "nav_click it = navigate (ni_path it) None"

section \<open>The view of a path\<close>

datatype view = ViewPlugins "string option" | ViewContribution string | ViewWebsites | ViewMetrics | ViewLogs
  | ViewFiles string | ViewDatabase "string option" | ViewDocker | ViewCron | ViewMounts | ViewNginx
  | ViewSettings | ViewDashboard

definition RouteView :: "string \<Rightarrow> (string \<times> string) list \<Rightarrow> view" where
  "RouteView path params =
     (if path = ''/plugins/keyring'' then ViewPlugins (Some ''keyring'')
      else if starts_with path ''/plugins/'' then ViewContribution path
      else if path = ''/websites'' then ViewWebsites
      else if path = ''/metrics'' then ViewMetrics
      else if path = ''/logs'' then ViewLogs
      else if path = ''/files'' then ViewFiles (nullish (map_of params ''path'') [])
      else if path = ''/database'' then ViewDatabase (map_of params ''table'')
      else if path = ''/docker'' then ViewDocker
      else if path = ''/cron'' then ViewCron
      else if path = ''/mounts'' then ViewMounts
      else if path = ''/nginx'' then ViewNginx
      else if path = ''/settings'' then ViewSettings
      else if path = ''/plugins'' then ViewPlugins None
      else ViewDashboard)"

datatype crumb = CrumbPath string | CrumbItem string string

definition TopbarCrumb :: "string \<Rightarrow> crumb" where
  "TopbarCrumb path =
     (let hit = (if starts_with path ''/plugins/'' then List.find (\<lambda>it. ni_path it = ''/plugins'') navItems
                 else List.find (\<lambda>it. ni_path it = path) navItems)
      in case hit of
           None \<Rightarrow> CrumbPath (or_str (strip_slash path) ''home'')
         | Some it \<Rightarrow> CrumbItem (ni_group it) (ni_label it))"

section \<open>The shell\<close>

text \<open>\<open>rootHealth\<close> never rejects here: a failed call is \<open>undefined\<close>.  The value is its status.\<close>

definition health_value :: "js_error + string option \<Rightarrow> string option" where
  "health_value outcome = (case outcome of Inr status \<Rightarrow> status | Inl e \<Rightarrow> None)"

definition HealthPill :: "string option option \<Rightarrow> string \<times> string" where
  "HealthPill dat =
     (let status = Option.bind dat id; ok = (status = Some ''ok'')
      in (''health-pill '' @ (if ok then [] else ''warn''),
          ''API '' @ middle_dot @ '' '' @ (if ok then ''healthy'' else nullish status em_dash)))"

definition shell_brand :: "ui_meta option \<Rightarrow> string \<times> string \<times> string" where
  "shell_brand meta =
     (let app = Option.bind meta um_app
      in (nullish (map_option app_logo_letter app) ''G'', nullish (map_option app_name app) ''GoSite'',
          envLabel (map_option app_env app)))"

definition shell_user :: "user option \<Rightarrow> string \<times> string option \<times> string option" where
  "shell_user u = (initials (map_option u_name u), map_option u_name u, map_option u_email u)"

definition terminal_button :: "bool \<Rightarrow> string" where
  "terminal_button active = (if active then ''Hide terminal'' else ''Open terminal'')"

text \<open>Everything the shell shows of a panel whose session allows it.\<close>

definition Shell_nav :: "panel \<Rightarrow> string \<Rightarrow> (string \<times> (nav_item \<times> bool) list) list" where
  "Shell_nav p path =
     map (\<lambda>(g, items). (g, map (\<lambda>it. (it, nav_active path it)) items)) (nav_groups (app_meta (pn_store p)))"

definition App :: "panel \<Rightarrow> route \<Rightarrow> screen \<times> view option" where
  "App p r = (let s = BootGate p in
     (s, if s = ScreenShell then Some (RouteView (rt_path r) (rt_params r)) else None))"

section \<open>Shared pieces\<close>

definition siteTraffic :: "traffic_summary option \<Rightarrow> (string \<times> traffic_site) list" where
  "siteTraffic summary =
     sort_by (\<lambda>a b. ts_requests (snd b) - ts_requests (snd a)) (case summary of None \<Rightarrow> [] | Some s \<Rightarrow> tsum_sites s)"

definition optionLabel :: "ui_option list option \<Rightarrow> string \<Rightarrow> string" where
  "optionLabel opts val =
     nullish (map_option uo_label (Option.bind opts (\<lambda>os. List.find (\<lambda>it. uo_value it = val) os))) val"

datatype stat_tone = ToneDefault | ToneWarn | ToneDanger | ToneInfo

fun tone_text :: "stat_tone \<Rightarrow> string" where
  "tone_text ToneDefault = []"
| "tone_text ToneWarn = ''warn''"
| "tone_text ToneDanger = ''danger''"
| "tone_text ToneInfo = ''info''"

definition Stat_class :: "stat_tone option \<Rightarrow> string" where
  "Stat_class tone = (case tone of
       None \<Rightarrow> ''stat'' | Some ToneDefault \<Rightarrow> ''stat'' | Some t \<Rightarrow> ''stat '' @ tone_text t)"

definition Stat_width :: "rat option \<Rightarrow> rat option" where
  "Stat_width percent = map_option (\<lambda>p. max 0 (min 100 p)) percent"

definition SimpleRows :: "'c list list \<Rightarrow> 'c list list option" where
  "SimpleRows rows = (if length rows = 0 then None else Some rows)"

section \<open>Properties\<close>

definition clicked :: "nav_item \<Rightarrow> string" where
  "clicked it = rt_path (parseHash (nav_click it))"

lemma navItems_clicked: "map clicked navItems = map ni_path navItems"
  by (simp add: clicked_def nav_click_def navigate_def navItems_def nav_fallback_def set_hash_def
      fragment_char_def parseHash_def or_str_def Let_def)

text \<open>
  Every item of the fallback navigation works: a click on it leads to its own path, on which
  exactly this item is highlighted, the crumb shows its group and label, and the view is one that no
  other item opens.
\<close>

theorem nav_items_open_their_views:
  "map clicked navItems = map ni_path navItems
   \<and> map (\<lambda>it. filter (nav_active (clicked it)) navItems) navItems = map (\<lambda>it. [it]) navItems
   \<and> map (\<lambda>it. TopbarCrumb (clicked it)) navItems = map (\<lambda>it. CrumbItem (ni_group it) (ni_label it)) navItems
   \<and> distinct (map (\<lambda>it. RouteView (clicked it) []) navItems)"
  using navItems_clicked
  by (simp add: navItems_def nav_fallback_def nav_active_def TopbarCrumb_def RouteView_def Let_def)

text \<open>
  The sidebar shows every item of the navigation exactly once, in the group it names: the groups
  are distinct, and each holds the items of its name in their order; and nothing of it is shown before
  the gate lets the user through.
\<close>

theorem sidebar_complete:
  "distinct (map fst (Shell_nav p path))
   \<and> map_of (Shell_nav p path) g =
       (let its = filter (\<lambda>it. ni_group it = g) (navFromMeta (app_meta (pn_store p)))
        in if its = [] then None else Some (map (\<lambda>it. (it, nav_active path it)) its))
   \<and> navFromMeta (app_meta (pn_store p)) \<noteq> []
   \<and> (snd (App p r) = None \<longleftrightarrow> BootGate p \<noteq> ScreenShell)"
proof -
  have fst: "map fst (Shell_nav p path) = map fst (nav_groups (app_meta (pn_store p)))"
    by (simp add: Shell_nav_def case_prod_unfold comp_def)
  have "map_of (Shell_nav p path) g =
      map_option (map (\<lambda>it. (it, nav_active path it))) (map_of (nav_groups (app_meta (pn_store p))) g)"
    unfolding Shell_nav_def by (induction "nav_groups (app_meta (pn_store p))") (auto simp: map_of_map)
  moreover have "navFromMeta m \<noteq> []" for m
    by (auto simp: navFromMeta_def Let_def no_items_def navItems_def)
  moreover have "distinct (map fst (Shell_nav p path))"
    unfolding fst by (simp add: nav_groups_def)
  ultimately show ?thesis
    by (auto simp: nav_groups_def map_of_group_by Let_def App_def filter_empty_conv)
qed

text \<open>The sites of the ranking are in the order of their requests.\<close>

interpretation traffic: comparator "\<lambda>a b :: string \<times> traffic_site. ts_requests (snd b) - ts_requests (snd a)"
  by unfold_locales auto

lemma siteTraffic_ordered: "sorted_wrt (\<lambda>a b. ts_requests (snd b) - ts_requests (snd a) \<le> 0) (siteTraffic s)"
  unfolding siteTraffic_def by (rule traffic.sorted_sort_by)

lemma Stat_width_bounds: "Stat_width p = Some w \<Longrightarrow> 0 \<le> w \<and> w \<le> 100"
  by (auto simp: Stat_width_def)

end
