(* ===== verification/View_Kit.thy ===== *)
theory View_Kit
  imports Endpoints Panel_Hooks Panel_Meta App_Store
begin

text \<open>
  What the views share: the rendering of an asynchronous resource (\<open>AsyncView\<close> and \<open>ErrorState\<close>
  of \<open>web/src/components/Ui.tsx\<close>), and the shape of their handlers, which send a request, and when
  it settles tell the user and reload.  A view's state extends \<open>view_log\<close>, the ghost lists of what
  it did to the outside.  The interface \<open>row_action\<close> is the contract of a button that acts on a row.
\<close>

section \<open>Asynchronous resources\<close>

datatype 'a shown = ShownLoading "string option" | ShownError string | ShownEmpty | ShownData 'a

definition ErrorState :: "js_error \<Rightarrow> string option \<Rightarrow> string" where
  "ErrorState err message = nullish message (err_message err)"

definition AsyncView :: "('a \<Rightarrow> bool) option \<Rightarrow> string option \<Rightarrow> ('d, 'a) async \<Rightarrow> 'a shown" where
  "AsyncView isEmpty label s =
     (if as_loading s \<and> as_data s = None then ShownLoading label
      else case as_error s of
        Some err \<Rightarrow> ShownError (ErrorState err None)
      | None \<Rightarrow> (case as_data s of
            None \<Rightarrow> ShownLoading label
          | Some d \<Rightarrow> (case isEmpty of
                Some e \<Rightarrow> (if e d then ShownEmpty else ShownData d)
              | None \<Rightarrow> ShownData d)))"

text \<open>The layer of the toasts is open exactly while there is one to show.\<close>

definition Toasts :: "app_store \<Rightarrow> bool \<times> string list" where
  "Toasts s = (app_toasts s \<noteq> [], map t_message (app_toasts s))"

section \<open>What a view does to the outside\<close>

record view_log =
  vl_requests :: "endpoint list"
  vl_toasts :: "(string \<times> toast_kind) list"
  vl_reloads :: nat

definition v_send :: "endpoint \<Rightarrow> 'v view_log_scheme \<Rightarrow> 'v view_log_scheme" where
  "v_send ep s = s\<lparr>vl_requests := vl_requests s @ [ep]\<rparr>"

definition v_say :: "string \<Rightarrow> toast_kind \<Rightarrow> 'v view_log_scheme \<Rightarrow> 'v view_log_scheme" where
  "v_say m k s = s\<lparr>vl_toasts := vl_toasts s @ [(m, k)]\<rparr>"

definition v_reload :: "'v view_log_scheme \<Rightarrow> 'v view_log_scheme" where
  "v_reload s = s\<lparr>vl_reloads := vl_reloads s + 1\<rparr>"

definition v_fail :: "ui_meta option \<Rightarrow> js_error \<Rightarrow> 'v view_log_scheme \<Rightarrow> 'v view_log_scheme" where
  "v_fail meta err s = v_say (humanizeError (err_message err) meta) ToastError s"

lemma view_log_simps [simp]:
  "vl_requests (v_send ep s) = vl_requests s @ [ep]" "vl_toasts (v_send ep s) = vl_toasts s"
  "vl_reloads (v_send ep s) = vl_reloads s"
  "vl_requests (v_say m k s) = vl_requests s" "vl_toasts (v_say m k s) = vl_toasts s @ [(m, k)]"
  "vl_reloads (v_say m k s) = vl_reloads s"
  "vl_requests (v_reload s) = vl_requests s" "vl_toasts (v_reload s) = vl_toasts s"
  "vl_reloads (v_reload s) = vl_reloads s + 1"
  "vl_requests (v_fail mt err s) = vl_requests s" "vl_reloads (v_fail mt err s) = vl_reloads s"
  "vl_toasts (v_fail mt err s) = vl_toasts s @ [(humanizeError (err_message err) mt, ToastError)]"
  by (simp_all add: v_send_def v_say_def v_reload_def v_fail_def)

text \<open>The answer of an action on a row: the row's list is loaded again only when it succeeded.\<close>

definition settle_row :: "ui_meta option \<Rightarrow> string \<Rightarrow> js_error option \<Rightarrow> 'v view_log_scheme \<Rightarrow> 'v view_log_scheme" where
  "settle_row meta ok failure s = (case failure of
       None \<Rightarrow> v_reload (v_say ok ToastInfo s)
     | Some err \<Rightarrow> v_fail meta err s)"

section \<open>The contract of a row action\<close>

text \<open>From \<open>s\<close> to \<open>s'\<close> the view sent just \<open>rq\<close>, told the user once how it went, and reloaded iff it worked.\<close>

definition acts_once :: "endpoint \<Rightarrow> string \<Rightarrow> js_error option \<Rightarrow> 'v view_log_scheme \<Rightarrow> 'v view_log_scheme \<Rightarrow> bool" where
  "acts_once rq ok failure s s' \<longleftrightarrow>
     vl_requests s' = vl_requests s @ [rq]
     \<and> (\<exists>m. vl_toasts s' = vl_toasts s @ [if failure = None then (ok, ToastInfo) else (m, ToastError)])
     \<and> vl_reloads s' = vl_reloads s + (if failure = None then 1 else 0)"

locale row_action =
  fixes start :: "'v view_log_scheme \<Rightarrow> 'v view_log_scheme"
    and finish :: "js_error option \<Rightarrow> 'v view_log_scheme \<Rightarrow> 'v view_log_scheme"
    and rq :: endpoint and ok :: string
  assumes start_sends: "vl_requests (start s) = vl_requests s @ [rq]"
    and start_quiet: "vl_toasts (start s) = vl_toasts s" "vl_reloads (start s) = vl_reloads s"
    and finish_sends: "vl_requests (finish failure s) = vl_requests s"
    and finish_ok: "vl_toasts (finish None s) = vl_toasts s @ [(ok, ToastInfo)]"
      "vl_reloads (finish None s) = vl_reloads s + 1"
    and finish_failed: "\<exists>m. vl_toasts (finish (Some err) s) = vl_toasts s @ [(m, ToastError)]"
      "vl_reloads (finish (Some err) s) = vl_reloads s"
begin

lemma act_reports: "acts_once rq ok failure s (finish failure (start s))"
proof (cases failure)
  case None
  then show ?thesis by (simp add: acts_once_def finish_ok start_sends start_quiet finish_sends)
next
  case (Some err)
  have "vl_reloads (finish failure (start s)) = vl_reloads s"
    by (simp add: Some finish_failed(2) start_quiet)
  moreover have "\<exists>m. vl_toasts (finish failure (start s)) = vl_toasts s @ [(m, ToastError)]"
    using finish_failed(1) [of err "start s"] by (simp add: Some start_quiet)
  ultimately show ?thesis by (simp add: acts_once_def Some start_sends finish_sends)
qed

end

lemma settle_row_action:
  assumes "\<And>s. start s = v_send rq s" "\<And>f s. finish f s = settle_row meta ok f s"
  shows "row_action start finish rq ok"
  by unfold_locales (auto simp: assms settle_row_def split: option.splits)

section \<open>What is shown\<close>

lemma AsyncView_data:
  "AsyncView isEmpty label s = ShownData d \<Longrightarrow> as_data s = Some d \<and> as_error s = None"
  by (auto simp: AsyncView_def split: if_splits option.splits)

end
