(* ===== verification/Websites_View.thy ===== *)
theory Websites_View
  imports Js_Regex View_Kit Layout Job_Stream
begin

text \<open>
  The websites view, \<open>web/src/views/Websites.tsx\<close>: the form of a website with the folder it
  computes for a proxy, the certificates, the nginx configuration of a site, and the actions on a row.
  A handler is cut at its \<open>await\<close>: \<open>_start\<close> is what runs before, \<open>_end\<close> what runs after.
  Lower case is that of ASCII letters.
\<close>

section \<open>The form of a website\<close>

definition slug_char :: "char \<Rightarrow> bool" where
  "slug_char c \<longleftrightarrow> is_lower c \<or> is_digit c \<or> c = CHR ''.'' \<or> c = CHR ''_'' \<or> c = CHR ''-''"

abbreviation dash :: "char \<Rightarrow> bool" where
  "dash \<equiv> \<lambda>c. c = CHR ''-''"

abbreviation slash :: "char \<Rightarrow> bool" where
  "slash \<equiv> \<lambda>c. c = CHR ''/''"

definition re_not_slug :: regex where
  "re_not_slug = Plus (Chr (\<lambda>c. \<not> slug_char c))"

definition re_edge_dashes :: regex where
  "re_edge_dashes = Alt (Seq Bol (Plus (Chr dash))) (Seq (Plus (Chr dash)) Eol)"

definition re_end_slashes :: regex where
  "re_end_slashes = Seq (Plus (Chr slash)) Eol"

definition re_two_slashes :: regex where
  "re_two_slashes = Seq Bol (Lit ''//'')"

definition website_hint :: "ui_meta option \<Rightarrow> string" where
  "website_hint meta = nullish (static_path_hint meta) []"

definition website_root :: "ui_meta option \<Rightarrow> string" where
  "website_root meta = nullish (map_option uw_web_root (Option.bind meta um_websites)) []"

definition site_slug :: "website_create_request \<Rightarrow> string" where
  "site_slug body =
     or_str (re_replace_all re_edge_dashes []
       (re_replace_all re_not_slug ''-'' (to_lower (or_str (or_str (wc_name body) (wc_domain body)) ''proxy''))))
       ''proxy''"

definition proxyPathFor :: "ui_meta option \<Rightarrow> website_create_request \<Rightarrow> string" where
  "proxyPathFor meta body =
     (if wc_type body \<noteq> ''proxy'' \<or> wc_path body \<noteq> [] then wc_path body
      else re_replace re_two_slashes ''/''
        (re_replace re_end_slashes [] (website_root meta) @ ''/'' @ site_slug body))"

record website_modal = view_log +
  wm_site :: website
  wm_form :: website_create_request
  wm_validation :: "(string \<times> bool) option"
  wm_save :: action_state
  wm_validate :: action_state
  wm_saved :: nat

definition website_modal_init :: "ui_meta option \<Rightarrow> website \<Rightarrow> website_modal" where
  "website_modal_init meta site =
     (let initialPath = or_str (w_path site)
            (if w_id site \<noteq> 0 then [] else if w_type site = ''proxy'' then [] else website_hint meta)
      in \<lparr>vl_requests = [], vl_toasts = [], vl_reloads = 0, wm_site = site,
          wm_form = \<lparr>wc_name = w_name site, wc_domain = w_domain site, wc_path = initialPath,
            wc_type = w_type site, wc_upstream = w_upstream site, wc_active = Some (w_active site)\<rparr>,
          wm_validation = None, wm_save = action_init, wm_validate = action_init, wm_saved = 0\<rparr>)"

text \<open>The fields of the form; one input serves the path and, for a proxy, the upstream.\<close>

datatype website_field = FldName string | FldDomain string | FldPath string | FldUpstream string | FldActive bool

fun setField :: "website_field \<Rightarrow> website_create_request \<Rightarrow> website_create_request" where
  "setField (FldName v) f = f\<lparr>wc_name := v\<rparr>"
| "setField (FldDomain v) f = f\<lparr>wc_domain := v\<rparr>"
| "setField (FldPath v) f = f\<lparr>wc_path := v\<rparr>"
| "setField (FldUpstream v) f = f\<lparr>wc_upstream := Some v\<rparr>"
| "setField (FldActive b) f = f\<lparr>wc_active := Some b\<rparr>"

definition website_field_of :: "website_create_request \<Rightarrow> string \<Rightarrow> website_field" where
  "website_field_of f v = (if wc_type f = ''proxy'' then FldUpstream v else FldPath v)"

definition website_field_value :: "website_create_request \<Rightarrow> string" where
  "website_field_value f = (if wc_type f = ''proxy'' then nullish (wc_upstream f) [] else wc_path f)"

definition onTypeChange :: "ui_meta option \<Rightarrow> string \<Rightarrow> website_create_request \<Rightarrow> website_create_request" where
  "onTypeChange meta ty f =
     (if ty = ''proxy'' then f\<lparr>wc_type := ty, wc_path := []\<rparr>
      else f\<lparr>wc_type := ty, wc_path := or_str (wc_path f) (website_hint meta)\<rparr>)"

definition website_payload :: "ui_meta option \<Rightarrow> website_create_request \<Rightarrow> website_create_request" where
  "website_payload meta f = f\<lparr>wc_path := proxyPathFor meta f\<rparr>"

definition website_fields :: "website_create_request \<Rightarrow> (string \<times> json) list" where
  "website_fields f = [(''name'', JStr (wc_name f)), (''domain'', JStr (wc_domain f)), (''path'', JStr (wc_path f)),
     (''type'', JStr (wc_type f))] @ jfield ''upstream'' (jstr_opt (wc_upstream f))
     @ jfield ''active'' (map_option JBool (wc_active f))"

definition website_save :: "website \<Rightarrow> website_create_request \<Rightarrow> endpoint" where
  "website_save site body =
     (if w_id site \<noteq> 0 then websites_update (w_id site) (JObj (website_fields body))
      else websites_create (JObj (website_fields body)))"

definition validate_start :: "ui_meta option \<Rightarrow> website_modal \<Rightarrow> website_modal" where
  "validate_start meta s =
     (let body = website_fields (website_payload meta (wm_form s))
          @ jfield ''id'' (if w_id (wm_site s) = 0 then None else Some (jint (w_id (wm_site s))))
      in v_send (websites_validate (JObj body)) (s\<lparr>wm_validate := action_start (wm_validate s)\<rparr>))"

definition validation_reason :: "website_validate_response option \<Rightarrow> string" where
  "validation_reason res =
     (if truthy_bool (map_option wv_valid res) then ''Valid''
      else nullish (nullish_opt (Option.bind res wv_reason) (Option.bind res wv_message)) ''Not valid'')"

definition validate_end :: "ui_meta option \<Rightarrow> js_error + website_validate_response option \<Rightarrow> website_modal \<Rightarrow> website_modal" where
  "validate_end meta outcome s =
     (let s = s\<lparr>wm_validate := snd (action_finish outcome (wm_validate s))\<rparr> in
      case outcome of
        Inl err \<Rightarrow> v_fail meta err s
      | Inr res \<Rightarrow>
          (let result = humanizeValidation (Some (validation_reason res)) meta
           in v_say (if snd result then ''Validation passed'' else fst result)
                (if snd result then ToastInfo else ToastError) (s\<lparr>wm_validation := Some result\<rparr>)))"

definition website_submit :: "ui_meta option \<Rightarrow> website_modal \<Rightarrow> website_modal" where
  "website_submit meta s =
     v_send (website_save (wm_site s) (website_payload meta (wm_form s))) (s\<lparr>wm_save := action_start (wm_save s)\<rparr>)"

text \<open>\<open>domain\<close> is the domain of the form that was submitted.\<close>

definition website_saved :: "ui_meta option \<Rightarrow> string \<Rightarrow> js_error option \<Rightarrow> website_modal \<Rightarrow> website_modal" where
  "website_saved meta domain failure s =
     (let outcome = (case failure of None \<Rightarrow> Inr () | Some e \<Rightarrow> Inl e);
          s = s\<lparr>wm_save := snd (action_finish outcome (wm_save s))\<rparr>
      in case failure of
           None \<Rightarrow> (let s = v_say (domain @ '' saved'') ToastInfo s in s\<lparr>wm_saved := wm_saved s + 1\<rparr>)
         | Some err \<Rightarrow> v_fail meta err s)"

definition website_title :: "website \<Rightarrow> string" where
  "website_title site = (if w_id site \<noteq> 0 then ''Edit '' @ w_domain site else ''New website'')"

definition pathFieldHint :: "ui_meta option \<Rightarrow> website_create_request \<Rightarrow> string option" where
  "pathFieldHint meta f =
     (if wc_type f = ''proxy'' then map_option uw_proxy_upstream_hint (Option.bind meta um_websites)
      else Some (or_str (website_hint meta)
        (''Folder inside '' @ nullish (map_option uw_web_root (Option.bind meta um_websites)) ''web root'')))"

definition website_type_options :: "ui_meta option \<Rightarrow> website_create_request \<Rightarrow> (string \<times> string) list" where
  "website_type_options meta f =
     (case map_option uw_types (Option.bind meta um_websites) of
        Some os \<Rightarrow> map (\<lambda>it. (uo_value it, uo_label it)) os
      | None \<Rightarrow> [(wc_type f, wc_type f)])"

section \<open>Certificates\<close>

record ssl_modal = view_log +
  sl_site :: website
  sl_pub :: string
  sl_priv :: string
  sl_stream :: "string option"
  sl_manual :: action_state
  sl_certbot :: action_state

definition ssl_modal_init :: "website \<Rightarrow> ssl_modal" where
  "ssl_modal_init site = \<lparr>vl_requests = [ssl_status_ep (w_id site)], vl_toasts = [], vl_reloads = 0,
     sl_site = site, sl_pub = [], sl_priv = [], sl_stream = None, sl_manual = action_init,
     sl_certbot = action_init\<rparr>"

text \<open>What the two text areas show of the state and the loaded status.\<close>

definition ssl_shown :: "ssl_status \<Rightarrow> ssl_modal \<Rightarrow> string \<times> string" where
  "ssl_shown dat s = (or_str (sl_pub s) (nullish (ssl_public_pem dat) []),
     or_str (sl_priv s) (nullish (ssl_private_pem dat) []))"

definition ssl_stats :: "ssl_status \<Rightarrow> string \<times> string \<times> string" where
  "ssl_stats dat = (if ssl_enabled dat then ''Yes'' else ''No'',
     ''stat '' @ (if ssl_expired dat then ''danger'' else ''info''),
     if ssl_expired dat then ''Yes'' else ''No'')"

definition saveManual_start :: "ssl_modal \<Rightarrow> ssl_modal" where
  "saveManual_start s =
     v_send (ssl_uploadManual (w_id (sl_site s)) (sl_pub s) (sl_priv s)) (s\<lparr>sl_manual := action_start (sl_manual s)\<rparr>)"

definition saveManual_end :: "js_error option \<Rightarrow> ssl_modal \<Rightarrow> ssl_modal" where
  "saveManual_end failure s =
     (let outcome = (case failure of None \<Rightarrow> Inr () | Some e \<Rightarrow> Inl e);
          s = s\<lparr>sl_manual := snd (action_finish outcome (sl_manual s))\<rparr>
      in settle_row None (w_domain (sl_site s) @ '' SSL updated'') failure s)"

definition runCertbot_start :: "ssl_modal \<Rightarrow> ssl_modal" where
  "runCertbot_start s = v_send (ssl_startCertbot (w_id (sl_site s))) (s\<lparr>sl_certbot := action_start (sl_certbot s)\<rparr>)"

definition runCertbot_end :: "js_error + job_accepted_response option \<Rightarrow> ssl_modal \<Rightarrow> ssl_modal" where
  "runCertbot_end outcome s =
     (let s = s\<lparr>sl_certbot := snd (action_finish outcome (sl_certbot s))\<rparr> in
      case outcome of
        Inl err \<Rightarrow> v_fail None err s
      | Inr res \<Rightarrow>
          (let s = (if truthy_num (map_option ja_job_id res)
                    then s\<lparr>sl_stream := Some (ssl_certbotStreamUrl (w_id (sl_site s)) (ja_job_id (the res)))\<rparr> else s)
           in v_reload (v_say (nullish (map_option ja_message res) ''Certbot queued'') ToastInfo s)))"

section \<open>The nginx configuration of a site\<close>

record config_modal = view_log +
  cm_site :: website
  cm_loaded :: "(int, string) async"
  cm_config :: string
  cm_notice :: "(bool \<times> string) option"
  cm_test :: action_state
  cm_save :: action_state

definition config_modal_init :: "website \<Rightarrow> config_modal" where
  "config_modal_init site = \<lparr>vl_requests = [websites_nginxConfig (w_id site)], vl_toasts = [], vl_reloads = 0,
     cm_site = site, cm_loaded = async_effect (w_id site) async_init, cm_config = [], cm_notice = None,
     cm_test = action_init, cm_save = action_init\<rparr>"

text \<open>The answer, and the effect that copies it into the editor.\<close>

definition config_loaded :: "js_error + string \<Rightarrow> config_modal \<Rightarrow> config_modal" where
  "config_loaded outcome s =
     (let s = s\<lparr>cm_loaded := async_settle 1 outcome (cm_loaded s)\<rparr>
      in case as_data (cm_loaded s) of None \<Rightarrow> s | Some d \<Rightarrow> s\<lparr>cm_config := d\<rparr>)"

definition config_test_start :: "config_modal \<Rightarrow> config_modal" where
  "config_test_start s = v_send (websites_testNginxConfig (w_id (cm_site s)) (cm_config s))
     (s\<lparr>cm_notice := None, cm_test := action_start (cm_test s)\<rparr>)"

text \<open>Both handlers end in a notice and a toast of the same text.\<close>

definition config_notify :: "string \<Rightarrow> js_error option \<Rightarrow> config_modal \<Rightarrow> config_modal" where
  "config_notify ok failure s = (case failure of
       None \<Rightarrow> v_say ok ToastInfo (s\<lparr>cm_notice := Some (True, ok)\<rparr>)
     | Some err \<Rightarrow>
         (let msg = humanizeError (err_message err) None
          in v_say msg ToastError (s\<lparr>cm_notice := Some (False, msg)\<rparr>)))"

definition config_test_end :: "js_error option \<Rightarrow> config_modal \<Rightarrow> config_modal" where
  "config_test_end failure s =
     (let outcome = (case failure of None \<Rightarrow> Inr () | Some e \<Rightarrow> Inl e)
      in config_notify ''Configuration syntax OK'' failure
           (s\<lparr>cm_test := snd (action_finish outcome (cm_test s))\<rparr>))"

text \<open>The form exists only when the editor is shown, so nothing is saved before the file is loaded.\<close>

definition config_editor_shown :: "config_modal \<Rightarrow> bool" where
  "config_editor_shown s = (case AsyncView None None (cm_loaded s) of ShownData d \<Rightarrow> True | _ \<Rightarrow> False)"

definition config_submit :: "config_modal \<Rightarrow> config_modal" where
  "config_submit s =
     (if config_editor_shown s
      then v_send (websites_updateNginxConfig (w_id (cm_site s)) (cm_config s))
             (s\<lparr>cm_notice := None, cm_save := action_start (cm_save s)\<rparr>)
      else s)"

definition config_saved :: "js_error option \<Rightarrow> config_modal \<Rightarrow> config_modal" where
  "config_saved failure s =
     (let outcome = (case failure of None \<Rightarrow> Inr () | Some e \<Rightarrow> Inl e)
      in config_notify (w_domain (cm_site s) @ '' config saved'') failure
           (s\<lparr>cm_save := snd (action_finish outcome (cm_save s))\<rparr>))"

section \<open>The list\<close>

definition site_toggle_start :: "website \<Rightarrow> 'v view_log_scheme \<Rightarrow> 'v view_log_scheme" where
  "site_toggle_start site s = v_send (websites_toggle (w_id site)) s"

definition site_toggle_end :: "ui_meta option \<Rightarrow> website \<Rightarrow> js_error option \<Rightarrow> 'v view_log_scheme \<Rightarrow> 'v view_log_scheme" where
  "site_toggle_end meta site failure s = settle_row meta (w_domain site @ '' updated'') failure s"

text \<open>\<open>sure\<close> is the answer of the browser's confirmation.\<close>

definition site_remove_start :: "website \<Rightarrow> bool \<Rightarrow> 'v view_log_scheme \<Rightarrow> 'v view_log_scheme" where
  "site_remove_start site sure s = (if sure then v_send (websites_remove (w_id site) False) s else s)"

definition site_remove_end :: "ui_meta option \<Rightarrow> website \<Rightarrow> js_error option \<Rightarrow> 'v view_log_scheme \<Rightarrow> 'v view_log_scheme" where
  "site_remove_end meta site failure s = settle_row meta (w_domain site @ '' deleted'') failure s"

definition new_site :: "ui_meta option \<Rightarrow> website" where
  "new_site meta = \<lparr>w_id = 0, w_name = [], w_domain = [], w_path = [],
     w_type = (case map_option uw_types (Option.bind meta um_websites) of
         Some (t # ts) \<Rightarrow> uo_value t | _ \<Rightarrow> ''static''),
     w_upstream = None, w_ssl = False, w_active = False, w_config = None\<rparr>"

text \<open>The cells of a row: type, path or upstream, the two badges, and the tip of the first button.\<close>

definition site_row :: "ui_meta option \<Rightarrow> website \<Rightarrow> string \<times> string option \<times> string \<times> string \<times> string" where
  "site_row meta site =
     (optionLabel (map_option uw_types (Option.bind meta um_websites)) (w_type site),
      if w_type site = ''proxy'' then w_upstream site
      else Some (displayPath (map_option uw_web_root (Option.bind meta um_websites)) (Some (w_path site))),
      if w_active site then ''active'' else ''disabled'',
      if w_ssl site then ''enabled'' else ''off'',
      if w_active site then ''Disable site'' else ''Enable site'')"

section \<open>What the patterns of the slug do\<close>

lemma re_replace_two_slashes:
  "re_replace re_two_slashes ''/'' s = (if starts_with s ''//'' then CHR ''/'' # drop 2 s else s)"
  unfolding re_two_slashes_def re_replace_def
  by (subst m_search.simps) (auto simp: m_first_Bol m_search_Bol_None m_first_def m_all_Lit split: list.splits option.splits)

lemma m_first_edge: "m_first re_edge_dashes pre s =
    (case (if pre = [] then m_first (Plus (Chr dash)) pre s else None) of
       Some st \<Rightarrow> Some st
     | None \<Rightarrow> m_first (Seq (Plus (Chr dash)) Eol) pre s)"
  by (auto simp: re_edge_dashes_def m_first_def simp del: m_all.simps(9) split: list.splits)

lemma replace_edge_inner: "pre \<noteq> [] \<Longrightarrow> replace_all re_edge_dashes [] pre s = strip_end dash s"
proof (induction s arbitrary: pre)
  case Nil
  then show ?case by (subst replace_all.simps) (simp add: m_first_edge m_first_run_Eol)
next
  case (Cons c s)
  have nil: "replace_all re_edge_dashes [] p [] = []" if "p \<noteq> []" for p
    using that by (subst replace_all.simps) (simp add: m_first_edge m_first_run_Eol)
  from Cons show ?case
    by (subst replace_all.simps) (auto simp: m_first_edge m_first_run_Eol strip_end_Cons nil)
qed

lemma replace_edge: "re_replace_all re_edge_dashes [] s = strip_end dash (dropWhile dash s)"
proof (cases s)
  case Nil
  then show ?thesis
    unfolding re_replace_all_def by (subst replace_all.simps) (simp add: m_first_edge m_first_run_Eol m_first_Plus_Chr)
next
  case (Cons c s')
  have "length (dropWhile dash s') < Suc (length s')" by (simp add: le_imp_less_Suc length_dropWhile_le)
  with Cons show ?thesis
    unfolding re_replace_all_def
    by (subst replace_all.simps)
      (auto simp: m_first_edge m_first_run_Eol m_first_Plus_Chr replace_edge_inner strip_end_Cons)
qed

section \<open>The folder of a proxy\<close>

lemma site_slug_eq: "site_slug body =
    or_str (strip_end dash (dropWhile dash (squash (\<lambda>c. \<not> slug_char c) ''-''
      (to_lower (or_str (or_str (wc_name body) (wc_domain body)) ''proxy''))))) ''proxy''"
  unfolding site_slug_def replace_edge re_not_slug_def by (simp add: re_replace_all_def replace_all_Plus_Chr)

lemma site_slug_good:
  "site_slug body \<noteq> [] \<and> list_all slug_char (site_slug body)
   \<and> hd (site_slug body) \<noteq> CHR ''-'' \<and> last (site_slug body) \<noteq> CHR ''-''"
proof -
  define w where "w = squash (\<lambda>c. \<not> slug_char c) ''-'' (to_lower (or_str (or_str (wc_name body) (wc_domain body)) ''proxy''))"
  define u where "u = strip_end dash (dropWhile dash w)"
  have slug: "site_slug body = or_str u ''proxy''" by (simp add: site_slug_eq u_def w_def)
  have "set w \<subseteq> Collect slug_char"
    unfolding w_def by (rule subset_trans [OF squash_chars]) (auto simp: slug_char_def)
  then have chars: "set u \<subseteq> Collect slug_char"
    unfolding u_def by (meson set_dropWhileD strip_end_set subset_iff)
  show ?thesis
  proof (cases u)
    case Nil
    then show ?thesis by (simp add: slug slug_char_def is_lower_def)
  next
    case (Cons c cs)
    then have "last u \<noteq> CHR ''-''" using strip_end_last [of dash "dropWhile dash w"] by (simp add: u_def)
    moreover obtain v where "dropWhile dash w = u @ v"
      using strip_end_prefix [of "dropWhile dash w" dash] by (auto simp: u_def)
    with Cons have "hd (dropWhile dash w) = c" "dropWhile dash w \<noteq> []" by auto
    then have "c \<noteq> CHR ''-''" using hd_dropWhile [of dash w] by simp
    ultimately show ?thesis using Cons chars by (auto simp: slug list_all_iff)
  qed
qed

text \<open>
  The folder the form sends: a path the user gave, and the path of a static site, are sent as
  they are; for a proxy without a path it is the folder of the slug directly under the web root, where
  the slug is never empty, holds only lower-case letters, digits, dots, underscores and dashes, and
  begins and ends with something other than a dash.
\<close>

theorem proxy_path_of_slug:
  "proxyPathFor meta body =
     (if wc_type body \<noteq> ''proxy'' \<or> wc_path body \<noteq> [] then wc_path body
      else (let p = strip_end slash (website_root meta) @ ''/'' @ site_slug body
            in if starts_with p ''//'' then tl p else p))
   \<and> site_slug body \<noteq> [] \<and> list_all slug_char (site_slug body)
   \<and> hd (site_slug body) \<noteq> CHR ''-'' \<and> last (site_slug body) \<noteq> CHR ''-''"
proof -
  have "re_replace re_two_slashes ''/'' s = (if starts_with s ''//'' then tl s else s)" for s
    by (auto simp: re_replace_two_slashes starts_with_iff)
  then show ?thesis
    using site_slug_good [of body]
    by (simp add: proxyPathFor_def re_end_slashes_def re_replace_run_Eol Let_def)
qed

text \<open>
  The slug is not unique, although the form clears the path so that a unique slug is generated: two
  proxies whose names differ only in a character outside the slug alphabet get the same folder, and a
  proxy named with two dots gets the parent of the web root.
\<close>

theorem proxy_slug_not_unique:
  "site_slug \<lparr>wc_name = ''my app'', wc_domain = d1, wc_path = [], wc_type = ''proxy'', wc_upstream = u1, wc_active = a1\<rparr>
     = site_slug \<lparr>wc_name = ''my-app'', wc_domain = d2, wc_path = [], wc_type = ''proxy'', wc_upstream = u2, wc_active = a2\<rparr>
   \<and> site_slug \<lparr>wc_name = ''..'', wc_domain = d1, wc_path = [], wc_type = ''proxy'', wc_upstream = u1, wc_active = a1\<rparr> = ''..''"
  by (simp add: site_slug_eq to_lower_def lower_char_def is_upper_def slug_char_def is_lower_def is_digit_def
      strip_end_def)

section \<open>Row actions\<close>

interpretation site_toggle: row_action "site_toggle_start site" "site_toggle_end meta site"
  "websites_toggle (w_id site)" "w_domain site @ '' updated''" for meta site
  by (rule settle_row_action) (simp_all add: site_toggle_start_def site_toggle_end_def)

interpretation site_remove: row_action "site_remove_start site True" "site_remove_end meta site"
  "websites_remove (w_id site) False" "w_domain site @ '' deleted''" for meta site
  by (rule settle_row_action) (simp_all add: site_remove_start_def site_remove_end_def)

section \<open>What is saved\<close>

text \<open>
  The certificate form sends what was typed, not what it shows: where the user left a text area
  alone, it shows the stored certificate (or key) but the request carries the empty string for it, so
  that replacing only the key sends an empty certificate.
\<close>

theorem ssl_untouched_sent_empty:
  assumes "sl_pub s = []" and "ssl_public_pem dat = Some pem"
  shows "fst (ssl_shown dat s) = pem
    \<and> vl_requests (saveManual_start s) = vl_requests s @ [ssl_uploadManual (w_id (sl_site s)) [] (sl_priv s)]"
  using assms by (simp add: ssl_shown_def saveManual_start_def v_send_def)

definition demo_site :: website where
  "demo_site = (new_site None)\<lparr>w_id := 4, w_domain := ''a.b''\<rparr>"

theorem ssl_untouched_sent_empty_witness:
  "vl_requests (saveManual_start ((ssl_modal_init demo_site)\<lparr>sl_priv := ''KEY''\<rparr>)) =
     [ssl_status_ep 4, ssl_uploadManual 4 [] ''KEY'']"
  using ssl_untouched_sent_empty [of "(ssl_modal_init demo_site)\<lparr>sl_priv := ''KEY''\<rparr>"
      "\<lparr>ssl_enabled = True, ssl_expired = False, ssl_expires_at = None, ssl_issuer = None,
        ssl_public_pem = Some ''CERT'', ssl_private_pem = None\<rparr>"]
  by (simp add: ssl_modal_init_def demo_site_def)

text \<open>The configuration dialog as a machine: typing needs the editor on the screen.\<close>

datatype config_event = CmLoaded "js_error + string" | CmEdit string | CmTest | CmTestEnd "js_error option"
  | CmSave | CmSaveEnd "js_error option"

fun config_can :: "config_event \<Rightarrow> config_modal \<Rightarrow> bool" where
  "config_can (CmEdit t) s = config_editor_shown s"
| "config_can CmTest s = (\<not> ac_loading (cm_test s))"
| "config_can CmSave s = (\<not> ac_loading (cm_save s))"
| "config_can (CmLoaded r) s = as_loading (cm_loaded s)"
| "config_can _ s = True"

fun config_step :: "config_event \<Rightarrow> config_modal \<Rightarrow> config_modal" where
  "config_step (CmLoaded r) s = config_loaded r s"
| "config_step (CmEdit t) s = s\<lparr>cm_config := t\<rparr>"
| "config_step CmTest s = config_test_start s"
| "config_step (CmTestEnd f) s = config_test_end f s"
| "config_step CmSave s = config_submit s"
| "config_step (CmSaveEnd f) s = config_saved f s"

abbreviation config_run :: "website \<Rightarrow> config_event list \<Rightarrow> config_modal \<Rightarrow> bool" where
  "config_run site \<equiv> machine_run config_can config_step (config_modal_init site)"

text \<open>The texts a run has seen: the one loaded and those typed.\<close>

fun config_source :: "config_event \<Rightarrow> string option" where
  "config_source (CmLoaded (Inr d)) = Some d"
| "config_source (CmEdit t) = Some t"
| "config_source _ = None"

definition seen :: "config_event list \<Rightarrow> string set" where
  "seen es = {t. Some t \<in> config_source ` set es}"

definition config_ok :: "website \<Rightarrow> config_event list \<Rightarrow> config_modal \<Rightarrow> bool" where
  "config_ok site es s \<longleftrightarrow> cm_site s = site \<and> (as_data (cm_loaded s) \<noteq> None \<longrightarrow> cm_config s \<in> seen es)
     \<and> as_mounted (cm_loaded s) \<and> as_gen (cm_loaded s) = 1
     \<and> (as_loading (cm_loaded s) \<longrightarrow> as_data (cm_loaded s) = None)
     \<and> (\<forall>c. websites_updateNginxConfig (w_id site) c \<in> set (vl_requests s) \<longrightarrow> c \<in> seen es)"

lemma seen_snoc: "seen (es @ [e]) = seen es \<union> {t. config_source e = Some t}"
  by (auto simp: seen_def)

lemma update_not_get:
  "websites_updateNginxConfig i c \<noteq> websites_nginxConfig j" "websites_updateNginxConfig i c \<noteq> websites_testNginxConfig j d"
  by (simp_all add: websites_updateNginxConfig_def websites_nginxConfig_def websites_testNginxConfig_def
      http_put_def http_get_def http_post_def no_options_def)

lemma update_inj: "websites_updateNginxConfig i c = websites_updateNginxConfig i d \<longleftrightarrow> c = d"
  by (simp add: websites_updateNginxConfig_def http_put_def no_options_def)

lemma config_editor_data: "config_editor_shown s \<Longrightarrow> as_data (cm_loaded s) \<noteq> None"
  by (auto simp: config_editor_shown_def dest: AsyncView_data split: shown.splits)

lemma config_ok_step:
  assumes "config_ok site es s" "config_can e s"
  shows "config_ok site (es @ [e]) (config_step e s)"
proof (cases e)
  case (CmLoaded r)
  then show ?thesis
    using assms by (auto simp: config_ok_def seen_snoc config_loaded_def async_settle_def Let_def
        split: sum.splits option.splits)
next
  case CmSave
  then show ?thesis
    using assms config_editor_data [of s]
    by (auto simp: config_ok_def seen_snoc config_submit_def v_send_def update_inj)
next
  case (CmTestEnd f)
  then show ?thesis
    using assms by (auto simp: config_ok_def seen_snoc config_test_end_def config_notify_def v_say_def Let_def split: option.splits)
next
  case (CmSaveEnd f)
  then show ?thesis
    using assms by (auto simp: config_ok_def seen_snoc config_saved_def config_notify_def v_say_def Let_def split: option.splits)
qed (use assms in \<open>auto simp: config_ok_def seen_snoc config_test_start_def v_send_def update_not_get\<close>)


definition demo_config :: "config_event list" where
  "demo_config = [CmSave, CmLoaded (Inr ''server {}''), CmSave]"


end
