(* ===== verification/Runtime_Views.thy ===== *)
theory Runtime_Views
  imports View_Kit Layout Job_Stream
begin

text \<open>
  The thin views: the nginx editor (\<open>web/src/views/Nginx.tsx\<close>), the account settings
  (\<open>Settings.tsx\<close>), cron jobs (\<open>Cron.tsx\<close>), containers (\<open>Docker.tsx\<close>) and the database browser
  (\<open>Database.tsx\<close>).  A handler is cut at its \<open>await\<close>.
\<close>

abbreviation settled :: "js_error option \<Rightarrow> js_error + unit" where
  "settled failure \<equiv> (case failure of None \<Rightarrow> Inr () | Some e \<Rightarrow> Inl e)"

section \<open>Nginx\<close>

datatype nginx_tab = TabDefault | TabGlobal

record nginx_view = view_log +
  ng_default :: "(unit, string) async"
  ng_global :: "(unit, string) async"
  ng_tab :: nginx_tab
  ng_defaultText :: string
  ng_globalText :: string
  ng_test :: action_state
  ng_saveDefault :: action_state
  ng_saveGlobal :: action_state
  ng_reload :: action_state

definition nginx_init :: nginx_view where
  "nginx_init = \<lparr>vl_requests = [nginx_getDefault, nginx_getGlobal], vl_toasts = [], vl_reloads = 0,
     ng_default = async_effect () async_init, ng_global = async_effect () async_init, ng_tab = TabDefault,
     ng_defaultText = [], ng_globalText = [], ng_test = action_init, ng_saveDefault = action_init,
     ng_saveGlobal = action_init, ng_reload = action_init\<rparr>"

definition tab_scope :: "nginx_tab \<Rightarrow> string" where
  "tab_scope t = (case t of TabDefault \<Rightarrow> ''default'' | TabGlobal \<Rightarrow> ''global'')"

definition activeText :: "nginx_view \<Rightarrow> string" where
  "activeText s = (case ng_tab s of TabDefault \<Rightarrow> ng_defaultText s | TabGlobal \<Rightarrow> ng_globalText s)"

definition setActiveText :: "string \<Rightarrow> nginx_view \<Rightarrow> nginx_view" where
  "setActiveText t s = (case ng_tab s of TabDefault \<Rightarrow> s\<lparr>ng_defaultText := t\<rparr> | TabGlobal \<Rightarrow> s\<lparr>ng_globalText := t\<rparr>)"

definition activeState :: "nginx_view \<Rightarrow> (unit, string) async" where
  "activeState s = (case ng_tab s of TabDefault \<Rightarrow> ng_default s | TabGlobal \<Rightarrow> ng_global s)"

text \<open>An answer, and the effect of the changed data on the text.\<close>

definition nginx_loaded :: "nginx_tab \<Rightarrow> nat \<Rightarrow> js_error + string \<Rightarrow> nginx_view \<Rightarrow> nginx_view" where
  "nginx_loaded t g r s = (case t of
       TabDefault \<Rightarrow>
         (let a = async_settle g r (ng_default s);
              s' = s\<lparr>ng_default := a\<rparr>
          in if as_data a = as_data (ng_default s) \<or> as_data a = None then s'
             else s'\<lparr>ng_defaultText := the (as_data a)\<rparr>)
     | TabGlobal \<Rightarrow>
         (let a = async_settle g r (ng_global s);
              s' = s\<lparr>ng_global := a\<rparr>
          in if as_data a = as_data (ng_global s) \<or> as_data a = None then s'
             else s'\<lparr>ng_globalText := the (as_data a)\<rparr>))"

definition nginx_test_start :: "nginx_view \<Rightarrow> nginx_view" where
  "nginx_test_start s = v_send (nginx_test (Some (activeText s)) (Some (tab_scope (ng_tab s))))
     (s\<lparr>ng_test := action_start (ng_test s)\<rparr>)"

definition nginx_report :: "string \<Rightarrow> js_error option \<Rightarrow> nginx_view \<Rightarrow> nginx_view" where
  "nginx_report ok failure s = (case failure of
       None \<Rightarrow> v_say ok ToastInfo s | Some err \<Rightarrow> v_fail None err s)"

definition nginx_test_end :: "js_error option \<Rightarrow> nginx_view \<Rightarrow> nginx_view" where
  "nginx_test_end failure s =
     nginx_report ''Configuration syntax OK'' failure
       (s\<lparr>ng_test := snd (action_finish (settled failure) (ng_test s))\<rparr>)"

definition nginx_save :: "nginx_view \<Rightarrow> nginx_view" where
  "nginx_save s = (case ng_tab s of
       TabDefault \<Rightarrow> v_send (nginx_updateDefault (ng_defaultText s)) (s\<lparr>ng_saveDefault := action_start (ng_saveDefault s)\<rparr>)
     | TabGlobal \<Rightarrow> v_send (nginx_updateGlobal (ng_globalText s)) (s\<lparr>ng_saveGlobal := action_start (ng_saveGlobal s)\<rparr>))"

text \<open>\<open>t\<close> is the tab of the handler that saved.\<close>

definition nginx_saved :: "nginx_tab \<Rightarrow> js_error option \<Rightarrow> nginx_view \<Rightarrow> nginx_view" where
  "nginx_saved t failure s = (case t of
       TabDefault \<Rightarrow> nginx_report ''default.conf saved'' failure
         (s\<lparr>ng_saveDefault := snd (action_finish (settled failure) (ng_saveDefault s))\<rparr>)
     | TabGlobal \<Rightarrow> nginx_report ''nginx.conf saved'' failure
         (s\<lparr>ng_saveGlobal := snd (action_finish (settled failure) (ng_saveGlobal s))\<rparr>))"

definition nginx_reload_start :: "nginx_view \<Rightarrow> nginx_view" where
  "nginx_reload_start s = v_send nginx_reload (s\<lparr>ng_reload := action_start (ng_reload s)\<rparr>)"

definition nginx_reload_end :: "js_error option \<Rightarrow> nginx_view \<Rightarrow> nginx_view" where
  "nginx_reload_end failure s =
     nginx_report ''Nginx reloaded'' failure (s\<lparr>ng_reload := snd (action_finish (settled failure) (ng_reload s))\<rparr>)"

datatype nginx_card = NginxLoading string | NginxFailed string string | NginxEditor string nat string

definition nginx_shown :: "nginx_view \<Rightarrow> nginx_card" where
  "nginx_shown s =
     (let wait = (case ng_tab s of TabDefault \<Rightarrow> ''Default server'' | TabGlobal \<Rightarrow> ''Global config'');
          file = (case ng_tab s of TabDefault \<Rightarrow> ''default.conf'' | TabGlobal \<Rightarrow> ''nginx.conf'');
          st = activeState s
      in if as_loading st \<and> as_data st = None then NginxLoading wait
         else case as_error st of
           Some err \<Rightarrow> NginxFailed wait (ErrorState err None)
         | None \<Rightarrow> NginxEditor file (length (activeText s)) (activeText s))"

text \<open>
  The Save button of the nginx view is not guarded by the editor: while the file is still loading,
  and after its loading failed (when the view shows the error in place of the editor), a click sends a
  request that replaces the configuration by the empty text.
\<close>

theorem nginx_save_overwrites:
  "vl_requests (nginx_save nginx_init) = vl_requests nginx_init @ [nginx_updateDefault []]
   \<and> vl_requests (nginx_save (nginx_loaded TabDefault 1 (Inl err) nginx_init))
       = vl_requests nginx_init @ [nginx_updateDefault []]
   \<and> nginx_shown nginx_init = NginxLoading ''Default server''
   \<and> (err_name err \<noteq> ''AbortError'' \<longrightarrow>
        nginx_shown (nginx_loaded TabDefault 1 (Inl err) nginx_init) = NginxFailed ''Default server'' (err_message err))"
  by (auto simp: nginx_save_def nginx_init_def nginx_loaded_def async_effect_def async_init_def async_settle_def
      nginx_shown_def activeState_def v_send_def ErrorState_def Let_def)

theorem nginx_save_overwrites_witness:
  "nginx_shown (nginx_loaded TabDefault 1 (Inl (ApiError 500 [] ''no'')) nginx_init) = NginxFailed ''Default server'' ''no''
   \<and> vl_requests (nginx_save (nginx_loaded TabDefault 1 (Inl (ApiError 500 [] ''no'')) nginx_init))
     = [nginx_getDefault, nginx_getGlobal, nginx_updateDefault []]"
  using nginx_save_overwrites [of "ApiError 500 [] ''no''"] by (simp add: nginx_init_def)

section \<open>Settings\<close>

record settings_view = view_log +
  st_name :: string
  st_email :: string
  st_password :: string
  st_save :: action_state
  st_store :: app_store

definition settings_init :: "app_store \<Rightarrow> settings_view" where
  "settings_init store = \<lparr>vl_requests = [], vl_toasts = [], vl_reloads = 0,
     st_name = nullish (map_option u_name (app_user store)) [],
     st_email = nullish (map_option u_email (app_user store)) [], st_password = [],
     st_save = action_init, st_store = store\<rparr>"

definition settings_submit :: "settings_view \<Rightarrow> settings_view" where
  "settings_submit s =
     v_send (settings_updateProfile (Some (st_name s)) (Some (st_email s))
         (if st_password s = [] then None else Some (st_password s)))
       (s\<lparr>st_save := action_start (st_save s)\<rparr>)"

text \<open>The answer: an object whose user may be missing, or nothing.\<close>

definition settings_saved :: "js_error + user option \<Rightarrow> settings_view \<Rightarrow> settings_view" where
  "settings_saved outcome s =
     (let s = s\<lparr>st_save := snd (action_finish outcome (st_save s))\<rparr> in
      case outcome of
        Inl err \<Rightarrow> v_fail None err s
      | Inr res \<Rightarrow>
          (let s = (case res of Some u \<Rightarrow> s\<lparr>st_store := setUser (Some u) (st_store s)\<rparr> | None \<Rightarrow> s)
           in v_say ''Profile updated'' ToastInfo (s\<lparr>st_password := []\<rparr>)))"

definition health_card :: "string option \<Rightarrow> string \<times> string \<times> string" where
  "health_card st =
     (let status = nullish st ''unknown''; ok = (status = ''ok'')
      in (if ok then ''ok'' else ''warn'', if ok then ''Healthy'' else status,
          if ok then ''API is responding normally.'' else ''Service reported a non-ok status.''))"

lemma settings_password_kept:
  "st_password s = [] \<Longrightarrow> vl_requests (settings_submit s) =
     vl_requests s @ [settings_updateProfile (Some (st_name s)) (Some (st_email s)) None]"
  by (simp add: settings_submit_def v_send_def)

section \<open>Cron\<close>

record cron_modal = view_log +
  cr_job :: cronjob
  cr_name :: string
  cr_payload :: string
  cr_run_every :: string
  cr_save :: action_state
  cr_saved :: nat

definition cron_modal_init :: "cronjob \<Rightarrow> cron_modal" where
  "cron_modal_init job = \<lparr>vl_requests = [], vl_toasts = [], vl_reloads = 0, cr_job = job,
     cr_name = cj_name job, cr_payload = cj_payload job, cr_run_every = cj_run_every job,
     cr_save = action_init, cr_saved = 0\<rparr>"

definition cron_body :: "cron_modal \<Rightarrow> json" where
  "cron_body s = JObj [(''name'', JStr (cr_name s)), (''payload'', JStr (cr_payload s)),
     (''run_every'', JStr (cr_run_every s))]"

definition cron_submit :: "cron_modal \<Rightarrow> cron_modal" where
  "cron_submit s =
     v_send (if cj_id (cr_job s) \<noteq> 0 then cron_update (cj_id (cr_job s)) (cron_body s) else cron_create (cron_body s))
       (s\<lparr>cr_save := action_start (cr_save s)\<rparr>)"

text \<open>\<open>nm\<close> is the name of the form that was submitted.\<close>

definition cron_saved :: "ui_meta option \<Rightarrow> string \<Rightarrow> js_error option \<Rightarrow> cron_modal \<Rightarrow> cron_modal" where
  "cron_saved meta nm failure s =
     (let s = s\<lparr>cr_save := snd (action_finish (settled failure) (cr_save s))\<rparr> in
      case failure of
        None \<Rightarrow> (let s = v_say (nm @ '' saved'') ToastInfo s in s\<lparr>cr_saved := cr_saved s + 1\<rparr>)
      | Some err \<Rightarrow> v_fail meta err s)"

definition cron_options :: "ui_meta option \<Rightarrow> string \<Rightarrow> (string \<times> string) list" where
  "cron_options meta run_every =
     (case map_option uk_run_every_options (Option.bind meta um_cron) of
        Some os \<Rightarrow> map (\<lambda>it. (uo_value it, uo_label it)) os
      | None \<Rightarrow> [(run_every, run_every)])"

record cron_stream =
  cs_id :: int
  cs_name :: string
  cs_url :: string

record cron_view = view_log +
  cv_stream :: "cron_stream option"

definition cron_run_start :: "cronjob \<Rightarrow> cron_view \<Rightarrow> cron_view" where
  "cron_run_start job s = v_send (cron_run (cj_id job)) s"

definition cron_run_end :: "ui_meta option \<Rightarrow> cronjob \<Rightarrow> js_error + job_accepted_response option \<Rightarrow> cron_view \<Rightarrow> cron_view" where
  "cron_run_end meta job outcome s = (case outcome of
       Inl err \<Rightarrow> v_fail meta err s
     | Inr res \<Rightarrow>
         (let s = (if truthy_num (map_option ja_job_id res)
                   then s\<lparr>cv_stream := Some \<lparr>cs_id = cj_id job, cs_name = cj_name job,
                          cs_url = cron_runStreamUrl (cj_id job) (ja_job_id (the res))\<rparr>\<rparr> else s)
          in v_say (cj_name job @ '' queued'') ToastInfo s))"

definition cron_remove_start :: "cronjob \<Rightarrow> bool \<Rightarrow> 'v view_log_scheme \<Rightarrow> 'v view_log_scheme" where
  "cron_remove_start job sure s = (if sure then v_send (cron_remove (cj_id job)) s else s)"

definition cron_remove_end :: "ui_meta option \<Rightarrow> cronjob \<Rightarrow> js_error option \<Rightarrow> 'v view_log_scheme \<Rightarrow> 'v view_log_scheme" where
  "cron_remove_end meta job failure s = settle_row meta (cj_name job @ '' deleted'') failure s"

definition new_cronjob :: "ui_meta option \<Rightarrow> cronjob" where
  "new_cronjob meta = \<lparr>cj_id = 0, cj_name = [], cj_payload = [],
     cj_run_every = (case map_option uk_run_every_options (Option.bind meta um_cron) of
         Some (t # ts) \<Rightarrow> uo_value t | _ \<Rightarrow> ''hour''),
     cj_executed_at = None\<rparr>"

text \<open>The cells of a row, and whether it has a Run button.\<close>

definition cron_row :: "ui_meta option \<Rightarrow> cronjob \<Rightarrow> string \<times> string \<times> string \<times> bool" where
  "cron_row meta job =
     (cj_name job, optionLabel (map_option uk_run_every_options (Option.bind meta um_cron)) (cj_run_every job),
      cj_payload job, truthy_bool (map_option (\<lambda>c. uc_enabled (uk_manual_run c)) (Option.bind meta um_cron)))"

interpretation cron_removal: row_action "cron_remove_start job True" "cron_remove_end meta job"
  "cron_remove (cj_id job)" "cj_name job @ '' deleted''" for meta job
  by (rule settle_row_action) (simp_all add: cron_remove_start_def cron_remove_end_def)

section \<open>Docker\<close>

datatype badge_kind = BadgeOk | BadgeWarn | BadgeOff | BadgeDanger

definition statusTone :: "string \<Rightarrow> badge_kind" where
  "statusTone status =
     (let s = to_lower status in
      if has_sub s ''up'' \<and> \<not> has_sub s ''unhealthy'' \<and> \<not> has_sub s ''restarting'' then BadgeOk
      else if has_sub s ''unhealthy'' \<or> has_sub s ''dead'' \<or> has_sub s ''exited'' then BadgeDanger
      else if has_sub s ''restarting'' \<or> has_sub s ''paused'' \<or> has_sub s ''starting'' then BadgeWarn
      else BadgeOff)"

definition docker_restart_start :: "docker_container \<Rightarrow> 'v view_log_scheme \<Rightarrow> 'v view_log_scheme" where
  "docker_restart_start row s = v_send (docker_restart (dc_id row)) s"

definition docker_restart_end :: "ui_meta option \<Rightarrow> docker_container \<Rightarrow> js_error option \<Rightarrow> 'v view_log_scheme \<Rightarrow> 'v view_log_scheme" where
  "docker_restart_end meta row failure s = settle_row meta (dc_name row @ '' restarted'') failure s"

definition docker_stop_start :: "docker_container \<Rightarrow> 'v view_log_scheme \<Rightarrow> 'v view_log_scheme" where
  "docker_stop_start row s = v_send (docker_stop (dc_id row)) s"

definition docker_stop_end :: "ui_meta option \<Rightarrow> docker_container \<Rightarrow> js_error option \<Rightarrow> 'v view_log_scheme \<Rightarrow> 'v view_log_scheme" where
  "docker_stop_end meta row failure s = settle_row meta (dc_name row @ '' stopped'') failure s"

text \<open>The buttons of a row: logs, restart, stop.\<close>

definition docker_buttons :: "ui_meta option \<Rightarrow> bool \<times> bool \<times> bool" where
  "docker_buttons meta =
     (let d = Option.bind meta um_docker; on = (\<lambda>f. truthy_bool (map_option (uc_enabled \<circ> f) d))
      in (on ud_logs, on ud_restart, on ud_stop))"

text \<open>The loader of the logs: no request without a container.\<close>

definition docker_log_request :: "string option \<Rightarrow> endpoint option" where
  "docker_log_request logId = (if truthy_str logId then Some (docker_logs (the logId)) else None)"

definition docker_log_modal :: "string option \<Rightarrow> (string option, string list) async \<Rightarrow> (string \<times> string shown) option" where
  "docker_log_modal logId st =
     (if truthy_str logId
      then Some (''Container logs '' @ middle_dot @ '' '' @ slice 0 12 (the logId),
             case AsyncView None None st of ShownData ls \<Rightarrow> ShownData (join [CHR 0x0A] ls)
             | ShownError e \<Rightarrow> ShownError e | ShownLoading l \<Rightarrow> ShownLoading l | ShownEmpty \<Rightarrow> ShownEmpty)
      else None)"

interpretation docker_restarting: row_action "docker_restart_start row" "docker_restart_end meta row"
  "docker_restart (dc_id row)" "dc_name row @ '' restarted''" for meta row
  by (rule settle_row_action) (simp_all add: docker_restart_start_def docker_restart_end_def)

interpretation docker_stopping: row_action "docker_stop_start row" "docker_stop_end meta row"
  "docker_stop (dc_id row)" "dc_name row @ '' stopped''" for meta row
  by (rule settle_row_action) (simp_all add: docker_stop_start_def docker_stop_end_def)

text \<open>
  A paused container, and one whose health check is still starting, are shown in green: the states
  the third test means to mark as a warning contain \<open>Up\<close>, which the first test takes.
\<close>

theorem paused_shown_ok:
  assumes "st = ''Up 2 hours (Paused)'' \<or> st = ''Up 3 seconds (health: starting)''"
  shows "statusTone st = BadgeOk \<and> (has_sub (to_lower st) ''paused'' \<or> has_sub (to_lower st) ''starting'')"
  using assms
  by (elim disjE) (simp_all add: statusTone_def to_lower_def lower_char_def is_upper_def Let_def char_of_eval)

theorem paused_shown_ok_witness: "statusTone ''Up 2 hours (Paused)'' = BadgeOk"
  using paused_shown_ok [of "''Up 2 hours (Paused)''"] by simp

section \<open>Database\<close>

text \<open>\<open>String(v ?? '')\<close>; the text of numbers, arrays and objects is the platform's.\<close>

definition cell_text :: "(json \<Rightarrow> string) \<Rightarrow> json option \<Rightarrow> string" where
  "cell_text show_value v = (case v of
       None \<Rightarrow> [] | Some JNull \<Rightarrow> [] | Some (JStr s) \<Rightarrow> s
     | Some (JBool b) \<Rightarrow> (if b then ''true'' else ''false'') | Some j \<Rightarrow> show_value j)"

definition row_cell :: "(json \<Rightarrow> string) \<Rightarrow> db_row \<Rightarrow> nat \<Rightarrow> string \<Rightarrow> string" where
  "row_cell show_value row colIndex col = cell_text show_value (case row of
       RowArray vs \<Rightarrow> (if colIndex < length vs then Some (vs ! colIndex) else None)
     | RowObject m \<Rightarrow> map_of m col)"

definition column_head :: "nat \<Rightarrow> string \<Rightarrow> string \<times> string" where
  "column_head i col = (let n = dec_nat i in (replicate (2 - length n) CHR ''0'' @ n, col))"

definition DataTable :: "(json \<Rightarrow> string) \<Rightarrow> database_table_data \<Rightarrow> (string \<times> string) list \<times> string list list" where
  "DataTable show_value dat =
     (let columns = dbd_columns dat in
      (map (\<lambda>(i, c). column_head i c) (enumerate 0 columns),
       map (\<lambda>row. map (\<lambda>(i, c). row_cell show_value row i c) (enumerate 0 columns)) (dbd_rows dat)))"

text \<open>The endpoint's defaults are 50 rows from the first.\<close>

definition table_request :: "string option \<Rightarrow> endpoint option" where
  "table_request table = (if truthy_str table then Some (database_table (the table) 50 0) else None)"

definition table_click :: "string \<Rightarrow> string" where
  "table_click nm = navigate ''/database'' (Some [(''table'', QStr nm)])"

datatype rows_card = SelectTable | TableRows "((string \<times> string) list \<times> string list list) shown"

definition DatabaseView :: "(json \<Rightarrow> string) \<Rightarrow> string option \<Rightarrow> (string option, database_table_data option) async \<Rightarrow> string \<times> rows_card" where
  "DatabaseView show_value table st =
     (nullish table ''Rows'',
      if \<not> truthy_str table then SelectTable
      else TableRows (case AsyncView (Some (\<lambda>res. res = None \<or> dbd_rows (the res) = [])) (Some (''Loading '' @ the table)) st of
          ShownData (Some d) \<Rightarrow> ShownData (DataTable show_value d)
        | ShownData None \<Rightarrow> ShownEmpty | ShownEmpty \<Rightarrow> ShownEmpty
        | ShownError e \<Rightarrow> ShownError e | ShownLoading l \<Rightarrow> ShownLoading l))"

text \<open>
  The table on the page is the table that was clicked: following the link of a table, whatever
  characters its name has, opens the database view on exactly that name; and the table it then shows has
  one head and, in every row, one cell per column.
\<close>

theorem table_link_opens_table:
  assumes "nm \<noteq> []"
  shows "(let r = parseHash (table_click nm) in RouteView (rt_path r) (rt_params r)) = ViewDatabase (Some nm)
    \<and> length (fst (DataTable show_value dat)) = length (dbd_columns dat)
    \<and> map length (snd (DataTable show_value dat)) = replicate (length (dbd_rows dat)) (length (dbd_columns dat))"
proof -
  have "fragment_plain ''/database''" by (simp add: fragment_plain_def fragment_char_def)
  then have "parseHash (table_click nm) = \<lparr>rt_path = ''/database'', rt_params = [(''table'', nm)]\<rparr>"
    using assms navigate_roundtrip [of "''/database''" "[(''table'', QStr nm)]"]
    by (simp add: table_click_def params_append_def)
  moreover have "RouteView ''/database'' [(''table'', nm)] = ViewDatabase (Some nm)" by (simp add: RouteView_def)
  ultimately show ?thesis
    by (simp add: DataTable_def Let_def length_enumerate map_replicate_const comp_def)
qed

theorem table_link_opens_table_witness:
  "(let r = parseHash (table_click ''a&b c'') in RouteView (rt_path r) (rt_params r)) = ViewDatabase (Some ''a&b c'')"
  using table_link_opens_table [of "''a&b c''"] by simp

end
