(* ===== verification/Mounts_View.thy ===== *)
theory Mounts_View
  imports View_Kit Layout
begin

text \<open>
  The mounts view, \<open>web/src/views/Mounts.tsx\<close>: the form of a mount entry, which for an S3 bucket
  has its own fields, the entry it sends, and the actions on a row.
\<close>

section \<open>Kinds of file systems\<close>

definition isS3Type :: "string \<Rightarrow> bool" where
  "isS3Type ty = (let v = to_lower ty in v = ''fuse.s3fs'' \<or> v = ''s3'' \<or> v = ''s3fs'')"

definition emptyS3 :: mount_s3_config where
  "emptyS3 = \<lparr>s3_bucket = Some [], s3_endpoint = Some [], s3_region = Some [], s3_access_key = Some [],
     s3_secret_key = Some [], s3_path_style = Some False\<rparr>"

definition deviceLabel :: "mount \<Rightarrow> string" where
  "deviceLabel row =
     (if isS3Type (m_type row) then ''s3://'' @ nullish (Option.bind (m_s3 row) s3_bucket) (m_device row)
      else m_device row)"

section \<open>The form\<close>

record mount_modal = view_log +
  mm_form :: mount
  mm_original :: "mount option"
  mm_save :: action_state
  mm_saved :: nat

definition mount_modal_init :: "mount \<Rightarrow> mount option \<Rightarrow> mount_modal" where
  "mount_modal_init entry original = \<lparr>vl_requests = [], vl_toasts = [], vl_reloads = 0, mm_form = entry,
     mm_original = original, mm_save = action_init, mm_saved = 0\<rparr>"

text \<open>A change of one of the S3 fields, on the fields there are or on empty ones.\<close>

definition setS3 :: "(mount_s3_config \<Rightarrow> mount_s3_config) \<Rightarrow> mount \<Rightarrow> mount" where
  "setS3 patch f = f\<lparr>m_s3 := Some (patch (nullish (m_s3 f) emptyS3))\<rparr>"

definition mount_type_change :: "string \<Rightarrow> mount \<Rightarrow> mount" where
  "mount_type_change ty f =
     (if isS3Type ty
      then f\<lparr>m_type := ty, m_device := nullish (Option.bind (m_s3 f) s3_bucket) (m_device f),
             m_options := ''_netdev,allow_other'', m_dump := ''0'', m_fsck := ''0'',
             m_s3 := Some (nullish (m_s3 f) emptyS3)\<rparr>
      else f\<lparr>m_type := ty, m_s3 := None\<rparr>)"

definition mount_payload :: "mount \<Rightarrow> mount" where
  "mount_payload f =
     (if isS3Type (m_type f)
      then (let s3 = nullish (m_s3 f) emptyS3
            in f\<lparr>m_s3 := Some s3, m_device := nullish (s3_bucket s3) [], m_dump := ''0'', m_fsck := ''0''\<rparr>)
      else f\<lparr>m_s3 := None\<rparr>)"

definition s3_json :: "mount_s3_config \<Rightarrow> json" where
  "s3_json c = JObj (jfield ''bucket'' (jstr_opt (s3_bucket c)) @ jfield ''endpoint'' (jstr_opt (s3_endpoint c))
     @ jfield ''region'' (jstr_opt (s3_region c)) @ jfield ''access_key'' (jstr_opt (s3_access_key c))
     @ jfield ''secret_key'' (jstr_opt (s3_secret_key c))
     @ jfield ''path_style'' (map_option JBool (s3_path_style c)))"

definition mount_json :: "mount \<Rightarrow> json" where
  "mount_json e = JObj ([(''device'', JStr (m_device e)), (''dir'', JStr (m_dir e)), (''type'', JStr (m_type e)),
     (''options'', JStr (m_options e)), (''dump'', JStr (m_dump e)), (''fsck'', JStr (m_fsck e)),
     (''mounted'', JBool (m_mounted e))] @ jfield ''s3'' (map_option s3_json (m_s3 e)))"

definition mount_save :: "mount option \<Rightarrow> mount \<Rightarrow> endpoint" where
  "mount_save original entry = (case original of
       Some m \<Rightarrow> mounts_update (m_device m) (m_dir m) (mount_json entry)
     | None \<Rightarrow> mounts_create (mount_json entry))"

definition mount_submit :: "mount_modal \<Rightarrow> mount_modal" where
  "mount_submit s = v_send (mount_save (mm_original s) (mount_payload (mm_form s)))
     (s\<lparr>mm_save := action_start (mm_save s)\<rparr>)"

text \<open>\<open>dir\<close> is the directory of the form that was submitted.\<close>

definition mount_saved :: "ui_meta option \<Rightarrow> string \<Rightarrow> js_error option \<Rightarrow> mount_modal \<Rightarrow> mount_modal" where
  "mount_saved meta dir failure s =
     (let outcome = (case failure of None \<Rightarrow> Inr () | Some e \<Rightarrow> Inl e);
          s = s\<lparr>mm_save := snd (action_finish outcome (mm_save s))\<rparr>
      in case failure of
           None \<Rightarrow> (let s = v_say (dir @ '' saved'') ToastInfo s in s\<lparr>mm_saved := mm_saved s + 1\<rparr>)
         | Some err \<Rightarrow> v_fail meta err s)"

text \<open>The fields of the form that must be filled: of a bucket its keys too, when the mount is new.\<close>

definition mount_form_complete :: "mount_modal \<Rightarrow> bool" where
  "mount_form_complete s =
     (let f = mm_form s; s3 = m_s3 f; shown = (\<lambda>g. nullish (Option.bind s3 g) []) in
      if isS3Type (m_type f)
      then shown s3_bucket \<noteq> [] \<and> m_dir f \<noteq> []
        \<and> (mm_original s = None \<longrightarrow> shown s3_access_key \<noteq> [] \<and> shown s3_secret_key \<noteq> [])
      else m_device f \<noteq> [] \<and> m_dir f \<noteq> [] \<and> m_options f \<noteq> [])"

definition mount_title :: "mount option \<Rightarrow> string" where
  "mount_title original = (case original of Some m \<Rightarrow> ''Edit '' @ m_dir m | None \<Rightarrow> ''New mount'')"

definition mount_type_hint :: "ui_meta option \<Rightarrow> string \<Rightarrow> string option" where
  "mount_type_hint meta ty =
     Option.bind (List.find (\<lambda>it. uo_value it = ty) (nullish (map_option umt_fs_types (Option.bind meta um_mounts)) [])) uo_hint"

section \<open>The list\<close>

definition newMount :: "ui_meta option \<Rightarrow> mount" where
  "newMount meta =
     (let mm = Option.bind meta um_mounts in
      \<lparr>m_device = [], m_dir = [],
       m_type = (case map_option umt_fs_types mm of Some (t # ts) \<Rightarrow> uo_value t | _ \<Rightarrow> ''nfs''),
       m_options = nullish (map_option umt_default_options mm) ''defaults'',
       m_dump = nullish (map_option umt_dump_default mm) ''0'',
       m_fsck = nullish (map_option umt_fsck_default mm) ''0'', m_mounted = False, m_s3 = None\<rparr>)"

definition openEdit :: "mount \<Rightarrow> mount" where
  "openEdit row =
     (if isS3Type (m_type row)
      then row\<lparr>m_s3 := Some \<lparr>s3_bucket = Some (nullish (Option.bind (m_s3 row) s3_bucket) (m_device row)),
             s3_endpoint = Some (nullish (Option.bind (m_s3 row) s3_endpoint) []),
             s3_region = Some (nullish (Option.bind (m_s3 row) s3_region) []),
             s3_access_key = Some [], s3_secret_key = Some [],
             s3_path_style = Some (nullish (Option.bind (m_s3 row) s3_path_style) False)\<rparr>\<rparr>
      else row)"

text \<open>The row the dialog edits, looked up in the loaded list on every rendering.\<close>

definition original_of :: "mount list option \<Rightarrow> mount \<Rightarrow> mount option" where
  "original_of rows editing =
     Option.bind rows (\<lambda>rs. List.find (\<lambda>row. m_device row = m_device editing \<and> m_dir row = m_dir editing) rs)"

definition mount_enable_start :: "mount \<Rightarrow> 'v view_log_scheme \<Rightarrow> 'v view_log_scheme" where
  "mount_enable_start row s = v_send (mounts_enable (m_device row) (m_dir row)) s"

definition mount_enable_end :: "ui_meta option \<Rightarrow> mount \<Rightarrow> js_error option \<Rightarrow> 'v view_log_scheme \<Rightarrow> 'v view_log_scheme" where
  "mount_enable_end meta row failure s = settle_row meta (m_dir row @ '' enabled'') failure s"

definition mount_remove_start :: "mount \<Rightarrow> bool \<Rightarrow> 'v view_log_scheme \<Rightarrow> 'v view_log_scheme" where
  "mount_remove_start row sure s = (if sure then v_send (mounts_remove (m_device row) (m_dir row)) s else s)"

definition mount_remove_end :: "ui_meta option \<Rightarrow> mount \<Rightarrow> js_error option \<Rightarrow> 'v view_log_scheme \<Rightarrow> 'v view_log_scheme" where
  "mount_remove_end meta row failure s = settle_row meta (m_dir row @ '' deleted'') failure s"

definition mount_row :: "mount \<Rightarrow> string \<times> string \<times> string \<times> string \<times> string" where
  "mount_row row = (deviceLabel row, m_dir row, if isS3Type (m_type row) then ''s3'' else m_type row,
     m_options row, if m_mounted row then ''mounted'' else ''off'')"

interpretation mount_enabling: row_action "mount_enable_start row" "mount_enable_end meta row"
  "mounts_enable (m_device row) (m_dir row)" "m_dir row @ '' enabled''" for meta row
  by (rule settle_row_action) (simp_all add: mount_enable_start_def mount_enable_end_def)

interpretation mount_removal: row_action "mount_remove_start row True" "mount_remove_end meta row"
  "mounts_remove (m_device row) (m_dir row)" "m_dir row @ '' deleted''" for meta row
  by (rule settle_row_action) (simp_all add: mount_remove_start_def mount_remove_end_def)

section \<open>The dialog as a machine\<close>

datatype mount_field = MDir string | MDevice string | MOptions string | MDump string | MFsck string
  | MBucket string | MEndpoint string | MRegion string | MAccess string | MSecret string | MPathStyle bool

fun mount_input :: "mount_field \<Rightarrow> mount \<Rightarrow> mount" where
  "mount_input (MDir v) f = f\<lparr>m_dir := v\<rparr>"
| "mount_input (MDevice v) f = f\<lparr>m_device := v\<rparr>"
| "mount_input (MOptions v) f = f\<lparr>m_options := v\<rparr>"
| "mount_input (MDump v) f = f\<lparr>m_dump := v\<rparr>"
| "mount_input (MFsck v) f = f\<lparr>m_fsck := v\<rparr>"
| "mount_input (MBucket v) f = setS3 (\<lambda>c. c\<lparr>s3_bucket := Some v\<rparr>) f"
| "mount_input (MEndpoint v) f = setS3 (\<lambda>c. c\<lparr>s3_endpoint := Some v\<rparr>) f"
| "mount_input (MRegion v) f = setS3 (\<lambda>c. c\<lparr>s3_region := Some v\<rparr>) f"
| "mount_input (MAccess v) f = setS3 (\<lambda>c. c\<lparr>s3_access_key := Some v\<rparr>) f"
| "mount_input (MSecret v) f = setS3 (\<lambda>c. c\<lparr>s3_secret_key := Some v\<rparr>) f"
| "mount_input (MPathStyle b) f = setS3 (\<lambda>c. c\<lparr>s3_path_style := Some b\<rparr>) f"

fun s3_field :: "mount_field \<Rightarrow> bool" where
  "s3_field (MBucket v) = True" | "s3_field (MEndpoint v) = True" | "s3_field (MRegion v) = True"
| "s3_field (MAccess v) = True" | "s3_field (MSecret v) = True" | "s3_field (MPathStyle b) = True"
| "s3_field (MDir v) = True"
| "s3_field _ = False"

fun plain_field :: "mount_field \<Rightarrow> bool" where
  "plain_field (MDir v) = True" | "plain_field (MDevice v) = True" | "plain_field (MOptions v) = True"
| "plain_field (MDump v) = True" | "plain_field (MFsck v) = True"
| "plain_field _ = False"

datatype mount_event = MmInput mount_field | MmType string | MmOriginal "mount option" | MmSubmit
  | MmSaved string "js_error option"

fun mount_can :: "mount_event \<Rightarrow> mount_modal \<Rightarrow> bool" where
  "mount_can (MmInput x) s = (if isS3Type (m_type (mm_form s)) then s3_field x else plain_field x)"
| "mount_can MmSubmit s = (mount_form_complete s \<and> \<not> ac_loading (mm_save s))"
| "mount_can _ s = True"

fun mount_step :: "ui_meta option \<Rightarrow> mount_event \<Rightarrow> mount_modal \<Rightarrow> mount_modal" where
  "mount_step meta (MmInput x) s = s\<lparr>mm_form := mount_input x (mm_form s)\<rparr>"
| "mount_step meta (MmType ty) s = s\<lparr>mm_form := mount_type_change ty (mm_form s)\<rparr>"
| "mount_step meta (MmOriginal m) s = s\<lparr>mm_original := m\<rparr>"
| "mount_step meta MmSubmit s = mount_submit s"
| "mount_step meta (MmSaved dir f) s = mount_saved meta dir f s"

section \<open>What is sent\<close>

text \<open>An entry the backend can take: S3 fields exactly for S3 types, the bucket as the device, and
  what the form requires.\<close>

definition entry_ok :: "bool \<Rightarrow> mount \<Rightarrow> bool" where
  "entry_ok new e \<longleftrightarrow>
     (m_s3 e \<noteq> None \<longleftrightarrow> isS3Type (m_type e)) \<and> m_device e \<noteq> [] \<and> m_dir e \<noteq> []
     \<and> (isS3Type (m_type e) \<longrightarrow>
          Option.bind (m_s3 e) s3_bucket = Some (m_device e) \<and> m_dump e = ''0'' \<and> m_fsck e = ''0''
          \<and> (new \<longrightarrow> truthy_str (Option.bind (m_s3 e) s3_access_key)
               \<and> truthy_str (Option.bind (m_s3 e) s3_secret_key)))
     \<and> (\<not> isS3Type (m_type e) \<longrightarrow> m_options e \<noteq> [])"

lemma nullish_filled: "nullish b [] \<noteq> [] \<Longrightarrow> b = Some (nullish b [])"
  by (cases b) auto

lemma payload_ok:
  assumes "mount_form_complete s"
  shows "entry_ok (mm_original s = None) (mount_payload (mm_form s))"
proof (cases "isS3Type (m_type (mm_form s))")
  case True
  with assms show ?thesis
    by (cases "m_s3 (mm_form s)")
      (auto simp: mount_form_complete_def entry_ok_def mount_payload_def Let_def truthy_str_def
        intro: nullish_filled split: option.splits)
next
  case False
  with assms show ?thesis
    by (simp add: mount_form_complete_def entry_ok_def mount_payload_def Let_def)
qed

definition sent_ok :: "mount_modal \<Rightarrow> bool" where
  "sent_ok s \<longleftrightarrow> (\<forall>rq \<in> set (vl_requests s). \<exists>original e. rq = mount_save original e \<and> entry_ok (original = None) e)"

interpretation mount_dialog: machine_invariant mount_can "mount_step meta" sent_ok for meta
proof
  fix s e assume "sent_ok s" "mount_can e s"
  then show "sent_ok (mount_step meta e s)"
  proof (cases e)
    case MmSubmit
    with \<open>mount_can e s\<close> have "entry_ok (mm_original s = None) (mount_payload (mm_form s))"
      using payload_ok by simp
    with MmSubmit \<open>sent_ok s\<close> show ?thesis by (auto simp: sent_ok_def mount_submit_def v_send_def)
  qed (auto simp: sent_ok_def mount_saved_def v_say_def v_fail_def Let_def split: option.splits)
qed

text \<open>
  C16.  Every mount entry the dialog ever sends is well formed: it has S3 fields exactly when its type is
  an S3 type, then its device is the bucket and its two flags are 0; device and directory are not
  empty; and a new bucket comes with both keys.  This holds for every order of typing and of changes of
  the type.
\<close>

theorem mount_entries_wellformed:
  assumes "machine_run mount_can (mount_step meta) (mount_modal_init entry original) es s"
    and "rq \<in> set (vl_requests s)"
  shows "\<exists>orig e. rq = mount_save orig e \<and> entry_ok (orig = None) e"
proof -
  have "sent_ok s"
    by (rule mount_dialog.inv_run [OF assms(1)]) (simp add: sent_ok_def mount_modal_init_def)
  with assms(2) show ?thesis by (simp add: sent_ok_def)
qed

definition demo_mount :: "mount_event list" where
  "demo_mount = [MmType ''s3'', MmInput (MBucket ''b''), MmInput (MDir ''/m''), MmInput (MAccess ''k''),
     MmInput (MSecret ''s''), MmSubmit]"

theorem mount_entries_wellformed_witness:
  "\<exists>s orig e. machine_exec mount_can (mount_step None) demo_mount (mount_modal_init (newMount None) None) = Some s
     \<and> vl_requests s = [mount_save orig e] \<and> entry_ok (orig = None) e"
proof -
  obtain s rq where s: "machine_exec mount_can (mount_step None) demo_mount (mount_modal_init (newMount None) None) = Some s"
    "vl_requests s = [rq]"
    by (simp add: demo_mount_def mount_modal_init_def newMount_def mount_type_change_def isS3Type_def setS3_def
        emptyS3_def mount_form_complete_def mount_submit_def v_send_def action_init_def to_lower_def
        lower_char_def is_upper_def Let_def)
  then have "machine_run mount_can (mount_step None) (mount_modal_init (newMount None) None) demo_mount s"
    by (simp add: machine_run_exec)
  moreover have "rq \<in> set (vl_requests s)" using s(2) by simp
  ultimately obtain orig e where "rq = mount_save orig e" "entry_ok (orig = None) e"
    using mount_entries_wellformed by blast
  with s show ?thesis by blast
qed

fun types_key :: "mount_event \<Rightarrow> bool" where
  "types_key (MmInput (MAccess v)) = True"
| "types_key (MmInput (MSecret v)) = True"
| "types_key _ = False"

definition keys_blank :: "mount \<Rightarrow> bool" where
  "keys_blank f \<longleftrightarrow> (\<forall>c. m_s3 f = Some c \<longrightarrow> s3_access_key c = Some [] \<and> s3_secret_key c = Some [])"

lemma keys_blank_setS3:
  assumes "keys_blank f" "\<And>c. s3_access_key (p c) = s3_access_key c \<and> s3_secret_key (p c) = s3_secret_key c"
  shows "keys_blank (setS3 p f)"
  using assms by (cases "m_s3 f") (simp_all add: keys_blank_def setS3_def emptyS3_def)

lemma keys_blank_frame [simp]:
  "keys_blank (f\<lparr>m_dir := v\<rparr>) = keys_blank f" "keys_blank (f\<lparr>m_device := v\<rparr>) = keys_blank f"
  "keys_blank (f\<lparr>m_options := v\<rparr>) = keys_blank f" "keys_blank (f\<lparr>m_dump := v\<rparr>) = keys_blank f"
  "keys_blank (f\<lparr>m_fsck := v\<rparr>) = keys_blank f"
  by (simp_all add: keys_blank_def)

lemma keys_blank_input: "keys_blank f \<Longrightarrow> \<not> types_key (MmInput x) \<Longrightarrow> keys_blank (mount_input x f)"
  by (cases x) (auto intro: keys_blank_setS3)

lemma keys_blank_type: "keys_blank f \<Longrightarrow> keys_blank (mount_type_change ty f)"
  by (cases "m_s3 f") (simp_all add: keys_blank_def mount_type_change_def emptyS3_def)

interpretation blank_keys: machine_invariant "\<lambda>e s. mount_can e s \<and> \<not> types_key e" "mount_step meta"
  "\<lambda>s. keys_blank (mm_form s)" for meta
proof
  fix s e assume "keys_blank (mm_form s)" "mount_can e s \<and> \<not> types_key e"
  then show "keys_blank (mm_form (mount_step meta e s))"
    by (cases e)
      (simp_all add: keys_blank_input keys_blank_type mount_submit_def mount_saved_def v_send_def v_say_def
        v_fail_def Let_def split: option.splits)
qed

text \<open>
  The stored keys of a bucket never leave the panel again: the form of an existing bucket opens with
  both keys blank, whatever the row holds, and as long as neither is typed the entry it would send
  carries them blank.
\<close>

theorem mount_keys_not_echoed:
  assumes "isS3Type (m_type row)"
    and "machine_run mount_can (mount_step meta) (mount_modal_init (openEdit row) original) es s"
    and "\<forall>e \<in> set es. \<not> types_key e" and "m_s3 (mount_payload (mm_form s)) = Some c"
  shows "s3_access_key c = Some [] \<and> s3_secret_key c = Some []"
proof -
  have "machine_run (\<lambda>e s. mount_can e s \<and> \<not> types_key e) (mount_step meta)
      (mount_modal_init (openEdit row) original) es s"
    using assms(2,3) by (intro machine_run_restrict) auto
  then have "keys_blank (mm_form s)"
    by (rule blank_keys.inv_run) (use assms(1) in \<open>simp add: mount_modal_init_def openEdit_def keys_blank_def\<close>)
  with assms(4) show ?thesis
    by (auto simp: keys_blank_def mount_payload_def emptyS3_def nullish_def Let_def split: if_splits option.splits)
qed

definition demo_bucket :: mount where
  "demo_bucket = (newMount None)\<lparr>m_type := ''s3'', m_device := ''b'', m_dir := ''/m'',
     m_s3 := Some (emptyS3\<lparr>s3_secret_key := Some ''hidden''\<rparr>)\<rparr>"

theorem mount_keys_not_echoed_witness:
  "\<exists>c. m_s3 (mount_payload (mm_form (mount_modal_init (openEdit demo_bucket) None))) = Some c
     \<and> s3_secret_key c = Some []"
proof -
  have s3: "isS3Type (m_type demo_bucket)" by (simp add: demo_bucket_def isS3Type_def to_lower_def lower_char_def is_upper_def)
  have "machine_run mount_can (mount_step None) (mount_modal_init (openEdit demo_bucket) None) []
      (mount_modal_init (openEdit demo_bucket) None)" by simp
  note h = mount_keys_not_echoed [OF s3 this]
  obtain c where "m_s3 (mount_payload (mm_form (mount_modal_init (openEdit demo_bucket) None))) = Some c"
    using s3 by (simp add: mount_payload_def mount_modal_init_def openEdit_def Let_def)
  with h [of c] show ?thesis by simp
qed

text \<open>
  Trying out an S3 type damages the form of another mount: after a change of the type to S3 and
  back, the options of the entry are those of S3, which no other mount understands, and its dump and check
  flags are 0.
\<close>

theorem type_change_leaks_options:
  assumes "isS3Type ty" and "\<not> isS3Type (m_type f)"
  shows "(let f' = mount_type_change (m_type f) (mount_type_change ty f)
          in m_options f' = ''_netdev,allow_other'' \<and> m_dump f' = ''0'' \<and> m_fsck f' = ''0'' \<and> m_s3 f' = None)"
  using assms by (simp add: mount_type_change_def Let_def)

theorem type_change_leaks_options_witness:
  "m_options (mount_type_change ''nfs'' (mount_type_change ''s3'' (newMount None))) = ''_netdev,allow_other''"
proof -
  have "isS3Type ''s3''" "\<not> isS3Type (m_type (newMount None))" "m_type (newMount None) = ''nfs''"
    by (simp_all add: isS3Type_def newMount_def to_lower_def lower_char_def is_upper_def Let_def)
  from type_change_leaks_options [OF this(1,2)] this(3) show ?thesis by (simp add: Let_def)
qed

end
