(* ===== verification/Charts.thy ===== *)
theory Charts
  imports Format Layout View_Kit "HOL-Library.While_Combinator"
begin

text \<open>
  The charts: \<open>web/src/components/Sparkline.tsx\<close>, the traffic view \<open>web/src/views/Metrics.tsx\<close>
  and the dashboard \<open>web/src/views/Dashboard.tsx\<close>.  Coordinates and percentages are rationals; a
  drawing is the list of its points.  The text of a number in the locale is a parameter.
\<close>

section \<open>Sparklines\<close>

definition AXIS_LEFT :: rat where "AXIS_LEFT = 44"
definition AXIS_BOTTOM :: rat where "AXIS_BOTTOM = 22"
definition PLOT_RIGHT :: rat where "PLOT_RIGHT = 6"
definition PLOT_TOP :: rat where "PLOT_TOP = 4"
definition PLOT_WIDTH :: rat where "PLOT_WIDTH = 272"

fun numericPoints :: "(string \<times> rat option) list \<Rightarrow> (string \<times> rat) list" where
  "numericPoints [] = []"
| "numericPoints ((ts, v) # ps) = (case v of Some x \<Rightarrow> (ts, x) # numericPoints ps | None \<Rightarrow> numericPoints ps)"

record plot =
  pl_min :: rat
  pl_max :: rat
  pl_mid :: rat
  pl_span :: rat

definition plotMetrics :: "rat list \<Rightarrow> plot" where
  "plotMetrics values =
     (let mn = foldr min values (hd values); mx = foldr max values (hd values);
          spn = (if mx - mn = 0 then 1 else mx - mn)
      in \<lparr>pl_min = mn, pl_max = mx, pl_mid = mn + spn / 2, pl_span = spn\<rparr>)"

definition yAt :: "rat \<Rightarrow> rat \<Rightarrow> rat \<Rightarrow> rat \<Rightarrow> rat" where
  "yAt v plotHeight mn spn = plotHeight - ((v - mn) / spn) * (plotHeight - PLOT_TOP * 2) - PLOT_TOP"

definition plot_points :: "(string \<times> rat) list \<Rightarrow> rat \<Rightarrow> rat \<Rightarrow> rat \<Rightarrow> rat \<Rightarrow> (rat \<times> rat) list" where
  "plot_points numeric plotWidth plotHeight mn spn =
     (let step = (if length numeric > 1 then plotWidth / of_nat (length numeric - 1) else 0)
      in map (\<lambda>(i, p). (of_nat i * step, yAt (snd p) plotHeight mn spn)) (enumerate 0 numeric))"

definition path_step :: "nat \<Rightarrow> rat \<times> rat \<Rightarrow> string" where
  "path_step i p = (if i = 0 then ''M'' else ''L'') @ to_fixed 1 (fst p) @ '','' @ to_fixed 1 (snd p)"

definition pathFromPoints :: "(string \<times> rat) list \<Rightarrow> rat \<Rightarrow> rat \<Rightarrow> rat \<Rightarrow> rat \<Rightarrow> string" where
  "pathFromPoints numeric plotWidth plotHeight mn spn =
     (if numeric = [] then []
      else join '' '' (map (\<lambda>(i, p). path_step i p)
        (enumerate 0 (plot_points numeric plotWidth plotHeight mn spn))))"

record sparkline =
  sp_label :: "(string \<times> string) option"
  sp_view :: "rat \<times> rat"
  sp_points :: "(rat \<times> rat) list"
  sp_path :: string
  sp_ticks :: "(rat \<times> string) list"
  sp_times :: "string \<times> string"
  sp_meta :: string

text \<open>\<open>fmt\<close> is \<open>formatValue\<close>, \<open>axis\<close> is \<open>formatAxisTime\<close> in the locale.\<close>

definition Sparkline :: "(rat \<Rightarrow> string) \<Rightarrow> (string \<Rightarrow> string) \<Rightarrow> string option \<Rightarrow> rat \<Rightarrow>
    (string \<times> rat option) list \<Rightarrow> sparkline option" where
  "Sparkline fmt axis label height points =
     (let numeric = numericPoints points in
      if points = [] \<or> numeric = [] then None
      else
        (let m = plotMetrics (map snd numeric);
             plotHeight = height - AXIS_BOTTOM;
             ticks = (if pl_min m = pl_max m then [pl_min m] else [pl_max m, pl_mid m, pl_min m])
         in Some \<lparr>sp_label = (if truthy_str label then Some (the label, fmt (snd (last numeric))) else None),
              sp_view = (AXIS_LEFT + PLOT_WIDTH + PLOT_RIGHT, height),
              sp_points = plot_points numeric PLOT_WIDTH plotHeight (pl_min m) (pl_span m),
              sp_path = pathFromPoints numeric PLOT_WIDTH plotHeight (pl_min m) (pl_span m),
              sp_ticks = map (\<lambda>t. (yAt t plotHeight (pl_min m) (pl_span m), fmt t)) ticks,
              sp_times = (axis (fst (hd numeric)), axis (fst (last numeric))),
              sp_meta = ''min '' @ fmt (pl_min m) @ '' '' @ middle_dot @ '' max '' @ fmt (pl_max m)\<rparr>))"

section \<open>The traffic view\<close>

type_synonym ranges = "ui_option list option"

definition first_range :: "ranges \<Rightarrow> string option" where
  "first_range rs = (case rs of Some (r # others) \<Rightarrow> Some (uo_value r) | _ \<Rightarrow> None)"

definition metrics_start :: "ranges \<Rightarrow> string" where
  "metrics_start rs = nullish (first_range rs) ''1h''"

text \<open>The effect on a new range or new metadata: a range that is not offered is replaced.\<close>

definition range_effect :: "ranges \<Rightarrow> string \<Rightarrow> string" where
  "range_effect rs r =
     (if \<not> (case rs of None \<Rightarrow> False | Some xs \<Rightarrow> list_ex (\<lambda>it. uo_value it = r) xs)
      then nullish (first_range rs) r else r)"

text \<open>Setting the range runs the effect again, until it sets nothing new.\<close>

definition range_settled :: "ranges \<Rightarrow> string \<Rightarrow> string option" where
  "range_settled rs = while_option (\<lambda>r. range_effect rs r \<noteq> r) (range_effect rs)"

datatype metrics_tab = TabTraffic | TabNginx

definition tab_effect :: "bool \<Rightarrow> metrics_tab \<Rightarrow> metrics_tab" where
  "tab_effect showNginx t = (if t = TabNginx \<and> \<not> showNginx then TabTraffic else t)"

definition showNginx :: "ui_meta option \<Rightarrow> bool" where
  "showNginx meta = nullish (map_option (\<lambda>n. uc_enabled (un_stub_status n)) (Option.bind meta um_nginx)) False"

definition RangeSelect :: "ranges \<Rightarrow> string \<Rightarrow> (string \<times> string) list" where
  "RangeSelect rs val = (case rs of Some xs \<Rightarrow> map (\<lambda>it. (uo_value it, uo_label it)) xs | None \<Rightarrow> [(val, val)])"

definition TabSelect :: "metrics_tab \<Rightarrow> bool \<Rightarrow> (string \<times> bool) list" where
  "TabSelect val nginx = (''Traffic'', val = TabTraffic) # (if nginx then [(''Nginx'', val = TabNginx)] else [])"

definition metrics_subtitle :: "metrics_tab \<Rightarrow> string" where
  "metrics_subtitle t = (case t of
       TabNginx \<Rightarrow> ''Real-time nginx stub_status on the same host''
     | TabTraffic \<Rightarrow> ''Traffic for the selected time range (may differ from the dashboard snapshot)'')"

text \<open>The requests of the two panels; the VTS tables are asked for only when VTS is on.\<close>

definition traffic_requests :: "string \<Rightarrow> endpoint list" where
  "traffic_requests r = [metrics_summary r, metrics_topSites r, metrics_statusCodes r, metrics_series r]"

definition nginx_requests :: "string \<Rightarrow> nginx_vts_status_response option \<Rightarrow> int \<Rightarrow> endpoint list" where
  "nginx_requests r vts limit = [metrics_nginxCurrent, metrics_nginxSeries r, metrics_nginxVTSStatus]
     @ (if truthy_bool (map_option vts_enabled vts)
        then [metrics_nginxVTSServers limit, metrics_nginxVTSUpstreams limit] else [])"

definition traffic_stats :: "(rat \<Rightarrow> string) \<Rightarrow> traffic_metrics_summary \<Rightarrow> (string \<times> string) list" where
  "traffic_stats loc d = [(''Range'', tm_range d),
     (''Requests'', formatNumber loc (Some (of_int (tm_requests d)))),
     (''Bytes'', formatBytes (Some (of_int (tm_bytes d))) 1)]"

definition top_rows :: "(rat \<Rightarrow> string) \<Rightarrow> top_site_entry list \<Rightarrow> string list list option" where
  "top_rows loc rows = (if rows = [] then None else SimpleRows (map (\<lambda>r. [te_site r,
     formatNumber loc (Some (of_int (te_requests r))), formatBytes (Some (of_int (te_bytes r))) 1]) rows))"

definition present :: "series_point list \<Rightarrow> (string \<times> rat option) list" where
  "present ps = map (\<lambda>(t, v). (t, Some v)) ps"

text \<open>The charts of a series, one for each site; none when the series has no site.\<close>

definition site_charts ::
    "(rat \<Rightarrow> string) \<Rightarrow> (string \<Rightarrow> string) \<Rightarrow> (string \<times> series_point list) list \<Rightarrow> sparkline option list option" where
  "site_charts fmt axis sites =
     (if sites = [] then None
      else Some (map (\<lambda>(site, points). Sparkline fmt axis (Some site) 88 (present points)) sites))"

definition request_charts :: "(rat \<Rightarrow> string) \<Rightarrow> (string \<Rightarrow> string) \<Rightarrow> traffic_series_response option \<Rightarrow> sparkline option list option" where
  "request_charts loc axis d =
     site_charts (\<lambda>n. formatNumber loc (Some n)) axis (nullish (map_option tsr_requests d) [])"

definition byte_charts :: "(string \<Rightarrow> string) \<Rightarrow> traffic_series_response option \<Rightarrow> sparkline option list option" where
  "byte_charts axis d = site_charts (\<lambda>n. formatBytes (Some n) 1) axis (nullish (map_option tsr_bytes d) [])"

text \<open>The status codes: text, count, share in percent, colour.\<close>

definition code_entries :: "status_codes_response \<Rightarrow> (string \<times> int) list" where
  "code_entries d = [(''s2xx'', sc_s2xx d), (''s3xx'', sc_s3xx d), (''s4xx'', sc_s4xx d), (''s5xx'', sc_s5xx d)]"

definition code_label :: "string \<Rightarrow> string" where
  "code_label k = nullish (map_of [(''s2xx'', ''2xx Success''), (''s3xx'', ''3xx Redirect''),
     (''s4xx'', ''4xx Client error''), (''s5xx'', ''5xx Server error'')] k) k"

definition code_tone :: "string \<Rightarrow> string" where
  "code_tone k = (if k = ''s5xx'' then ''danger'' else if k = ''s4xx'' then ''warn''
     else if k = ''s3xx'' then ''info'' else ''accent'')"

definition code_bars :: "(string \<times> int) list \<Rightarrow> (string \<times> int \<times> rat \<times> string) list" where
  "code_bars d =
     (let hits = sum_list (map snd d); whole = (if hits = 0 then 1 else hits)
      in map (\<lambda>(k, v). (code_label k, v, (of_int v / of_int whole) * 100, code_tone k)) d)"

definition nginx_now :: "(rat \<Rightarrow> string) \<Rightarrow> nginx_status_current \<Rightarrow> (string \<times> string \<times> stat_tone option) list option" where
  "nginx_now loc d =
     (let num = (\<lambda>n. formatNumber loc (Some (of_int n))) in
      if ns_available d
      then Some [(''Active'', num (ns_active d), Some ToneInfo), (''Reading'', num (ns_reading d), None),
             (''Writing'', num (ns_writing d), None), (''Waiting'', num (ns_waiting d), None),
             (''Req/s'', formatRate (ns_request_rate_per_sec d) 2, Some ToneWarn),
             (''Accept/s'', formatRate (ns_accept_rate_per_sec d) 2, None),
             (''Handled/s'', formatRate (ns_handled_rate_per_sec d) 2, None),
             (''Dropped'', num (ns_dropped_connections d),
               if ns_dropped_connections d > 0 then Some ToneDanger else None)]
      else None)"

definition vts_server_rows :: "(rat \<Rightarrow> string) \<Rightarrow> nginx_vts_server_row list \<Rightarrow> string list list option" where
  "vts_server_rows loc rows = (if rows = [] then None else SimpleRows (map (\<lambda>r. [vs_server_name r,
     formatNumber loc (Some (of_int (vs_requests r))), formatBytes (Some (of_int (vs_out_bytes r))) 1,
     to_fixed 1 (vs_request_msec r) @ '' ms'']) rows))"

definition vts_upstream_rows :: "(rat \<Rightarrow> string) \<Rightarrow> nginx_vts_upstream_row list \<Rightarrow> string list list option" where
  "vts_upstream_rows loc rows = (if rows = [] then None else SimpleRows (map (\<lambda>r. [vu_upstream_name r,
     vu_server_addr r, formatNumber loc (Some (of_int (vu_requests r))),
     to_fixed 1 (vu_response_msec r) @ '' ms'', if vu_down r then ''down'' else ''up'']) rows))"

text \<open>The charts of the nginx panel: connections, request rate, and the three states of a connection.\<close>

definition nginx_charts ::
    "(rat \<Rightarrow> string) \<Rightarrow> (string \<Rightarrow> string) \<Rightarrow> nginx_status_series_response \<Rightarrow> sparkline option list option list" where
  "nginx_charts loc axis d =
     (let num = (\<lambda>n. formatNumber loc (Some n));
          chart = (\<lambda>fmt label ps. Sparkline fmt axis (Some label) 88 ps)
      in [if nsr_active d = [] then None else Some [chart num ''active'' (present (nsr_active d))],
          if nsr_request_rate d = [] then None
          else Some [chart (\<lambda>n. formatRate (Some n) 2) ''req/s'' (nsr_request_rate d)],
          if nsr_reading d = [] then None
          else Some [chart num ''reading'' (present (nsr_reading d)), chart num ''writing'' (present (nsr_writing d)),
                 chart num ''waiting'' (present (nsr_waiting d))]])"

section \<open>The dashboard\<close>

definition usage_percent :: "int \<Rightarrow> int \<Rightarrow> rat option" where
  "usage_percent used whole = (if whole = 0 then None else Some ((of_int used / of_int whole) * 100))"

definition load_tone :: "rat \<Rightarrow> rat \<Rightarrow> rat option \<Rightarrow> stat_tone" where
  "load_tone danger warn p =
     (if nullish p 0 > danger then ToneDanger else if nullish p 0 > warn then ToneWarn else ToneDefault)"

record tile =
  ti_label :: string
  ti_value :: string
  ti_sub :: "string option"
  ti_percent :: "rat option"
  ti_tone :: "stat_tone option"

definition memory_now :: "system_info \<Rightarrow> memory_stat option" where
  "memory_now sy = (case si_memory sy of Some (m # ms) \<Rightarrow> Some m | _ \<Rightarrow> None)"

definition dashboard_tiles :: "(rat \<Rightarrow> string) \<Rightarrow> dashboard_response \<Rightarrow> tile list" where
  "dashboard_tiles loc d =
     (let sy = dr_system d; memory = memory_now sy; storage = si_storage sy;
          memoryPercent = Option.bind memory (\<lambda>m. usage_percent (mem_used m) (mem_total m));
          storagePercent = Option.bind storage (\<lambda>s. usage_percent (sto_used s) (sto_size s));
          whole = tsum_total (dr_traffic_summary d)
      in [\<lparr>ti_label = ''CPU'', ti_value = formatPercent (si_cpu sy) 0, ti_sub = Some ''Current system load'',
           ti_percent = si_cpu sy, ti_tone = Some (load_tone 80 60 (si_cpu sy))\<rparr>,
          \<lparr>ti_label = ''Memory'',
           ti_value = (case memory of Some m \<Rightarrow> formatKiB (Some (of_int (mem_used m))) 1 | None \<Rightarrow> em_dash),
           ti_sub = Some (case memory of Some m \<Rightarrow> formatKiB (Some (of_int (mem_free m))) 1 @ '' free'' | None \<Rightarrow> ''No sample''),
           ti_percent = memoryPercent, ti_tone = Some (load_tone 85 65 memoryPercent)\<rparr>,
          \<lparr>ti_label = ''Storage'',
           ti_value = (case storage of Some s \<Rightarrow> formatKiB (Some (of_int (sto_used s))) 1 | None \<Rightarrow> em_dash),
           ti_sub = Some (case storage of Some s \<Rightarrow> formatKiB (Some (of_int (sto_available s))) 1 @ '' available'' | None \<Rightarrow> ''No disk sample''),
           ti_percent = storagePercent, ti_tone = Some (load_tone 90 70 storagePercent)\<rparr>,
          \<lparr>ti_label = ''Requests '' @ middle_dot @ '' 1h'',
           ti_value = formatNumber loc (Some (of_int (ts_requests whole))),
           ti_sub = Some (formatBytes (Some (of_int (ts_bytes whole))) 1), ti_percent = None, ti_tone = None\<rparr>])"

definition nginx_tiles :: "(rat \<Rightarrow> string) \<Rightarrow> nginx_status_current option \<Rightarrow> tile list" where
  "nginx_tiles loc st = (case st of
       None \<Rightarrow> []
     | Some n \<Rightarrow>
         (let t = (\<lambda>l v sub tone. \<lparr>ti_label = l, ti_value = formatNumber loc (Some (of_int v)), ti_sub = Some sub,
                ti_percent = None, ti_tone = tone\<rparr>)
          in if \<not> ns_available n then []
             else [t ''Nginx active'' (ns_active n) (formatRate (ns_request_rate_per_sec n) 2 @ '' req/s'') (Some ToneInfo),
                   t ''Reading'' (ns_reading n) ''Receiving request data'' None,
                   t ''Writing'' (ns_writing n) ''Sending responses'' None,
                   t ''Waiting'' (ns_waiting n) ''Idle connections'' None]
               @ (if ns_dropped_connections n > 0
                  then [t ''Dropped'' (ns_dropped_connections n) ''Failed to handle'' (Some ToneDanger)] else [])))"

definition tile_meter :: "tile \<Rightarrow> rat option" where
  "tile_meter t = Stat_width (ti_percent t)"

definition net_total :: "(string \<times> int) list option \<Rightarrow> int" where
  "net_total vs = sum_list (map snd (nullish vs []))"

definition network_rows :: "network_traffic option \<Rightarrow> (string \<times> string) list" where
  "network_rows n =
     [(''Inbound'', formatBytes (Some (of_int (net_total (Option.bind n nt_in)))) 1),
      (''Outbound'', formatBytes (Some (of_int (net_total (Option.bind n nt_out)))) 1),
      (''Interfaces'', dec_nat (length (nullish (Option.bind n nt_in) [])))]"

definition ssl_watch :: "expiring_cert list \<Rightarrow> string \<times> (string \<times> string \<times> bool) list" where
  "ssl_watch certs =
     (if certs = [] then ''all clear'' else dec_nat (length certs) @ '' expiring'',
      map (\<lambda>c. (ec_domain c, dec_int (ec_days_left c) @ ''d'', ec_expired c)) (take 4 certs))"

text \<open>The ranking of the sites: number, domain, share of the first in percent.\<close>

definition ranking :: "(string \<times> traffic_site) list \<Rightarrow> (string \<times> string \<times> rat) list" where
  "ranking ranked =
     (let top = (case ranked of [] \<Rightarrow> 0 | r # rs \<Rightarrow> ts_requests (snd r));
          mx = (if top = 0 then 1 else top)
      in map (\<lambda>(i, (domain, row)). ((let n = dec_nat (i + 1) in replicate (2 - length n) CHR ''0'' @ n),
           domain, (of_int (ts_requests row) / of_int mx) * 100)) (enumerate 0 (take 6 ranked)))"

definition ranking_empty :: "traffic_summary \<Rightarrow> string" where
  "ranking_empty s = (if ts_requests (tsum_total s) > 0 then ''No per-site breakdown yet'' else ''No traffic yet'')"

definition disk_rows :: "string option \<Rightarrow> string option \<Rightarrow> (string \<times> string) list" where
  "disk_rows reads writes = [(''Read'', formatDiskSectors reads), (''Write'', formatDiskSectors writes),
     (''Block size'', ''512 bytes'')]"

text \<open>\<open>date\<close> is \<open>formatDate\<close> in the locale.\<close>

definition recent_audit :: "(string \<Rightarrow> string) \<Rightarrow> audit_event list \<Rightarrow> string \<times> (string \<times> string \<times> string) list" where
  "recent_audit date es =
     (dec_nat (length es) @ '' events'', map (\<lambda>e. (ae_source e, date (ae_ts e), ae_message e)) (take 8 es))"

definition dashboard_requests :: "endpoint list" where
  "dashboard_requests = [dashboard_get, system_network, system_diskIO]"

section \<open>Bounds\<close>

lemma foldr_min: "v \<in> set vs \<Longrightarrow> foldr min vs a \<le> (v :: rat)" "foldr min vs a \<le> (a :: rat)"
  by (induction vs) (auto simp: min_def)

lemma foldr_max: "v \<in> set vs \<Longrightarrow> (v :: rat) \<le> foldr max vs a" "(a :: rat) \<le> foldr max vs a"
  by (induction vs) (auto simp: max_def)

lemma plotMetrics_bounds:
  assumes "v \<in> set vs"
  shows "pl_min (plotMetrics vs) \<le> v" "v \<le> pl_min (plotMetrics vs) + pl_span (plotMetrics vs)"
    "0 < pl_span (plotMetrics vs)" "pl_min (plotMetrics vs) \<le> pl_max (plotMetrics vs)"
    "pl_max (plotMetrics vs) \<le> pl_min (plotMetrics vs) + pl_span (plotMetrics vs)"
  using foldr_min(1) [OF assms, of "hd vs"] foldr_max(1) [OF assms, of "hd vs"]
  by (auto simp: plotMetrics_def Let_def)

lemma yAt_bounds:
  assumes "mn \<le> v" "v \<le> mn + spn" "0 < spn" "PLOT_TOP * 2 \<le> h"
  shows "PLOT_TOP \<le> yAt v h mn spn \<and> yAt v h mn spn \<le> h - PLOT_TOP"
proof -
  define q where "q = (v - mn) / spn"
  have "0 \<le> q" "q \<le> 1" using assms(1-3) by (simp_all add: q_def)
  moreover have h: "0 \<le> h - PLOT_TOP * 2" using assms(4) by simp
  ultimately have "0 \<le> q * (h - PLOT_TOP * 2)" "q * (h - PLOT_TOP * 2) \<le> h - PLOT_TOP * 2"
    by (auto intro: mult_nonneg_nonneg mult_left_le_one_le)
  then show ?thesis by (simp add: yAt_def q_def [symmetric])
qed

lemma enumerate_snd: "(i, p) \<in> set (enumerate n xs) \<Longrightarrow> p \<in> set xs \<and> i < n + length xs \<and> n \<le> i"
  by (auto simp: in_set_enumerate_eq)

lemma plot_points_x:
  assumes "(x, y) \<in> set (plot_points numeric w h mn spn)" "0 \<le> w"
  shows "0 \<le> x \<and> x \<le> w"
proof -
  from assms(1) obtain i p where i: "(i, p) \<in> set (enumerate 0 numeric)"
    and x: "x = of_nat i * (if length numeric > 1 then w / of_nat (length numeric - 1) else 0)"
    by (auto simp: plot_points_def Let_def)
  show ?thesis
  proof (cases "length numeric > 1")
    case True
    from i have "i \<le> length numeric - 1" using enumerate_snd by fastforce
    then have "(of_nat i :: rat) \<le> of_nat (length numeric - 1)" by (rule of_nat_mono)
    then have "of_nat i * w \<le> of_nat (length numeric - 1) * w" using assms(2) by (rule mult_right_mono)
    with True x assms(2) show ?thesis by (simp add: divide_le_eq mult.commute)
  next
    case False
    with x assms(2) show ?thesis by simp
  qed
qed

lemma plot_points_y:
  assumes "(x, y) \<in> set (plot_points numeric w h mn spn)"
  shows "\<exists>q \<in> set numeric. y = yAt (snd q) h mn spn"
proof -
  let ?step = "if length numeric > 1 then w / of_nat (length numeric - 1) else 0"
  from assms have "(x, y) \<in> (\<lambda>(i, p). (of_nat i * ?step, yAt (snd p) h mn spn)) ` set (enumerate 0 numeric)"
    by (simp only: plot_points_def Let_def set_map)
  then obtain ip where ip: "ip \<in> set (enumerate 0 numeric)"
    "(x, y) = (\<lambda>(i, p). (of_nat i * ?step, yAt (snd p) h mn spn)) ip" by (rule imageE)
  then have "snd ip \<in> set numeric" using enumerate_snd [of "fst ip" "snd ip"] by simp
  moreover from ip(2) have "y = yAt (snd (snd ip)) h mn spn" by (simp only: case_prod_beta prod.inject)
  ultimately show ?thesis by blast
qed

text \<open>
  A sparkline stays in its frame: when it is drawn at all, it draws one point for each number of the
  series (a missing value draws none), and every point and every tick lies in the plot area, at least 4
  units below its top and above its bottom, for every series and every height that leaves room for it.
\<close>

theorem sparkline_in_frame:
  assumes "Sparkline fmt axis label height points = Some s" and "AXIS_BOTTOM + PLOT_TOP * 2 \<le> height"
  shows "length (sp_points s) = length (filter (\<lambda>p. snd p \<noteq> None) points)
    \<and> list_all (\<lambda>(x, y). 0 \<le> x \<and> x \<le> PLOT_WIDTH \<and> PLOT_TOP \<le> y \<and> y \<le> height - AXIS_BOTTOM - PLOT_TOP) (sp_points s)
    \<and> list_all (\<lambda>(y, t). PLOT_TOP \<le> y \<and> y \<le> height - AXIS_BOTTOM - PLOT_TOP) (sp_ticks s)"
proof -
  define numeric where "numeric = numericPoints points"
  define m where "m = plotMetrics (map snd numeric)"
  let ?h = "height - AXIS_BOTTOM"
  from assms(1) have ne: "numeric \<noteq> []"
    and pts: "sp_points s = plot_points numeric PLOT_WIDTH ?h (pl_min m) (pl_span m)"
    and ticks: "sp_ticks s = map (\<lambda>t. (yAt t ?h (pl_min m) (pl_span m), fmt t))
      (if pl_min m = pl_max m then [pl_min m] else [pl_max m, pl_mid m, pl_min m])"
    by (auto simp: Sparkline_def numeric_def m_def Let_def split: if_splits)
  have h: "PLOT_TOP * 2 \<le> ?h" using assms(2) by simp
  have len: "length (numericPoints ps) = length (filter (\<lambda>p. snd p \<noteq> None) ps)" for ps
    by (induction ps rule: numericPoints.induct) (auto split: option.splits)
  have bounds: "PLOT_TOP \<le> yAt v ?h (pl_min m) (pl_span m) \<and> yAt v ?h (pl_min m) (pl_span m) \<le> ?h - PLOT_TOP"
    if "v \<in> snd ` set numeric" for v
    using that plotMetrics_bounds [of v "map snd numeric"] h by (intro yAt_bounds) (auto simp: m_def)
  from ne obtain p where "p \<in> set numeric" by (cases numeric) auto
  then have mm: "0 < pl_span m" "pl_min m \<le> pl_max m" "pl_max m \<le> pl_min m + pl_span m"
    using plotMetrics_bounds [of "snd p" "map snd numeric"] by (auto simp: m_def)
  have "pl_mid m = pl_min m + pl_span m / 2" by (simp add: m_def plotMetrics_def Let_def)
  then have "list_all (\<lambda>(y, t). PLOT_TOP \<le> y \<and> y \<le> ?h - PLOT_TOP) (sp_ticks s)"
    unfolding ticks using mm h
    by (auto intro!: yAt_bounds [THEN conjunct1] yAt_bounds [THEN conjunct2])
  moreover have "list_all (\<lambda>(x, y). 0 \<le> x \<and> x \<le> PLOT_WIDTH \<and> PLOT_TOP \<le> y \<and> y \<le> ?h - PLOT_TOP) (sp_points s)"
  proof -
    have "0 \<le> x \<and> x \<le> PLOT_WIDTH \<and> PLOT_TOP \<le> y \<and> y \<le> ?h - PLOT_TOP" if "(x, y) \<in> set (sp_points s)" for x y
    proof -
      have xy: "(x, y) \<in> set (plot_points numeric PLOT_WIDTH ?h (pl_min m) (pl_span m))" using that pts by simp
      have "0 \<le> PLOT_WIDTH" by (simp add: PLOT_WIDTH_def)
      with plot_points_x [OF xy] have "0 \<le> x \<and> x \<le> PLOT_WIDTH" by simp
      moreover obtain q where "q \<in> set numeric" "y = yAt (snd q) ?h (pl_min m) (pl_span m)"
        using plot_points_y [OF xy] by blast
      ultimately show ?thesis using bounds [of "snd q"] by simp
    qed
    then show ?thesis by (auto simp: list_all_iff)
  qed
  moreover have "length (sp_points s) = length (filter (\<lambda>p. snd p \<noteq> None) points)"
    unfolding pts by (simp add: plot_points_def Let_def numeric_def len length_enumerate)
  ultimately show ?thesis by blast
qed

theorem sparkline_in_frame_witness:
  "\<exists>s. Sparkline (\<lambda>x. []) id None 88 [(''a'', Some 3), (''b'', None), (''c'', Some 5)] = Some s
     \<and> length (sp_points s) = 2"
proof -
  obtain s where s: "Sparkline (\<lambda>x. []) id None 88 [(''a'', Some 3), (''b'', None), (''c'', Some 5)] = Some s"
    by (simp add: Sparkline_def Let_def)
  have "AXIS_BOTTOM + PLOT_TOP * 2 \<le> 88" by (simp add: AXIS_BOTTOM_def PLOT_TOP_def)
  from sparkline_in_frame [OF s this] s show ?thesis by simp
qed

section \<open>The selected range\<close>

lemma range_effect_offered:
  "rs = Some (x # xs) \<Longrightarrow> range_effect rs r \<in> uo_value ` set (x # xs)"
  by (auto simp: range_effect_def first_range_def list_ex_iff)

lemma range_effect_idem: "range_effect rs (range_effect rs r) = range_effect rs r"
  by (cases rs; cases "the rs") (auto simp: range_effect_def first_range_def list_ex_iff)

text \<open>
  The effect that repairs the selected range comes to rest: however it is triggered, it sets the
  range at most once, and the range it rests at is one the metadata offer, when they offer any.
\<close>

theorem range_settles:
  "range_settled rs r = Some (range_effect rs r)
   \<and> (rs = None \<or> rs = Some [] \<longrightarrow> range_effect rs r = r)
   \<and> (rs \<noteq> None \<and> rs \<noteq> Some [] \<longrightarrow> range_effect rs r \<in> uo_value ` set (the rs))"
proof -
  have "range_settled rs r = Some (range_effect rs r)"
  proof (cases "range_effect rs r = r")
    case True
    then show ?thesis by (simp add: range_settled_def while_option_unfold)
  next
    case False
    then show ?thesis
      unfolding range_settled_def
      by (subst while_option_unfold, simp, subst while_option_unfold) (simp add: range_effect_idem)
  qed
  moreover have "range_effect rs r \<in> uo_value ` set (the rs)" if "rs \<noteq> None" "rs \<noteq> Some []"
  proof -
    from that obtain x xs where rs: "rs = Some (x # xs)" by (cases rs; cases "the rs") auto
    from range_effect_offered [OF rs, of r] show ?thesis by (simp only: rs option.sel)
  qed
  moreover have "range_effect rs r = r" if "rs = None \<or> rs = Some []"
    using that by (auto simp: range_effect_def first_range_def)
  ultimately show ?thesis by blast
qed

theorem range_settles_witness:
  "range_settled (Some [\<lparr>uo_value = ''6h'', uo_label = [], uo_hint = None\<rparr>]) ''2h'' = Some ''6h''"
  using range_settles [of "Some [\<lparr>uo_value = ''6h'', uo_label = [], uo_hint = None\<rparr>]" "''2h''"]
  by (simp add: range_effect_def first_range_def)

section \<open>Shares\<close>

lemma code_bars_total:
  assumes "0 < sum_list (map snd d)"
  shows "sum_list (map (\<lambda>(l, v, p, t). p) (code_bars d)) = 100"
proof -
  let ?t = "sum_list (map snd d)"
  have "sum_list (map (\<lambda>x. (of_int (snd x) / of_int ?t) * 100) xs) = (of_int (sum_list (map snd xs)) / of_int ?t) * (100 :: rat)"
    for xs :: "(string \<times> int) list"
    by (induction xs) (simp_all add: add_divide_distrib algebra_simps)
  from this [of d] assms show ?thesis
    by (simp add: code_bars_def Let_def case_prod_unfold comp_def)
qed

text \<open>
  The bars of the status codes and of the ranking fit: with counts that are not negative, every
  share is between 0 and 100 percent; the shares of the status codes add up to 100 when there was any
  request; and in the ranking the first site has 100 percent when it has any request.
\<close>

theorem shares_fit:
  assumes "\<forall>e \<in> set d. 0 \<le> snd e" and "\<forall>e \<in> set (tsum_sites sm). 0 \<le> ts_requests (snd e)"
  shows "list_all (\<lambda>(l, v, p, t). 0 \<le> p \<and> p \<le> 100) (code_bars d)
    \<and> (0 < sum_list (map snd d) \<longrightarrow> sum_list (map (\<lambda>(l, v, p, t). p) (code_bars d)) = 100)
    \<and> list_all (\<lambda>(n, domain, p). 0 \<le> p \<and> p \<le> 100) (ranking (siteTraffic (Some sm)))
    \<and> length (ranking (siteTraffic (Some sm))) = min 6 (length (tsum_sites sm))"
proof -
  let ?t = "sum_list (map snd d)"
  have le: "snd e \<le> ?t" if "e \<in> set d" for e
    using that assms(1) by (auto intro!: member_le_sum_list)
  have "0 \<le> ?t" using assms(1) by (auto intro!: sum_list_nonneg)
  then have bars: "list_all (\<lambda>(l, v, p, t). 0 \<le> p \<and> p \<le> 100) (code_bars d)"
    using le assms(1)
    by (fastforce simp: code_bars_def Let_def list_all_iff divide_le_eq)
  define rk where "rk = siteTraffic (Some sm)"
  have pos: "0 \<le> ts_requests (snd e)" if "e \<in> set rk" for e
    using that assms(2) by (simp add: rk_def siteTraffic_def)
  have top: "ts_requests (snd e) \<le> ts_requests (snd (hd rk))" if "e \<in> set rk" for e
  proof -
    have "sorted_wrt (\<lambda>a b. ts_requests (snd b) - ts_requests (snd a) \<le> 0) rk"
      unfolding rk_def by (rule siteTraffic_ordered)
    with that show ?thesis by (cases rk) auto
  qed
  have "0 \<le> p \<and> p \<le> 100" if "(n, domain, p) \<in> set (ranking rk)" for n domain p
  proof -
    from that obtain i row where "(i, domain, row) \<in> set (enumerate 0 (take 6 rk))"
      and p: "p = (of_int (ts_requests row) / of_int (let t = ts_requests (snd (hd rk)) in if t = 0 then 1 else t)) * 100"
      by (cases rk) (auto simp: ranking_def Let_def)
    then have e: "(domain, row) \<in> set rk" using enumerate_snd in_set_takeD by metis
    from pos [OF e] top [OF e] show ?thesis
      unfolding p by (auto simp: Let_def divide_le_eq)
  qed
  then have "list_all (\<lambda>(n, domain, p). 0 \<le> p \<and> p \<le> 100) (ranking rk)" by (auto simp: list_all_iff)
  moreover have "length (ranking rk) = min 6 (length (tsum_sites sm))"
    by (simp add: ranking_def Let_def length_enumerate rk_def siteTraffic_def min.commute)
  ultimately show ?thesis using bars code_bars_total by (simp add: rk_def)
qed

theorem shares_fit_witness:
  "sum_list (map (\<lambda>(l, v, p, t). p) (code_bars [(''s2xx'', 3), (''s5xx'', 1)])) = 100"
proof -
  let ?d = "[(''s2xx'', 3), (''s5xx'', 1 :: int)]"
  have "\<forall>e \<in> set ?d. 0 \<le> snd e" by simp
  moreover have "\<forall>e \<in> set (tsum_sites \<lparr>tsum_sites = [], tsum_total = \<lparr>ts_requests = 0, ts_bytes = 0\<rparr>\<rparr>). 0 \<le> ts_requests (snd e)"
    by simp
  ultimately show ?thesis using shares_fit [of ?d] by fastforce
qed

section \<open>Polling\<close>

text \<open>The dashboard and the nginx panel reload on a timer (\<open>useInterval\<close>), in milliseconds.  An answer is
  late when the timer has started another request before it arrives.\<close>

definition DASHBOARD_POLL :: nat where "DASHBOARD_POLL = 5000"
definition NGINX_POLL :: nat where "NGINX_POLL = 15000"

fun all_late :: "('d, 'a) async_event list \<Rightarrow> ('d, 'a) async \<Rightarrow> bool" where
  "all_late [] s = True"
| "all_late (e # es) s = ((case e of ASettle g r \<Rightarrow> g \<noteq> as_gen s | _ \<Rightarrow> True) \<and> all_late es (async_step e s))"

lemma late_step:
  assumes "as_data s = None" "as_loading s"
    and "\<And>g r. e = ASettle g r \<Longrightarrow> g \<noteq> as_gen s"
  shows "as_data (async_step e s) = None \<and> as_loading (async_step e s)"
  using assms by (cases e) (auto simp: async_effect_def async_settle_def Let_def split: option.splits sum.splits)

lemma late_run:
  "as_data s = None \<Longrightarrow> as_loading s \<Longrightarrow> all_late es s \<Longrightarrow>
     as_data (foldl (\<lambda>s e. async_step e s) s es) = None \<and> as_loading (foldl (\<lambda>s e. async_step e s) s es)"
proof (induction es arbitrary: s)
  case (Cons e es)
  from Cons.prems(3) have "\<And>g r. e = ASettle g r \<Longrightarrow> g \<noteq> as_gen s" by auto
  from late_step [OF Cons.prems(1,2) this] Cons show ?case by simp
qed simp

text \<open>The dashboard for a backend that takes longer than the poll: each reload comes before the answer
  to the request before it.\<close>

definition slow_polls :: "nat \<Rightarrow> 'a \<Rightarrow> (unit, 'a) async_event list" where
  "slow_polls n r = ADeps () # concat (map (\<lambda>k. [AReload, ASettle (k + 1) (Inr r)]) [0..<n])"

lemma all_late_append: "all_late (es @ fs) s \<longleftrightarrow> all_late es s \<and> all_late fs (foldl (\<lambda>s e. async_step e s) s es)"
  by (induction es arbitrary: s) auto

lemma slow_polls_late:
  "all_late (slow_polls n r) async_init \<and> as_gen (async_run (slow_polls n r)) = n + 1
   \<and> as_mounted (async_run (slow_polls n r)) \<and> as_deps (async_run (slow_polls n r)) = Some ()"
proof (induction n)
  case 0
  show ?case by (simp add: slow_polls_def async_run_def async_init_def async_effect_def Let_def)
next
  case (Suc n)
  have "slow_polls (Suc n) r = slow_polls n r @ [AReload, ASettle (n + 1) (Inr r)]" by (simp add: slow_polls_def)
  with Suc show ?case
    by (simp add: all_late_append async_run_def async_settle_frame async_effect_frame)
qed

text \<open>
  The dashboard never appears for a backend that needs longer than the poll interval: every reload
  abandons the request in flight, so when each answer arrives after the next reload, then after any number
  of answers the view still shows that it is loading.
\<close>

theorem slow_dashboard_never_shown:
  "AsyncView isEmpty label (async_run (slow_polls n r)) = ShownLoading label
   \<and> length (filter (\<lambda>e. case e of ASettle g x \<Rightarrow> True | _ \<Rightarrow> False) (slow_polls n r)) = n"
proof -
  have "as_data (async_run (slow_polls n r)) = None \<and> as_loading (async_run (slow_polls n r))"
    unfolding async_run_def
    by (rule late_run) (use slow_polls_late [of n r] in \<open>simp_all add: async_init_def\<close>)
  moreover have "length (filter (\<lambda>e. case e of ASettle g x \<Rightarrow> True | _ \<Rightarrow> False) (slow_polls n r)) = n"
    by (induction n) (simp_all add: slow_polls_def)
  ultimately show ?thesis by (simp add: AsyncView_def)
qed

end
