(* ===== verification/Mcp_View.thy ===== *)
theory Mcp_View
  imports View_Kit Plugins_View
begin

text \<open>
  The pages beside the plugin list: the access tokens of a plugin
  (\<open>web/src/views/PluginMCPIntegration.tsx\<close>), the keyring of trusted publishers
  (\<open>PluginsKeyring.tsx\<close>) and the card of the install settings (\<open>PluginSettingsCard.tsx\<close>).  A handler
  is cut at its \<open>await\<close>.
\<close>

section \<open>Scopes\<close>

definition READ_SCOPES :: "string list" where
  "READ_SCOPES = [''system:read'', ''websites:read'', ''nginx:read'', ''docker:read'', ''cron:read'', ''plugins:read'']"

definition WRITE_SCOPES :: "string list" where
  "WRITE_SCOPES = [''websites:write'']"

definition MANAGE_SCOPES :: "string list" where
  "MANAGE_SCOPES = [''nginx:manage'', ''docker:manage'']"

definition manifestCeiling :: "plugin_version \<Rightarrow> string list" where
  "manifestCeiling plugin =
     (let perms = nullish (pm_permissions (pv_manifest plugin)) [] in if perms \<noteq> [] then perms else READ_SCOPES)"

record scope_groups =
  sg_read :: "string list"
  sg_write :: "string list"
  sg_manage :: "string list"

definition groupScopes :: "string list \<Rightarrow> scope_groups" where
  "groupScopes manifestScopes =
     (let inManifest = (\<lambda>scope. scope \<in> set manifestScopes) in
      \<lparr>sg_read = filter inManifest READ_SCOPES, sg_write = filter inManifest WRITE_SCOPES,
       sg_manage = filter inManifest MANAGE_SCOPES\<rparr>)"

definition defaultScopes :: "string list \<Rightarrow> string list" where
  "defaultScopes manifestScopes =
     (let groups = groupScopes manifestScopes
      in if sg_read groups \<noteq> [] then sg_read groups else slice 0 1 manifestScopes)"

text \<open>The picker: the groups that are not empty with the boxes they show, and a click on a box.\<close>

definition picker_toggle :: "string \<Rightarrow> string list \<Rightarrow> string list" where
  "picker_toggle scope v = (if scope \<in> set v then filter (\<lambda>s. s \<noteq> scope) v else v @ [scope])"

definition renderGroup :: "string list \<Rightarrow> string \<Rightarrow> string list \<Rightarrow> (string \<times> (string \<times> bool) list) list" where
  "renderGroup v title scopes =
     (if scopes \<noteq> [] then [(title, map (\<lambda>scope. (scope, scope \<in> set v)) scopes)] else [])"

definition ScopePicker :: "string list \<Rightarrow> string list \<Rightarrow> (string \<times> (string \<times> bool) list) list" where
  "ScopePicker manifestScopes v =
     (let groups = groupScopes manifestScopes
      in renderGroup v ''Read'' (sg_read groups) @ renderGroup v ''Write'' (sg_write groups)
         @ renderGroup v ''Manage'' (sg_manage groups))"

definition boxes :: "string list \<Rightarrow> string list" where
  "boxes manifestScopes = concat (map (\<lambda>g. map fst (snd g)) (ScopePicker manifestScopes []))"

section \<open>The snippet\<close>

text \<open>\<open>JSON.stringify(value, null, 2)\<close>: the text of a number is a parameter.\<close>

definition json_hex :: "nat \<Rightarrow> char" where
  "json_hex n = ''0123456789abcdef'' ! (n mod 16)"

definition json_escape :: "char \<Rightarrow> string" where
  "json_escape c =
     (if code c = 34 \<or> code c = 92 then [CHR 0x5C, c]
      else if code c = 8 then [CHR 0x5C, CHR ''b''] else if code c = 12 then [CHR 0x5C, CHR ''f'']
      else if code c = 10 then [CHR 0x5C, CHR ''n''] else if code c = 13 then [CHR 0x5C, CHR ''r'']
      else if code c = 9 then [CHR 0x5C, CHR ''t'']
      else if code c < 32 then CHR 0x5C # ''u00'' @ [json_hex (code c div 16), json_hex (code c)]
      else [c])"

definition json_quote :: "string \<Rightarrow> string" where
  "json_quote s = [CHR 0x22] @ concat (map json_escape s) @ [CHR 0x22]"

fun json_pretty :: "(rat \<Rightarrow> string) \<Rightarrow> string \<Rightarrow> json \<Rightarrow> string" where
  "json_pretty num ind JNull = ''null''"
| "json_pretty num ind (JBool b) = (if b then ''true'' else ''false'')"
| "json_pretty num ind (JNum x) = num x"
| "json_pretty num ind (JStr s) = json_quote s"
| "json_pretty num ind (JArr xs) =
     (if xs = [] then ''[]''
      else ''['' @ [CHR 0x0A] @ join ('','' @ [CHR 0x0A]) (map (\<lambda>x. ind @ ''  '' @ json_pretty num (ind @ ''  '') x) xs)
        @ [CHR 0x0A] @ ind @ '']'')"
| "json_pretty num ind (JObj fs) =
     (if fs = [] then ''{}''
      else ''{'' @ [CHR 0x0A]
        @ join ('','' @ [CHR 0x0A]) (map (\<lambda>(k, x). ind @ ''  '' @ json_quote k @ '': '' @ json_pretty num (ind @ ''  '') x) fs)
        @ [CHR 0x0A] @ ind @ ''}'')"

definition mcp_json :: "string \<Rightarrow> string \<Rightarrow> json" where
  "mcp_json origin token = JObj [(''mcpServers'', JObj [(''gosite'', JObj
     [(''command'', JStr ''npx''), (''args'', JArr [JStr ''-y'', JStr ''@gosite/mcp'']),
      (''env'', JObj [(''GOSITE_URL'', JStr origin), (''GOSITE_ACCESS_TOKEN'', JStr token)])])])]"

definition mcpJsonSnippet :: "string \<Rightarrow> string \<Rightarrow> string" where
  "mcpJsonSnippet origin token = json_pretty (\<lambda>x. []) [] (mcp_json origin token)"

section \<open>The row of a token\<close>

text \<open>A request whose path may be refused: then nothing is sent, and the refusal is the answer.\<close>

definition v_try :: "js_error + endpoint \<Rightarrow> 'v view_log_scheme \<Rightarrow> 'v view_log_scheme" where
  "v_try call s = (case call of Inl e \<Rightarrow> s | Inr ep \<Rightarrow> v_send ep s)"

record token_row = view_log +
  tr_row :: integration_token
  tr_editing :: bool
  tr_scopes :: "string list"
  tr_update :: action_state
  tr_revoke :: action_state

definition token_row_init :: "integration_token \<Rightarrow> token_row" where
  "token_row_init row = \<lparr>vl_requests = [], vl_toasts = [], vl_reloads = 0, tr_row = row,
     tr_editing = False, tr_scopes = it_scopes row, tr_update = action_init, tr_revoke = action_init\<rparr>"

definition token_save_start :: "string \<Rightarrow> token_row \<Rightarrow> token_row" where
  "token_save_start pluginID s =
     v_try (plugins_updateIntegrationToken pluginID (it_id (tr_row s)) (tr_scopes s))
       (s\<lparr>tr_update := action_start (tr_update s)\<rparr>)"

definition token_save_end :: "js_error + unit \<Rightarrow> token_row \<Rightarrow> token_row" where
  "token_save_end r s =
     (let s = s\<lparr>tr_update := snd (action_finish r (tr_update s))\<rparr>
      in case r of
           Inr u \<Rightarrow> v_reload ((v_say ''Scopes updated'' ToastInfo s)\<lparr>tr_editing := False\<rparr>)
         | Inl err \<Rightarrow> v_fail None err s)"

definition revoke_question :: "integration_token \<Rightarrow> string" where
  "revoke_question row = ''Revoke token '' @ [CHR 0x22] @ or_str (it_label row) (it_id row) @ [CHR 0x22] @ ''?''"

definition doRevoke_start :: "string \<Rightarrow> bool \<Rightarrow> token_row \<Rightarrow> token_row" where
  "doRevoke_start pluginID sure s =
     (if \<not> sure then s
      else v_try (plugins_revokeIntegrationToken pluginID (it_id (tr_row s)))
             (s\<lparr>tr_revoke := action_start (tr_revoke s)\<rparr>))"

definition doRevoke_end :: "js_error + unit \<Rightarrow> token_row \<Rightarrow> token_row" where
  "doRevoke_end r s =
     (let s = s\<lparr>tr_revoke := snd (action_finish r (tr_revoke s))\<rparr>
      in case r of
           Inr u \<Rightarrow> v_reload (v_say ''Token revoked'' ToastInfo s)
         | Inl err \<Rightarrow> v_fail None err s)"

definition token_edit_click :: "token_row \<Rightarrow> token_row" where
  "token_edit_click s = s\<lparr>tr_editing := \<not> tr_editing s\<rparr>"

text \<open>What a row shows: its name, whether it is revoked, the label of the edit button and whether the
  revoke button can be clicked (an active row has both), and its scopes or the picker with the Save button.\<close>

datatype token_scopes = ScopeBadges "string list" | ScopeEdit "(string \<times> (string \<times> bool) list) list" bool

definition token_dates :: "(string \<Rightarrow> string) \<Rightarrow> (string \<Rightarrow> string) \<Rightarrow> integration_token \<Rightarrow> string list" where
  "token_dates relative date row =
     [''Created '' @ relative (it_created_at row)]
     @ (if truthy_str (it_last_used_at row) then [''Last used '' @ relative (the (it_last_used_at row))] else [])
     @ (if truthy_str (it_expires_at row) then [''Expires '' @ date (the (it_expires_at row))] else [])"

definition token_buttons :: "token_row \<Rightarrow> (string \<times> bool) option" where
  "token_buttons s =
     (if truthy_str (it_revoked_at (tr_row s)) then None
      else Some (if tr_editing s then ''Cancel'' else ''Edit scopes'', \<not> ac_loading (tr_revoke s)))"

definition token_picker :: "string list \<Rightarrow> token_row \<Rightarrow> token_scopes" where
  "token_picker manifestScopes s =
     (if tr_editing s
      then ScopeEdit (ScopePicker manifestScopes (tr_scopes s)) (\<not> ac_loading (tr_update s) \<and> tr_scopes s \<noteq> [])
      else ScopeBadges (it_scopes (tr_row s)))"

definition TokenRow :: "string list \<Rightarrow> token_row \<Rightarrow> string \<times> badge \<times> (string \<times> bool) option \<times> token_scopes" where
  "TokenRow manifestScopes s =
     (or_str (it_label (tr_row s)) ''untitled'',
      if truthy_str (it_revoked_at (tr_row s)) then BadgeDanger else BadgeOk,
      token_buttons s, token_picker manifestScopes s)"

text \<open>\<open>TrRow\<close>: the list was loaded again and gives the row a new token.\<close>

datatype token_event = TrEdit | TrToggle string | TrSave | TrSaved "js_error + unit" | TrRevoke bool
  | TrRevoked "js_error + unit" | TrRow integration_token

fun token_can :: "string list \<Rightarrow> token_event \<Rightarrow> token_row \<Rightarrow> bool" where
  "token_can ms TrEdit s = (token_buttons s \<noteq> None)"
| "token_can ms (TrRevoke sure) s = (case token_buttons s of Some (l, live) \<Rightarrow> live | None \<Rightarrow> False)"
| "token_can ms (TrToggle scope) s = (tr_editing s \<and> scope \<in> set (boxes ms))"
| "token_can ms TrSave s = (case token_picker ms s of ScopeEdit groups live \<Rightarrow> live | ScopeBadges b \<Rightarrow> False)"
| "token_can ms _ s = True"

fun token_step :: "string \<Rightarrow> token_event \<Rightarrow> token_row \<Rightarrow> token_row" where
  "token_step pluginID TrEdit s = token_edit_click s"
| "token_step pluginID (TrToggle scope) s = s\<lparr>tr_scopes := picker_toggle scope (tr_scopes s)\<rparr>"
| "token_step pluginID TrSave s = token_save_start pluginID s"
| "token_step pluginID (TrSaved r) s = token_save_end r s"
| "token_step pluginID (TrRevoke sure) s = doRevoke_start pluginID sure s"
| "token_step pluginID (TrRevoked r) s = doRevoke_end r s"
| "token_step pluginID (TrRow row) s = s\<lparr>tr_row := row\<rparr>"

section \<open>The page\<close>

record mcp_view = view_log +
  mcp_plugin :: plugin_version
  mcp_create :: action_state
  mcp_createOpen :: bool
  mcp_label :: string
  mcp_scopes :: "string list"
  mcp_createdSecret :: "string option"
  mcp_clipboard :: "string list"

definition mcp_init :: "plugin_version \<Rightarrow> mcp_view" where
  "mcp_init plugin = \<lparr>vl_requests = [], vl_toasts = [], vl_reloads = 0, mcp_plugin = plugin, mcp_create = action_init,
     mcp_createOpen = False, mcp_label = ''cursor-laptop'', mcp_scopes = defaultScopes (manifestCeiling plugin),
     mcp_createdSecret = None, mcp_clipboard = []\<rparr>"

definition submitCreate_start :: "mcp_view \<Rightarrow> mcp_view" where
  "submitCreate_start s =
     v_try (plugins_createIntegrationToken (pv_plugin_id (mcp_plugin s)) (trim_str (mcp_label s)) (mcp_scopes s) None)
       (s\<lparr>mcp_create := action_start (mcp_create s)\<rparr>)"

text \<open>The answer: \<open>Inr None\<close> is one without a secret.\<close>

definition submitCreate_end :: "ui_meta option \<Rightarrow> js_error + string option \<Rightarrow> mcp_view \<Rightarrow> mcp_view" where
  "submitCreate_end meta r s =
     (let s = s\<lparr>mcp_create := snd (action_finish r (mcp_create s))\<rparr>
      in case r of
           Inr secret \<Rightarrow>
             (if \<not> truthy_str secret then s
              else v_say ''Integration token created'' ToastInfo
                     (v_reload (s\<lparr>mcp_createdSecret := secret, mcp_createOpen := False\<rparr>)))
         | Inl err \<Rightarrow> v_fail meta err s)"

text \<open>\<open>copySnippet\<close>: \<open>written\<close> says whether the clipboard took the text.\<close>

definition copySnippet :: "string \<Rightarrow> bool \<Rightarrow> mcp_view \<Rightarrow> mcp_view" where
  "copySnippet origin written s =
     (if \<not> truthy_str (mcp_createdSecret s) then s
      else if written
      then v_say ''mcp.json copied'' ToastInfo
             (s\<lparr>mcp_clipboard := mcp_clipboard s @ [mcpJsonSnippet origin (the (mcp_createdSecret s))]\<rparr>)
      else v_say (''Copy failed '' @ em_dash @ '' select text manually'') ToastError s)"

definition generate_click :: "mcp_view \<Rightarrow> mcp_view" where
  "generate_click s =
     s\<lparr>mcp_scopes := defaultScopes (manifestCeiling (mcp_plugin s)), mcp_createOpen := True\<rparr>"

definition create_disabled :: "mcp_view \<Rightarrow> bool" where
  "create_disabled s = (ac_loading (mcp_create s) \<or> trim_str (mcp_label s) = [] \<or> mcp_scopes s = [])"

datatype mcp_event = McGenerate | McCancel | McLabel string | McToggle string | McSubmit
  | McAnswer "js_error + string option" | McCopy bool | McPlugin plugin_version

text \<open>The events of the dialog need the dialog, a toggle one of its boxes, and the button its guard.\<close>

fun mcp_can :: "mcp_event \<Rightarrow> mcp_view \<Rightarrow> bool" where
  "mcp_can McCancel s = mcp_createOpen s"
| "mcp_can (McLabel v) s = mcp_createOpen s"
| "mcp_can (McToggle scope) s = (mcp_createOpen s \<and> scope \<in> set (boxes (manifestCeiling (mcp_plugin s))))"
| "mcp_can McSubmit s = (mcp_createOpen s \<and> \<not> create_disabled s)"
| "mcp_can (McCopy w) s = truthy_str (mcp_createdSecret s)"
| "mcp_can _ s = True"

fun mcp_step :: "ui_meta option \<Rightarrow> string \<Rightarrow> mcp_event \<Rightarrow> mcp_view \<Rightarrow> mcp_view" where
  "mcp_step meta origin McGenerate s = generate_click s"
| "mcp_step meta origin McCancel s = s\<lparr>mcp_createOpen := False\<rparr>"
| "mcp_step meta origin (McLabel v) s = s\<lparr>mcp_label := v\<rparr>"
| "mcp_step meta origin (McToggle scope) s = s\<lparr>mcp_scopes := picker_toggle scope (mcp_scopes s)\<rparr>"
| "mcp_step meta origin McSubmit s = submitCreate_start s"
| "mcp_step meta origin (McAnswer r) s = submitCreate_end meta r s"
| "mcp_step meta origin (McCopy w) s = copySnippet origin w s"
| "mcp_step meta origin (McPlugin p) s = s\<lparr>mcp_plugin := p\<rparr>"

section \<open>The keyring\<close>

definition truncateKey :: "string \<Rightarrow> nat \<Rightarrow> string" where
  "truncateKey v limit = (if length v \<le> limit then v else slice 0 (limit - 1) v @ ellipsis)"

definition groupByVendor ::
    "(string \<Rightarrow> string \<Rightarrow> int) \<Rightarrow> plugin_keyring_entry list \<Rightarrow> (string \<times> plugin_keyring_entry list) list" where
  "groupByVendor lc keys = sort_by (\<lambda>a b. lc (fst a) (fst b)) (group_by ke_vendor keys)"

record add_key_modal = view_log +
  ak_vendor :: string
  ak_keyId :: string
  ak_publicKey :: string
  ak_add :: action_state
  ak_closes :: nat

definition add_key_init :: add_key_modal where
  "add_key_init = \<lparr>vl_requests = [], vl_toasts = [], vl_reloads = 0, ak_vendor = [], ak_keyId = [],
     ak_publicKey = [], ak_add = action_init, ak_closes = 0\<rparr>"

text \<open>The browser submits a form only when its required fields are filled.\<close>

definition add_key_complete :: "add_key_modal \<Rightarrow> bool" where
  "add_key_complete s = (ak_vendor s \<noteq> [] \<and> ak_keyId s \<noteq> [] \<and> ak_publicKey s \<noteq> [])"

definition add_key_submit :: "add_key_modal \<Rightarrow> add_key_modal" where
  "add_key_submit s =
     v_send (plugins_addKeyringEntry (trim_str (ak_vendor s)) (trim_str (ak_keyId s)) (trim_str (ak_publicKey s)))
       (s\<lparr>ak_add := action_start (ak_add s)\<rparr>)"

definition add_key_end :: "ui_meta option \<Rightarrow> js_error option \<Rightarrow> add_key_modal \<Rightarrow> add_key_modal" where
  "add_key_end meta failure s =
     (let outcome = (case failure of None \<Rightarrow> Inr () | Some e \<Rightarrow> Inl e);
          s = s\<lparr>ak_add := snd (action_finish outcome (ak_add s))\<rparr>
      in case failure of
           None \<Rightarrow> (let s = v_reload (v_say ''Trusted key added'' ToastInfo s) in s\<lparr>ak_closes := ak_closes s + 1\<rparr>)
         | Some err \<Rightarrow> v_fail meta err s)"

definition add_key_footer :: "ui_meta option \<Rightarrow> add_key_modal \<Rightarrow> string option \<times> bool" where
  "add_key_footer meta s =
     (map_option (\<lambda>e. humanizeError (err_message e) meta) (ac_error (ak_add s)), \<not> ac_loading (ak_add s))"

record keyring_view = view_log +
  kr_state :: "(unit, plugin_keyring_entry list) async"
  kr_revoke :: action_state
  kr_addOpen :: bool

definition keyring_init :: keyring_view where
  "keyring_init = \<lparr>vl_requests = [plugins_listKeyring], vl_toasts = [], vl_reloads = 0,
     kr_state = async_effect () async_init, kr_revoke = action_init, kr_addOpen = False\<rparr>"

definition keyring_question :: "plugin_keyring_entry \<Rightarrow> string" where
  "keyring_question entry = ''Revoke '' @ ke_vendor entry @ ''/'' @ ke_keyId entry
     @ ''? New installs signed with this key will be rejected.''"

definition onRevoke_start :: "plugin_keyring_entry \<Rightarrow> bool \<Rightarrow> keyring_view \<Rightarrow> keyring_view" where
  "onRevoke_start entry sure s =
     (if \<not> sure then s
      else v_send (plugins_revokeKeyringEntry (ke_vendor entry) (ke_keyId entry))
             (s\<lparr>kr_revoke := action_start (kr_revoke s)\<rparr>))"

definition onRevoke_end :: "ui_meta option \<Rightarrow> js_error option \<Rightarrow> keyring_view \<Rightarrow> keyring_view" where
  "onRevoke_end meta failure s =
     (let outcome = (case failure of None \<Rightarrow> Inr () | Some e \<Rightarrow> Inl e)
      in settle_row meta ''Key revoked'' failure (s\<lparr>kr_revoke := snd (action_finish outcome (kr_revoke s))\<rparr>))"

interpretation keyring_revoking: row_action "onRevoke_start entry True" "onRevoke_end meta"
  "plugins_revokeKeyringEntry (ke_vendor entry) (ke_keyId entry)" "''Key revoked''" for meta entry
  by unfold_locales
    (simp_all add: onRevoke_start_def onRevoke_end_def settle_row_def v_send_def v_say_def v_reload_def v_fail_def
      Let_def split: option.splits)

text \<open>A row: the key's name, its shortened text, its badge, and whether it has a button and it is live.\<close>

definition keyring_row :: "keyring_view \<Rightarrow> plugin_keyring_entry \<Rightarrow> string \<times> string \<times> badge \<times> bool option" where
  "keyring_row s entry =
     (let revoked = truthy_str (ke_revokedAt entry)
      in (ke_keyId entry, truncateKey (ke_publicKey entry) 32, if revoked then BadgeOff else BadgeOk,
          if revoked then None else Some (\<not> ac_loading (kr_revoke s))))"

datatype keyring_panel = KeyringLoading | KeyringFailed string | KeyringEmpty
  | KeyringGroups "(string \<times> (string \<times> string \<times> badge \<times> bool option) list) list"

definition keyring_shown :: "(string \<Rightarrow> string \<Rightarrow> int) \<Rightarrow> ui_meta option \<Rightarrow> keyring_view \<Rightarrow> keyring_panel" where
  "keyring_shown lc meta s =
     (let groups = groupByVendor lc (nullish (as_data (kr_state s)) [])
      in if as_loading (kr_state s) \<and> as_data (kr_state s) = None then KeyringLoading
         else case as_error (kr_state s) of
           Some e \<Rightarrow> KeyringFailed (humanizeError (err_message e) meta)
         | None \<Rightarrow> (if groups = [] then KeyringEmpty
                    else KeyringGroups (map (\<lambda>(vendor, keys). (vendor, map (keyring_row s) keys)) groups)))"

section \<open>The card of the install settings\<close>

definition tokenBadge :: "bool \<Rightarrow> badge \<times> string" where
  "tokenBadge configured = (if configured then (BadgeOk, ''configured'') else (BadgeOff, ''not set''))"

fun trust_mode_text :: "trust_mode \<Rightarrow> string" where
  "trust_mode_text Strict = ''strict''"
| "trust_mode_text Community = ''community''"
| "trust_mode_text Dev = ''dev''"

definition settings_rows :: "plugin_install_settings \<Rightarrow> (string \<times> string) list" where
  "settings_rows st =
     [(''Remote install'', if ps_remote_install_enabled st then ''enabled'' else ''disabled''),
      (''Trust mode'', trust_mode_text (ps_trust_mode st)),
      (''GitHub token'', snd (tokenBadge (ps_github_token_configured st))),
      (''GitLab token'', snd (tokenBadge (ps_gitlab_token_configured st))),
      (''Allow unsigned'', if ps_allow_unsigned st then ''yes'' else ''no''),
      (''Docker build (G2b)'', if ps_build_enabled st then ''enabled'' else ''disabled'')]
     @ (if ps_allowed_hosts st \<noteq> [] then [(''Allowed fetch hosts'', join '', '' (ps_allowed_hosts st))] else [])"

definition PluginSettingsCard :: "(unit, plugin_install_settings) async \<Rightarrow> (string \<times> string) list shown" where
  "PluginSettingsCard s = (case AsyncView None (Some ''Loading plugin settings'') s of
       ShownData st \<Rightarrow> ShownData (settings_rows st)
     | ShownLoading l \<Rightarrow> ShownLoading l | ShownError m \<Rightarrow> ShownError m | ShownEmpty \<Rightarrow> ShownEmpty)"

section \<open>What a token may be asked for\<close>

lemma groupScopes_sub:
  "set (sg_read (groupScopes ms)) \<union> set (sg_write (groupScopes ms)) \<union> set (sg_manage (groupScopes ms)) \<subseteq> set ms"
  by (auto simp: groupScopes_def Let_def)

lemma set_boxes:
  "set (boxes ms) = set (sg_read (groupScopes ms)) \<union> set (sg_write (groupScopes ms)) \<union> set (sg_manage (groupScopes ms))"
  by (force simp: boxes_def ScopePicker_def renderGroup_def Let_def)

lemma boxes_sub: "set (boxes ms) \<subseteq> set ms"
  using groupScopes_sub set_boxes by metis

lemma defaultScopes_ok: "set (defaultScopes ms) \<subseteq> set ms \<and> distinct (defaultScopes ms)"
proof (cases ms)
  case (Cons m rest)
  have "distinct READ_SCOPES" by (simp add: READ_SCOPES_def)
  then show ?thesis using groupScopes_sub [of ms]
    by (auto simp: defaultScopes_def Let_def Cons slice_def groupScopes_def)
qed (simp add: defaultScopes_def groupScopes_def slice_def Let_def)

lemma toggle_ok:
  "set v \<subseteq> set ms \<and> distinct v \<Longrightarrow> scope \<in> set (boxes ms) \<Longrightarrow>
     set (picker_toggle scope v) \<subseteq> set ms \<and> distinct (picker_toggle scope v)"
  using boxes_sub [of ms] by (auto simp: picker_toggle_def)

text \<open>A request for a token of the plugin, with a label and scopes that fit.\<close>

definition token_request :: "plugin_version \<Rightarrow> (string list \<Rightarrow> bool) \<Rightarrow> endpoint \<Rightarrow> bool" where
  "token_request p ok rq \<longleftrightarrow> (\<exists>label sc. plugins_createIntegrationToken (pv_plugin_id p) label sc None = Inr rq
     \<and> label \<noteq> [] \<and> ok sc)"

definition page_ok :: "plugin_version \<Rightarrow> (string list \<Rightarrow> bool) \<Rightarrow> mcp_view \<Rightarrow> bool" where
  "page_ok p ok s \<longleftrightarrow> mcp_plugin s = p \<and> ok (mcp_scopes s)
     \<and> (\<forall>rq \<in> set (vl_requests s). token_request p (\<lambda>sc. sc \<noteq> [] \<and> ok sc) rq)"

fun new_plugin :: "mcp_event \<Rightarrow> bool" where
  "new_plugin (McPlugin p) = True"
| "new_plugin _ = False"

text \<open>
  The contract of a rule on the scopes: the defaults follow it, and each click on a box keeps it.  Then
  every request of the page follows it.
\<close>

locale scope_rule =
  fixes p :: plugin_version and ok :: "string list \<Rightarrow> bool"
  assumes default_ok: "ok (defaultScopes (manifestCeiling p))"
    and click_ok: "ok v \<Longrightarrow> scope \<in> set (boxes (manifestCeiling p)) \<Longrightarrow> ok (picker_toggle scope v)"
begin

lemma page_step:
  assumes s: "page_ok p ok s" "mcp_can e s" "\<not> new_plugin e"
  shows "page_ok p ok (mcp_step meta origin e s)"
proof (cases e)
  case McSubmit
  have "token_request p (\<lambda>sc. sc \<noteq> [] \<and> ok sc) rq"
    if "plugins_createIntegrationToken (pv_plugin_id p) (trim_str (mcp_label s)) (mcp_scopes s) None = Inr rq" for rq
    using that s McSubmit by (auto simp: token_request_def page_ok_def create_disabled_def)
  with s McSubmit show ?thesis
    by (auto simp: page_ok_def submitCreate_start_def v_try_def v_send_def split: sum.splits)
qed (use default_ok click_ok s in \<open>auto simp: page_ok_def generate_click_def submitCreate_end_def copySnippet_def
    v_say_def v_fail_def v_reload_def Let_def split: sum.splits\<close>)

lemma page_run:
  assumes "machine_run mcp_can (mcp_step meta origin) (mcp_init p) es s" "\<forall>e \<in> set es. \<not> new_plugin e"
  shows "page_ok p ok s"
proof -
  have "page_ok p ok (mcp_init p)" using default_ok by (simp add: page_ok_def mcp_init_def)
  with assms show ?thesis
  proof (induction rule: machine_run.induct)
    case (machine_snoc es t e)
    then show ?case using page_step [of t e meta origin] by simp
  qed
qed

lemma requests_follow:
  "machine_run mcp_can (mcp_step meta origin) (mcp_init p) es s \<Longrightarrow> \<forall>e \<in> set es. \<not> new_plugin e \<Longrightarrow>
     rq \<in> set (vl_requests s) \<Longrightarrow> token_request p (\<lambda>sc. sc \<noteq> [] \<and> ok sc) rq"
  using page_run by (auto simp: page_ok_def)

end

interpretation within: scope_rule p "\<lambda>sc. set sc \<subseteq> set (manifestCeiling p) \<and> distinct sc" for p
  by unfold_locales (simp add: defaultScopes_ok, rule toggle_ok)

text \<open>The first scope of a manifest, preselected although no group has a box for it.\<close>

definition hidden_default :: "string list \<Rightarrow> string \<Rightarrow> bool" where
  "hidden_default ms x \<longleftrightarrow> sg_read (groupScopes ms) = [] \<and> slice 0 1 ms = [x] \<and> x \<notin> set (boxes ms)"

interpretation unseen: scope_rule p "\<lambda>sc. hidden_default (manifestCeiling p) x \<longrightarrow> x \<in> set sc" for p x
  by unfold_locales (auto simp: hidden_default_def defaultScopes_def picker_toggle_def Let_def)


definition demo_writer :: plugin_version where
  "demo_writer = (demo_plugin ''1.0.0'' Enabled)\<lparr>pv_manifest :=
     (pv_manifest (demo_plugin ''1.0.0'' Enabled))\<lparr>pm_permissions := Some [''filesystem:write'']\<rparr>\<rparr>"

lemma demo_writer: "manifestCeiling demo_writer = [''filesystem:write'']" "pv_plugin_id demo_writer = ''acme/x''"
  by (simp_all add: demo_writer_def demo_plugin_def manifestCeiling_def Let_def)

lemma demo_boxes: "boxes [''filesystem:write''] = []" "sg_read (groupScopes [''filesystem:write'']) = []"
  by (simp_all add: boxes_def ScopePicker_def renderGroup_def groupScopes_def READ_SCOPES_def WRITE_SCOPES_def
      MANAGE_SCOPES_def Let_def)

lemma demo_writer_run:
  "\<exists>s rq. machine_exec mcp_can (mcp_step None []) [McGenerate, McSubmit] (mcp_init demo_writer) = Some s
     \<and> vl_requests s = [rq]"
proof -
  have "trim_str ''cursor-laptop'' = ''cursor-laptop''" by code_simp
  moreover obtain rq where
    "plugins_createIntegrationToken ''acme/x'' ''cursor-laptop'' [''filesystem:write''] None = Inr rq"
    by (simp add: plugins_createIntegrationToken_def at_plugin_def pluginPath_def plugin_id_parts_def)
  ultimately show ?thesis
    by (simp add: mcp_init_def generate_click_def submitCreate_start_def create_disabled_def demo_writer
        defaultScopes_def demo_boxes slice_def v_try_def v_send_def action_init_def Let_def)
      (cases rq, auto)
qed


text \<open>
  A plugin whose manifest has no read scope gets its first permission preselected, and when that one is
  in no group of the picker, no box shows it and it cannot be taken out: every token the page asks for
  has it, whatever is clicked.
\<close>

theorem unseen_scope_always_asked:
  assumes "hidden_default (manifestCeiling p) x"
    and "machine_run mcp_can (mcp_step meta origin) (mcp_init p) es s"
    and "\<forall>e \<in> set es. \<not> new_plugin e" and "rq \<in> set (vl_requests s)"
  shows "\<exists>label sc. plugins_createIntegrationToken (pv_plugin_id p) label sc None = Inr rq \<and> x \<in> set sc
    \<and> x \<notin> set (boxes (manifestCeiling p))"
  using unseen.requests_follow [OF assms(2-4)] assms(1) unfolding token_request_def hidden_default_def by blast

theorem unseen_scope_always_asked_witness:
  "\<exists>s rq label sc. machine_exec mcp_can (mcp_step None []) [McGenerate, McSubmit] (mcp_init demo_writer) = Some s
     \<and> vl_requests s = [rq] \<and> plugins_createIntegrationToken ''acme/x'' label sc None = Inr rq
     \<and> ''filesystem:write'' \<in> set sc"
proof -
  obtain s rq where s: "machine_exec mcp_can (mcp_step None []) [McGenerate, McSubmit] (mcp_init demo_writer) = Some s"
    "vl_requests s = [rq]" using demo_writer_run by blast
  have h: "hidden_default (manifestCeiling demo_writer) ''filesystem:write''"
    by (simp add: hidden_default_def demo_writer demo_boxes slice_def)
  have "\<forall>e \<in> set [McGenerate, McSubmit]. \<not> new_plugin e" "rq \<in> set (vl_requests s)" using s(2) by simp_all
  from unseen_scope_always_asked [OF h s(1) [folded machine_run_exec] this] s show ?thesis
    unfolding demo_writer by (intro exI [of _ s] exI [of _ rq]) auto
qed

section \<open>A revoked token\<close>

fun revives :: "token_event \<Rightarrow> bool" where
  "revives (TrRow row) = (\<not> truthy_str (it_revoked_at row))"
| "revives (TrSaved (Inr u)) = True"
| "revives _ = False"

definition stuck_row :: "token_row \<Rightarrow> bool" where
  "stuck_row s \<longleftrightarrow> tr_editing s \<and> truthy_str (it_revoked_at (tr_row s))"

interpretation stuck: machine_invariant "\<lambda>e s. token_can ms e s \<and> \<not> revives e" "token_step pluginID" stuck_row
  for ms pluginID
proof
  fix s e assume "stuck_row s" "token_can ms e s \<and> \<not> revives e"
  then show "stuck_row (token_step pluginID e s)"
    by (cases e)
      (auto simp: stuck_row_def token_buttons_def token_save_start_def token_save_end_def doRevoke_start_def
        doRevoke_end_def v_try_def v_send_def v_say_def v_fail_def v_reload_def Let_def
        split: sum.splits option.splits)
qed

text \<open>
  Revoking a token while its scopes are edited leaves the picker with its Save button on the revoked row
  for good: the button that would close it is only on active rows, so that whatever is clicked, until a save
  succeeds, the row shows the picker and no other button.
\<close>

theorem revoked_row_keeps_picker:
  assumes "machine_run (token_can ms) (token_step pluginID) s es t"
    and "tr_editing s" and "truthy_str (it_revoked_at (tr_row s))" and "\<forall>e \<in> set es. \<not> revives e"
  shows "token_buttons t = None
    \<and> token_picker ms t = ScopeEdit (ScopePicker ms (tr_scopes t)) (\<not> ac_loading (tr_update t) \<and> tr_scopes t \<noteq> [])"
proof -
  have "machine_run (\<lambda>e s. token_can ms e s \<and> \<not> revives e) (token_step pluginID) s es t"
    using assms(1,4) by (intro machine_run_restrict) auto
  from stuck.inv_run [OF this] assms(2,3) have "stuck_row t" by (simp add: stuck_row_def)
  then show ?thesis by (simp add: stuck_row_def token_buttons_def token_picker_def)
qed

definition demo_token :: "string option \<Rightarrow> integration_token" where
  "demo_token revoked = \<lparr>it_id = ''t1'', it_plugin_id = ''acme/x'', it_label = ''laptop'', it_scopes = [''nginx:read''],
     it_created_under_version = None, it_created_at = ''2025-01-01'', it_expires_at = None,
     it_revoked_at = revoked, it_last_used_at = None\<rparr>"

theorem revoked_row_keeps_picker_witness:
  "\<exists>s. machine_exec (token_can [''nginx:read'']) (token_step ''acme/x'')
        [TrEdit, TrRevoke True, TrRevoked (Inr ()), TrRow (demo_token (Some ''2025-02-02''))] (token_row_init (demo_token None)) = Some s
     \<and> token_buttons s = None \<and> (\<exists>groups. token_picker [''nginx:read''] s = ScopeEdit groups True)"
proof -
  obtain s where s: "machine_exec (token_can [''nginx:read'']) (token_step ''acme/x'')
        [TrEdit, TrRevoke True, TrRevoked (Inr ()), TrRow (demo_token (Some ''2025-02-02''))] (token_row_init (demo_token None)) = Some s"
    "tr_editing s" "truthy_str (it_revoked_at (tr_row s))" "\<not> ac_loading (tr_update s)" "tr_scopes s = [''nginx:read'']"
    by (simp add: token_row_init_def demo_token_def token_buttons_def token_edit_click_def doRevoke_start_def
        doRevoke_end_def v_try_def v_send_def v_say_def v_reload_def action_start_def action_finish_def
        action_init_def truthy_str_def Let_def split: sum.splits)
  from revoked_row_keeps_picker [OF machine_nil s(2,3), of "[''nginx:read'']"] s show ?thesis by simp
qed

section \<open>The keyring by publisher\<close>

sublocale collation \<subseteq> vendors: comparator "\<lambda>a b. lc (fst a) (fst b)"
  by unfold_locales (auto intro: cmp_trans cmp_antisym)

context collation
begin

lemma vendors_sorted: "sorted_wrt (\<lambda>a b. lc (fst a) (fst b) \<le> 0) (groupByVendor lc keys)"
  by (simp add: groupByVendor_def vendors.sorted_sort_by)

end

text \<open>
  The keyring lists each key once: the publishers are those of the keys, each once and in the order of
  the locale, and the group of a publisher is exactly its keys, in the order of the server.
\<close>

theorem keyring_by_publisher:
  assumes "collation lc"
  shows "distinct (map fst (groupByVendor lc keys)) \<and> fst ` set (groupByVendor lc keys) = ke_vendor ` set keys
    \<and> sorted_wrt (\<lambda>a b. lc (fst a) (fst b) \<le> 0) (groupByVendor lc keys)
    \<and> (\<forall>(vendor, ks) \<in> set (groupByVendor lc keys). ks = filter (\<lambda>k. ke_vendor k = vendor) keys \<and> ks \<noteq> [])"
proof (intro conjI)
  show "distinct (map fst (groupByVendor lc keys))" by (simp add: groupByVendor_def)
  show "fst ` set (groupByVendor lc keys) = ke_vendor ` set keys" by (simp add: groupByVendor_def group_by_keys)
  show "sorted_wrt (\<lambda>a b. lc (fst a) (fst b) \<le> 0) (groupByVendor lc keys)"
    by (rule collation.vendors_sorted [OF assms])
  have "ks = filter (\<lambda>k. ke_vendor k = vendor) keys \<and> ks \<noteq> []" if "(vendor, ks) \<in> set (group_by ke_vendor keys)"
    for vendor ks
    using group_by_sound [OF that] by (auto simp: filter_empty_conv)
  then show "\<forall>(vendor, ks) \<in> set (groupByVendor lc keys). ks = filter (\<lambda>k. ke_vendor k = vendor) keys \<and> ks \<noteq> []"
    by (auto simp: groupByVendor_def)
qed

definition demo_key :: "string \<Rightarrow> string \<Rightarrow> plugin_keyring_entry" where
  "demo_key v k = \<lparr>ke_vendor = v, ke_keyId = k, ke_publicKey = ''AAAA'', ke_createdAt = None, ke_revokedAt = None\<rparr>"

theorem keyring_by_publisher_witness:
  "fst ` set (groupByVendor str_cmp [demo_key ''b'' ''1'', demo_key ''a'' ''2'', demo_key ''b'' ''3'']) = {''a'', ''b''}"
  unfolding conjunct1 [OF conjunct2 [OF keyring_by_publisher [OF str_order.collation_axioms]]]
  by (auto simp: demo_key_def)

end
