(* ===== verification/Code_Editor.thy ===== *)
theory Code_Editor
  imports File_Validate Files_View
begin

text \<open>
  The text editor \<open>web/src/components/CodeEditor.tsx\<close> and \<open>flattenExtensions\<close> of
  \<open>web/src/lib/editorHighlight.ts\<close>.  The editor widget itself is a library: what it makes of a text
  it is given (\<open>doc.toString()\<close> after \<open>doc: value\<close>) is the parameter \<open>held\<close> of the definitions.
\<close>

section \<open>Diagnostics\<close>

definition doc_lines :: "string \<Rightarrow> string list" where
  "doc_lines doc = split_on (CHR ''\<newline>'') doc"

text \<open>The position where the line with the index \<open>k\<close> begins.\<close>

fun line_start :: "string list \<Rightarrow> nat \<Rightarrow> nat" where
  "line_start ls 0 = 0"
| "line_start [] (Suc k) = 0"
| "line_start (l # ls) (Suc k) = length l + 1 + line_start ls k"

record diagnostic =
  dg_from :: nat
  dg_to :: nat
  dg_message :: string

definition diagnosticFromResult :: "string \<Rightarrow> validation_result \<Rightarrow> diagnostic list" where
  "diagnosticFromResult doc result =
     (let message = (if has_sub (vr_message result) ''[emerg]'' then shortenNginxError (vr_message result)
                     else vr_message result);
          lineNo = nullish_opt (vr_line result) (parseNginxErrorLine (vr_message result));
          ls = doc_lines doc
      in case lineNo of
           Some n \<Rightarrow>
             (if 1 \<le> n \<and> n \<le> length ls
              then [\<lparr>dg_from = line_start ls (n - 1), dg_to = line_start ls (n - 1) + length (ls ! (n - 1)),
                     dg_message = message\<rparr>]
              else [\<lparr>dg_from = 0, dg_to = min (length doc) 1, dg_message = message\<rparr>])
         | None \<Rightarrow> [\<lparr>dg_from = 0, dg_to = min (length doc) 1, dg_message = message\<rparr>])"

text \<open>What a run of the linter reports on the text: \<open>validate\<close> is not asked about a blank one.\<close>

definition lint_report :: "(string \<Rightarrow> js_error + validation_answer) \<Rightarrow> string \<Rightarrow> diagnostic list" where
  "lint_report validate doc =
     (if trim_str doc = [] then []
      else case validate doc of
        Inr raw \<Rightarrow> (case normalizeValidationResult raw (Some parseNginxErrorLine) of
            None \<Rightarrow> []
          | Some result \<Rightarrow> diagnosticFromResult doc result)
      | Inl err \<Rightarrow>
          (if err_name err = ''AbortError'' then []
           else [\<lparr>dg_from = 0, dg_to = min 1 (length doc), dg_message = err_message err\<rparr>]))"

section \<open>The editor as a controlled input\<close>

record editor =
  ed_doc :: string
  ed_deps :: "string option"
  ed_value :: "string option"
  ed_calls :: "string list"

definition editor_init :: editor where
  "editor_init = \<lparr>ed_doc = [], ed_deps = None, ed_value = None, ed_calls = []\<rparr>"

text \<open>The effect that builds the widget, when the language or another option has changed.\<close>

definition create_effect :: "(string \<Rightarrow> string) \<Rightarrow> string \<Rightarrow> string \<Rightarrow> editor \<Rightarrow> editor" where
  "create_effect held opts v s =
     (if ed_deps s = Some opts then s else s\<lparr>ed_doc := held v, ed_deps := Some opts\<rparr>)"

text \<open>The effect on a new value: a text that differs replaces the document, which calls \<open>onChange\<close>.\<close>

definition value_effect :: "(string \<Rightarrow> string) \<Rightarrow> string \<Rightarrow> editor \<Rightarrow> editor" where
  "value_effect held v s =
     (if ed_value s = Some v then s
      else (let s = s\<lparr>ed_value := Some v\<rparr>
            in if ed_doc s \<noteq> v then s\<lparr>ed_doc := held v, ed_calls := ed_calls s @ [held v]\<rparr> else s))"

definition editor_render :: "(string \<Rightarrow> string) \<Rightarrow> string \<Rightarrow> string \<Rightarrow> editor \<Rightarrow> editor" where
  "editor_render held opts v s = value_effect held v (create_effect held opts v s)"

text \<open>The user types: the document changes, which calls \<open>onChange\<close> with it.\<close>

definition editor_type :: "string \<Rightarrow> editor \<Rightarrow> editor" where
  "editor_type doc s = s\<lparr>ed_doc := doc, ed_calls := ed_calls s @ [doc]\<rparr>"

text \<open>
  The view around it, which keeps the text \<open>v\<close> and takes what \<open>onChange\<close> gives: it renders until a
  rendering calls \<open>onChange\<close> no more.
\<close>

fun settle_editor :: "nat \<Rightarrow> (string \<Rightarrow> string) \<Rightarrow> string \<Rightarrow> string \<Rightarrow> editor \<Rightarrow> (string \<times> editor) option" where
  "settle_editor 0 held opts v s = None"
| "settle_editor (Suc fuel) held opts v s =
     (let s' = editor_render held opts v s
      in if ed_calls s' = ed_calls s then Some (v, s')
         else settle_editor fuel held opts (last (ed_calls s')) s')"

section \<open>Extensions\<close>

text \<open>The extension values form a store: an array, an object with an \<open>extension\<close>, or another value.\<close>

datatype extension = ExtArray "nat list" | ExtObject nat | ExtLeaf

fun flatten_ext :: "nat \<Rightarrow> (nat \<Rightarrow> extension) \<Rightarrow> nat \<Rightarrow> nat list option" where
  "flatten_ext 0 heap a = None"
| "flatten_ext (Suc fuel) heap a = (case heap a of
       ExtArray items \<Rightarrow>
         (let parts = map (flatten_ext fuel heap) items
          in if None \<in> set parts then None else Some (concat (map the parts)))
     | ExtObject nested \<Rightarrow> (if nested = a then Some [a] else flatten_ext fuel heap nested)
     | ExtLeaf \<Rightarrow> Some [a])"

definition flattenExtensions :: "nat \<Rightarrow> (nat \<Rightarrow> extension) \<Rightarrow> nat option \<Rightarrow> nat list option" where
  "flattenExtensions fuel heap ext = (case ext of None \<Rightarrow> Some [] | Some a \<Rightarrow> flatten_ext fuel heap a)"

section \<open>Lines of a document\<close>

lemma split_cut: "doc = pre @ l @ post \<Longrightarrow> slice (length pre) (length pre + length l) doc = l"
  by (simp add: slice_def)

lemma line_start_cut:
  "k < length ls \<Longrightarrow> \<exists>pre post. join [c] ls = pre @ ls ! k @ post \<and> length pre = line_start ls k"
proof (induction ls k rule: line_start.induct)
  case (1 ls)
  then obtain l rest where "ls = l # rest" by (cases ls) auto
  then have "join [c] ls = [] @ l @ (if rest = [] then [] else [c] @ join [c] rest)" by (simp add: join_Cons)
  with \<open>ls = l # rest\<close> show ?case
    by (intro exI [of _ "[]"] exI [of _ "if rest = [] then [] else [c] @ join [c] rest"]) simp
next
  case (3 l ls k)
  then obtain pre post where p: "join [c] ls = pre @ ls ! k @ post" "length pre = line_start ls k" by auto
  have "join [c] (l # ls) = (l @ [c] @ pre) @ ls ! k @ post"
    using p(1) 3(2) by (subst join_Cons) auto
  with p(2) show ?case by (intro exI [of _ "l @ [c] @ pre"] exI [of _ post]) simp
qed simp

lemma doc_line:
  assumes "k < length (doc_lines doc)"
  shows "line_start (doc_lines doc) k + length (doc_lines doc ! k) \<le> length doc
    \<and> slice (line_start (doc_lines doc) k) (line_start (doc_lines doc) k + length (doc_lines doc ! k)) doc = doc_lines doc ! k"
proof -
  obtain pre post where "doc = pre @ doc_lines doc ! k @ post" "length pre = line_start (doc_lines doc) k"
    using line_start_cut [OF assms, of "CHR ''\<newline>''"] by (auto simp: doc_lines_def)
  then show ?thesis using split_cut by (metis length_append le_add1 add.assoc)
qed

lemma result_in_text:
  "d \<in> set (diagnosticFromResult doc r) \<Longrightarrow> dg_from d \<le> dg_to d \<and> dg_to d \<le> length doc"
  using doc_line [of "the (nullish_opt (vr_line r) (parseNginxErrorLine (vr_message r))) - 1" doc]
  by (auto simp: diagnosticFromResult_def Let_def split: if_splits option.splits)

lemma result_on_line:
  assumes "vr_line r = Some n" "1 \<le> n" "n \<le> length (doc_lines doc)"
  shows "\<exists>d. diagnosticFromResult doc r = [d] \<and> slice (dg_from d) (dg_to d) doc = doc_lines doc ! (n - 1)"
  using assms doc_line [of "n - 1" doc] by (simp add: diagnosticFromResult_def nullish_opt_def Let_def)

text \<open>
  C32.  The editor marks only text that is there: whatever the validator answers, every diagnostic lies within
  the document, and when the answer has a line number of the document it marks exactly that line;
  an aborted validation and a blank document report nothing.
\<close>

theorem diagnostics_in_text:
  "(\<forall>d \<in> set (lint_report validate doc). dg_from d \<le> dg_to d \<and> dg_to d \<le> length doc)
   \<and> (\<forall>r n. trim_str doc \<noteq> [] \<longrightarrow> validate doc = Inr (VResult r) \<longrightarrow> vr_line r = Some n \<longrightarrow>
        1 \<le> n \<longrightarrow> n \<le> length (doc_lines doc) \<longrightarrow>
        (\<exists>d. lint_report validate doc = [d] \<and> slice (dg_from d) (dg_to d) doc = doc_lines doc ! (n - 1)))
   \<and> (\<forall>err. validate doc = Inl err \<longrightarrow> err_name err = ''AbortError'' \<longrightarrow> lint_report validate doc = [])"
proof (intro conjI allI impI ballI)
  fix d assume "d \<in> set (lint_report validate doc)"
  then show "dg_from d \<le> dg_to d" "dg_to d \<le> length doc"
    by (auto simp: lint_report_def dest: result_in_text split: if_splits sum.splits option.splits)
next
  fix r n assume "trim_str doc \<noteq> []" "validate doc = Inr (VResult r)" "vr_line r = Some n" "1 \<le> n"
    "n \<le> length (doc_lines doc)"
  then show "\<exists>d. lint_report validate doc = [d] \<and> slice (dg_from d) (dg_to d) doc = doc_lines doc ! (n - 1)"
    using result_on_line [of r n doc] by (simp add: lint_report_def normalizeValidationResult_def)
qed (simp add: lint_report_def)

theorem diagnostics_in_text_witness:
  "\<exists>d. lint_report (\<lambda>t. Inr (VResult \<lparr>vr_message = ''no'', vr_line = Some 2\<rparr>)) (''ab'' @ CHR 0x0A # ''cd'') = [d]
     \<and> slice (dg_from d) (dg_to d) (''ab'' @ CHR 0x0A # ''cd'') = ''cd''"
proof -
  let ?v = "\<lambda>t :: string. Inr (VResult \<lparr>vr_message = ''no'', vr_line = Some 2\<rparr>) :: js_error + validation_answer"
  let ?doc = "''ab'' @ CHR 0x0A # ''cd''"
  have l: "doc_lines ?doc = [''ab'', ''cd'']" "trim_str ?doc \<noteq> []" by code_simp+
  from conjunct1 [OF conjunct2 [OF diagnostics_in_text [where validate = ?v and doc = ?doc]], rule_format, OF l(2) refl]
  show ?thesis unfolding l(1) by simp
qed

section \<open>Echoes\<close>

text \<open>The editor holds a text of its own kind, which is the value it was given last.\<close>

definition in_sync :: "(string \<Rightarrow> string) \<Rightarrow> editor \<Rightarrow> bool" where
  "in_sync held s \<longleftrightarrow> ed_value s = Some (ed_doc s) \<and> held (ed_doc s) = ed_doc s \<and> ed_deps s \<noteq> None"

lemma render_once:
  assumes "s = editor_init \<or> in_sync held s" "s' = editor_render held opts v s"
  shows "ed_doc s' = held v \<and> ed_value s' = Some v \<and> ed_deps s' = Some opts
    \<and> (ed_calls s' = ed_calls s \<and> held v = v \<or> ed_calls s' = ed_calls s @ [held v])"
  using assms
  by (auto simp: editor_render_def value_effect_def create_effect_def in_sync_def editor_init_def Let_def)

lemma render_again:
  assumes "ed_doc s = v" "ed_deps s = Some opts"
  shows "editor_render held opts v s = s\<lparr>ed_value := Some v\<rparr>"
  using assms by (cases s) (auto simp: editor_render_def value_effect_def create_effect_def Let_def)

lemma typed_text_kept:
  assumes "held t = t"
  shows "\<exists>s'. settle_editor 1 held opts t (editor_type t s) = Some (t, s') \<and> ed_doc s' = t
    \<and> ed_calls s' = ed_calls s @ [t]"
  using assms by (simp add: editor_render_def value_effect_def create_effect_def editor_type_def Let_def)

text \<open>
  C31.  The editor and the view around it settle: a new text, which the view renders and the editor answers
  with what it holds of it, takes at most one answer, after which both have the same text, so that
  no echo goes on for ever; this holds for every widget that keeps a text it once made its own.
\<close>

theorem editor_settles:
  assumes "\<And>t. held (held t) = held t" and "s = editor_init \<or> in_sync held s"
  shows "\<exists>s' n. settle_editor 2 held opts v s = Some (held v, s') \<and> in_sync held s' \<and> ed_doc s' = held v
    \<and> n \<le> 1 \<and> ed_calls s' = ed_calls s @ replicate n (held v)"
proof -
  define s1 where "s1 = editor_render held opts v s"
  note h = render_once [OF assms(2) s1_def]
  from h consider "ed_calls s1 = ed_calls s" "held v = v" | "ed_calls s1 = ed_calls s @ [held v]" by blast
  then show ?thesis
  proof cases
    case 1
    have "in_sync held s1" using h 1(2) by (simp add: in_sync_def)
    with h 1 show ?thesis
      by (intro exI [of _ s1] exI [of _ 0]) (simp add: numeral_2_eq_2 s1_def [symmetric])
  next
    case 2
    have "editor_render held opts (held v) s1 = s1\<lparr>ed_value := Some (held v)\<rparr>" using h by (simp add: render_again)
    moreover have "in_sync held (s1\<lparr>ed_value := Some (held v)\<rparr>)" using h assms(1) by (simp add: in_sync_def)
    ultimately show ?thesis using h 2
      by (intro exI [of _ "s1\<lparr>ed_value := Some (held v)\<rparr>"] exI [of _ 1])
        (simp add: numeral_2_eq_2 s1_def [symmetric] Let_def)
  qed
qed

text \<open>A widget that keeps the line feeds only.\<close>

definition demo_held :: "string \<Rightarrow> string" where
  "demo_held t = filter (\<lambda>c. code c \<noteq> 13) t"

lemma demo_held: "demo_held (demo_held t) = demo_held t"
  by (simp add: demo_held_def)

theorem editor_settles_witness:
  "\<exists>s'. settle_editor 2 demo_held ''json'' [CHR 0x0D, CHR 0x0A] editor_init = Some ([CHR 0x0A], s') \<and> ed_doc s' = [CHR 0x0A]"
  using editor_settles [of demo_held editor_init "''json''" "[CHR 0x0D, CHR 0x0A]"] demo_held
  by (auto simp: demo_held_def)

section \<open>Opening a file\<close>

text \<open>A file's text arrives, the editor is mounted on it, and its calls go to \<open>onDraft\<close>.\<close>

definition open_in_editor ::
    "(string \<Rightarrow> string) \<Rightarrow> string \<Rightarrow> file_entry \<Rightarrow> string \<Rightarrow> file_entry \<Rightarrow> files_view \<Rightarrow> files_view" where
  "open_in_editor held opts v content entry s =
     (let s = opened v (Inr (content, entry)) s
      in case settle_editor 2 held opts content editor_init of
           None \<Rightarrow> s
         | Some (t, ed) \<Rightarrow> foldl (\<lambda>s t. onDraft (fe_path v) t v s) s (ed_calls ed))"

text \<open>
  Opening a file is not always only looking at it: a text that the editor does not hold as it is, as one
  with Windows line ends, is a changed draft as soon as the editor shows it, although nothing was
  typed, and "Save all" would send it with other line ends; a text the editor holds stays clean.
\<close>

theorem opening_changes_draft:
  assumes "\<And>t. held (held t) = held t"
  shows "map_of (fv_drafts (open_in_editor held opts v content entry s)) (fe_path v) =
     Some (if held content = content then \<lparr>df_content = content, df_dirty = False, df_entry = entry\<rparr>
           else \<lparr>df_content = held content, df_dirty = True, df_entry = v\<rparr>)"
proof -
  have "\<exists>ed. settle_editor 2 held opts content editor_init = Some (held content, ed)
      \<and> ed_calls ed = (if held content = content then [] else [held content])"
    using assms [of content]
    by (simp add: numeral_2_eq_2 editor_render_def create_effect_def value_effect_def editor_init_def Let_def)
  then show ?thesis by (auto simp: open_in_editor_def opened_def onDraft_def Let_def)
qed

theorem opening_changes_draft_witness:
  "map_of (fv_drafts (open_in_editor demo_held ''text'' demo_file [CHR ''a'', CHR 0x0D, CHR 0x0A] demo_file demo_fs)) ''/f''
     = Some \<lparr>df_content = [CHR ''a'', CHR 0x0A], df_dirty = True, df_entry = demo_file\<rparr>"
  using opening_changes_draft [of demo_held "''text''" demo_file "[CHR ''a'', CHR 0x0D, CHR 0x0A]" demo_file demo_fs] demo_held
  by (simp add: demo_held_def demo_file_facts)

section \<open>Flattening\<close>

text \<open>\<open>rk\<close> ranks the values so that what a value contains is below it, an object that is its own extension apart.\<close>

definition ranked :: "(nat \<Rightarrow> extension) \<Rightarrow> (nat \<Rightarrow> nat) \<Rightarrow> bool" where
  "ranked heap rk \<longleftrightarrow> (\<forall>a. case heap a of
       ExtArray items \<Rightarrow> \<forall>b \<in> set items. rk b < rk a
     | ExtObject b \<Rightarrow> b = a \<or> rk b < rk a
     | ExtLeaf \<Rightarrow> True)"

fun is_leaf :: "(nat \<Rightarrow> extension) \<Rightarrow> nat \<Rightarrow> bool" where
  "is_leaf heap a = (case heap a of ExtArray items \<Rightarrow> False | ExtObject b \<Rightarrow> b = a | ExtLeaf \<Rightarrow> True)"

lemma flatten_ranked:
  assumes "ranked heap rk" and "rk a < fuel"
  shows "\<exists>xs. flatten_ext fuel heap a = Some xs \<and> (\<forall>x \<in> set xs. is_leaf heap x)"
  using assms(2)
proof (induction fuel arbitrary: a)
  case (Suc fuel)
  from assms(1) have r: "case heap a of ExtArray items \<Rightarrow> \<forall>b \<in> set items. rk b < rk a
     | ExtObject b \<Rightarrow> b = a \<or> rk b < rk a | ExtLeaf \<Rightarrow> True" unfolding ranked_def by blast
  show ?case
  proof (cases "heap a")
    case (ExtArray items)
    have "\<exists>xs. flatten_ext fuel heap b = Some xs \<and> (\<forall>x \<in> set xs. is_leaf heap x)" if "b \<in> set items" for b
    proof (rule Suc.IH)
      have "rk b < rk a" using r that by (simp add: ExtArray)
      with Suc.prems show "rk b < fuel" by linarith
    qed
    then have "None \<notin> set (map (flatten_ext fuel heap) items)"
      "\<forall>x \<in> set (concat (map the (map (flatten_ext fuel heap) items))). is_leaf heap x" by force+
    with ExtArray show ?thesis by (simp add: Let_def)
  next
    case (ExtObject b)
    with r Suc show ?thesis by (cases "b = a") auto
  qed simp
qed simp

text \<open>
  Flattening the extensions of the editor ends: arrays and wrapped extensions of any shape give the list
  of their leaves, and a value that is its own extension is a leaf; the recursion only needs that no
  other value contains itself, for two values that wrap each other are unwrapped for ever.
\<close>

theorem flatten_terminates:
  assumes "ranked heap rk" and "rk a < fuel"
  shows "(\<exists>xs. flattenExtensions fuel heap (Some a) = Some xs \<and> (\<forall>x \<in> set xs. is_leaf heap x))
    \<and> (\<forall>n. flattenExtensions n (\<lambda>x. if x = 0 then ExtObject 1 else ExtObject 0) (Some 0) = None)"
proof -
  let ?h = "\<lambda>x :: nat. if x = 0 then ExtObject 1 else ExtObject 0"
  have "flatten_ext n ?h 0 = None \<and> flatten_ext n ?h 1 = None" for n
    by (induction n) simp_all
  then show ?thesis using flatten_ranked [OF assms] by (simp add: flattenExtensions_def)
qed

definition demo_ext :: "nat \<Rightarrow> extension" where
  "demo_ext a = (if a = 0 then ExtArray [1, 2] else if a = 1 then ExtObject 2 else if a = 2 then ExtObject 2 else ExtLeaf)"

theorem flatten_terminates_witness:
  "\<exists>xs. flattenExtensions 3 demo_ext (Some 0) = Some xs \<and> flattenExtensions 3 demo_ext (Some 0) = Some [2, 2]"
proof -
  have "ranked demo_ext (\<lambda>a. 2 - a)" "(2 :: nat) - 0 < 3" by (auto simp: ranked_def demo_ext_def)
  from flatten_terminates [OF this] show ?thesis
    by (auto simp: flattenExtensions_def demo_ext_def numeral_3_eq_3)
qed

end
