(* ===== verification/Files_Page.thy ===== *)
theory Files_Page
  imports View_Kit Files_View Code_Editor
begin

text \<open>
  The page of the file manager, \<open>web/src/views/Files.tsx\<close>, around the state and the handlers of
  \<open>Files_View\<close>: the dialog of file actions as it is submitted, the viewer, the toolbar, the rows, and where
  a drop goes.
\<close>

section \<open>The dialog of file actions\<close>

record action_modal = view_log +
  am_action :: modal_action
  am_form :: file_action
  am_run :: action_state
  am_dones :: nat

definition action_modal_init :: "modal_action \<Rightarrow> string \<Rightarrow> file_entry option \<Rightarrow> action_modal" where
  "action_modal_init action dir entry = \<lparr>vl_requests = [], vl_toasts = [], vl_reloads = 0, am_action = action,
     am_form = file_action_init dir entry, am_run = action_init, am_dones = 0\<rparr>"

text \<open>The language and the extension of the file that would be made.\<close>

definition createLanguage :: "string \<Rightarrow> file_action \<Rightarrow> editor_language" where
  "createLanguage dir a = detectLanguage (createPath dir a) None (Some (fa_content a))"

definition create_extension :: "file_action \<Rightarrow> string" where
  "create_extension a = last (split_on (CHR ''.'') (fa_name a))"

definition validate_delay :: "editor_language \<Rightarrow> nat" where
  "validate_delay l = (if l = LJson \<or> l = LYaml then 400 else 800)"

datatype action_field = FieldName | FieldContent | FieldFiles | FieldDestination string | FieldMode

definition action_fields :: "modal_action \<Rightarrow> action_field list" where
  "action_fields action =
     (if action = ActFile \<or> action = ActFolder then [FieldName] else [])
     @ (if action = ActFile then [FieldContent] else [])
     @ (if action = ActUpload then [FieldFiles] else [])
     @ (if action = ActCopy \<or> action = ActMove \<or> action = ActExtract
        then [FieldDestination (if action = ActExtract then ''Destination directory'' else ''Destination path'')] else [])
     @ (if action = ActChmod then [FieldMode] else [])"

text \<open>The browser submits the form only when its required fields are filled.\<close>

definition action_complete :: "action_modal \<Rightarrow> bool" where
  "action_complete s =
     list_all (\<lambda>f. case f of
         FieldName \<Rightarrow> fa_name (am_form s) \<noteq> [] | FieldContent \<Rightarrow> True | FieldFiles \<Rightarrow> fa_uploads (am_form s) \<noteq> []
       | FieldDestination l \<Rightarrow> fa_toPath (am_form s) \<noteq> [] | FieldMode \<Rightarrow> fa_mode (am_form s) \<noteq> [])
       (action_fields (am_action s))"

definition action_submit :: "string \<Rightarrow> file_entry option \<Rightarrow> action_modal \<Rightarrow> action_modal" where
  "action_submit dir entry s =
     (let s' = s\<lparr>am_run := action_start (am_run s)\<rparr>
      in case file_action_call (am_action s) dir entry (am_form s) of
           Some call \<Rightarrow> v_send call s'
         | None \<Rightarrow> s')"

definition action_end :: "js_error option \<Rightarrow> action_modal \<Rightarrow> action_modal" where
  "action_end failure s =
     (let outcome = (case failure of None \<Rightarrow> Inr () | Some e \<Rightarrow> Inl e);
          s = s\<lparr>am_run := snd (action_finish outcome (am_run s))\<rparr>
      in case failure of
           None \<Rightarrow>
             (let s = v_say (if am_action s = ActUpload
                             then dec_nat (length (fa_uploads (am_form s))) @ '' file(s) uploaded''
                             else ''File action completed'') ToastInfo s
              in s\<lparr>am_dones := am_dones s + 1\<rparr>)
         | Some err \<Rightarrow> v_fail None err s)"

section \<open>The viewer\<close>

datatype viewer_pane = PaneNone | PaneImage string string | PaneInfo string string string string
  | PaneWait | PaneEditor string string "diagnostic_kind \<times> string" bool string editor_language nat

definition FileViewerContent ::
    "(string \<Rightarrow> string option) \<Rightarrow> (string \<Rightarrow> yaml_error option) \<Rightarrow> file_entry option \<Rightarrow> draft option \<Rightarrow> bool \<Rightarrow> viewer_pane" where
  "FileViewerContent parse yaml selected draft saving = (case selected of
       None \<Rightarrow> PaneNone
     | Some e \<Rightarrow>
         (let content = nullish (map_option df_content draft) [];
              lang = detectLanguage (fe_path e) (Some (entry_hint e)) (Some content)
          in if fe_kind e = ''image'' then PaneImage (files_rawUrl (fe_path e)) (fe_name e)
             else if \<not> fe_editable e then
               PaneInfo (entryTone e) (fe_kind e) (fe_name e)
                 (if fe_archive e then ''Archive ready to extract from the action bar.''
                  else ''This file type is not editable in the browser.'')
             else case draft of
               None \<Rightarrow> PaneWait
             | Some d \<Rightarrow> PaneEditor (fe_name e) (fe_path e) (lintContent parse yaml (Some e) content)
                 (\<not> saving \<and> df_dirty d) content lang (validate_delay lang)))"

section \<open>The page\<close>

record files_page =
  fp_view :: files_view
  fp_modal :: "modal_action option"
  fp_dragOver :: bool
  fp_moveTarget :: string

definition files_page_init :: "files_view \<Rightarrow> files_page" where
  "files_page_init v = \<lparr>fp_view = v, fp_modal = None, fp_dragOver = False, fp_moveTarget = []\<rparr>"

definition setModal :: "modal_action \<Rightarrow> files_page \<Rightarrow> files_page" where
  "setModal a p = p\<lparr>fp_modal := Some a\<rparr>"

text \<open>The buttons of a row for its actions: they select the entry and open the dialog.\<close>

definition row_modal :: "modal_action \<Rightarrow> file_entry \<Rightarrow> files_page \<Rightarrow> files_page" where
  "row_modal a e p = p\<lparr>fp_view := (fp_view p)\<lparr>fv_selected := Some e\<rparr>, fp_modal := Some a\<rparr>"

definition row_actions :: "file_entry \<Rightarrow> modal_action list" where
  "row_actions e = [ActCopy, ActMove] @ (if fe_archive e then [ActExtract] else []) @ [ActChmod]"

definition modal_done :: "files_page \<Rightarrow> files_page" where
  "modal_done p = p\<lparr>fp_modal := None, fp_view := reload_files (fp_view p)\<rparr>"

definition submit_path :: "files_page \<Rightarrow> files_page" where
  "submit_path p = p\<lparr>fp_view := go_to (or_str (fv_typed (fp_view p)) ''/'') (fp_view p)\<rparr>"

record toolbar =
  tb_up :: bool
  tb_copy :: bool
  tb_move :: bool
  tb_save :: bool
  tb_delete :: bool

text \<open>Which buttons of the toolbar can be clicked.\<close>

definition files_toolbar :: "action_state \<Rightarrow> action_state \<Rightarrow> files_view \<Rightarrow> toolbar" where
  "files_toolbar saveBatch batchDelete s =
     (let at_root = (fv_current s = ''/''); chosen = (selectedEntries s \<noteq> [])
      in \<lparr>tb_up = \<not> at_root, tb_copy = (chosen \<and> \<not> at_root), tb_move = (chosen \<and> \<not> at_root),
          tb_save = (dirtyDrafts s \<noteq> [] \<and> \<not> ac_loading saveBatch),
          tb_delete = (selectedPaths s \<noteq> [] \<and> \<not> ac_loading batchDelete)\<rparr>)"

definition all_checked :: "files_view \<Rightarrow> bool" where
  "all_checked s = (fv_rows s \<noteq> [] \<and> length (selectedPaths s) = length (fv_rows s))"

record file_row =
  fr_checked :: bool
  fr_tone :: string
  fr_name :: string
  fr_path :: string
  fr_kind :: string
  fr_mode :: string
  fr_modified :: string
  fr_size :: string
  fr_open :: string
  fr_actions :: "modal_action list"
  fr_classes :: "bool \<times> bool"

text \<open>\<open>date\<close> is \<open>formatDate\<close> and \<open>bytes\<close> is \<open>formatBytes\<close> in the locale.\<close>

definition file_row_of :: "(string \<Rightarrow> string) \<Rightarrow> (int \<Rightarrow> string) \<Rightarrow> files_page \<Rightarrow> file_entry \<Rightarrow> file_row" where
  "file_row_of date bytes p e =
     \<lparr>fr_checked = (map_of (fv_checked (fp_view p)) (fe_path e) = Some True), fr_tone = entryTone e,
      fr_name = fe_name e,
      fr_path = (if fe_symlink e then fe_path e @ '' -> '' @ nullish (fe_target e) ''undefined'' else fe_path e),
      fr_kind = displayKind (fe_path e) (fe_kind e) (Some (fe_extension e)), fr_mode = fe_mode e,
      fr_modified = date (fe_mod_time e), fr_size = (if fe_is_dir e then ''dir'' else bytes (fe_size e)),
      fr_open = (if fe_is_dir e then ''Open folder'' else ''Open file''), fr_actions = row_actions e,
      fr_classes = (map_option fe_path (fv_viewer (fp_view p)) = Some (fe_path e), fp_moveTarget p = fe_path e)\<rparr>"

text \<open>The roots in the side bar: label, path, whether it is the current one, whether a drag is over it.\<close>

definition root_buttons :: "ui_meta option \<Rightarrow> files_page \<Rightarrow> (string \<times> string \<times> bool \<times> bool) list" where
  "root_buttons meta p = map (\<lambda>r. (nullish (root_label r) (root_path r), root_path r,
      fv_current (fp_view p) = root_path r, fp_moveTarget p = root_path r)) (fileRootsFromMeta meta)"

definition archive_tools :: "file_tools option \<Rightarrow> (string \<times> bool) list" where
  "archive_tools tools = [(''zip'', truthy_bool (map_option ft_unzip tools)), (''tar'', truthy_bool (map_option ft_tar tools)),
     (''gz'', truthy_bool (map_option ft_gzip tools))]"

section \<open>Drag and drop\<close>

text \<open>What is dragged: files from outside, or a path of the panel (\<open>text/gosite-path\<close>), or neither.\<close>

record drag =
  dr_external :: bool
  dr_files :: "string list"
  dr_path :: "string option"

text \<open>Where: the list around the rows, a root, a crumb, or a row.\<close>

datatype drop_spot = SpotArea | SpotRoot string | SpotCrumb string | SpotRow file_entry

text \<open>The data of a drag that is not internal are the empty text.\<close>

definition dragged :: "drag \<Rightarrow> string option" where
  "dragged d = Some (nullish (dr_path d) [])"

text \<open>A drag over a spot; the events of the inner spots go on to the list around them.\<close>

definition area_over :: "drag \<Rightarrow> files_page \<Rightarrow> files_page" where
  "area_over d p = (if dr_external d then p\<lparr>fp_dragOver := True\<rparr> else p)"

definition drag_over :: "drop_spot \<Rightarrow> drag \<Rightarrow> files_page \<Rightarrow> files_page" where
  "drag_over spot d p = area_over d (case spot of
       SpotArea \<Rightarrow> p
     | SpotRoot r \<Rightarrow> (if dr_external d \<or> dr_path d \<noteq> None then p\<lparr>fp_moveTarget := r\<rparr> else p)
     | SpotCrumb c \<Rightarrow> (if dr_path d \<noteq> None then p\<lparr>fp_moveTarget := c\<rparr> else p)
     | SpotRow e \<Rightarrow> (if fe_is_dir e \<and> (dr_external d \<or> dr_path d \<noteq> None) then p\<lparr>fp_moveTarget := fe_path e\<rparr> else p))"

definition drag_leave :: "drop_spot \<Rightarrow> files_page \<Rightarrow> files_page" where
  "drag_leave spot p = (case spot of
       SpotArea \<Rightarrow> p\<lparr>fp_dragOver := False\<rparr>
     | _ \<Rightarrow> p\<lparr>fp_moveTarget := [], fp_dragOver := False\<rparr>)"

text \<open>The handlers of a drop: \<open>moveDroppedPath\<close>, \<open>uploadDropped\<close> and \<open>dropExternalOnDirectory\<close>.\<close>

definition drop_move :: "drag \<Rightarrow> string \<Rightarrow> files_page \<Rightarrow> files_page" where
  "drop_move d dest p = p\<lparr>fp_moveTarget := [], fp_dragOver := False,
     fp_view := moveDroppedPath (dragged d) dest (fp_view p)\<rparr>"

definition drop_upload :: "drag \<Rightarrow> files_page \<Rightarrow> files_page" where
  "drop_upload d p = p\<lparr>fp_dragOver := False,
     fp_view := uploadDropped (dr_external d) (dr_files d) (fv_current (fp_view p)) (fp_view p)\<rparr>"

definition drop_external :: "drag \<Rightarrow> string \<Rightarrow> files_page \<Rightarrow> files_page" where
  "drop_external d dest p = p\<lparr>fp_dragOver := False,
     fp_view := uploadDropped (dr_external d) (dr_files d) dest (fp_view p)\<rparr>"

text \<open>Which handler a drop reaches: one on a row that is not a directory goes on to the list.\<close>

definition drop_on :: "drop_spot \<Rightarrow> drag \<Rightarrow> files_page \<Rightarrow> files_page" where
  "drop_on spot d p = (case spot of
       SpotArea \<Rightarrow> drop_upload d p
     | SpotRoot r \<Rightarrow> (if dr_external d then drop_external d r p else drop_move d r p)
     | SpotCrumb c \<Rightarrow> drop_move d c p
     | SpotRow e \<Rightarrow>
         (if \<not> fe_is_dir e then drop_upload d p
          else if dr_external d then drop_external d (fe_path e) p else drop_move d (fe_path e) p))"

text \<open>The answers: a message and a reload, after a success only; a failure is thrown away.\<close>

definition upload_answered :: "nat \<Rightarrow> js_error option \<Rightarrow> files_page \<Rightarrow> files_page" where
  "upload_answered n failure p = (case failure of
       None \<Rightarrow> p\<lparr>fp_view := reload_files (say (dec_nat n @ '' file(s) uploaded'') (fp_view p))\<rparr>
     | Some e \<Rightarrow> p)"

definition move_answered :: "js_error option \<Rightarrow> files_page \<Rightarrow> files_page" where
  "move_answered failure p = (case failure of
       None \<Rightarrow> p\<lparr>fp_view := reload_files (say ''Path moved'' (fp_view p))\<rparr>
     | Some e \<Rightarrow> p)"

section \<open>Where a drop goes\<close>

definition drop_dir :: "drop_spot \<Rightarrow> string \<Rightarrow> string" where
  "drop_dir spot current = (case spot of
       SpotArea \<Rightarrow> current | SpotRoot r \<Rightarrow> r | SpotCrumb c \<Rightarrow> c
     | SpotRow e \<Rightarrow> if fe_is_dir e then fe_path e else current)"

lemma moveDroppedPath_requests:
  "fv_requests (moveDroppedPath mp dest v) = fv_requests v @
     (case mp of None \<Rightarrow> []
      | Some q \<Rightarrow> if q = [] \<or> q = dest \<or> parentPath q = dest then []
          else [files_action ''move'' q [(''to_path'', JStr (joinPath dest (baseName q)))]])"
  by (auto simp: moveDroppedPath_def ask_def split: option.splits)

lemma uploadDropped_requests:
  "fv_requests (uploadDropped ext fs dest v) = fv_requests v @ (if ext \<and> fs \<noteq> [] then [files_uploadMany dest fs] else [])"
  by (simp add: uploadDropped_def ask_def)

lemmas drop_defs = drop_on_def drop_dir_def drop_upload_def drop_external_def drop_move_def dragged_def

text \<open>
  A drop does one thing at most, and the right one: files from outside are uploaded to the directory they
  are dropped on, a path of the panel is moved into it under its own name unless it is that directory or
  already lies in it, and never is one treated as the other.
\<close>

theorem drop_effect:
  "fv_requests (fp_view (drop_on spot d p)) = fv_requests (fp_view p)
   \<or> dr_external d \<and> dr_files d \<noteq> []
      \<and> fv_requests (fp_view (drop_on spot d p)) = fv_requests (fp_view p)
          @ [files_uploadMany (drop_dir spot (fv_current (fp_view p))) (dr_files d)]
   \<or> (\<exists>q. dr_path d = Some q \<and> q \<noteq> drop_dir spot (fv_current (fp_view p))
      \<and> parentPath q \<noteq> drop_dir spot (fv_current (fp_view p))
      \<and> fv_requests (fp_view (drop_on spot d p)) = fv_requests (fp_view p)
          @ [files_action ''move'' q [(''to_path'', JStr (joinPath (drop_dir spot (fv_current (fp_view p))) (baseName q)))]])"
  by (cases "dr_path d"; cases spot)
    (auto simp: drop_defs moveDroppedPath_requests uploadDropped_requests)

text \<open>
  Files from outside that are dropped on a crumb are lost: the page marks itself as a place to drop them,
  but the crumb only takes paths of the panel, and it keeps the drop from the list around it.
\<close>

theorem crumb_drop_lost:
  assumes "dr_external d" and "dr_path d = None"
  shows "fp_dragOver (drag_over (SpotCrumb c) d p)
    \<and> fv_requests (fp_view (drop_on (SpotCrumb c) d p)) = fv_requests (fp_view p)"
  using assms by (simp add: drag_over_def area_over_def drop_defs moveDroppedPath_requests)

theorem crumb_drop_lost_witness:
  "fv_requests (fp_view (drop_on (SpotCrumb ''/'') \<lparr>dr_external = True, dr_files = [''a.txt''], dr_path = None\<rparr>
     (files_page_init demo_fs))) = []"
  using crumb_drop_lost [of "\<lparr>dr_external = True, dr_files = [''a.txt''], dr_path = None\<rparr>" "''/''" "files_page_init demo_fs"]
  by (simp add: files_page_init_def demo_fs_def files_init_def)

section \<open>Deleting an edited file\<close>

text \<open>
  Deleting a file does not forget its draft, nor its check mark: after the deletion of a file with
  unsaved text succeeded, the path stays among the selected ones, and "Save all" sends the draft of
  the file that is gone.  A server that refuses to save a missing file refuses every such batch: the
  failure changes no draft, so that the next attempt sends the very same batch.
\<close>

theorem deleted_draft_blocks_save:
  assumes "map_of (fv_drafts s) (fe_path e) = Some d" and "df_dirty d" and "fe_path (df_entry d) = fe_path e"
  shows "fv_disk (deleted None e s) (fe_path e) = None
    \<and> selectedPaths (deleted None e s) = selectedPaths s
    \<and> (fe_path e, df_content d) \<in> set (batch_items (deleted None e s))
    \<and> batch_items (batch_end (Some err) (batch_start (deleted None e s))) = batch_items (deleted None e s)"
proof -
  have t: "fv_drafts (deleted None e s) = fv_drafts s" "fv_disk (deleted None e s) (fe_path e) = None"
    "selectedPaths (deleted None e s) = selectedPaths s"
    by (simp_all add: deleted_def say_def reload_files_def selectedPaths_def)
  have "d \<in> set (filter df_dirty (map snd (fv_drafts s)))"
    using map_of_SomeD [OF assms(1)] assms(2) by force
  then have "(fe_path e, df_content d) \<in> set (batch_items (deleted None e s))"
    using assms(3) by (force simp: batch_items_def dirtyDrafts_def t(1))
  with t show ?thesis
    by (simp add: batch_end_def batch_start_def ask_def say_def batch_items_def dirtyDrafts_def)
qed

theorem deleted_draft_blocks_save_witness:
  "(''/f'', ''new'') \<in> set (batch_items (deleted None demo_file (onDraft ''/f'' ''new'' demo_file demo_fs)))"
proof -
  have "map_of (fv_drafts (onDraft ''/f'' ''new'' demo_file demo_fs)) (fe_path demo_file)
      = Some \<lparr>df_content = ''new'', df_dirty = True, df_entry = demo_file\<rparr>"
    by (simp add: onDraft_def demo_file_facts)
  from deleted_draft_blocks_save [OF this] show ?thesis by (simp add: demo_file_facts)
qed

end
