(* ===== verification/Plugins_Page.thy ===== *)
theory Plugins_Page
  imports View_Kit Plugin_Install Layout
begin

text \<open>
  What the page of the plugins shows, \<open>web/src/views/Plugins.tsx\<close>: the preview card and the fields of the
  install dialog, the rows of the registry, the panel of details, the tabs, and the page of a contributed
  route with its own Enable button.
\<close>

section \<open>The install dialog\<close>

record preview_card =
  pc_badges :: "string list"
  pc_signed :: bool
  pc_facts :: "(string \<times> string) list"
  pc_hook_chips :: "string list"
  pc_perm_chips :: "(string \<times> bool) list"
  pc_acked :: bool

definition InstallPreviewCard :: "plugin_resolve_preview \<Rightarrow> bool \<Rightarrow> preview_card" where
  "InstallPreviewCard preview permissionsAck =
     (let visibleHooks = take 5 (pp_hooks preview);
          extraHooks = length (pp_hooks preview) - length visibleHooks
      in \<lparr>pc_badges = [pp_plugin_id preview, ''v'' @ pp_version preview, ''tier '' @ dec_int (pp_tier preview)],
          pc_signed = pp_signed preview,
          pc_facts = [(''Min GoSite'', or_str_opt (pp_minGoSiteVersion preview) em_dash),
            (''SHA-256'', truncateSha256 (pp_sha256 preview)),
            (''Size'', formatBytes (Some (of_int (pp_size preview))) 1),
            (''Source'', pp_source_type preview @ '' '' @ middle_dot @ '' '' @ pp_source_ref preview)],
          pc_hook_chips = visibleHooks @ (if extraHooks > 0 then [dec_nat extraHooks @ '' more''] else [])
            @ (if pp_hooks preview = [] then [em_dash] else []),
          pc_perm_chips = (if pp_permissions preview = [] then [(em_dash, False)]
            else map (\<lambda>p. (p, p \<in> set HOST_CRITICAL_PERMS)) (pp_permissions preview)),
          pc_acked = permissionsAck\<rparr>)"

definition install_tabs :: "install_modal \<Rightarrow> (string \<times> install_mode \<times> bool) list" where
  "install_tabs s =
     (let tab = (\<lambda>label m. (label, m, im_mode s = m)) in
      [tab ''Artifact'' MArtifact]
      @ (if im_remoteEnabled s
         then [tab ''URL'' MUrl, tab ''GitHub'' MGithub, tab ''GitLab'' MGitlab, tab ''Catalog'' MCatalog] else [])
      @ [tab ''Manifest JSON'' MManifest])"

text \<open>The fields of a tab, with their values, and whether the browser requires them; the digest comes last.\<close>

definition digest_field :: "install_modal \<Rightarrow> string \<times> string \<times> bool" where
  "digest_field s = (''SHA-256'', im_sha256 s, False)"

definition gitlab_fields :: "install_modal \<Rightarrow> (string \<times> string \<times> bool) list" where
  "gitlab_fields s = [(''Repository'', im_gitlabRepo s, True), (''Tag'', im_gitlabTag s, True)]"

definition install_fields :: "install_modal \<Rightarrow> (string \<times> string \<times> bool) list" where
  "install_fields s = (case im_mode s of
       MArtifact \<Rightarrow> [(''Artifact'', nullish (im_file s) [], True), digest_field s]
     | MManifest \<Rightarrow> [(''Manifest JSON'', im_manifest s, True), digest_field s]
     | MUrl \<Rightarrow> [(''HTTPS URL'', im_url s, True), (''SHA-256'', im_urlSha256 s, True)]
     | MGithub \<Rightarrow> [(''Repository'', im_repo s, True), (''Tag'', im_tag s, True)]
     | MGitlab \<Rightarrow> gitlab_fields s
     | MCatalog \<Rightarrow> [(''Search catalog'', im_catalogQuery s, False)])"

definition install_complete :: "install_modal \<Rightarrow> bool" where
  "install_complete s = list_all (\<lambda>(label, v, required). required \<longrightarrow> v \<noteq> []) (install_fields s)"

text \<open>The catalog: its entries, each with its badge and whether it is the chosen one.\<close>

definition catalog_items :: "plugin_catalog_entry list option \<Rightarrow> bool \<Rightarrow> install_modal \<Rightarrow> (string \<times> bool \<times> string \<times> bool) list \<times> string option" where
  "catalog_items entries loading s =
     (let es = nullish entries [] in
      (map (\<lambda>e. (ce_plugin_id e, truthy_bool (ce_bundled e), or_str (ce_description e) (ce_name e),
            map_option ce_plugin_id (im_catalogEntry s) = Some (ce_plugin_id e))) es,
       if \<not> loading \<and> es = [] then Some ''No catalog entries. Add plugins to the host catalog JSON.'' else None))"

definition catalog_notice :: "plugin_version list \<Rightarrow> install_modal \<Rightarrow> string option" where
  "catalog_notice rows s =
     (if im_catalogEntry s \<noteq> None \<and> catalogBundled s
      then Some (if catalogInstalled rows s
        then ''Built-in with GoSite '' @ em_dash @ '' already in the registry (installed, disabled by default). Close this dialog and Enable it from the plugin list.''
        else ''Built-in with GoSite '' @ em_dash @ '' seeded on init when bundled artifacts are present. Run gosite init (or make dev-api-setup), then Enable from the plugin list. Remote catalog install is not required.'')
      else None)"

text \<open>Whether the tab has a Resolve button, and whether it can be clicked.\<close>

definition resolve_button :: "install_modal \<Rightarrow> bool option" where
  "resolve_button s =
     (if im_mode s \<in> {MUrl, MGithub, MGitlab}
         \<or> (im_mode s = MCatalog \<and> im_catalogEntry s \<noteq> None \<and> \<not> catalogBundled s)
      then Some (resolveEnabled s) else None)"

definition preview_shown :: "install_modal \<Rightarrow> preview_card option" where
  "preview_shown s =
     (if isRemoteMode (im_mode s) \<and> \<not> catalogBundled s
      then map_option (\<lambda>p. InstallPreviewCard p (im_permissionsAck s)) (im_preview s) else None)"

definition remote_notice :: "bool \<Rightarrow> install_modal \<Rightarrow> string option" where
  "remote_notice loading s =
     (if \<not> loading \<and> \<not> im_remoteEnabled s
      then Some ''Remote install (URL and GitHub) is disabled on this host. Use Artifact or Manifest JSON.'' else None)"

section \<open>The registry\<close>

record registry_row =
  rr_version :: string
  rr_api :: string
  rr_source :: string
  rr_title :: "string option"
  rr_ref :: "string option"
  rr_state :: "badge \<times> string"
  rr_capabilities :: "string list"
  rr_links :: "(string \<times> string option) list"
  rr_failure :: "(plugin_failure_class \<times> bool \<times> string) option"
  rr_updated :: string
  rr_actions :: "plugin_action list"

text \<open>A link of the interface; a click on one without a route does nothing.\<close>

definition route_link :: "plugin_sidebar_entry \<Rightarrow> string \<times> string option" where
  "route_link entry =
     (or_str (or_str_opt (se_label entry) (nullish (se_route entry) [])) [],
      if truthy_str (se_route entry) then se_route entry else None)"

definition failure_shown :: "plugin_version \<Rightarrow> (plugin_failure_class \<times> bool \<times> string) option" where
  "failure_shown plugin = (case pv_failure_class plugin of
       None \<Rightarrow> None
     | Some NoFailure \<Rightarrow> None
     | Some c \<Rightarrow> Some (c, c = CompensationFailed, nullish (pv_failure_message plugin) []))"

definition registry_row_of :: "(string \<Rightarrow> string) \<Rightarrow> plugin_group \<Rightarrow> plugin_version \<Rightarrow> registry_row" where
  "registry_row_of relative grp plugin =
     \<lparr>rr_version = pv_version plugin, rr_api = ''api '' @ pv_api_version plugin,
      rr_source = sourceDisplayLabel (pv_source_type plugin),
      rr_title = (if truthy_str (pv_source_ref plugin) then Some (truncateText (the (pv_source_ref plugin)) 80) else None),
      rr_ref = (if truthy_str (pv_source_ref plugin) then Some (truncateText (the (pv_source_ref plugin)) 24) else None),
      rr_state = (stateKind (pv_state plugin), stateLabel (plugin_state_text (pv_state plugin))),
      rr_capabilities = (if capabilityLabels plugin = [] then [em_dash] else capabilityLabels plugin),
      rr_links = map route_link (sidebarEntries plugin), rr_failure = failure_shown plugin,
      rr_updated = relative (pv_updated_at plugin), rr_actions = PluginActions grp plugin\<rparr>"

record registry_group =
  rg_name :: string
  rg_id :: string
  rg_enabled :: string
  rg_builtin :: bool
  rg_tier :: string
  rg_rows :: "registry_row list"

definition registry_group_of :: "(string \<Rightarrow> string) \<Rightarrow> plugin_group \<Rightarrow> registry_group" where
  "registry_group_of relative grp =
     \<lparr>rg_name = pg_name grp, rg_id = pg_id grp,
      rg_enabled = (case pg_enabled grp of Some e \<Rightarrow> ''enabled '' @ pv_version e | None \<Rightarrow> ''disabled''),
      rg_builtin = (case pg_latest grp of Some p \<Rightarrow> isBundledPlugin p | None \<Rightarrow> False),
      rg_tier = ''tier '' @ (case pg_latest grp of Some p \<Rightarrow> dec_int (pv_tier p) | None \<Rightarrow> em_dash),
      rg_rows = map (registry_row_of relative grp) (pg_versions grp)\<rparr>"

definition PluginRegistry :: "(string \<Rightarrow> string \<Rightarrow> int) \<Rightarrow> (string \<Rightarrow> string) \<Rightarrow> plugin_version list \<Rightarrow> registry_group list option" where
  "PluginRegistry lc relative rows =
     (let groups = groupPlugins lc rows in if groups = [] then None else Some (map (registry_group_of relative) groups))"

section \<open>The panel of details\<close>

record detail_panel =
  dp_title :: "string \<times> string"
  dp_facts :: "(string \<times> string) list"
  dp_distribution :: "(string \<times> (string \<times> string) list) option"
  dp_log :: "(string \<times> bool \<times> string option \<times> string option) list"
  dp_hooks :: "string list"
  dp_perms :: "string list"
  dp_routes :: "(string \<times> string option) list"

definition distribution_card :: "plugin_version \<Rightarrow> string \<times> (string \<times> string) list" where
  "distribution_card p =
     (if pv_source_type p = Some ''bundled'' then ''Built-in'' else ''Distribution'',
      [(''Source type'', sourceDisplayLabel (pv_source_type p)),
       (''Source ref'', or_str_opt (pv_source_ref p) em_dash),
       (''Install path'', or_str_opt (pv_install_path p) em_dash)]
      @ (if truthy_str (pv_source_commit p) then [(''Commit'', truncateText (the (pv_source_commit p)) 16)] else [])
      @ (if truthy_str (pv_resolved_url p) then [(''Resolved URL'', truncateText (the (pv_resolved_url p)) 48)] else []))"

definition log_line :: "plugin_install_log_step \<Rightarrow> string \<times> bool \<times> string option \<times> string option" where
  "log_line e = (ls_step e, ls_ok e,
     if \<not> ls_ok e \<and> truthy_str (ls_failure_class e) then ls_failure_class e else None,
     if truthy_str (ls_detail e) then ls_detail e else None)"

definition or_none :: "string \<Rightarrow> string list \<Rightarrow> string list" where
  "or_none hint xs = (if xs = [] then [hint] else xs)"

definition PluginDetailPanel :: "(string \<Rightarrow> string) \<Rightarrow> plugin_version list \<Rightarrow> detail_panel option" where
  "PluginDetailPanel date rows = map_option
     (\<lambda>p. \<lparr>dp_title = (pv_name p, pv_plugin_id p),
        dp_facts = [(''Runtime'', ''tier '' @ dec_int (pv_tier p)), (''RPC'', or_str_opt (pv_rpc_version p) em_dash),
          (''Config'', or_str_opt (pv_config_version p) em_dash), (''Installed'', date (pv_created_at p))],
        dp_distribution = (if hasDistribution p then Some (distribution_card p) else None),
        dp_log = map log_line (nullish (pv_install_log p) []),
        dp_hooks = or_none ''No hooks declared'' (nullish (pc_hooks (pv_capabilities p)) []),
        dp_perms = or_none ''No permissions declared'' (permissions p),
        dp_routes = map route_link (sidebarEntries p)\<rparr>)
     (selected_plugin rows)"

section \<open>The page\<close>

datatype plugins_tab = TabRegistry | TabKeyring

record plugins_page =
  pp_tab :: plugins_tab
  pp_installOpen :: bool
  pp_hash :: "string option"

definition plugins_page_init :: "plugins_tab \<Rightarrow> plugins_page" where
  "plugins_page_init t = \<lparr>pp_tab = t, pp_installOpen = False, pp_hash = None\<rparr>"

definition tab_prop :: "plugins_tab \<Rightarrow> plugins_page \<Rightarrow> plugins_page" where
  "tab_prop t s = s\<lparr>pp_tab := t\<rparr>"

definition tab_click :: "plugins_tab \<Rightarrow> plugins_page \<Rightarrow> plugins_page" where
  "tab_click t s = s\<lparr>pp_tab := t,
     pp_hash := Some (navigate (case t of TabRegistry \<Rightarrow> ''/plugins'' | TabKeyring \<Rightarrow> ''/plugins/keyring'') None)\<rparr>"

definition install_open :: "bool \<Rightarrow> plugins_page \<Rightarrow> plugins_page" where
  "install_open b s = s\<lparr>pp_installOpen := b\<rparr>"

definition registry_click :: "plugins_page \<Rightarrow> plugins_page" where
  "registry_click s = s\<lparr>pp_hash := Some (navigate ''/plugins'' None)\<rparr>"

definition plugins_subtitle :: "plugins_tab \<Rightarrow> string" where
  "plugins_subtitle t = (case t of
       TabKeyring \<Rightarrow> ''Manage trusted vendor signing keys for strict-mode installs.''
     | TabRegistry \<Rightarrow> ''Install artifacts, validate compatibility, and control enabled versions.'')"

definition plugins_buttons :: "plugins_tab \<Rightarrow> string list" where
  "plugins_buttons t = (case t of TabRegistry \<Rightarrow> [''Refresh'', ''Install''] | TabKeyring \<Rightarrow> [''Registry''])"

definition plugin_stat_tones :: "plugin_version list \<Rightarrow> (string \<times> nat \<times> stat_tone option) list" where
  "plugin_stat_tones rows = (case plugin_stats rows of (records, enabled, failed, withUI) \<Rightarrow>
     [(''Records'', records, None), (''Enabled'', enabled, Some (if enabled > 0 then ToneDefault else ToneInfo)),
      (''Failures'', failed, Some (if failed > 0 then ToneDanger else ToneDefault)),
      (''UI routes'', withUI, Some ToneInfo)])"

definition plugins_body :: "(string \<Rightarrow> string \<Rightarrow> int) \<Rightarrow> (string \<Rightarrow> string) \<Rightarrow> (string \<Rightarrow> string) \<Rightarrow>
    plugin_version list \<Rightarrow> registry_group list option \<times> detail_panel option" where
  "plugins_body lc relative date rows =
     (PluginRegistry lc relative (activeRows rows), PluginDetailPanel date (activeRows rows))"

section \<open>A contributed route\<close>

text \<open>The Enable button asks for the version it names; an id that cannot be encoded fails like a refusal.\<close>

definition enable_call :: "plugin_version \<Rightarrow> js_error + endpoint" where
  "enable_call plugin = plugins_enable (pv_plugin_id plugin) (Some (pv_version plugin))"

definition doEnable_start :: "plugin_version \<Rightarrow> 'v view_log_scheme \<Rightarrow> 'v view_log_scheme" where
  "doEnable_start plugin s = (case enable_call plugin of Inl e \<Rightarrow> s | Inr ep \<Rightarrow> v_send ep s)"

definition doEnable_end :: "ui_meta option \<Rightarrow> plugin_version \<Rightarrow> js_error option \<Rightarrow> 'v view_log_scheme \<Rightarrow> 'v view_log_scheme" where
  "doEnable_end meta plugin failure s = settle_row meta (pv_name plugin @ '' enabled'') failure s"

text \<open>The three figures of the page of an enabled plugin.\<close>

definition contribution_stats :: "(string \<Rightarrow> string) \<Rightarrow> (string \<Rightarrow> string) \<Rightarrow> plugin_version \<Rightarrow> string \<Rightarrow> (string \<times> string \<times> string) list" where
  "contribution_stats relative date p route =
     [(''Plugin'', pv_name p, pv_plugin_id p @ '' '' @ middle_dot @ '' tier '' @ dec_int (pv_tier p)),
      (''Route'', or_str (last (split_on (CHR ''/'') route)) ''index'', ''host rendered''),
      (''Updated'', relative (pv_updated_at p), date (pv_updated_at p))]"

section \<open>Lemmas\<close>

text \<open>The Resolve button of a tab is the only way to a resolution, and it needs the fields filled.\<close>

lemma resolve_button_enabled: "resolve_button s = Some True \<longleftrightarrow> resolveEnabled s"
  by (auto simp: resolve_button_def resolveEnabled_def split: install_mode.splits)

lemma preview_needs_remote: "preview_shown s \<noteq> None \<Longrightarrow> isRemoteMode (im_mode s) \<and> im_preview s \<noteq> None"
  by (auto simp: preview_shown_def split: if_splits)

text \<open>The registry shows every version that is not uninstalled, under its own plugin.\<close>

lemma registry_rows_shown:
  assumes "PluginRegistry lc relative rows = Some gs" "pv_state r \<noteq> Uninstalled" "r \<in> set rows"
  shows "\<exists>g \<in> set gs. rg_id g = pv_plugin_id r \<and> pv_version r \<in> rr_version ` set (rg_rows g)"
proof -
  have gs: "gs = map (registry_group_of relative) (groupPlugins lc rows)"
    using assms(1) by (simp add: PluginRegistry_def Let_def split: if_splits)
  have "pv_plugin_id r \<in> pg_id ` set (groupPlugins lc rows)" using assms by (auto simp: groupPlugins_ids)
  then obtain g where g: "g \<in> set (groupPlugins lc rows)" "pv_plugin_id r = pg_id g" by blast
  have "r \<in> set (pg_versions g)" using groupPlugins_member (1) [OF g(1)] assms g by simp
  with g gs show ?thesis by (auto simp: registry_group_of_def registry_row_of_def image_image intro!: bexI [of _ g])
qed

lemma registry_empty: "PluginRegistry lc relative rows = None \<longleftrightarrow> (\<forall>r \<in> set rows. pv_state r = Uninstalled)"
proof -
  have "groupPlugins lc rows = [] \<longleftrightarrow> pg_id ` set (groupPlugins lc rows) = {}" by simp
  also have "\<dots> \<longleftrightarrow> (\<forall>r \<in> set rows. pv_state r = Uninstalled)" unfolding groupPlugins_ids by auto
  finally show ?thesis by (simp add: PluginRegistry_def Let_def)
qed

text \<open>The two pages agree on what may be enabled: a contributed route offers to enable a version exactly
  when the row of that version has the Enable action.\<close>

theorem route_enable_agrees:
  assumes "PluginContributionView path rows = PluginDisabled p offered"
    and "g \<in> set (groupPlugins lc rows)" "pg_id g = pv_plugin_id p"
  shows "offered \<longleftrightarrow> ActEnable \<in> set (PluginActions g p)"
proof -
  obtain pid route where pr: "parsePluginRoute path = Some (pid, route)"
    using assms(1) by (auto simp: PluginContributionView_def split: option.splits)
  let ?vs = "filter (\<lambda>r. pv_plugin_id r = pid \<and> pv_state r \<noteq> Uninstalled) rows"
  obtain others where vs: "?vs = p # others" and none: "List.find (\<lambda>r. pv_state r = Enabled) ?vs = None"
    and off: "offered = (pv_state p = Installed \<or> pv_state p = EnableFailed)"
    using assms(1) pr by (auto simp: PluginContributionView_def Let_def split: list.splits option.splits if_splits)
  have "p \<in> set ?vs" by (simp add: vs)
  then have pid: "pv_plugin_id p = pid" by simp
  have "set (pg_versions g) = set ?vs" using groupPlugins_member (1) [OF assms(2)] assms(3) pid by auto
  moreover have "pg_enabled g = List.find (\<lambda>p. pv_state p = Enabled) (pg_versions g)"
    using assms(2) by (auto simp: set_groupPlugins make_group_facts)
  ultimately have "pg_enabled g = None" using none by (simp add: find_None_iff)
  then show ?thesis by (simp add: off PluginActions_def targetEnabledElsewhere_def)
qed

text \<open>But the route takes the first version the server lists, and the server orders versions as text: with
  9.0.0 and 10.0.0 installed it offers the older one, while the registry's latest is the newer.\<close>

lemma route_offers_older:
  "PluginContributionView ''/plugins/acme/x'' [demo_plugin ''9.0.0'' Installed, demo_plugin ''10.0.0'' Installed]
     = PluginDisabled (demo_plugin ''9.0.0'' Installed) True
   \<and> map pg_latest (groupPlugins str_cmp [demo_plugin ''9.0.0'' Installed, demo_plugin ''10.0.0'' Installed])
     = [Some (demo_plugin ''10.0.0'' Installed)]"
  by code_simp

theorem route_enable_agrees_witness:
  "ActEnable \<in> set (PluginActions (make_group str_cmp (''acme/x'', [demo_plugin ''9.0.0'' Installed]))
     (demo_plugin ''9.0.0'' Installed))"
proof -
  have p: "PluginContributionView ''/plugins/acme/x'' [demo_plugin ''9.0.0'' Installed]
      = PluginDisabled (demo_plugin ''9.0.0'' Installed) True" by code_simp
  show ?thesis using route_enable_agrees [OF p, of "make_group str_cmp (''acme/x'', [demo_plugin ''9.0.0'' Installed])" str_cmp]
    by (simp add: set_groupPlugins demo_plugin_facts make_group_facts group_by_def group_step_def)
qed

text \<open>Enabling from the route keeps the contract of the row actions.\<close>

lemma doEnable_reports:
  assumes "enable_call p = Inr ep"
  shows "acts_once ep (pv_name p @ '' enabled'') failure s (doEnable_end meta p failure (doEnable_start p s))"
proof -
  have "row_action (doEnable_start p) (doEnable_end meta p) ep (pv_name p @ '' enabled'')"
    by (rule settle_row_action) (simp_all add: doEnable_start_def doEnable_end_def assms)
  then show ?thesis by (rule row_action.act_reports)
qed

end
