(* ===== verification/Terminal_Pane.thy ===== *)
theory Terminal_Pane
  imports Terminal_Store
begin

text \<open>
  The pane of the floating terminal, \<open>web/src/components/TerminalPane.tsx\<close>, in its window,
  \<open>web/src/components/TerminalWindow.tsx\<close>: the emulator, the client it owns, and the window's own state
  beside the store of the terminal.  The whole is one event machine: the user, the socket and the timer
  of the client, the metadata, and the renders, which mount and unmount the pane, act in any order.  The
  emulator is xterm.js: what it is told to write is kept in \<open>pn_screen\<close>, and it delivers keys only while
  its option \<open>disableStdin\<close> is off.
\<close>

section \<open>The pane\<close>

datatype screen_item = Chunk "byte list" | Line string

record xterm_options =
  xo_fontFamily :: string
  xo_fontSize :: nat
  xo_cursorBlink :: bool
  xo_convertEol :: bool
  xo_scrollback :: nat
  xo_disableStdin :: bool
  xo_theme :: "(string \<times> string) list"

definition pane_options :: xterm_options where
  "pane_options = \<lparr>xo_fontFamily = ''ui-monospace, SFMono-Regular, Menlo, monospace'', xo_fontSize = 13,
     xo_cursorBlink = True, xo_convertEol = True, xo_scrollback = 5000, xo_disableStdin = True,
     xo_theme = [(''background'', ''#0e0f12''), (''foreground'', ''#e7e9ee''), (''cursor'', ''#a4d8ff''),
       (''selectionBackground'', ''#264f78''), (''black'', ''#0e0f12''), (''red'', ''#e06c75''),
       (''green'', ''#98c379''), (''yellow'', ''#e5c07b''), (''blue'', ''#61afef''), (''magenta'', ''#c678dd''),
       (''cyan'', ''#56b6c2''), (''white'', ''#dcdfe4'')]\<rparr>"

record pane =
  pn_key :: "string option \<times> string option"
  pn_client :: term_client
  pn_disabled :: bool
  pn_screen :: "screen_item list"

definition crlf :: string where
  "crlf = [CHR 0x0D, CHR 0x0A]"

definition esc :: "string \<Rightarrow> string" where
  "esc s = CHR 0x1B # s"

text \<open>What the client's callbacks write to the emulator.\<close>

fun pane_show :: "effect \<Rightarrow> screen_item list" where
  "pane_show (OnData s chunk) = [Chunk chunk]"
| "pane_show (OnText (FExit n)) = [Line (crlf @ ''[session exited with code '' @ dec_int n @ '']'')]"
| "pane_show (OnText (FError m)) = [Line (crlf @ ''[error] '' @ m)]"
| "pane_show _ = []"

definition pane_banner :: "string option \<Rightarrow> screen_item list" where
  "pane_banner app =
     (if truthy_str app then [Line (esc ''[2m'' @ the app @ '' '' @ em_dash @ '' terminal'' @ esc ''[0m'')] else [])"

section \<open>The window\<close>

text \<open>\<open>tw_late\<close> says that a client was closed, whose socket may still report an error.\<close>

record terminal_window =
  tw_store :: terminal_store
  tw_override :: "connection_state option"
  tw_drag :: "drag option"
  tw_pane :: "pane option"
  tw_app :: "string option"
  tw_late :: bool

definition window_init :: "stored \<Rightarrow> terminal_window" where
  "window_init raw = \<lparr>tw_store = hydrate (terminal_provider raw), tw_override = None, tw_drag = None,
     tw_pane = None, tw_app = None, tw_late = False\<rparr>"

definition map_store :: "(terminal_store \<Rightarrow> terminal_store) \<Rightarrow> terminal_window \<Rightarrow> terminal_window" where
  "map_store f w = w\<lparr>tw_store := f (tw_store w)\<rparr>"

text \<open>One callback of the client: the store and the window hear of it, and the emulator.\<close>

definition pane_effect :: "effect \<Rightarrow> terminal_window \<Rightarrow> terminal_window" where
  "pane_effect e w = w\<lparr>tw_store := pane_callback e (tw_store w),
     tw_override := (case e of OnConnectionChange c \<Rightarrow> Some c | _ \<Rightarrow> tw_override w),
     tw_pane := map_option (\<lambda>q. q\<lparr>pn_disabled := pane_stdin e (pn_disabled q),
       pn_screen := pn_screen q @ pane_show e\<rparr>) (tw_pane w)\<rparr>"

text \<open>A call of the client, with the callbacks it makes.\<close>

definition client_do :: "(term_client \<Rightarrow> term_client) \<Rightarrow> terminal_window \<Rightarrow> terminal_window" where
  "client_do f w = (case tw_pane w of
       None \<Rightarrow> w
     | Some q \<Rightarrow>
         (let c = f (pn_client q)
          in fold pane_effect (drop (length (log (pn_client q))) (log c))
               (w\<lparr>tw_pane := Some (q\<lparr>pn_client := c\<rparr>)\<rparr>)))"

definition pane_key :: "terminal_window \<Rightarrow> string option \<times> string option" where
  "pane_key w = (pane_session (tw_store w), tw_app w)"

text \<open>The effect of the pane: the emulator starts with its input disabled.\<close>

definition pane_mount :: "ctor_outcome \<Rightarrow> int \<Rightarrow> int \<Rightarrow> terminal_window \<Rightarrow> terminal_window" where
  "pane_mount oc cs rs w =
     (let w = client_do (start oc) (w\<lparr>tw_pane := Some \<lparr>pn_key = pane_key w,
            pn_client = new_client (fst (pane_key w)) (Some cs) (Some rs),
            pn_disabled = xo_disableStdin pane_options, pn_screen = []\<rparr>\<rparr>)
      in w\<lparr>tw_pane := map_option (\<lambda>q. q\<lparr>pn_screen := pn_screen q @ pane_banner (tw_app w)\<rparr>) (tw_pane w)\<rparr>)"

definition pane_unmount :: "terminal_window \<Rightarrow> terminal_window" where
  "pane_unmount w = (client_do close w)\<lparr>tw_pane := None, tw_late := True\<rparr>"

definition pane_shown :: "terminal_window \<Rightarrow> bool" where
  "pane_shown w \<longleftrightarrow> ts_open (st_state (tw_store w)) \<and> \<not> ts_minimized (st_state (tw_store w))"

definition window_render :: "ctor_outcome \<Rightarrow> int \<Rightarrow> int \<Rightarrow> terminal_window \<Rightarrow> terminal_window" where
  "window_render oc cs rs w = (case tw_pane w of
       None \<Rightarrow> if pane_shown w then pane_mount oc cs rs w else w
     | Some q \<Rightarrow>
         if \<not> pane_shown w then pane_unmount w
         else if pn_key q = pane_key w then w
         else pane_mount oc cs rs (pane_unmount w))"

definition pointer_up :: "terminal_window \<Rightarrow> terminal_window" where
  "pointer_up w = w\<lparr>tw_drag := None\<rparr>"

section \<open>What is shown\<close>

text \<open>The box of the window in pixels (left, top, width, height), where its style sets them.\<close>

definition window_style :: "terminal_state \<Rightarrow> int option \<times> int option \<times> int option \<times> int option" where
  "window_style t =
     (let px = (\<lambda>v. if ts_maximized t then None else Some v) in
      (px (g_x (ts_popup t)), px (g_y (ts_popup t)), px (g_w (ts_popup t)),
       if ts_minimized t then None else px (g_h (ts_popup t))))"

definition window_state :: "terminal_state \<Rightarrow> string" where
  "window_state t = (if ts_minimized t then ''minimized'' else if ts_maximized t then ''maximized'' else ''normal'')"

definition resize_handles :: "terminal_state \<Rightarrow> string list" where
  "resize_handles t = (if ts_minimized t \<or> ts_maximized t then [] else RESIZE_DIRS)"

fun connection_text :: "connection_state \<Rightarrow> string" where
  "connection_text Idle = ''idle''"
| "connection_text Connecting = ''connecting''"
| "connection_text Connected = ''connected''"
| "connection_text Reconnecting = ''reconnecting''"
| "connection_text Closed = ''closed''"
| "connection_text ConnError = ''error''"

definition status_line :: "terminal_window \<Rightarrow> string" where
  "status_line w =
     (let t = st_state (tw_store w) in
      connection_text (window_status (tw_override w) t)
      @ (if truthy_str (ts_session t) then '' '' @ middle_dot @ '' '' @ take 8 (the (ts_session t)) else []))"

section \<open>The machine\<close>

datatype window_event =
    WToggle "js_error + terminal_session list" | WEscape | WMinimize | WMaximize | WKill | WClose
  | WPress int int "string option" | WMove int int int int | WRelease
  | WKeys "byte list" | WResize int int | WSocket term_event | WLateError
  | WMeta "string option" | WRender ctor_outcome int int

fun socket_event :: "term_event \<Rightarrow> bool" where
  "socket_event (EvSendInput b) = False"
| "socket_event (EvResize cs rs) = False"
| "socket_event EvPing = False"
| "socket_event (EvReplay n) = False"
| "socket_event EvClose = False"
| "socket_event _ = True"

fun window_can :: "window_event \<Rightarrow> terminal_window \<Rightarrow> bool" where
  "window_can (WToggle outcome) w = True"
| "window_can (WMeta app) w = True"
| "window_can (WRender oc cs rs) w = True"
| "window_can WLateError w = tw_late w"
| "window_can (WKeys bytes) w = (case tw_pane w of None \<Rightarrow> False | Some q \<Rightarrow> \<not> pn_disabled q)"
| "window_can (WResize cs rs) w = (tw_pane w \<noteq> None)"
| "window_can (WSocket e) w =
     (case tw_pane w of None \<Rightarrow> False | Some q \<Rightarrow> socket_event e \<and> term_enabled e (pn_client q))"
| "window_can (WPress cx cy dir) w = (ts_open (st_state (tw_store w)) \<and>
     (case dir of None \<Rightarrow> True | Some d \<Rightarrow> d \<in> set (resize_handles (st_state (tw_store w)))))"
| "window_can _ w = ts_open (st_state (tw_store w))"

fun window_step :: "b64_platform \<Rightarrow> window_event \<Rightarrow> terminal_window \<Rightarrow> terminal_window" where
  "window_step pf (WToggle outcome) w = map_store (toggleTerminal None outcome) w"
| "window_step pf WEscape w = map_store onEscape w"
| "window_step pf WMinimize w = map_store (setMinimized True) w"
| "window_step pf WMaximize w = map_store (setMaximized (\<not> ts_maximized (st_state (tw_store w)))) w"
| "window_step pf WKill w = (map_store onKill w)\<lparr>tw_override := None\<rparr>"
| "window_step pf WClose w = map_store closeTerminal w"
| "window_step pf (WPress cx cy dir) w = w\<lparr>tw_drag := nullish_opt (drag_start cx cy dir (tw_store w)) (tw_drag w)\<rparr>"
| "window_step pf (WMove iw ih cx cy) w = map_store (onPointerMove iw ih cx cy (tw_drag w)) w"
| "window_step pf WRelease w = pointer_up w"
| "window_step pf (WKeys bytes) w = client_do (sendInput pf bytes) w"
| "window_step pf (WResize cs rs) w = client_do (sendResize cs rs) w"
| "window_step pf (WSocket e) w = client_do (term_step pf e) w"
| "window_step pf WLateError w = map_store (setLastError (Some ''websocket error'')) w"
| "window_step pf (WMeta app) w = w\<lparr>tw_app := app\<rparr>"
| "window_step pf (WRender oc cs rs) w = window_render oc cs rs w"

abbreviation window_run :: "b64_platform \<Rightarrow> terminal_window \<Rightarrow> window_event list \<Rightarrow> terminal_window \<Rightarrow> bool" where
  "window_run pf \<equiv> machine_run window_can (window_step pf)"

section \<open>The pane follows its client\<close>

fun chunk_of :: "screen_item \<Rightarrow> byte list" where
  "chunk_of (Chunk b) = b"
| "chunk_of (Line l) = []"

definition chunks :: "screen_item list \<Rightarrow> byte list" where
  "chunks xs = concat (map chunk_of xs)"

lemma chunks_simps [simp]:
  "chunks [] = []" "chunks (xs @ ys) = chunks xs @ chunks ys" "chunks (pane_banner app) = []"
  "chunks (pane_show e) = data_of e"
  by (simp_all add: chunks_def pane_banner_def) (cases e rule: pane_show.cases; simp add: chunks_def)+

text \<open>A client only adds to its log.\<close>

lemma log_grows: "\<exists>es. log (term_step pf e c) = log c @ es"
  by (cases e) (auto simp: step_unfold split: ctor_outcome.splits option.splits text_frame.splits)

lemma log_grows_fixed: "\<exists>es. log (start oc c) = log c @ es" "\<exists>es. log (close c) = log c @ es"
  by (auto simp: term_defs split: ctor_outcome.splits)

text \<open>The callbacks, folded over the pane.\<close>

lemma fold_pane_effect:
  "tw_pane (fold pane_effect es w) = map_option (\<lambda>q. q\<lparr>pn_disabled := fold pane_stdin es (pn_disabled q),
     pn_screen := pn_screen q @ concat (map pane_show es)\<rparr>) (tw_pane w)"
  by (induction es arbitrary: w) (auto simp: pane_effect_def option.map_comp comp_def option.map_ident)

definition pane_inv :: "pane \<Rightarrow> bool" where
  "pane_inv q \<longleftrightarrow> pn_disabled q = fold pane_stdin (log (pn_client q)) True
     \<and> chunks (pn_screen q) = out_bytes (pn_client q)"

lemma chunks_shown: "chunks (concat (map pane_show es)) = concat (map data_of es)"
  by (induction es) simp_all

lemma client_do_pane:
  assumes "tw_pane w = Some q" "pane_inv q" "log (f (pn_client q)) = log (pn_client q) @ es"
  shows "\<exists>q'. tw_pane (client_do f w) = Some q' \<and> pn_client q' = f (pn_client q) \<and> pn_key q' = pn_key q \<and> pane_inv q'"
  using assms by (simp add: client_do_def fold_pane_effect pane_inv_def chunks_shown out_bytes_def)

text \<open>
  The role decides whether keys come in, so a key is queued only by a client that has been a writer.
\<close>

definition client_early :: "term_client \<Rightarrow> bool" where
  "client_early c \<longleftrightarrow> fold pane_stdin (log c) True = (currentRole c \<noteq> Writer)
     \<and> (currentRole c = Writer \<or> pendingInput c \<noteq> [] \<longrightarrow> OnRole Writer \<in> set (log c))"

lemma stdin_inputs [simp]: "fold pane_stdin (map (\<lambda>b. WsSend (CInput (f b))) bs) d = d"
  by (induction bs) auto

lemma early_step:
  "client_early c \<Longrightarrow> (\<And>b. e = EvSendInput b \<Longrightarrow> currentRole c = Writer) \<Longrightarrow> client_early (term_step pf e c)"
  by (cases e) (auto simp: client_early_def step_unfold split: ctor_outcome.splits option.splits text_frame.splits)

lemma early_start: "client_early (start oc (new_client sid cs rs))"
  by (cases oc) (simp_all add: client_early_def term_defs new_client_def)

text \<open>The client of a mounted pane is at some point of a run that its mount started.\<close>

definition client_at :: "b64_platform \<Rightarrow> pane \<Rightarrow> bool" where
  "client_at pf q \<longleftrightarrow> client_early (pn_client q) \<and>
     (\<exists>oc cs rs es. term_run pf (start oc (new_client (fst (pn_key q)) cs rs)) es (pn_client q)
     \<and> EvClose \<notin> set es)"

definition window_inv :: "b64_platform \<Rightarrow> terminal_window \<Rightarrow> bool" where
  "window_inv pf w \<longleftrightarrow> (\<forall>q. tw_pane w = Some q \<longrightarrow> pane_inv q \<and> client_at pf q)"

lemma client_at_step:
  assumes "client_at pf q" "term_enabled e (pn_client q)" "e \<noteq> EvClose"
    and "\<And>b. e = EvSendInput b \<Longrightarrow> currentRole (pn_client q) = Writer"
    and "pn_client q' = term_step pf e (pn_client q)" "pn_key q' = pn_key q"
  shows "client_at pf q'"
proof -
  obtain oc cs rs es where run: "term_run pf (start oc (new_client (fst (pn_key q)) cs rs)) es (pn_client q)"
    and no: "EvClose \<notin> set es" using assms(1) by (auto simp: client_at_def)
  have "term_run pf (start oc (new_client (fst (pn_key q')) cs rs)) (es @ [e]) (pn_client q')"
    using machine_snoc [OF run assms(2)] assms by simp
  moreover have "EvClose \<notin> set (es @ [e])" using no assms(3) by simp
  moreover have "client_early (pn_client q')" using early_step [of "pn_client q" e pf] assms by (simp add: client_at_def)
  ultimately show ?thesis unfolding client_at_def by blast
qed

lemma client_do_inv:
  assumes "window_inv pf w" "\<And>q. tw_pane w = Some q \<Longrightarrow> term_enabled e (pn_client q)" "e \<noteq> EvClose"
    and "\<And>q b. tw_pane w = Some q \<Longrightarrow> e = EvSendInput b \<Longrightarrow> currentRole (pn_client q) = Writer"
  shows "window_inv pf (client_do (term_step pf e) w)"
proof (cases "tw_pane w")
  case None
  then show ?thesis by (simp add: window_inv_def client_do_def)
next
  case (Some q)
  obtain es where "log (term_step pf e (pn_client q)) = log (pn_client q) @ es" using log_grows by blast
  then obtain q' where q': "tw_pane (client_do (term_step pf e) w) = Some q'"
      "pn_client q' = term_step pf e (pn_client q)" "pn_key q' = pn_key q" "pane_inv q'"
    using client_do_pane [OF Some] assms(1) Some by (auto simp: window_inv_def)
  then show ?thesis using client_at_step [of pf q e q'] assms Some by (auto simp: window_inv_def)
qed

lemma mount_inv: "window_inv pf (pane_mount oc cs rs w)"
proof -
  let ?q = "\<lparr>pn_key = pane_key w, pn_client = new_client (fst (pane_key w)) (Some cs) (Some rs),
    pn_disabled = True, pn_screen = []\<rparr>"
  let ?w = "w\<lparr>tw_pane := Some ?q\<rparr>"
  obtain es where es: "log (start oc (pn_client ?q)) = log (pn_client ?q) @ es" using log_grows_fixed by blast
  have "pane_inv ?q" by (simp add: pane_inv_def out_bytes_def new_client_def)
  then obtain q where q: "tw_pane (client_do (start oc) ?w) = Some q" "pn_client q = start oc (pn_client ?q)"
      "pn_key q = pn_key ?q" "pane_inv q"
    using client_do_pane [of ?w ?q "start oc", OF _ _ es] by auto
  moreover have "client_at pf (q\<lparr>pn_screen := xs\<rparr>)" for xs
    unfolding client_at_def using q early_start by (intro conjI exI [of _ oc] exI [of _ "Some cs"] exI [of _ "Some rs"] exI [of _ "[]"]) simp_all
  ultimately show ?thesis by (simp add: window_inv_def pane_mount_def Let_def pane_inv_def pane_options_def)
qed

lemma unmount_pane [simp]: "tw_pane (pane_unmount w) = None"
  by (simp add: pane_unmount_def)

lemma client_steps: "sendInput pf b = term_step pf (EvSendInput b)" "sendResize cs rs = term_step pf (EvResize cs rs)"
  by (simp_all add: fun_eq_iff)

lemma window_inv_role: "window_inv pf w \<Longrightarrow> tw_pane w = Some q \<Longrightarrow> pn_disabled q \<longleftrightarrow> currentRole (pn_client q) \<noteq> Writer"
  by (simp add: window_inv_def pane_inv_def client_at_def client_early_def)

lemma window_inv_step: "window_inv pf w \<Longrightarrow> window_can e w \<Longrightarrow> window_inv pf (window_step pf e w)"
proof (cases e)
  case (WKeys bytes)
  assume w: "window_inv pf w" "window_can e w"
  have "window_inv pf (client_do (term_step pf (EvSendInput bytes)) w)"
    by (rule client_do_inv [OF w(1)]) (use w WKeys in \<open>auto dest: window_inv_role\<close>)
  with WKeys show ?thesis by (simp add: client_steps(1))
next
  case (WResize cs rs)
  assume "window_inv pf w"
  then have "window_inv pf (client_do (term_step pf (EvResize cs rs)) w)" by (rule client_do_inv) simp_all
  with WResize show ?thesis by (simp add: client_steps(2) [of cs rs pf])
next
  case (WSocket ev)
  assume "window_inv pf w" "window_can e w"
  then have "window_inv pf (client_do (term_step pf ev) w)" using WSocket
    by (intro client_do_inv) (auto split: option.splits)
  with WSocket show ?thesis by simp
next
  case (WRender oc cs rs)
  assume "window_inv pf w"
  with WRender mount_inv show ?thesis by (auto simp: window_render_def window_inv_def split: option.splits)
qed (auto simp: window_inv_def map_store_def pointer_up_def)

lemma window_inv_init: "window_inv pf (window_init raw)"
  by (simp add: window_inv_def window_init_def)

interpretation windows: started_machine window_can "window_step pf" "window_inv pf" "window_init raw" for pf raw
  by unfold_locales (auto intro: window_inv_step window_inv_init)

section \<open>Properties\<close>

text \<open>
  C23.  Whatever the user, the socket, the metadata and the renders do, in any order, a mounted pane
  belongs to one run of its own client, started when it was mounted: the emulator was given exactly the
  bytes that client received, its input is open exactly while the server has made this client the writer,
  and so every property of the client holds of what is on the screen.
\<close>

theorem pane_follows_client:
  assumes "window_run pf (window_init raw) es w" "tw_pane w = Some q"
  shows "(\<exists>oc cs rs evs. term_run pf (start oc (new_client (fst (pn_key q)) cs rs)) evs (pn_client q) \<and> EvClose \<notin> set evs)
     \<and> chunks (pn_screen q) = out_bytes (pn_client q)
     \<and> (pn_disabled q \<longleftrightarrow> currentRole (pn_client q) \<noteq> Writer)"
proof -
  have inv: "window_inv pf w" by (rule windows.inv_reachable [OF assms(1)])
  with assms(2) show ?thesis using window_inv_role [OF inv assms(2)]
    by (simp add: window_inv_def pane_inv_def client_at_def)
qed

text \<open>
  The queue of early keystrokes never serves the start of a terminal: as long as the server has not
  made the client a writer, the emulator drops the keys before the client sees them, so the client's queue
  is empty.
\<close>

theorem early_keys_dropped:
  assumes "window_run pf (window_init raw) es w" "tw_pane w = Some q" "OnRole Writer \<notin> set (log (pn_client q))"
  shows "pendingInput (pn_client q) = [] \<and> \<not> window_can (WKeys bytes) w"
proof -
  have inv: "window_inv pf w" by (rule windows.inv_reachable [OF assms(1)])
  then have "client_early (pn_client q)" using assms(2) by (simp add: window_inv_def client_at_def)
  then show ?thesis using window_inv_role [OF inv assms(2)] assms(2,3) by (auto simp: client_early_def)
qed

text \<open>Minimizing.\<close>

fun closing_event :: "window_event \<Rightarrow> bool" where
  "closing_event (WToggle outcome) = True"
| "closing_event WEscape = True"
| "closing_event WKill = True"
| "closing_event WClose = True"
| "closing_event _ = False"

definition minimized_window :: "terminal_window \<Rightarrow> bool" where
  "minimized_window w \<longleftrightarrow> ts_open (st_state (tw_store w)) \<and> ts_minimized (st_state (tw_store w))"

lemma pane_callback_flags:
  "ts_open (st_state (pane_callback e s)) = ts_open (st_state s)"
  "ts_minimized (st_state (pane_callback e s)) = ts_minimized (st_state s)"
  by (cases e; simp add: store_ops)+

lemma client_do_minimized [simp]: "minimized_window (client_do f w) = minimized_window w"
proof -
  have "minimized_window (fold pane_effect es w) = minimized_window w" for es w
    by (induction es arbitrary: w) (simp_all add: minimized_window_def pane_effect_def pane_callback_flags)
  then show ?thesis by (simp add: client_do_def Let_def minimized_window_def split: option.splits)
qed

lemma minimized_update [simp]:
  "minimized_window (w\<lparr>tw_pane := q\<rparr>) = minimized_window w" "minimized_window (w\<lparr>tw_app := a\<rparr>) = minimized_window w"
  "minimized_window (w\<lparr>tw_drag := d\<rparr>) = minimized_window w" "minimized_window (w\<lparr>tw_late := l\<rparr>) = minimized_window w"
  by (simp_all add: minimized_window_def)

lemma minimized_render: "minimized_window (window_render oc cs rs w) = minimized_window w"
  by (simp add: window_render_def pane_mount_def pane_unmount_def Let_def split: option.splits)

lemma minimized_step:
  assumes "minimized_window w" "\<not> closing_event e"
  shows "minimized_window (window_step pf e w)"
  using assms by (cases e) (auto simp: minimized_render, auto simp: minimized_window_def map_store_def store_ops
    pointer_up_def onPointerMove_def split: option.splits)

text \<open>
  C39.  A minimized terminal cannot be restored: whatever is clicked, dragged, received or rendered, as
  long as it is not closed (by its button, the kill, a second Escape or the button of the top bar) it
  stays minimized, and the next render takes the pane away; the shell's client with it.
\<close>

theorem minimized_until_closed:
  assumes "window_run pf w es w'" "minimized_window w" "\<forall>e \<in> set es. \<not> closing_event e"
  shows "minimized_window w' \<and> tw_pane (window_step pf (WRender oc cs rs) w') = None"
  using assms
proof (induction rule: machine_run.induct)
  case machine_nil
  then show ?case by (simp add: window_render_def pane_shown_def minimized_window_def split: option.splits)
next
  case (machine_snoc es t e)
  then have "minimized_window (window_step pf e t)" by (simp add: minimized_step)
  then show ?case by (simp add: window_render_def pane_shown_def minimized_window_def split: option.splits)
qed

section \<open>A concrete window\<close>

definition demo_window_start :: "window_event list" where
  "demo_window_start = [WToggle (Inr []), WRender CtorOk 80 24, WSocket EvOpen]"

definition demo_window_ready :: "window_event list" where
  "demo_window_ready = demo_window_start
     @ [WSocket (EvText (Some (FReady demo_ready))), WSocket (EvBinary (encode_frame 0 [104, 105])), WKeys [13]]"

definition window_after :: "window_event list \<Rightarrow> terminal_window" where
  "window_after es = the (machine_exec window_can (window_step HasBtoa) es (window_init StNone))"

lemmas window_compute = window_init_def hydrate_def terminal_provider_def loadPersisted_def defaultPersisted_def
  toggleTerminal_def openTerminal_def open_id_def open_known_def nullish_opt_def persist_session_def map_store_def
  map_state_def window_render_def pane_shown_def pane_mount_def pane_options_def client_do_def pane_key_def pane_session_def
  new_client_def start_def ws_connect_def emit_def pane_effect_def store_ops

lemma demo_window_start_facts:
  "\<exists>w q. machine_exec window_can (window_step HasBtoa) demo_window_start (window_init StNone) = Some w
     \<and> tw_pane w = Some q \<and> OnRole Writer \<notin> set (log (pn_client q))"
  by (simp add: demo_window_start_def window_compute onopen_def flushPendingInput_eq)

lemma demo_window_ready_facts:
  "\<exists>w q. machine_exec window_can (window_step HasBtoa) demo_window_ready (window_init StNone) = Some w
     \<and> tw_pane w = Some q \<and> out_bytes (pn_client q) = [104, 105]"
  by (simp add: demo_window_ready_def demo_window_start_def demo_ready_def window_compute onopen_def flushPendingInput_eq
    handleText_def handleBinary_frame sendInput_def flushInput_def out_bytes_def)

theorem pane_follows_client_witness:
  "\<exists>w q. tw_pane w = Some q \<and> chunks (pn_screen q) = [104, 105]
     \<and> window_run HasBtoa (window_init StNone) demo_window_ready w"
proof -
  obtain w q where w: "window_run HasBtoa (window_init StNone) demo_window_ready w" "tw_pane w = Some q"
      "out_bytes (pn_client q) = [104, 105]"
    using demo_window_ready_facts by (auto simp: machine_run_exec)
  with pane_follows_client [OF w(1,2)] show ?thesis by auto
qed

theorem early_keys_dropped_witness:
  "\<exists>w q. tw_pane w = Some q \<and> pendingInput (pn_client q) = [] \<and> \<not> window_can (WKeys [13]) w"
proof -
  obtain w q where w: "window_run HasBtoa (window_init StNone) demo_window_start w" "tw_pane w = Some q"
      "OnRole Writer \<notin> set (log (pn_client q))"
    using demo_window_start_facts by (auto simp: machine_run_exec)
  have "pendingInput (pn_client q) = [] \<and> \<not> window_can (WKeys [13]) w" by (rule early_keys_dropped [OF w])
  with w(2) show ?thesis by blast
qed

definition demo_minimized :: terminal_window where
  "demo_minimized = window_step HasBtoa WMinimize (window_step HasBtoa (WToggle (Inr [])) (window_init StNone))"

theorem minimized_until_closed_witness:
  "minimized_window (window_step HasBtoa WMaximize demo_minimized)"
proof -
  have m: "minimized_window demo_minimized"
    by (simp add: demo_minimized_def minimized_window_def window_compute)
  then have "window_run HasBtoa demo_minimized [WMaximize] (window_step HasBtoa WMaximize demo_minimized)"
    by (intro machine_run_one) (simp add: minimized_window_def)
  with minimized_until_closed [OF this m] show ?thesis by simp
qed

end
