(* ===== verification/Ui_Markup.thy ===== *)
theory Ui_Markup
  imports View_Kit Layout
begin

text \<open>
  The markup of the panel: the presentational components of \<open>web/src/components/Ui.tsx\<close>, and those of
  \<open>web/src/components/Layout.tsx\<close>.  A node carries what the user can read and do: its texts, its buttons
  with the event a click delivers and whether they are enabled, and its inputs.  Of the attributes only the
  class is kept, where it depends on the state; icons and inline styles are left out.
\<close>

section \<open>Nodes\<close>

datatype 'e node =
    Txt string
  | El string "'e node list"
  | Btn string bool 'e "'e node list"
  | Inp string string bool "string \<Rightarrow> 'e"
  | Sel "(string \<times> string) list" string "string \<Rightarrow> 'e"
  | Lnk string "'e node list"

fun texts :: "'e node \<Rightarrow> string list" where
  "texts (Txt s) = [s]"
| "texts (El c ns) = concat (map texts ns)"
| "texts (Btn c on e ns) = concat (map texts ns)"
| "texts (Inp k v req f) = []"
| "texts (Sel os v f) = map snd os"
| "texts (Lnk u ns) = concat (map texts ns)"

text \<open>The buttons of a node, in their order.\<close>

fun buttons :: "'e node \<Rightarrow> ('e \<times> bool) list" where
  "buttons (Txt s) = []"
| "buttons (El c ns) = concat (map buttons ns)"
| "buttons (Btn c on e ns) = [(e, on)]"
| "buttons (Inp k v req f) = []"
| "buttons (Sel os v f) = []"
| "buttons (Lnk u ns) = concat (map buttons ns)"

definition buttons_of :: "'e node list \<Rightarrow> ('e \<times> bool) list" where
  "buttons_of ns = concat (map buttons ns)"

text \<open>The fields a form holds back for: empty and required.\<close>

fun unfilled :: "'e node \<Rightarrow> nat" where
  "unfilled (Txt s) = 0"
| "unfilled (El c ns) = sum_list (map unfilled ns)"
| "unfilled (Btn c on e ns) = 0"
| "unfilled (Inp k v req f) = (if req \<and> v = [] then 1 else 0)"
| "unfilled (Sel os v f) = 0"
| "unfilled (Lnk u ns) = sum_list (map unfilled ns)"

text \<open>\<open>cond && node\<close>, and a node for a text that is there and not empty.\<close>

definition only :: "bool \<Rightarrow> 'e node \<Rightarrow> 'e node list" where
  "only b n = (if b then [n] else [])"

definition text_if :: "string \<Rightarrow> string option \<Rightarrow> 'e node list" where
  "text_if c t = (if truthy_str t then [El c [Txt (the t)]] else [])"

section \<open>Components of Ui.tsx\<close>

definition Spinner :: "'e node" where
  "Spinner = El ''output.spinner'' []"

definition Loading :: "string option \<Rightarrow> 'e node" where
  "Loading label = El ''div.loading'' [Spinner, El ''span'' [Txt (nullish label (''Loading'' @ ellipsis))]]"

definition EmptyState :: "string \<Rightarrow> string option \<Rightarrow> 'e node list \<Rightarrow> 'e node" where
  "EmptyState title hint children =
     El ''div.empty'' (El ''strong'' [Txt title] # text_if ''span'' hint @ children)"

definition ErrorBox :: "string \<Rightarrow> 'e option \<Rightarrow> 'e node" where
  "ErrorBox msg onRetry =
     El ''div.error-box'' ([El ''strong'' [Txt ''Something went wrong''], El ''span'' [Txt msg]]
       @ (case onRetry of None \<Rightarrow> [] | Some e \<Rightarrow> [Btn ''btn sm'' True e [Txt ''Retry'']]))"

definition AsyncNode :: "'e \<Rightarrow> 'e node \<Rightarrow> ('a \<Rightarrow> 'e node list) \<Rightarrow> 'a shown \<Rightarrow> 'e node list" where
  "AsyncNode reload whenEmpty children s = (case s of
       ShownLoading label \<Rightarrow> [Loading label]
     | ShownError msg \<Rightarrow> [ErrorBox msg (Some reload)]
     | ShownEmpty \<Rightarrow> [whenEmpty]
     | ShownData d \<Rightarrow> children d)"

definition Field :: "string \<Rightarrow> string option \<Rightarrow> string option \<Rightarrow> 'e node list \<Rightarrow> 'e node" where
  "Field label hint err children =
     El ''label.field'' (El ''span'' [Txt label] # children @ text_if ''span.hint'' hint @ text_if ''span.field-error'' err)"

definition InlineNotice :: "string \<Rightarrow> 'e node list \<Rightarrow> 'e node" where
  "InlineNotice kind children = El (''p.inline-notice '' @ kind) children"

definition Badge :: "string \<Rightarrow> 'e node list \<Rightarrow> 'e node" where
  "Badge kind children = El (''span.badge '' @ kind) (El ''span.dot'' [] # children)"

text \<open>The dialog's own cancel, by Escape, calls \<open>onClose\<close> as its close button does.\<close>

definition Modal :: "string \<Rightarrow> 'e \<Rightarrow> 'e node list \<Rightarrow> 'e node list \<Rightarrow> bool \<Rightarrow> 'e node" where
  "Modal title onClose children footer wide =
     El (''dialog.modal '' @ (if wide then ''lg'' else []))
       ([El ''div.modal-head'' [El ''h3'' [Txt title], Btn ''btn ghost sm'' True onClose []],
         El ''div.modal-body'' children] @ only (footer \<noteq> []) (El ''div.modal-foot'' footer))"

text \<open>The effect on mount: \<open>showModal\<close> unless the dialog is open, on which it would throw.\<close>

definition modal_mount :: "bool option \<Rightarrow> bool option" where
  "modal_mount dialog = (case dialog of Some False \<Rightarrow> Some True | d \<Rightarrow> d)"

definition ToastLayer :: "(nat \<Rightarrow> 'e) \<Rightarrow> toast_rec list \<Rightarrow> 'e node" where
  "ToastLayer dismiss toasts =
     El ''dialog.toast-layer'' [El ''div.toasts''
       (map (\<lambda>t. Btn (''toast '' @ (if t_kind t = ToastError then ''error'' else [])) True (dismiss (t_id t)) [Txt (t_message t)]) toasts)]"

definition SectionTitle :: "string \<Rightarrow> string option \<Rightarrow> 'e node list \<Rightarrow> 'e node" where
  "SectionTitle title description actions =
     El ''div.section-title'' (El ''div'' (El ''h2'' [Txt title] # text_if ''p'' description)
       # only (actions \<noteq> []) (El ''div.row'' actions))"

definition KeyValue :: "string \<Rightarrow> 'e node list \<Rightarrow> bool \<Rightarrow> 'e node" where
  "KeyValue label children fixed =
     El ''div.kv'' [El ''div.kv-label'' [Txt label], El (''div.kv-value '' @ (if fixed then ''mono'' else [])) children]"

section \<open>Components of Layout.tsx\<close>

definition Page :: "string \<Rightarrow> string option \<Rightarrow> string option \<Rightarrow> 'e node list \<Rightarrow> 'e node list \<Rightarrow> 'e node list" where
  "Page title subtitle eyebrow actions children =
     El ''div.page-head row wrap''
       ([El ''div'' (El ''h1''
            ((if truthy_str eyebrow then [El ''span.accent'' [Txt ''//''], El ''span.dim'' [Txt (the eyebrow)], El ''span'' [Txt middle_dot]] else [])
             @ [Txt title]) # text_if ''p'' subtitle),
         El ''div.spacer'' []] @ actions) # children"

definition Stat :: "string \<Rightarrow> 'e node list \<Rightarrow> 'e node list \<Rightarrow> rat option \<Rightarrow> stat_tone option \<Rightarrow> 'e node" where
  "Stat label val sub percent tone =
     El (''div.'' @ Stat_class tone) ([El ''div.label'' [Txt label], El ''div.value'' val]
       @ only (sub \<noteq> []) (El ''div.sub'' sub)
       @ (case Stat_width percent of None \<Rightarrow> [] | Some w \<Rightarrow> [El ''div.meter'' [El ''span'' []]]))"

definition Card :: "string \<Rightarrow> 'e node list \<Rightarrow> bool \<Rightarrow> bool \<Rightarrow> 'e node list \<Rightarrow> 'e node" where
  "Card title actions flush tight children =
     El ''section.card''
       [El ''div.card-head'' (El ''h3'' [Txt title] # only (actions \<noteq> []) (El ''div.actions'' actions)),
        El (''div.card-body'' @ (if flush then '' flush'' else []) @ (if tight then '' tight'' else [])) children]"

definition Table :: "string list \<Rightarrow> 'e node list list \<Rightarrow> 'e node" where
  "Table heads rows =
     El ''div.table-wrap'' [El ''table.table''
       (only (heads \<noteq> []) (El ''thead'' [El ''tr'' (map (\<lambda>h. El ''th'' [Txt h]) heads)])
        @ [El ''tbody'' (map (\<lambda>r. El ''tr'' (map (\<lambda>c. El ''td'' [c]) r)) rows)])]"

section \<open>The gate and the shell\<close>

text \<open>What a control of the frame does: an event of the session, a navigation, or the terminal's button.\<close>

datatype frame_event = Do panel_event | Go string | ToggleTerminal

definition GOSITE_WIKI_URL :: string where
  "GOSITE_WIKI_URL = ''https://github.com/jahrulnr/GoSite/wiki''"

definition submit_button :: "bool \<Rightarrow> panel_event \<Rightarrow> string \<Rightarrow> frame_event node" where
  "submit_button loading e label = Btn ''btn primary'' (\<not> loading) (Do e) [if loading then Spinner else Txt label]"

definition password_field :: "panel \<Rightarrow> frame_event node" where
  "password_field p = El ''label.field'' [El ''span'' [Txt ''Password''],
     Inp ''password'' (pn_password p) True (\<lambda>v. Do (EPassword v))]"

definition login_markup :: "panel \<Rightarrow> frame_event node" where
  "login_markup p = (case Login_view p of (letter, name, hint, remember, err) \<Rightarrow>
     El ''div.login-screen'' [El ''form.login-card''
       ([El ''div.brand-logo'' [Txt letter], El ''h2'' [Txt name], El ''p.sub'' [Txt hint],
         El ''label.field'' [El ''span'' [Txt ''Email''], Inp ''email'' (pn_email p) True (\<lambda>v. Do (EEmail v))],
         password_field p]
        @ only remember (El ''label.row'' [Inp ''checkbox'' (if pn_remember p then ''on'' else []) False
            (\<lambda>v. Do (ERemember (v \<noteq> []))), El ''span'' [Txt ''Remember me'']])
        @ (case err of None \<Rightarrow> [] | Some m \<Rightarrow> [El ''p.field-error'' [Txt m]])
        @ [submit_button (ac_loading (pn_form p)) ELogin ''Sign in''])])"

definition lock_markup :: "panel \<Rightarrow> frame_event node" where
  "lock_markup p = (case Lockscreen_view initials p of (letters, name, sub, err) \<Rightarrow>
     El ''div.login-screen'' [El ''form.login-card''
       ([El ''div.avatar'' [Txt letters], El ''h2'' [Txt name], El ''p.sub'' [Txt sub], password_field p]
        @ (case err of None \<Rightarrow> [] | Some m \<Rightarrow> [El ''p.field-error'' [Txt m]])
        @ [submit_button (ac_loading (pn_form p)) EUnlock ''Unlock''])])"

definition nav_markup :: "panel \<Rightarrow> string \<Rightarrow> frame_event node" where
  "nav_markup p path = El ''nav.nav'' (map (\<lambda>(grp, items). El ''div.nav-group''
     (El ''div.nav-group-label'' [Txt grp]
      # map (\<lambda>(it, active). Btn (''nav-item '' @ (if active then ''active'' else [])) True (Go (ni_path it)) [Txt (ni_label it)]) items))
     (Shell_nav p path))"

definition crumb_markup :: "string \<Rightarrow> frame_event node" where
  "crumb_markup path = El ''div.topbar-crumb''
     ([El ''span'' [Txt ''GoSite''], El ''span.sep'' [Txt ''/'']]
      @ (case TopbarCrumb path of
           CrumbPath s \<Rightarrow> [El ''span.current'' [Txt s]]
         | CrumbItem grp label \<Rightarrow> [El ''span'' [Txt grp], El ''span.sep'' [Txt ''/''], El ''span.current'' [Txt label]]))"

definition topbar_markup :: "panel \<Rightarrow> string \<Rightarrow> string option option \<Rightarrow> bool \<Rightarrow> frame_event node" where
  "topbar_markup p path health terminal = El ''header.topbar'' [crumb_markup path, El ''div.topbar-spacer'' [],
     El ''div.row''
      ([El (''div.'' @ fst (HealthPill health)) [El ''span.dot'' [], El ''span'' [Txt (snd (HealthPill health))]],
        Btn ''btn ghost topbar-icon-btn--terminal'' True ToggleTerminal [Txt ''Terminal'']]
       @ only (lock_button p) (Btn ''btn ghost'' (\<not> ac_loading (pn_lock p)) (Do ELock)
           [Txt (if ac_loading (pn_lock p) then ellipsis else ''Lock'')])
       @ [Btn ''btn ghost'' (\<not> ac_loading (pn_logout p)) (Do ELogout)
           [Txt (if ac_loading (pn_logout p) then ellipsis else ''Logout'')]])]"

definition shell_markup :: "panel \<Rightarrow> string \<Rightarrow> string option option \<Rightarrow> bool \<Rightarrow> frame_event node list \<Rightarrow> frame_event node" where
  "shell_markup p path health terminal body =
     (case shell_brand (app_meta (pn_store p)) of (letter, name, env) \<Rightarrow>
      case shell_user (app_user (pn_store p)) of (letters, user, email) \<Rightarrow>
      El ''div.shell''
       [El ''aside.sidebar''
         [Btn ''sidebar-brand brand-link'' True (Go ''/dashboard'')
            [El ''div.brand-logo'' [Txt letter], El ''div.brand-meta'' [El ''div.brand-name'' [Txt name], El ''div.brand-env'' [Txt env]]],
          nav_markup p path,
          El ''div.sidebar-nav-footer'' [Lnk GOSITE_WIKI_URL [El ''span.nav-item-label'' [Txt ''Docs'']]],
          El ''div.sidebar-footer'' [El ''div.avatar'' [Txt letters],
            El ''div.truncate'' [El ''div'' [Txt (nullish user [])], El ''div.dim mono'' [Txt (nullish email [])]]]],
        El ''main.main'' [topbar_markup p path health terminal, El ''div.content'' body],
        ToastLayer (\<lambda>i. Do (EDismiss i)) (app_toasts (pn_store p))])"

definition panel_markup :: "panel \<Rightarrow> string \<Rightarrow> string option option \<Rightarrow> bool \<Rightarrow> frame_event node list \<Rightarrow> frame_event node" where
  "panel_markup p path health terminal body = (case BootGate p of
       ScreenLoading \<Rightarrow> Loading (Some ''Opening GoSite'')
     | ScreenError err \<Rightarrow> ErrorBox (err_message err) None
     | ScreenLock \<Rightarrow> lock_markup p
     | ScreenLogin \<Rightarrow> login_markup p
     | ScreenShell \<Rightarrow> shell_markup p path health terminal body)"

section \<open>Buttons of the components\<close>

lemma buttons_of_simps [simp]:
  "buttons_of [] = []" "buttons_of (n # ns) = buttons n @ buttons_of ns" "buttons_of (ns @ ms) = buttons_of ns @ buttons_of ms"
  "buttons (El c ns) = buttons_of ns" "buttons_of (only b n) = (if b then buttons n else [])"
  "buttons_of (text_if c t) = []" "buttons (Lnk u ns) = buttons_of ns"
  by (simp_all add: buttons_of_def only_def text_if_def)

declare buttons.simps(2) [simp del] buttons.simps(6) [simp del]

lemma buttons_of_map: "buttons_of (map f xs) = concat (map (\<lambda>x. buttons (f x)) xs)"
  by (induction xs) simp_all

lemma buttons_kit [simp]:
  "buttons Spinner = []" "buttons (Loading l) = []" "buttons (EmptyState t h ns) = buttons_of ns"
  "buttons (ErrorBox m r) = (case r of None \<Rightarrow> [] | Some e \<Rightarrow> [(e, True)])"
  "buttons (Field t h er ns) = buttons_of ns" "buttons (InlineNotice k ns) = buttons_of ns"
  "buttons (Badge k ns) = buttons_of ns" "buttons (KeyValue t ns fx) = buttons_of ns"
  "buttons (SectionTitle t d ns) = buttons_of ns"
  "buttons (Modal t e ns fs wd) = (e, True) # buttons_of ns @ buttons_of fs"
  "buttons (Card t as fl ti ns) = buttons_of as @ buttons_of ns"
  "buttons_of (Page t su ey as ns) = buttons_of as @ buttons_of ns"
  "buttons (Stat t v sb pc tn) = buttons_of v @ buttons_of sb"
  by (auto simp: Spinner_def Loading_def EmptyState_def ErrorBox_def Field_def InlineNotice_def Badge_def
    KeyValue_def SectionTitle_def Modal_def Card_def Page_def Stat_def only_def text_if_def split: option.splits)

lemma buttons_td: "buttons_of (map (\<lambda>c. El ''td'' [c]) r) = buttons_of r"
  by (induction r) simp_all

lemma buttons_th: "buttons_of (map (\<lambda>h. El ''th'' [Txt h]) hs) = []"
  by (induction hs) simp_all

lemma buttons_table: "buttons (Table heads rows) = concat (map buttons_of rows)"
proof -
  have "buttons_of (map (\<lambda>r. El ''tr'' (map (\<lambda>c. El ''td'' [c]) r)) rows) = concat (map buttons_of rows)"
    by (induction rows) (simp_all add: buttons_td)
  then show ?thesis by (simp add: Table_def buttons_th)
qed

lemma buttons_toasts: "buttons (ToastLayer f ts) = map (\<lambda>t. (f (t_id t), True)) ts"
  by (simp add: ToastLayer_def buttons_of_map)

lemma buttons_nav: "(Do e, on) \<notin> set (buttons (nav_markup p path))"
  by (auto simp: nav_markup_def buttons_of_map)

lemma buttons_async:
  "buttons_of (AsyncNode e em f s) = (case s of ShownLoading l \<Rightarrow> [] | ShownError m \<Rightarrow> [(e, True)]
     | ShownEmpty \<Rightarrow> buttons em | ShownData d \<Rightarrow> buttons_of (f d))"
  by (simp add: AsyncNode_def split: shown.splits)

lemmas frame_markup = panel_markup_def shell_markup_def topbar_markup_def crumb_markup_def login_markup_def
  lock_markup_def password_field_def submit_button_def



text \<open>
  The messages of the two ways out are not seen: the toasts belong to the shell, and the idle lock
  and the sign-out, whose answers are the ones that add their message, take the shell away; the lock
  screen and the login form, which come in its place, show no toast.
\<close>

theorem exit_messages_hidden:
  assumes "\<not> pn_loading p" "pn_error p = None"
  shows "''Session locked due to inactivity'' \<in> t_message ` set (app_toasts (pn_store (idle_end g True p)))
     \<and> BootGate (idle_end g True p) = ScreenLock
     \<and> ''Signed out'' \<in> t_message ` set (app_toasts (pn_store (logout_end g None p)))
     \<and> BootGate (logout_end g None p) \<in> {ScreenLock, ScreenLogin}
     \<and> (BootGate q \<in> {ScreenLock, ScreenLogin} \<longrightarrow>
          (Do (EDismiss i), on) \<notin> set (buttons (panel_markup q path health terminal body)))"
  using assms
  by (auto simp: idle_end_def logout_end_def panel_say_def toast_def landed_def setLocked_def setUser_def BootGate_def Let_def
      frame_markup split: option.splits prod.splits if_splits)

theorem exit_messages_hidden_witness:
  "BootGate (idle_end 1 True (panel_init\<lparr>pn_loading := False\<rparr>)) = ScreenLock
   \<and> (Do (EDismiss 0), True) \<notin> set (buttons (panel_markup
        (idle_end 1 True (panel_init\<lparr>pn_loading := False\<rparr>)) ''/'' None False []))"
  using exit_messages_hidden [of "panel_init\<lparr>pn_loading := False\<rparr>" 1
      "idle_end 1 True (panel_init\<lparr>pn_loading := False\<rparr>)" 0 True "''/''" None False "[]"]
  by (simp add: panel_init_def)

end
