(* ===== verification/Panel_Pages.thy ===== *)
theory Panel_Pages
  imports Ui_Markup Websites_View Mounts_View Runtime_Views Saved_Queries
begin

text \<open>
  The pages of the panel as markup: sites with their three dialogs, mounts, cron, docker, database, nginx and
  settings (\<open>web/src/views/\<close>), and the search bar of the logs (\<open>web/src/components/LogsSearch.tsx\<close>).
  A page's buttons carry the event its handlers, modelled in the theory of the view, take.
\<close>

definition badge_cell :: "bool \<Rightarrow> string \<Rightarrow> 'e node" where
  "badge_cell b t = Badge (if b then ''ok'' else ''off'') [Txt t]"

text \<open>A card with a table: what the list pages show of their rows.\<close>

definition table_card :: "string list \<Rightarrow> ('a \<Rightarrow> 'e node list) \<Rightarrow> 'a list \<Rightarrow> 'e node list" where
  "table_card heads cells rows = [El ''div.card'' [Table heads (map cells rows)]]"

definition list_page :: "'e \<Rightarrow> 'e node \<Rightarrow> string list \<Rightarrow> ('a \<Rightarrow> 'e node list) \<Rightarrow> ('d, 'a list) async \<Rightarrow> 'e node list" where
  "list_page reload whenEmpty heads cells st =
     AsyncNode reload whenEmpty (table_card heads cells) (AsyncView (Some (\<lambda>rows. rows = [])) None st)"

definition error_if :: "js_error option \<Rightarrow> 'e node list" where
  "error_if err = (case err of None \<Rightarrow> [] | Some er \<Rightarrow> [ErrorBox (ErrorState er None) None])"

definition spin :: "bool \<Rightarrow> string \<Rightarrow> 'e node" where
  "spin loading label = (if loading then Spinner else Txt label)"

section \<open>Websites\<close>

datatype site_click = SiteNew | SiteToggle website | SiteSsl website | SiteConfig website | SiteEdit website
  | SiteRemove website | SitesReload

definition site_cells :: "ui_meta option \<Rightarrow> website \<Rightarrow> site_click node list" where
  "site_cells meta site = (case site_row meta site of (ty, path, active, sslText, tip) \<Rightarrow>
     [El ''div'' [El ''strong'' [Txt (w_name site)], El ''div.mono dim'' [Txt (w_domain site)]],
      El ''span.badge info'' [Txt ty], El ''td.mono truncate'' [Txt (nullish path [])],
      badge_cell (w_active site) active, badge_cell (w_ssl site) sslText,
      El ''td.right nowrap'' [Btn ''btn sm ghost'' True (SiteToggle site) [], Btn ''btn sm ghost'' True (SiteSsl site) [],
        Btn ''btn sm ghost'' True (SiteConfig site) [], Btn ''btn sm ghost'' True (SiteEdit site) [],
        Btn ''btn sm danger'' True (SiteRemove site) []]])"

definition sites_page :: "ui_meta option \<Rightarrow> ('d, website list) async \<Rightarrow> site_click node list" where
  "sites_page meta st = Page ''Websites''
     (Some (''Sites are stored under '' @ nullish (map_option uw_web_root (Option.bind meta um_websites)) ''the web folder''))
     (Some ''operate'') [Btn ''btn primary'' True SiteNew [Txt ''New'']]
     (list_page SitesReload (EmptyState ''No websites yet'' (Some ''Add your first site to get started.'') [])
        [''Domain'', ''Type'', ''Path / upstream'', ''Status'', ''SSL'', ''Actions''] (site_cells meta) st)"

text \<open>The dialogs that are open over the page.\<close>

record sites_dialogs =
  sd_editing :: "website option"
  sd_ssl :: "website option"
  sd_config :: "website option"

fun sites_click :: "ui_meta option \<Rightarrow> site_click \<Rightarrow> sites_dialogs \<Rightarrow> sites_dialogs" where
  "sites_click meta SiteNew d = d\<lparr>sd_editing := Some (new_site meta)\<rparr>"
| "sites_click meta (SiteEdit site) d = d\<lparr>sd_editing := Some site\<rparr>"
| "sites_click meta (SiteSsl site) d = d\<lparr>sd_ssl := Some site\<rparr>"
| "sites_click meta (SiteConfig site) d = d\<lparr>sd_config := Some site\<rparr>"
| "sites_click meta _ d = d"

datatype site_form = WmClose | WmValidate | WmSubmit | WmType string | WmField website_field

definition website_markup :: "ui_meta option \<Rightarrow> website_modal \<Rightarrow> site_form node" where
  "website_markup meta s =
     (let f = wm_form s; proxy = (wc_type f = ''proxy'') in
      Modal (website_title (wm_site s)) WmClose
       [El ''form'' ([El ''div.grid cols-2''
           [Field ''Name'' None None [Inp ''text'' (wc_name f) True (\<lambda>v. WmField (FldName v))],
            Field ''Domain'' None None [Inp ''text'' (wc_domain f) True (\<lambda>v. WmField (FldDomain v))]],
          Field ''Type'' (Option.bind (Option.bind (map_option uw_types (Option.bind meta um_websites))
                (List.find (\<lambda>t. uo_value t = wc_type f))) uo_hint) None
            [Sel (website_type_options meta f) (wc_type f) WmType],
          Field (if proxy then ''Upstream'' else ''Path'') (pathFieldHint meta f)
            (case wm_validation s of Some (t, ok) \<Rightarrow> if ok then None else Some t | None \<Rightarrow> None)
            [Inp ''text'' (website_field_value f) True (\<lambda>v. WmField (website_field_of f v))],
          El ''label.row wrap'' [Inp ''checkbox'' (if truthy_bool (wc_active f) then ''on'' else []) False (\<lambda>v. WmField (FldActive (v \<noteq> []))),
            El ''span'' [Txt ''Active after save'']]]
        @ (case wm_validation s of None \<Rightarrow> [] | Some (t, ok) \<Rightarrow> [InlineNotice (if ok then ''ok'' else ''danger'') [Txt t]])
        @ (case ac_error (wm_save s) of None \<Rightarrow> []
             | Some er \<Rightarrow> [ErrorBox (ErrorState er (Some (humanizeError (err_message er) meta))) None]))]
       [El ''span.dim'' [Txt ''Validate checks the path before you save.''],
        Btn ''btn'' True WmValidate [spin (ac_loading (wm_validate s)) ''Validate''],
        Btn ''btn primary'' (\<not> ac_loading (wm_save s)) WmSubmit [spin (ac_loading (wm_save s)) ''Save'']] False)"

datatype ssl_form = SslClose | SslCertbot | SslSave | SslPub string | SslPriv string | SslReload

definition ssl_markup :: "(string option \<Rightarrow> string) \<Rightarrow> ssl_status shown \<Rightarrow> ssl_modal \<Rightarrow> ssl_form node" where
  "ssl_markup date status s =
     Modal (''SSL '' @ middle_dot @ '' '' @ w_domain (sl_site s)) SslClose
      (AsyncNode SslReload (EmptyState ''Nothing here yet'' None [])
        (\<lambda>dat. case ssl_stats dat of (enabled, tone, expired) \<Rightarrow>
          [El ''div.col'' [El ''div.grid cols-3''
             [El ''div.stat info'' [El ''div.label'' [Txt ''Enabled''], El ''div.value'' [Txt enabled]],
              El (''div.'' @ tone) [El ''div.label'' [Txt ''Expired''], El ''div.value'' [Txt expired]],
              El ''div.stat info'' [El ''div.label'' [Txt ''Expires''], El ''div.value'' [Txt (date (ssl_expires_at dat))]]],
           El ''form'' ([Field ''Certificate chain'' None None [Inp ''textarea'' (fst (ssl_shown dat s)) False SslPub],
              Field ''Private key'' None None [Inp ''textarea'' (snd (ssl_shown dat s)) False SslPriv]]
             @ error_if (ac_error (sl_manual s)) @ error_if (ac_error (sl_certbot s))
             @ [Btn ''btn'' (\<not> ac_loading (sl_manual s)) SslSave (only (ac_loading (sl_manual s)) Spinner @ [Txt ''Save manual SSL''])])]])
        status)
      [Btn ''btn primary'' (\<not> ac_loading (sl_certbot s)) SslCertbot (only (ac_loading (sl_certbot s)) Spinner @ [Txt ''Certbot''])] True"

text \<open>The configuration dialog; \<open>None\<close> is the event of its close and retry buttons.\<close>

definition config_markup :: "config_modal \<Rightarrow> config_event option node" where
  "config_markup s =
     Modal (''Nginx config '' @ middle_dot @ '' '' @ w_domain (cm_site s)) None
      (AsyncNode None (EmptyState ''Nothing here yet'' None [])
        (\<lambda>d. [El ''form'' (Inp ''editor'' (cm_config s) False (\<lambda>v. Some (CmEdit v)) # error_if (ac_error (cm_save s)))])
        (AsyncView None None (cm_loaded s)))
      ((case cm_notice s of None \<Rightarrow> [] | Some (ok, t) \<Rightarrow> [InlineNotice (if ok then ''ok'' else ''danger'') [Txt t]])
       @ [Btn ''btn'' (\<not> ac_loading (cm_test s)) (Some CmTest) [spin (ac_loading (cm_test s)) ''Test''],
          Btn ''btn primary'' (\<not> ac_loading (cm_save s)) (Some CmSave) [spin (ac_loading (cm_save s)) ''Save config'']]) True"

section \<open>Mounts\<close>

datatype mount_click = MtNew | MtEnable mount | MtEdit mount | MtRemove mount | MtReload

definition mount_cells :: "mount \<Rightarrow> mount_click node list" where
  "mount_cells row = (case mount_row row of (device, dir, ty, opts, state) \<Rightarrow>
     [El ''td.mono'' [Txt device], El ''td.mono'' [Txt dir], El ''span.badge info'' [Txt ty], El ''td.mono truncate'' [Txt opts],
      badge_cell (m_mounted row) state,
      El ''td.right nowrap'' [Btn ''btn sm ghost'' True (MtEnable row) [Txt ''Enable''],
        Btn ''btn sm ghost'' True (MtEdit row) [], Btn ''btn sm danger'' True (MtRemove row) []]])"

definition mounts_page :: "ui_meta option \<Rightarrow> ('d, mount list) async \<Rightarrow> mount_click node list" where
  "mounts_page meta st = Page ''Mounts'' (map_option umt_example (Option.bind meta um_mounts)) (Some ''runtime'')
     [Btn ''btn primary'' True MtNew [Txt ''New'']]
     (list_page MtReload (EmptyState ''No mounts'' (Some ''Add a mount entry to manage fstab from the panel.'') [])
        [''Device'', ''Directory'', ''Type'', ''Options'', ''Status'', ''Actions''] mount_cells st)"

fun mounts_click :: "ui_meta option \<Rightarrow> mount_click \<Rightarrow> mount option \<Rightarrow> mount option" where
  "mounts_click meta MtNew editing = Some (newMount meta)"
| "mounts_click meta (MtEdit row) editing = Some (openEdit row)"
| "mounts_click meta _ editing = editing"

section \<open>Cron\<close>

datatype cron_click = CrNew | CrRun cronjob | CrEdit cronjob | CrRemove cronjob | CrReload

definition cron_cells :: "ui_meta option \<Rightarrow> (string option \<Rightarrow> string) \<Rightarrow> cronjob \<Rightarrow> cron_click node list" where
  "cron_cells meta date job = (case cron_row meta job of (name, every, payload, runs) \<Rightarrow>
     [Txt name, El ''span.badge info'' [Txt every], El ''td.mono truncate'' [Txt payload], Txt (date (cj_executed_at job)),
      El ''td.right nowrap'' (only runs (Btn ''btn sm ghost'' True (CrRun job) [Txt ''Run''])
        @ [Btn ''btn sm ghost'' True (CrEdit job) [], Btn ''btn sm danger'' True (CrRemove job) []])])"

definition cron_page :: "ui_meta option \<Rightarrow> (string option \<Rightarrow> string) \<Rightarrow> ('d, cronjob list) async \<Rightarrow> cron_click node list" where
  "cron_page meta date st = Page ''Cron'' (Some ''Jobs from backend cron APIs'') (Some ''runtime'')
     [Btn ''btn primary'' True CrNew [Txt ''New'']]
     (list_page CrReload (EmptyState ''No cronjobs'' None [])
        [''Name'', ''Schedule'', ''Payload'', ''Last run'', ''Actions''] (cron_cells meta date) st)"

fun cron_clicked :: "ui_meta option \<Rightarrow> cron_click \<Rightarrow> cronjob option \<Rightarrow> cronjob option" where
  "cron_clicked meta CrNew editing = Some (new_cronjob meta)"
| "cron_clicked meta (CrEdit job) editing = Some job"
| "cron_clicked meta _ editing = editing"

datatype cron_form = CfClose | CfSubmit | CfName string | CfEvery string | CfPayload string

fun cron_field :: "cron_form \<Rightarrow> cron_modal \<Rightarrow> cron_modal" where
  "cron_field (CfName v) s = s\<lparr>cr_name := v\<rparr>"
| "cron_field (CfEvery v) s = s\<lparr>cr_run_every := v\<rparr>"
| "cron_field (CfPayload v) s = s\<lparr>cr_payload := v\<rparr>"
| "cron_field _ s = s"

definition cron_markup :: "ui_meta option \<Rightarrow> cron_modal \<Rightarrow> cron_form node" where
  "cron_markup meta s =
     Modal (if cj_id (cr_job s) \<noteq> 0 then ''Edit '' @ cj_name (cr_job s) else ''New cronjob'') CfClose
       [El ''form'' ([Field ''Name'' None None [Inp ''text'' (cr_name s) True CfName],
          Field ''Schedule'' (Option.bind (Option.bind (map_option uk_run_every_options (Option.bind meta um_cron))
              (List.find (\<lambda>it. uo_value it = cr_run_every s))) uo_hint) None
            [Sel (cron_options meta (cr_run_every s)) (cr_run_every s) CfEvery],
          Field ''Payload'' None None [Inp ''textarea'' (cr_payload s) True CfPayload]]
        @ error_if (ac_error (cr_save s)))]
       [Btn ''btn primary'' (\<not> ac_loading (cr_save s)) CfSubmit [spin (ac_loading (cr_save s)) ''Save'']] False"

section \<open>Docker\<close>

datatype docker_click = DkLogs docker_container | DkRestart docker_container | DkStop docker_container
  | DkClose | DkReload | DkLogReload

fun badge_kind_text :: "badge_kind \<Rightarrow> string" where
  "badge_kind_text BadgeOk = ''ok''"
| "badge_kind_text BadgeWarn = ''warn''"
| "badge_kind_text BadgeOff = ''off''"
| "badge_kind_text BadgeDanger = ''danger''"

definition docker_cells :: "ui_meta option \<Rightarrow> docker_container \<Rightarrow> docker_click node list" where
  "docker_cells meta row = (case docker_buttons meta of (logs, restart, stop) \<Rightarrow>
     [El ''td'' [El ''div'' [Txt (dc_name row)], El ''div.mono dim'' [Txt (slice 0 12 (dc_id row))]],
      El ''td.mono'' [Txt (dc_image row)], Badge (badge_kind_text (statusTone (dc_status row))) [Txt (dc_status row)],
      El ''td.right nowrap'' (only logs (Btn ''btn sm ghost'' True (DkLogs row) [Txt ''Logs''])
        @ only restart (Btn ''btn sm ghost'' True (DkRestart row) [Txt ''Restart''])
        @ only stop (Btn ''btn sm danger'' True (DkStop row) [Txt ''Stop'']))])"

definition docker_page :: "ui_meta option \<Rightarrow> ('d, docker_container list) async \<Rightarrow> string option \<Rightarrow>
    (string option, string list) async \<Rightarrow> docker_click node list" where
  "docker_page meta st logId logState = Page ''Docker'' (Some ''Containers visible to the panel'') (Some ''runtime'') []
     (list_page DkReload (EmptyState ''No containers'' (Some ''No containers visible to the panel. Check Docker socket access on the host.'') [])
        [''Name'', ''Image'', ''Status'', ''Actions''] (docker_cells meta) st
      @ (case docker_log_modal logId logState of
           None \<Rightarrow> []
         | Some (title, body) \<Rightarrow>
             [Modal title DkClose (AsyncNode DkLogReload (EmptyState ''Nothing here yet'' None []) (\<lambda>t. [El ''pre.logbox'' [Txt t]]) body) [] True]))"

fun docker_clicked :: "docker_click \<Rightarrow> string option \<Rightarrow> string option" where
  "docker_clicked (DkLogs row) logId = Some (dc_id row)"
| "docker_clicked DkClose logId = None"
| "docker_clicked _ logId = logId"

section \<open>Database\<close>

datatype table_event = OpenTable string | TablesReload | RowsReload

definition data_table :: "(string \<times> string) list \<times> string list list \<Rightarrow> table_event node" where
  "data_table dat = El ''div.table-wrap'' [El ''table.table''
     [El ''thead'' [El ''tr'' (map (\<lambda>(i, c). El ''th'' [El ''span.row'' [El ''span'' [Txt i], Txt c]]) (fst dat))],
      El ''tbody'' (map (\<lambda>r. El ''tr'' (map (\<lambda>c. El ''td'' [Txt c]) r)) (snd dat))]]"

definition tables_card :: "string list shown \<Rightarrow> table_event node" where
  "tables_card tables = Card ''Tables'' [] False False
     (AsyncNode TablesReload (EmptyState ''Nothing here yet'' None [])
       (\<lambda>names. [El ''div.table-wrap'' [El ''table.table'' [El ''tbody''
          (map (\<lambda>nm. Btn ''tr.file-row'' True (OpenTable nm) [El ''span.badge info'' [Txt ''tbl''], El ''span.mono'' [Txt nm]]) names)]]])
       tables)"

definition rows_markup :: "(int \<Rightarrow> string) \<Rightarrow> (json \<Rightarrow> string) \<Rightarrow> string option \<Rightarrow>
    (string option, database_table_data option) async \<Rightarrow> table_event node" where
  "rows_markup num show_value table st = (case DatabaseView show_value table st of (title, body) \<Rightarrow>
     Card title (case as_data st of
         Some (Some d) \<Rightarrow> [El ''span.dim mono'' [Txt (num (dbd_count d) @ '' rows '' @ middle_dot @ '' '' @ dec_int (dbd_limit d) @ '' shown'')]]
       | _ \<Rightarrow> []) False False
       (case body of
          SelectTable \<Rightarrow> [EmptyState ''Select a table'' (Some ''Pick one on the left to view rows.'') []]
        | TableRows sh \<Rightarrow> AsyncNode RowsReload (EmptyState ''No rows'' None []) (\<lambda>d. [data_table d]) sh))"

definition database_page :: "(int \<Rightarrow> string) \<Rightarrow> (json \<Rightarrow> string) \<Rightarrow> string list shown \<Rightarrow> string option \<Rightarrow>
    (string option, database_table_data option) async \<Rightarrow> table_event node list" where
  "database_page num show_value tables table st =
     Page ''Database'' (Some ''Browse tables in the panel database'') (Some ''storage'') []
       [El ''div.grid cols-2'' [tables_card tables, rows_markup num show_value table st]]"

section \<open>Nginx and settings\<close>

datatype nginx_click = NgTest | NgSave | NgReload | NgTab nginx_tab | NgEdit string | NgRetry

definition nginx_page :: "nginx_view \<Rightarrow> nginx_click node list" where
  "nginx_page s = Page ''Nginx'' (Some ''Edit default server or global nginx configuration'') (Some ''config'')
     [Btn ''btn'' True NgTest [spin (ac_loading (ng_test s)) ''Test''],
      Btn ''btn'' True NgSave [spin (ac_loading (ng_saveDefault s) \<or> ac_loading (ng_saveGlobal s)) ''Save''],
      Btn ''btn primary'' True NgReload [spin (ac_loading (ng_reload s)) ''Reload'']]
     ([El ''div.tabs''
         [Btn (if ng_tab s = TabDefault then ''active'' else []) True (NgTab TabDefault) [Txt ''Default server''],
          Btn (if ng_tab s = TabGlobal then ''active'' else []) True (NgTab TabGlobal) [Txt ''Global config'']],
       (case nginx_shown s of
          NginxLoading title \<Rightarrow> Card title [] False False [Loading (Some ''Loading nginx config'')]
        | NginxFailed title msg \<Rightarrow> Card title [] False False [ErrorBox msg (Some NgRetry)]
        | NginxEditor title n t \<Rightarrow> Card title [El ''span.dim mono'' [Txt (dec_nat n @ '' chars'')]] False False
            [Inp ''editor'' t False NgEdit])]
      @ error_if (ac_error (ng_test s)) @ error_if (ac_error (ng_saveDefault s))
      @ error_if (ac_error (ng_saveGlobal s)) @ error_if (ac_error (ng_reload s)))"

datatype settings_form = SfSubmit | SfName string | SfEmail string | SfPassword string | SfReload

fun settings_field :: "settings_form \<Rightarrow> settings_view \<Rightarrow> settings_view" where
  "settings_field (SfName v) s = s\<lparr>st_name := v\<rparr>"
| "settings_field (SfEmail v) s = s\<lparr>st_email := v\<rparr>"
| "settings_field (SfPassword v) s = s\<lparr>st_password := v\<rparr>"
| "settings_field _ s = s"

definition profile_card :: "settings_view \<Rightarrow> settings_form node" where
  "profile_card s = Card ''Profile'' [] False False [El ''form''
     ([Field ''Name'' None None [Inp ''text'' (st_name s) False SfName],
       Field ''Email'' None None [Inp ''email'' (st_email s) False SfEmail],
       Field ''New password'' (Some ''Leave blank to keep the current password'') None
         [Inp ''password'' (st_password s) False SfPassword]]
      @ error_if (ac_error (st_save s))
      @ [El ''div.row'' [Btn ''btn primary'' True SfSubmit [spin (ac_loading (st_save s)) ''Save profile'']]])]"

definition settings_page :: "string option shown \<Rightarrow> settings_form node list \<Rightarrow> settings_view \<Rightarrow> settings_form node list" where
  "settings_page health plugins s =
     Page ''Settings'' (Some ''Manage your account and inspect panel health'') (Some ''config'') []
      [El ''div.grid cols-2'' [profile_card s,
         Card ''Health'' [] False False (AsyncNode SfReload (EmptyState ''Nothing here yet'' None [])
          (\<lambda>st. case health_card st of (kind, label, hint) \<Rightarrow>
             [El ''div.col'' [El ''div.row'' [Badge kind [Txt label], El ''span.dim'' [Txt hint]], El ''div.divider'' [],
                KeyValue ''Endpoint'' [Txt ''/health''] True,
                KeyValue ''Panel version'' [Txt (nullish (Option.bind (Option.bind (app_meta (st_store s)) um_app) app_version) em_dash)] True,
                KeyValue ''Auth'' [Txt (nullish (map_option u_email (app_user (st_store s))) [])] True]]) health)],
       El ''div'' [Card ''Plugins'' [] False False plugins]]"

section \<open>The search bar\<close>

datatype bar_event = BarCall search_call | BarSource string | BarHelp | BarAdvanced

definition bar_toggle :: "bar_event \<Rightarrow> search_bar \<Rightarrow> search_bar" where
  "bar_toggle e b = (case e of BarHelp \<Rightarrow> b\<lparr>sb_help := \<not> sb_help b\<rparr>
     | BarAdvanced \<Rightarrow> b\<lparr>sb_advanced := \<not> sb_advanced b\<rparr> | _ \<Rightarrow> b)"

definition options_or :: "string \<Rightarrow> (string \<times> string) list \<Rightarrow> (string \<times> string) list" where
  "options_or hint os = (if os = [] then [([], hint @ ellipsis)] else os)"

definition prompt_row :: "query_source_meta option \<Rightarrow> query_source_meta list \<Rightarrow> string \<Rightarrow> string \<Rightarrow> time_range list \<Rightarrow> bool \<Rightarrow> bar_event node" where
  "prompt_row source sources query timeRange timeRanges running = El ''div.splunk-bar-row''
     [Btn (''splunk-prompt'' @ (if query \<noteq> [] then '' active'' else [])) True (BarCall onPromptClick) [Txt ''>''],
      Sel (options_or ''source'' (map (\<lambda>q. (qs_id q, qs_label q)) sources)) (nullish (map_option qs_id source) []) BarSource,
      Inp (queryPlaceholder source) query False (\<lambda>v. BarCall (OnQuery v)),
      Sel (options_or ''range'' (map (\<lambda>r. (tr_value r, tr_label r)) timeRanges)) timeRange (\<lambda>v. BarCall (OnTime v)),
      Btn (if running then ''splunk-stop'' else ''splunk-run'') True (BarCall (search_button running))
        [Txt (if running then ''Stop'' else ''Run'')]]"

definition help_panel :: "syntax_topic list \<Rightarrow> string option \<Rightarrow> search_bar \<Rightarrow> bar_event node list" where
  "help_panel topics helpUrl b = only (sb_help b) (El ''div.splunk-help-panel''
     ([El ''div.splunk-help-title'' [Txt ''Search syntax'']]
      @ map (\<lambda>t. El ''div.splunk-help-topic'' ([El ''div.topic-title'' [Txt (st_title t)], El ''code.topic-syntax'' [Txt (st_syntax t)]]
          @ text_if ''code.topic-example'' (st_example t) @ text_if ''div.topic-note'' (st_note t))) topics
      @ (case help_link helpUrl b of None \<Rightarrow> [] | Some u \<Rightarrow> [Lnk u [Txt (''Full tutorial '' @ right_arrow)]])))"

definition syntax_row :: "string \<Rightarrow> syntax_topic list \<Rightarrow> string option \<Rightarrow> search_bar \<Rightarrow> bar_event node list" where
  "syntax_row hint topics helpUrl b = only (sb_advanced b) (El ''div.splunk-syntax-row''
     [El ''div.splunk-syntax'' [El ''code'' [Txt hint]],
      El (''div.splunk-help'' @ (if sb_help b then '' open'' else []))
        (Btn ''splunk-help-trigger'' True BarHelp [Txt ''?''] # help_panel topics helpUrl b)])"

definition chips_row :: "query_source_meta option \<Rightarrow> search_bar \<Rightarrow> bar_event node list" where
  "chips_row source b = (case search_chips source b of
       None \<Rightarrow> []
     | Some (chips, toggle) \<Rightarrow> [El ''div.splunk-chips''
         (map (\<lambda>(label, c). Btn ''splunk-chip'' True (BarCall c) [Txt label]) chips
          @ [Btn ''splunk-chip toggle-advanced'' True BarAdvanced [Txt toggle]])])"

definition choice :: "string \<Rightarrow> bool \<Rightarrow> search_call \<Rightarrow> bar_event node" where
  "choice label on c = Btn (if on then ''active'' else []) True (BarCall c) [Txt label]"

definition mode_row :: "log_mode \<Rightarrow> log_format \<Rightarrow> bar_event node list \<Rightarrow> bar_event node" where
  "mode_row m f saved = El ''div.splunk-subbar''
     ([El ''div.splunk-mode'' [choice ''History'' (m = ModeHistory) (OnMode ModeHistory), choice ''Live Tail'' (m = ModeLive) (OnMode ModeLive)]]
      @ saved @ [El ''div.grow'' [],
         El ''div.splunk-format'' [choice ''Raw'' (f = FmtRaw) (OnFormat FmtRaw), choice ''Smart'' (f = FmtSmart) (OnFormat FmtSmart)]])"

definition LogsSearch :: "query_meta_response \<Rightarrow> bar_event node list \<Rightarrow> search_bar \<Rightarrow> logs_view \<Rightarrow> bar_event node" where
  "LogsSearch meta saved b s = El ''div.splunk-bar''
     ([prompt_row (lv_source s) (qm_sources meta) (lv_query s) (lv_timeRange s) (qm_time_ranges meta) (lv_running s)]
      @ syntax_row (qm_syntax_hint meta) (nullish (qm_syntax_topics meta) []) (qm_help_url meta) b
      @ chips_row (lv_source s) b @ [mode_row (lv_mode s) (lv_format s) saved])"

section \<open>The buttons of the pages\<close>

lemma buttons_cells [simp]: "buttons (badge_cell b t) = []" "buttons (spin l t) = []" "buttons_of (error_if err) = []"
  by (simp_all add: badge_cell_def spin_def error_if_def split: option.splits)

lemma buttons_list_page:
  "buttons_of (list_page reload em heads cells st) = (case AsyncView (Some (\<lambda>rows. rows = [])) None st of
       ShownLoading l \<Rightarrow> [] | ShownError m \<Rightarrow> [(reload, True)] | ShownEmpty \<Rightarrow> buttons em
     | ShownData rows \<Rightarrow> concat (map (\<lambda>r. buttons_of (cells r)) rows))"
  by (simp add: list_page_def buttons_async table_card_def buttons_table comp_def split: shown.splits)

text \<open>The rows a list page shows.\<close>

definition rows_shown :: "('d, 'a list) async \<Rightarrow> 'a list" where
  "rows_shown st = (case AsyncView (Some (\<lambda>rows. rows = [])) None st of ShownData rows \<Rightarrow> rows | _ \<Rightarrow> [])"

lemma docker_cells_buttons:
  "buttons_of (docker_cells meta row) = (if fst (docker_buttons meta) then [(DkLogs row, True)] else [])
     @ (if fst (snd (docker_buttons meta)) then [(DkRestart row, True)] else [])
     @ (if snd (snd (docker_buttons meta)) then [(DkStop row, True)] else [])"
  by (simp add: docker_cells_def split: prod.splits)

lemma cron_cells_buttons:
  "buttons_of (cron_cells meta date job) =
     (if truthy_bool (map_option (\<lambda>c. uc_enabled (uk_manual_run c)) (Option.bind meta um_cron)) then [(CrRun job, True)] else [])
     @ [(CrEdit job, True), (CrRemove job, True)]"
  by (simp add: cron_cells_def cron_row_def)

lemma docker_page_buttons:
  assumes "e \<notin> {DkReload, DkClose, DkLogReload}"
  shows "(e, on) \<in> set (buttons_of (docker_page meta boxes logId logState)) \<longleftrightarrow>
    (\<exists>row \<in> set (rows_shown boxes). (e, on) \<in> set (buttons_of (docker_cells meta row)))"
  using assms by (cases "AsyncView (Some (\<lambda>rows. rows = [])) None boxes"; cases "docker_log_modal logId logState")
    (auto simp: docker_page_def buttons_list_page rows_shown_def buttons_async split: shown.splits)

lemma cron_page_buttons:
  "(CrRun job, on) \<in> set (buttons_of (cron_page meta date jobs)) \<longleftrightarrow>
    (\<exists>row \<in> set (rows_shown jobs). (CrRun job, on) \<in> set (buttons_of (cron_cells meta date row)))"
  by (cases "AsyncView (Some (\<lambda>rows. rows = [])) None jobs")
    (auto simp: cron_page_def buttons_list_page rows_shown_def)


text \<open>The dialog of a site's configuration offers what its machine allows.\<close>

lemma config_buttons_match:
  "(Some CmTest, True) \<in> set (buttons (config_markup s)) \<longleftrightarrow> config_can CmTest s"
  "(Some CmSave, True) \<in> set (buttons (config_markup s)) \<longleftrightarrow> config_can CmSave s"
  by (auto simp: config_markup_def buttons_async split: shown.splits option.splits prod.splits)

end
