(* ===== verification/Files_Markup.thy ===== *)
theory Files_Markup
  imports Files_Page Ui_Markup
begin

text \<open>
  The markup of the file manager, \<open>web/src/views/Files.tsx\<close>: the dialog of file actions, the viewer and the
  page, over the state of \<open>Files_Page\<close>.  Shown: which of its controls can change a file.
\<close>

section \<open>The dialog of file actions\<close>

datatype action_event = AeClose | AeSubmit | AeName string | AeContent string | AePick string | AePath string | AeMode string

fun action_field_markup :: "file_entry option \<Rightarrow> file_action \<Rightarrow> action_field \<Rightarrow> action_event node" where
  "action_field_markup entry a FieldName = Field ''Name'' None None [Inp ''text'' (fa_name a) True AeName]"
| "action_field_markup entry a FieldContent = Field ''Content'' None None [Inp ''editor'' (fa_content a) False AeContent]"
| "action_field_markup entry a FieldFiles = Field ''Files'' None None [Inp ''file'' (join '','' (fa_uploads a)) True AePick]"
| "action_field_markup entry a (FieldDestination label) =
     Field label (map_option fe_path entry) None [Inp ''text'' (fa_toPath a) True AePath]"
| "action_field_markup entry a FieldMode =
     Field ''Mode'' (map_option fe_mode entry) None [Inp ''text'' (fa_mode a) True AeMode]"

definition action_markup :: "file_entry option \<Rightarrow> action_modal \<Rightarrow> action_event node" where
  "action_markup entry s =
     Modal (action_title (am_action s)) AeClose
       [El ''form'' (map (action_field_markup entry (am_form s)) (action_fields (am_action s))
          @ (case ac_error (am_run s) of None \<Rightarrow> [] | Some er \<Rightarrow> [ErrorBox (ErrorState er None) None]))]
       [Btn ''btn primary'' (\<not> ac_loading (am_run s)) AeSubmit [if ac_loading (am_run s) then Spinner else Txt ''Apply'']] False"

section \<open>The viewer\<close>

datatype files_event =
    FeGo string | FePath | FeTyped string | FeModal modal_action | FeRow modal_action file_entry
  | FeOpen file_entry | FeDelete file_entry | FeCheck string bool | FeCheckAll bool
  | FeUp | FeReload | FeCopyUp | FeMoveUp | FeSaveAll | FeDeleteAll
  | FeFormat | FeSave | FeDraft string | FeClose

fun diagnostic_text :: "diagnostic_kind \<Rightarrow> string" where
  "diagnostic_text DiagOk = ''ok''"
| "diagnostic_text DiagDanger = ''danger''"
| "diagnostic_text DiagWarn = ''warn''"

fun viewer_pane_markup :: "bool \<Rightarrow> viewer_pane \<Rightarrow> files_event node list" where
  "viewer_pane_markup saving PaneNone = []"
| "viewer_pane_markup saving (PaneImage url name) = [El ''div.file-preview image-preview'' [El (''img '' @ url) [Txt name]]]"
| "viewer_pane_markup saving (PaneInfo tone kind name hint) =
     [El ''div.file-preview'' [El (''div.file-kind '' @ tone) [Txt kind], El ''h3'' [Txt name], El ''p'' [Txt hint]]]"
| "viewer_pane_markup saving PaneWait = [El ''div.file-preview'' [Spinner]]"
| "viewer_pane_markup saving (PaneEditor name path diag can_save content lang delay) =
     [El ''div.file-editor''
       [El ''div.file-editor-head''
         [El ''div'' [El ''strong'' [Txt name], El ''span.mono dim'' [Txt path]],
          El ''div.row'' [El (''span.diagnostic '' @ diagnostic_text (fst diag)) [Txt (snd diag)],
            Btn ''btn sm'' True FeFormat [Txt ''Format''],
            Btn ''btn sm primary'' can_save FeSave [if saving then Spinner else Txt ''Save'']]],
        Inp ''editor'' content False FeDraft]]"

definition viewer_markup :: "(string \<Rightarrow> string option) \<Rightarrow> (string \<Rightarrow> yaml_error option) \<Rightarrow> file_entry \<Rightarrow> draft option \<Rightarrow> bool \<Rightarrow> files_event node" where
  "viewer_markup parse yaml entry draft saving =
     El ''dialog.modal lg file-viewer-modal''
       [El ''div.modal-head'' [El ''h3'' [Txt (fe_name entry)], Btn ''btn ghost sm'' True FeClose []],
        El ''div.modal-body file-viewer-body''
          (viewer_pane_markup saving (FileViewerContent parse yaml (Some entry) draft saving))]"

section \<open>The page\<close>

definition crumbs_markup :: "files_page \<Rightarrow> files_event node" where
  "crumbs_markup p = El ''div.crumbs'' (concat (map (\<lambda>(i, c).
     only (0 < i) (El ''span.sep'' [Txt ''/''])
     @ [Btn (if fp_moveTarget p = snd c then ''drop-target'' else []) True (FeGo (snd c)) [Txt (fst c)]])
     (enumerate (0::nat) (pathCrumbs (fv_current (fp_view p))))))"

definition sidebar_markup :: "ui_meta option \<Rightarrow> file_tools option \<Rightarrow> files_page \<Rightarrow> files_event node" where
  "sidebar_markup meta tools p = El ''aside.file-sidebar''
     [El ''div.file-path-box'' [Field ''Path'' None None [El ''form'' [Inp ''text'' (fv_typed (fp_view p)) False FeTyped]]],
      El ''div.file-roots'' (map (\<lambda>(label, path, active, target).
        Btn ((if active then ''active'' else []) @ '' '' @ (if target then ''drop-target'' else [])) True (FeGo path)
          [El ''span'' [Txt label], El ''small'' [Txt path]]) (root_buttons meta p)),
      El ''div.file-tools'' (El ''span'' [Txt ''Archive tools'']
        # map (\<lambda>(name, on). El (''b'' @ (if on then ''.on'' else [])) [Txt name]) (archive_tools tools))]"

definition toolbar_markup :: "action_state \<Rightarrow> action_state \<Rightarrow> files_page \<Rightarrow> files_event node" where
  "toolbar_markup saveBatch batchDelete p =
     (let tb = files_toolbar saveBatch batchDelete (fp_view p) in
      El ''div.file-toolbar''
       [crumbs_markup p, El ''span.grow'' [], Btn ''btn sm'' (tb_up tb) FeUp [], Btn ''btn sm'' True FeReload [],
        Btn ''btn sm'' (tb_copy tb) FeCopyUp [], Btn ''btn sm'' (tb_move tb) FeMoveUp [],
        Btn ''btn sm'' (tb_save tb) FeSaveAll [], Btn ''btn sm danger'' (tb_delete tb) FeDeleteAll []])"

definition file_cells :: "(string \<Rightarrow> string) \<Rightarrow> (int \<Rightarrow> string) \<Rightarrow> files_page \<Rightarrow> file_entry \<Rightarrow> files_event node list" where
  "file_cells date bytes p e =
     (let r = file_row_of date bytes p e in
      [Inp ''checkbox'' (if fr_checked r then ''on'' else []) False (\<lambda>v. FeCheck (fe_path e) (v \<noteq> [])),
       El ''td'' [Btn (''file-name '' @ fr_tone r) True (FeOpen e) [El ''span'' [Txt (fr_name r)]],
         El ''div.mono dim file-path'' [Txt (fr_path r)]],
       El (''span.file-kind '' @ fr_tone r) [Txt (fr_kind r)], El ''td.mono'' [Txt (fr_mode r)], Txt (fr_modified r),
       El ''td.right'' [Txt (fr_size r)],
       El ''td.right nowrap'' (Btn ''btn sm ghost'' True (FeOpen e) []
         # map (\<lambda>a. Btn ''btn sm ghost'' True (FeRow a e) []) (fr_actions r)
         @ [Btn ''btn sm danger'' True (FeDelete e) []])])"

definition files_markup :: "ui_meta option \<Rightarrow> (string \<Rightarrow> string) \<Rightarrow> (int \<Rightarrow> string) \<Rightarrow> action_state \<Rightarrow> action_state \<Rightarrow>
    file_tools option \<Rightarrow> file_entry list shown \<Rightarrow> js_error option \<Rightarrow> files_page \<Rightarrow> files_event node list" where
  "files_markup meta date bytes saveBatch batchDelete tools listing err p = (case meta of
       None \<Rightarrow> Page ''Files'' (Some ''Loading folders...'') (Some ''storage'') []
         [EmptyState ''Loading file manager'' (Some ''Reading folders from the server.'') []]
     | Some m \<Rightarrow> Page ''Files'' (Some (fv_current (fp_view p))) (Some ''storage'')
         [Btn ''btn'' True (FeModal ActFolder) [Txt ''Folder''], Btn ''btn'' True (FeModal ActFile) [Txt ''File''],
          Btn ''btn primary'' True (FeModal ActUpload) [Txt ''Upload'']]
         [El (''div.file-manager '' @ (if fp_dragOver p then ''drag-over'' else []))
           [sidebar_markup (Some m) tools p,
            El ''section.file-main''
             ([toolbar_markup saveBatch batchDelete p]
              @ AsyncNode FeReload (EmptyState ''This folder is empty'' (Some ''Drop files here or create a new folder.'') [])
                  (\<lambda>entries. [El ''div.file-grid'' [El ''div.file-table-wrap''
                     [Inp ''checkbox'' (if all_checked (fp_view p) then ''on'' else []) False (\<lambda>v. FeCheckAll (v \<noteq> [])),
                      Table [''Name'', ''Kind'', ''Mode'', ''Modified'', ''Size'', ''Actions''] (map (file_cells date bytes p) entries)]]])
                  listing
              @ (case err of None \<Rightarrow> [] | Some er \<Rightarrow> [ErrorBox (ErrorState er None) None]))]])"

section \<open>What the controls need\<close>

text \<open>The viewer saves only an editable file with unsaved changes, and not while a save is in flight.\<close>

lemma viewer_save_enabled:
  "(FeSave, True) \<in> set (buttons (viewer_markup parse yaml e draft saving)) \<longleftrightarrow>
     fe_kind e \<noteq> ''image'' \<and> fe_editable e \<and> \<not> saving \<and> (\<exists>d. draft = Some d \<and> df_dirty d)"
  by (auto simp: viewer_markup_def FileViewerContent_def Let_def split: option.splits)

text \<open>A row offers to extract exactly an archive.\<close>

lemma row_extract:
  "(FeRow ActExtract x, on) \<in> set (buttons_of (file_cells date bytes p e)) \<longleftrightarrow> x = e \<and> on \<and> fe_archive e"
  by (auto simp: file_cells_def file_row_of_def row_actions_def buttons_of_map)

end
