(* ===== verification/Editor_Setup.thy ===== *)
theory Editor_Setup
  imports Code_Editor Files_Page
begin

text \<open>
  How the editor is put together: the parser of a language (\<open>web/src/lib/editorLanguage.ts\<close>), the colours
  (\<open>web/src/lib/editorHighlight.ts\<close>), the extensions of \<open>web/src/components/CodeEditor.tsx\<close>, which are fixed
  when the editor is created, and the linter, which asks the validator of the moment.
\<close>

section \<open>Extensions\<close>

text \<open>The grammar of a language; plain text has none.\<close>

fun languageExtension :: "editor_language \<Rightarrow> string option" where
  "languageExtension LNginx = Some ''nginx''"
| "languageExtension LShell = Some ''shell''"
| "languageExtension LJson = Some ''json''"
| "languageExtension LYaml = Some ''yaml''"
| "languageExtension LJavascript = Some ''javascript''"
| "languageExtension LCss = Some ''css''"
| "languageExtension LHtml = Some ''html''"
| "languageExtension LXml = Some ''xml''"
| "languageExtension LToml = Some ''toml''"
| "languageExtension LDockerfile = Some ''dockerFile''"
| "languageExtension LProperties = Some ''properties''"
| "languageExtension LText = None"

datatype syntax_tag = Tag string | DefinitionOf string

record token_style =
  tk_color :: string
  tk_extra :: "(string \<times> string) option"

definition style :: "string \<Rightarrow> token_style" where
  "style c = \<lparr>tk_color = c, tk_extra = None\<rparr>"

definition codeHighlightStyle :: "(syntax_tag \<times> token_style) list" where
  "codeHighlightStyle = [
     (Tag ''tagName'', style ''#7ee787''),
     (Tag ''attributeName'', style ''#79c0ff''),
     (Tag ''attributeValue'', style ''#ce9178''),
     (Tag ''string'', style ''#ce9178''),
     (Tag ''comment'', \<lparr>tk_color = ''#8b949e'', tk_extra = Some (''fontStyle'', ''italic'')\<rparr>),
     (Tag ''keyword'', style ''#ff7b72''),
     (Tag ''propertyName'', style ''#79c0ff''),
     (DefinitionOf ''propertyName'', style ''#79c0ff''),
     (Tag ''typeName'', style ''#ffa657''),
     (Tag ''className'', style ''#ffa657''),
     (Tag ''number'', style ''#79c0ff''),
     (Tag ''bool'', style ''#79c0ff''),
     (Tag ''operator'', style ''#d2a8ff''),
     (Tag ''invalid'', style ''#f85149''),
     (Tag ''meta'', style ''#8b949e''),
     (Tag ''heading'', \<lparr>tk_color = ''#79c0ff'', tk_extra = Some (''fontWeight'', ''bold'')\<rparr>),
     (Tag ''link'', \<lparr>tk_color = ''#58a6ff'', tk_extra = Some (''textDecoration'', ''underline'')\<rparr>),
     (Tag ''variableName'', style ''#c9d1d9''),
     (DefinitionOf ''variableName'', style ''#d2a8ff'')]"

datatype editor_extension = LineNumbers | ActiveLineGutter | ActiveLine | DrawSelection | History | Keymap
  | LineWrapping | ReadOnly bool | Highlighting "(syntax_tag \<times> token_style) list" | UpdateListener | Theme string
  | Grammar string | Placeholder string | LintGutter | RemoteLinter nat

record editor_props =
  ep_language :: "editor_language option"
  ep_placeholder :: "string option"
  ep_className :: "string option"
  ep_minHeight :: "string option"
  ep_readOnly :: "bool option"
  ep_delay :: "nat option"
  ep_validate :: "(string \<Rightarrow> js_error + validation_answer) option"

definition editor_extensions :: "editor_props \<Rightarrow> editor_extension list" where
  "editor_extensions p =
     [LineNumbers, ActiveLineGutter, ActiveLine, DrawSelection, History, Keymap, LineWrapping,
      ReadOnly (nullish (ep_readOnly p) False), Highlighting codeHighlightStyle, UpdateListener,
      Theme (nullish (ep_minHeight p) ''220px'')]
     @ (case languageExtension (nullish (ep_language p) LText) of None \<Rightarrow> [] | Some g \<Rightarrow> [Grammar g])
     @ (if truthy_str (ep_placeholder p) then [Placeholder (the (ep_placeholder p))] else [])
     @ (if ep_validate p \<noteq> None then [LintGutter, RemoteLinter (nullish (ep_delay p) 800)] else [])"

definition editor_class :: "editor_props \<Rightarrow> string" where
  "editor_class p = ''code-editor'' @ (if truthy_str (ep_className p) then '' '' @ the (ep_className p) else [])"

text \<open>The dependencies of the effect that creates the editor.\<close>

definition editor_deps :: "editor_props \<Rightarrow> editor_language \<times> string option \<times> string option \<times> nat \<times> bool" where
  "editor_deps p = (nullish (ep_language p) LText, ep_minHeight p, ep_placeholder p, nullish (ep_delay p) 800,
     nullish (ep_readOnly p) False)"

text \<open>The editor that is on the page: its dependencies and extensions, made anew when they change.\<close>

definition mount_editor :: "editor_props \<Rightarrow> (_ \<times> editor_extension list) option \<Rightarrow>
    ((editor_language \<times> string option \<times> string option \<times> nat \<times> bool) \<times> editor_extension list) option" where
  "mount_editor p ed = (case ed of
       Some (d, exts) \<Rightarrow> if d = editor_deps p then ed else Some (editor_deps p, editor_extensions p)
     | None \<Rightarrow> Some (editor_deps p, editor_extensions p))"

text \<open>The linter calls the validator the last render left; calling none is a type error, which is reported.\<close>

definition call_validator :: "(string \<Rightarrow> js_error + validation_answer) option \<Rightarrow> string \<Rightarrow> js_error + validation_answer" where
  "call_validator v doc = (case v of
       Some f \<Rightarrow> f doc | None \<Rightarrow> Inl (OtherError ''TypeError'' ''validateRef.current is not a function''))"

definition linted :: "editor_extension list \<Rightarrow> editor_props \<Rightarrow> string \<Rightarrow> diagnostic list" where
  "linted exts p doc = (if \<exists>d. RemoteLinter d \<in> set exts then lint_report (call_validator (ep_validate p)) doc else [])"

text \<open>What the dialog for a new file passes to its editor.\<close>

definition create_props :: "(string \<Rightarrow> string option) \<Rightarrow> (string \<Rightarrow> yaml_error option) \<Rightarrow>
    (string \<Rightarrow> nginx_scope \<Rightarrow> js_error + payload) \<Rightarrow> string \<Rightarrow> file_action \<Rightarrow> editor_props" where
  "create_props parse yaml test dir a =
     \<lparr>ep_language = Some (createLanguage dir a), ep_placeholder = Some ''# file contents'', ep_className = None,
      ep_minHeight = Some ''240px'', ep_readOnly = None, ep_delay = Some (validate_delay (createLanguage dir a)),
      ep_validate = validatorForFile parse yaml test (createPath dir a)
        \<lparr>lh_kind = Some [], lh_extension = Some (create_extension a)\<rparr> (Some (fa_content a))\<rparr>"

section \<open>Properties\<close>

text \<open>Each tag has one style, and each language but plain text one grammar.\<close>

lemma distinct_tags: "distinct (map fst codeHighlightStyle)"
  by (simp add: codeHighlightStyle_def)

lemma grammars_distinct: "languageExtension a = languageExtension b \<Longrightarrow> a = b"
  by (cases a; cases b) simp_all

text \<open>An editor is linted exactly when it had a validator as it was made.\<close>

lemma lint_needs_validator: "(\<exists>d. RemoteLinter d \<in> set (editor_extensions p)) \<longleftrightarrow> ep_validate p \<noteq> None"
  by (auto simp: editor_extensions_def split: option.splits)

text \<open>
  The dialog for a new file takes a name without a dot for its extension when it chooses the validator, not
  when it chooses the language.  So a name can take the validator away and leave the editor, whose linter
  then reports the failed call as an error of the text.
\<close>

lemma dotless_name: "CHR ''.'' \<notin> set (fa_name a) \<Longrightarrow> create_extension a = fa_name a"
proof -
  have "CHR ''.'' \<notin> set s \<Longrightarrow> split_on CHR ''.'' s = [s]" for s by (induction s) auto
  then show "CHR ''.'' \<notin> set (fa_name a) \<Longrightarrow> create_extension a = fa_name a" by (simp add: create_extension_def)
qed

definition demo_create :: "string \<Rightarrow> file_action" where
  "demo_create nm = (file_action_init ''/d'' None)\<lparr>fa_name := nm, fa_content := ''{}''\<rparr>"

lemma demo_create_language:
  "createLanguage ''/d'' (demo_create ''x'') = LJson" "createLanguage ''/d'' (demo_create ''css'') = LJson"
  "detectLanguage (createPath ''/d'' (demo_create ''x''))
     (Some \<lparr>lh_kind = Some [], lh_extension = Some (create_extension (demo_create ''x''))\<rparr>) (Some ''{}'') = LJson"
  "detectLanguage (createPath ''/d'' (demo_create ''css''))
     (Some \<lparr>lh_kind = Some [], lh_extension = Some (create_extension (demo_create ''css''))\<rparr>) (Some ''{}'') = LCss"
  by code_simp+

theorem linter_loses_validator:
  "(let p = create_props parse yaml test ''/d'' (demo_create ''x'');
        q = create_props parse yaml test ''/d'' (demo_create ''css'') in
    mount_editor q (mount_editor p None) = mount_editor p None
    \<and> ep_validate q = None
    \<and> linted (snd (the (mount_editor q (mount_editor p None)))) q ''{}''
        = [\<lparr>dg_from = 0, dg_to = 1, dg_message = ''validateRef.current is not a function''\<rparr>])"
proof -
  let ?p = "create_props parse yaml test ''/d'' (demo_create ''x'')"
  let ?q = "create_props parse yaml test ''/d'' (demo_create ''css'')"
  have c: "fa_content (demo_create nm) = ''{}''" for nm by (simp add: demo_create_def)
  have deps: "editor_deps ?q = editor_deps ?p"
    by (simp add: editor_deps_def create_props_def demo_create_language)
  have p: "ep_validate ?p \<noteq> None"
    by (simp add: create_props_def validatorForFile_def c demo_create_language validatorForLanguage_def)
  have q: "ep_validate ?q = None"
    by (simp add: create_props_def validatorForFile_def c demo_create_language validatorForLanguage_def)
  have "mount_editor ?q (mount_editor ?p None) = mount_editor ?p None" by (simp add: mount_editor_def deps)
  moreover have "\<exists>d. RemoteLinter d \<in> set (snd (the (mount_editor ?p None)))"
    using p by (simp add: mount_editor_def lint_needs_validator)
  moreover have "trim_str ''{}'' \<noteq> []" by code_simp
  ultimately show ?thesis using q by (simp add: linted_def call_validator_def lint_report_def Let_def)
qed

end
