(* ===== verification/Charts_Page.thy ===== *)
theory Charts_Page
  imports Charts Ui_Markup
begin

text \<open>
  The markup of the traffic view, \<open>web/src/views/Metrics.tsx\<close>, and of the dashboard,
  \<open>web/src/views/Dashboard.tsx\<close>, over what \<open>Charts\<close> computes.  \<open>draw\<close> is the drawing of a chart.
\<close>

section \<open>The traffic view\<close>

datatype metrics_event = McTab metrics_tab | McRange string | McReload string

definition rows_or :: "string \<Rightarrow> string option \<Rightarrow> string list list option \<Rightarrow> 'e node list" where
  "rows_or title hint rows = (case rows of
       None \<Rightarrow> [EmptyState title hint []]
     | Some rs \<Rightarrow> [Table [] (map (map Txt) rs)])"

definition charts_or :: "(sparkline option \<Rightarrow> 'e node) \<Rightarrow> string \<Rightarrow> string \<Rightarrow> sparkline option list option \<Rightarrow> 'e node list" where
  "charts_or draw title hint charts = (case charts of
       None \<Rightarrow> [EmptyState title (Some hint) []]
     | Some cs \<Rightarrow> [El ''div.grid cols-2'' (map draw cs)])"

definition stats_grid :: "string \<Rightarrow> (string \<times> string \<times> stat_tone option) list \<Rightarrow> 'e node" where
  "stats_grid cls xs = El cls (map (\<lambda>(l, v, t). Stat l [Txt v] [] None t) xs)"

definition plain_async :: "string \<Rightarrow> ('a \<Rightarrow> metrics_event node list) \<Rightarrow> 'a shown \<Rightarrow> metrics_event node list" where
  "plain_async nm f s = AsyncNode (McReload nm) (EmptyState ''Nothing here yet'' None []) f s"

definition traffic_panel :: "(rat \<Rightarrow> string) \<Rightarrow> (string \<Rightarrow> string) \<Rightarrow> (sparkline option \<Rightarrow> metrics_event node) \<Rightarrow>
    traffic_metrics_summary shown \<Rightarrow> top_site_entry list shown \<Rightarrow> status_codes_response shown \<Rightarrow>
    traffic_series_response shown \<Rightarrow> metrics_event node" where
  "traffic_panel loc axis draw summary sites codes series = El ''div.grid''
     (plain_async ''summary'' (\<lambda>d. [stats_grid ''div.grid cols-3'' (map (\<lambda>(l, v). (l, v, None)) (traffic_stats loc d))]) summary
      @ [El ''div.grid cols-2''
          [Card ''Top sites'' [] False False (plain_async ''top'' (\<lambda>rows. rows_or ''No traffic in this period''
             (Some ''Try a longer range or check back after site activity.'') (top_rows loc rows)) sites),
           Card ''Status codes'' [] False False (plain_async ''codes'' (\<lambda>d. [El ''div.col''
             (map (\<lambda>(label, n, share, tone). El (''div.'' @ tone) [Txt label, Txt (formatNumber loc (Some (of_int n)))])
               (code_bars (code_entries d)))]) codes)],
         Card ''Request series'' [] False False (plain_async ''series'' (\<lambda>d. charts_or draw ''No request series''
           ''No per-site request data for this time range.'' (request_charts loc axis (Some d))) series),
         Card ''Bytes series'' [] False False (plain_async ''series'' (\<lambda>d. charts_or draw ''No bytes series''
           ''No per-site bandwidth data for this time range.'' (byte_charts axis (Some d))) series)])"

definition nginx_now_markup :: "(rat \<Rightarrow> string) \<Rightarrow> nginx_status_current \<Rightarrow> metrics_event node list" where
  "nginx_now_markup loc d = (case nginx_now loc d of
       None \<Rightarrow> [EmptyState ''No nginx samples yet''
         (Some ''stub_status collector runs every 30 seconds when nginx is reachable on localhost.'') []]
     | Some xs \<Rightarrow> [El ''div.col''
         (only (truthy_bool (Some (ns_counter_reset d))) (El ''div.dim mono''
            [Txt (''Counter reset detected '' @ em_dash @ '' nginx likely restarted; rates omitted for this sample.'')])
          @ [stats_grid ''div.grid cols-4'' (take 4 xs), stats_grid ''div.grid cols-4'' (drop 4 xs)])])"

text \<open>A VTS table: only asked for, and only shown, when the status says the module is there.\<close>

definition vts_card :: "string \<Rightarrow> string \<Rightarrow> string option \<Rightarrow> (nginx_vts_status_response \<Rightarrow> string option) \<Rightarrow>
    nginx_vts_status_response shown \<Rightarrow> string list list option shown \<Rightarrow> string \<Rightarrow> metrics_event node" where
  "vts_card title emptyTitle emptyHint hint vts rows nm = Card title [] False False
     (plain_async ''vts'' (\<lambda>status. if \<not> vts_enabled status then [EmptyState ''VTS not enabled'' (hint status) []]
        else plain_async nm (rows_or emptyTitle emptyHint) rows) vts)"

definition metrics_page :: "ui_meta option \<Rightarrow> ranges \<Rightarrow> metrics_tab \<Rightarrow> string \<Rightarrow> metrics_event node \<Rightarrow> metrics_event node \<Rightarrow> metrics_event node list" where
  "metrics_page meta rs t r traffic nginx = Page ''Traffic'' (Some (metrics_subtitle t)) (Some ''metrics'')
     [El ''div.row''
       [El ''div.tabs'' (map (\<lambda>(label, on). Btn (if on then ''active'' else []) True
          (McTab (if label = ''Nginx'' then TabNginx else TabTraffic)) [Txt label]) (TabSelect t (showNginx meta))),
        Sel (RangeSelect rs r) r McRange]]
     [case t of TabNginx \<Rightarrow> nginx | TabTraffic \<Rightarrow> traffic]"

section \<open>The dashboard\<close>

definition tile_markup :: "tile \<Rightarrow> 'e node" where
  "tile_markup t = El (''div.'' @ Stat_class (ti_tone t))
     ([El ''div.label'' [Txt (ti_label t)], El ''div.value'' [Txt (ti_value t)]]
      @ text_if ''div.sub'' (ti_sub t)
      @ (case tile_meter t of None \<Rightarrow> [] | Some w \<Rightarrow> [El ''div.meter'' [El ''span'' []]]))"

definition KeyRow :: "string \<times> string \<Rightarrow> 'e node" where
  "KeyRow r = El ''div.row'' [El ''span.dim mono'' [Txt (fst r)], El ''span.mono'' [Txt (snd r)]]"

definition io_cards :: "network_traffic option \<Rightarrow> string option \<Rightarrow> string option \<Rightarrow> 'e node list" where
  "io_cards net reads writes =
     [Card ''Network I/O'' [] False False [El ''div.col'' (map KeyRow (network_rows net))],
      Card ''Disk I/O'' [] False False [El ''div.col'' (map KeyRow (disk_rows reads writes))]]"

definition ssl_card :: "(string \<Rightarrow> string) \<Rightarrow> expiring_cert list \<Rightarrow> 'e node" where
  "ssl_card date certs = Card ''SSL watch''
     [Badge (if certs \<noteq> [] then ''warn'' else ''ok'') [Txt (fst (ssl_watch certs))]] False False
     (if certs = [] then [EmptyState ''No expiring certificates'' None []]
      else [El ''div.col'' (map (\<lambda>(c, domain, days, expired).
         El ''div.row wrap'' [El ''div'' [El ''div'' [Txt domain], El ''div.dim mono'' [Txt (date (ec_expires_at c))]],
           Badge (if expired then ''danger'' else ''warn'') [Txt days]]) (zip certs (snd (ssl_watch certs))))])"

definition ranking_card :: "(rat \<Rightarrow> string) \<Rightarrow> traffic_summary \<Rightarrow> (string \<times> traffic_site) list \<Rightarrow> 'e node" where
  "ranking_card loc summary ranked = Card ''Top sites'' [El ''span.dim mono'' [Txt ''last 1h'']] False False
     (if ranked = [] then [EmptyState (ranking_empty summary)
          (Some (if ts_requests (tsum_total summary) > 0
             then ''Total requests are counted. Site rows appear once traffic is attributed to domains.''
             else ''Website visits will show here after nginx logs are collected.'')) []]
      else [El ''div.card-body flush'' [Table [] (map (\<lambda>((num, domain, share), (d, row)).
         [Txt num, El ''div.mono'' [Txt domain],
          El ''td.right nowrap'' [El ''div'' [Txt (formatNumber loc (Some (of_int (ts_requests row))))],
            El ''div.dim mono'' [Txt (formatBytes (Some (of_int (ts_bytes row))) 1)]]])
         (zip (ranking ranked) ranked))]])"

definition audit_card :: "(string \<Rightarrow> string) \<Rightarrow> audit_event list \<Rightarrow> 'e node" where
  "audit_card date events = Card ''Recent audit'' [El ''span.dim mono'' [Txt (fst (recent_audit date events))]] False False
     (if events = [] then [EmptyState ''No audit events'' None []]
      else [El ''div.col'' (map (\<lambda>(source, ts, message). El ''div.row''
         [El ''span.badge info'' [Txt source], El ''div'' [El ''div.mono'' [Txt ts], El ''div'' [Txt message]]])
         (snd (recent_audit date events)))])"

section \<open>What is shown\<close>

lemma texts_table: "texts (Table [] (map (map Txt) rs)) = concat rs"
proof -
  have "concat (map texts (map (\<lambda>r. El ''tr'' (map (\<lambda>c. El ''td'' [c]) r)) (map (map Txt) rs))) = concat rs"
    by (induction rs) (simp_all add: comp_def)
  then show ?thesis by (simp add: Table_def only_def)
qed

text \<open>The tables of the module are on the screen only when the status enables it.\<close>

lemma vts_hidden:
  "vts = ShownData status \<Longrightarrow> \<not> vts_enabled status \<Longrightarrow> vts_card ti et eh hint vts rows nm = vts_card ti et eh hint vts rows' nm'"
  by (simp add: vts_card_def plain_async_def AsyncNode_def)

end
