(* ===== verification/Dialog_Markup.thy ===== *)
theory Dialog_Markup
  imports Ui_Markup Plugins_Page Mcp_View Job_Stream
begin

text \<open>
  The markup of the dialogs that stand over several pages: the install dialog of
  \<open>web/src/views/Plugins.tsx\<close> (\<open>InstallModal\<close>, \<open>InstallPreviewCard\<close>), the dialog that adds a trusted key
  (\<open>web/src/views/PluginsKeyring.tsx\<close>), and the one that follows a job
  (\<open>web/src/components/JobStream.tsx\<close>).  Its controls carry the events the dialogs' machines take.
\<close>

section \<open>The install dialog\<close>

definition tick_mark :: string where
  "tick_mark = map (char_of :: nat \<Rightarrow> char) [226, 156, 147]"

definition cross_mark :: string where
  "cross_mark = map (char_of :: nat \<Rightarrow> char) [226, 156, 151]"

text \<open>\<open>None\<close> is the event of the dialog's close and cancel buttons.\<close>

type_synonym install_node = "install_event option node"

definition preview_chip :: "string \<Rightarrow> install_node" where
  "preview_chip s = El ''span.chip mono'' [Txt s]"

definition preview_list :: "string \<Rightarrow> string list \<Rightarrow> install_node list \<Rightarrow> install_node" where
  "preview_list title xs chips =
     El ''div'' [El ''div.dim'' [Txt (title @ '' ('' @ dec_nat (length xs) @ '')'')],
       El ''div.chip-row'' (chips @ only (xs = []) (El ''span.dim'' [Txt em_dash]))]"

definition preview_markup :: "plugin_resolve_preview \<Rightarrow> bool \<Rightarrow> install_node" where
  "preview_markup preview acked =
     (let visibleHooks = take 5 (pp_hooks preview);
          extraHooks = length (pp_hooks preview) - length visibleHooks
      in El ''div.plugin-detail-card plugin-install-preview''
       [El ''div.row wrap'' [El ''span.mono'' [Txt (pp_plugin_id preview)], Badge ''info'' [Txt ''v'', Txt (pp_version preview)],
          Badge ''info'' [Txt ''tier '', Txt (dec_int (pp_tier preview))],
          if pp_signed preview then Badge ''ok'' [Txt (''signed '' @ tick_mark)] else Badge ''warn'' [Txt (''unsigned '' @ cross_mark)]],
        El ''dl.plugin-facts'' (map (\<lambda>(dt, dd). El ''div'' [El ''dt'' [Txt dt], El ''dd'' [Txt dd]])
          (pc_facts (InstallPreviewCard preview acked))),
        preview_list ''Hooks'' (pp_hooks preview) (map preview_chip visibleHooks
          @ only (extraHooks > 0) (El ''span.chip dim'' [Txt (dec_nat extraHooks), Txt '' more''])),
        preview_list ''Permissions'' (pp_permissions preview)
          (map (\<lambda>p. if p \<in> set HOST_CRITICAL_PERMS then Badge ''warn'' [Txt p] else preview_chip p) (pp_permissions preview)),
        El ''label.row wrap'' [Inp ''checkbox'' (if acked then ''on'' else []) False (\<lambda>v. Some (IeAck (v \<noteq> []))),
          El ''span'' [Txt ''I understand the permissions this plugin requests'']]])"

definition install_text :: "string \<Rightarrow> string \<Rightarrow> string \<Rightarrow> string \<Rightarrow> bool \<Rightarrow> (string \<Rightarrow> install_field) \<Rightarrow> install_node" where
  "install_text label hint kind v required f =
     Field label (Some hint) None [Inp kind v required (\<lambda>t. Some (IeInput (f t)))]"

definition resolve_row :: "bool \<Rightarrow> install_modal \<Rightarrow> install_node" where
  "resolve_row on s = El ''div.row wrap'' [Btn ''btn ghost'' on (Some IeResolve)
     [if im_resolving s \<noteq> None then Spinner else Txt ''Resolve'']]"

definition preview_node :: "install_modal \<Rightarrow> install_node list" where
  "preview_node s = (case im_preview s of None \<Rightarrow> [] | Some p \<Rightarrow> [preview_markup p (im_permissionsAck s)])"

definition tag_hint :: string where
  "tag_hint = ''Release tag, e.g. v1.2.3''"

text \<open>The Resolve button of a tab with two fields: off while a request is out, or one of them is blank.\<close>

definition pair_row :: "string \<Rightarrow> string \<Rightarrow> install_modal \<Rightarrow> install_node" where
  "pair_row a b s = resolve_row (\<not> (im_resolving s \<noteq> None \<or> trim_str a = [] \<or> trim_str b = [])) s"

definition catalog_node :: "plugin_catalog_entry option \<Rightarrow> plugin_catalog_entry \<Rightarrow> install_node" where
  "catalog_node chosen e = Btn (''plugin-catalog-item ''
       @ (if map_option ce_plugin_id chosen = Some (ce_plugin_id e) then ''active'' else [])) True (Some (IeEntry e))
     [El ''div.row wrap'' (El ''strong.mono'' [Txt (ce_plugin_id e)]
        # only (truthy_bool (ce_bundled e)) (Badge ''info'' [Txt ''built-in''])),
      El ''span.dim'' [Txt (or_str (ce_description e) (ce_name e))]]"

text \<open>The catalog: its answer and whether it is still awaited, and the registry's rows.\<close>

definition catalog_markup :: "plugin_catalog_entry list option \<Rightarrow> bool \<Rightarrow> plugin_version list \<Rightarrow> install_modal \<Rightarrow> install_node list" where
  "catalog_markup entries loading rows s =
     [Field ''Search catalog'' None None [Inp ''text'' (im_catalogQuery s) False (\<lambda>t. Some (IeInput (FQuery t)))],
      El ''div.plugin-catalog-list'' (map (catalog_node (im_catalogEntry s)) (nullish entries [])
        @ (case snd (catalog_items entries loading s) of None \<Rightarrow> [] | Some m \<Rightarrow> [El ''span.dim'' [Txt m]]))]
     @ (case catalog_notice rows s of None \<Rightarrow> [] | Some m \<Rightarrow> [InlineNotice ''info'' [Txt m]])
     @ only (im_catalogEntry s \<noteq> None \<and> \<not> catalogBundled s) (resolve_row (im_resolving s = None) s)
     @ (if catalogBundled s then [] else preview_node s)"

definition digest_node :: "install_modal \<Rightarrow> install_node" where
  "digest_node s = install_text ''SHA-256'' ''Optional digest check before registry insert.'' ''text'' (im_sha256 s) False FSha"

definition install_tab_markup :: "plugin_catalog_entry list option \<Rightarrow> bool \<Rightarrow> plugin_version list \<Rightarrow> install_modal \<Rightarrow> install_node list" where
  "install_tab_markup entries loading rows s = (case im_mode s of
       MArtifact \<Rightarrow> [Field ''Artifact'' None None
           [Inp ''file'' (nullish (im_file s) []) True (\<lambda>t. Some (IeInput (FArtifact (if t = [] then None else Some t))))], digest_node s]
     | MManifest \<Rightarrow> [Field ''Manifest JSON'' None None
           [Inp ''textarea'' (im_manifest s) True (\<lambda>t. Some (IeInput (FManifest t)))], digest_node s]
     | MUrl \<Rightarrow> [install_text ''HTTPS URL'' ''Direct link to a plugin artifact.'' ''url'' (im_url s) True FUrl,
           install_text ''SHA-256'' ''Required digest check for remote URL installs.'' ''text'' (im_urlSha256 s) True FUrlSha,
           pair_row (im_url s) (im_urlSha256 s) s] @ preview_node s
     | MGithub \<Rightarrow> [install_text ''Repository'' (''owner/repo '' @ em_dash @ '' paste a GitHub release URL to auto-fill.'')
             ''text'' (im_repo s) True FRepo,
           install_text ''Tag'' tag_hint ''text'' (im_tag s) True FTag, pair_row (im_repo s) (im_tag s) s] @ preview_node s
     | MGitlab \<Rightarrow> [install_text ''Repository'' ''group/project on GitLab'' ''text'' (im_gitlabRepo s) True FGitlabRepo,
           install_text ''Tag'' tag_hint ''text'' (im_gitlabTag s) True FGitlabTag,
           pair_row (im_gitlabRepo s) (im_gitlabTag s) s] @ preview_node s
     | MCatalog \<Rightarrow> catalog_markup entries loading rows s)"

text \<open>
  The whole dialog: \<open>settings\<close> is whether the host's settings are still loading, \<open>err\<close> the text of the
  last failed install.
\<close>

definition install_markup ::
    "bool \<Rightarrow> string option \<Rightarrow> plugin_catalog_entry list option \<Rightarrow> bool \<Rightarrow> plugin_version list \<Rightarrow> install_modal \<Rightarrow> install_node" where
  "install_markup settings err entries loading rows s =
     Modal ''Install plugin'' None
      [El ''form'' ((case remote_notice settings s of None \<Rightarrow> [] | Some m \<Rightarrow> [El ''div'' [InlineNotice ''info'' [Txt m]]])
        @ El ''div.tabs'' (map (\<lambda>(label, m, active). Btn (if active then ''active'' else []) True (Some (IeMode m)) [Txt label])
            (install_tabs s))
        # install_tab_markup entries loading rows s)]
      ((case err of None \<Rightarrow> [] | Some m \<Rightarrow> [InlineNotice ''danger'' [Txt m]])
       @ [Btn ''btn ghost'' True None [Txt ''Cancel''],
          Btn ''btn primary'' (\<not> installDisabled s) (Some IeSubmit) [if im_installing s then Spinner else Txt ''Install'']])
      True"

section \<open>The dialog of a trusted key\<close>

datatype key_event = KeyClose | KeySubmit | KeyVendor string | KeyId string | KeyPublic string

definition key_field :: "string \<Rightarrow> string \<Rightarrow> string \<Rightarrow> string \<Rightarrow> (string \<Rightarrow> key_event) \<Rightarrow> key_event node" where
  "key_field label hint kind v f = Field label (Some hint) None [Inp kind v True f]"

definition add_key_markup :: "ui_meta option \<Rightarrow> add_key_modal \<Rightarrow> key_event node" where
  "add_key_markup meta s =
     Modal ''Add trusted key'' KeyClose
      [El ''form''
        [InlineNotice ''info'' [Txt (''Keys verify Ed25519 signatures on plugin artifacts in strict trust mode. ''
           @ ''Revoking a key blocks new installs; already-enabled plugins keep running.'')],
         key_field ''Vendor'' ''Publisher namespace, e.g. acme'' ''text'' (ak_vendor s) KeyVendor,
         key_field ''Key ID'' ''Stable id referenced in manifest signatures'' ''text'' (ak_keyId s) KeyId,
         key_field ''Public key'' ''Base64-encoded Ed25519 public key'' ''textarea'' (ak_publicKey s) KeyPublic]]
      ((case ac_error (ak_add s) of None \<Rightarrow> [] | Some e \<Rightarrow> [InlineNotice ''danger'' [Txt (humanizeError (err_message e) meta)]])
       @ [Btn ''btn ghost'' True KeyClose [Txt ''Cancel''],
          Btn ''btn primary'' (\<not> ac_loading (ak_add s)) KeySubmit [if ac_loading (ak_add s) then Spinner else Txt ''Add key'']])
      False"

section \<open>The dialog of a job\<close>

definition job_markup :: "'e \<Rightarrow> string \<Rightarrow> job_modal \<Rightarrow> 'e node" where
  "job_markup onClose title m =
     Modal title onClose [El ''pre.logbox stream-logbox'' [Txt (job_modal_text m)]]
       [El ''span.dim'' [Txt ''Status: '', Txt (jm_status m)]] True"

section \<open>Lemmas\<close>

text \<open>The buttons of the parts; a preview and a field have none.\<close>

lemma buttons_none: "(\<And>x. buttons (f x) = []) \<Longrightarrow> buttons_of (map f xs) = []"
  by (induction xs) simp_all

lemma buttons_chip [simp]: "buttons (preview_chip s) = []"
  by (simp add: preview_chip_def)

lemma buttons_preview [simp]: "buttons (preview_markup p acked) = []"
  by (simp add: preview_markup_def preview_list_def Let_def buttons_none split_def)

lemma buttons_preview_node [simp]: "buttons_of (preview_node s) = []"
  by (simp add: preview_node_def split: option.splits)

lemma buttons_text [simp]: "buttons (install_text label hint kind v required f) = []"
  by (simp add: install_text_def)

lemma buttons_resolve [simp]: "buttons (resolve_row on s) = [(Some IeResolve, on)]"
  by (simp add: resolve_row_def)

text \<open>The buttons of a tab: its Resolve button, and in the catalog one of each entry.\<close>

lemma buttons_tab:
  "buttons_of (install_tab_markup entries loading rows s) =
     (if im_mode s = MCatalog then map (\<lambda>e. (Some (IeEntry e), True)) (nullish entries []) else [])
     @ (case resolve_button s of None \<Rightarrow> [] | Some on \<Rightarrow> [(Some IeResolve, on)])"
  by (cases "im_mode s")
    (auto simp: install_tab_markup_def resolve_button_def resolveEnabled_def pair_row_def digest_node_def
      catalog_markup_def catalog_node_def buttons_of_map concat_map_singleton catalogBundled_def split: option.splits)

lemma buttons_tabs:
  "set (buttons_of (map (\<lambda>(label, m, active). Btn (if active then ''active'' else []) True (Some (IeMode m)) [Txt label])
     (install_tabs s))) = {(Some (IeMode m), True) |m. isRemoteMode m \<longrightarrow> im_remoteEnabled s}"
  by (auto simp: install_tabs_def isRemoteMode_def Let_def intro: install_mode.exhaust)

text \<open>
  What can be pressed in the install dialog is what its machine lets happen: of the tabs, of resolving and of
  installing, exactly what \<open>install_can\<close> allows; the entries of the catalog are those of the answer.
\<close>

lemma install_offers_allowed:
  assumes "e = IeResolve \<or> e = IeSubmit \<or> (\<exists>m. e = IeMode m)"
  shows "(Some e, True) \<in> set (buttons (install_markup settings err entries loading rows s)) \<longleftrightarrow> install_can e s"
  using assms
  by (auto simp: install_markup_def buttons_tab buttons_tabs resolve_button_def resolveEnabled_def split: option.splits install_mode.splits)

lemma install_offers_entries:
  "(Some (IeEntry e), True) \<in> set (buttons (install_markup settings err entries loading rows s))
     \<longleftrightarrow> im_mode s = MCatalog \<and> e \<in> set (nullish entries [])"
  by (auto simp: install_markup_def buttons_tab buttons_tabs split: option.splits)

text \<open>
  The browser holds back a form with a required field that is empty: the forms of the two dialogs are
  complete exactly when their models say so.
\<close>

lemma unfilled_kit [simp]:
  "unfilled (Field t h er ns) = sum_list (map unfilled ns)" "unfilled (InlineNotice k ns) = sum_list (map unfilled ns)"
  "unfilled (Badge k ns) = sum_list (map unfilled ns)" "unfilled Spinner = 0"
  "unfilled (Modal t e ns fs wd) = sum_list (map unfilled ns) + sum_list (map unfilled fs)"
  "sum_list (map unfilled (only b n)) = (if b then unfilled n else 0)"
  by (auto simp: Field_def InlineNotice_def Badge_def Spinner_def Modal_def only_def text_if_def)

lemma unfilled_if: "unfilled (if b then n else m) = (if b then unfilled n else unfilled m)"
  by simp

lemma unfilled_preview [simp]: "unfilled (preview_markup p acked) = 0"
  by (auto simp: preview_markup_def preview_list_def Let_def split_def preview_chip_def o_def unfilled_if)

lemma unfilled_preview_node [simp]: "n \<in> set (preview_node s) \<Longrightarrow> unfilled n = 0"
  by (auto simp: preview_node_def split: option.splits)

lemma unfilled_parts [simp]:
  "unfilled (resolve_row on s) = 0" "unfilled (catalog_node c e) = 0"
  "unfilled (install_text l h k v required f) = (if required \<and> v = [] then 1 else 0)"
  "unfilled (key_field l h k v g) = (if v = [] then 1 else 0)"
  by (simp_all add: resolve_row_def catalog_node_def install_text_def key_field_def)

lemma install_markup_complete:
  "unfilled (install_markup settings err entries loading rows s) = 0 \<longleftrightarrow> install_complete s"
proof -
  have tabs: "sum_list (map unfilled (map (\<lambda>(label, m, active). Btn (if active then ''active'' else []) True (Some (IeMode m)) [Txt label]) ts)) = 0" for ts
    by (induction ts) auto
  have "sum_list (map unfilled (install_tab_markup entries loading rows s)) = 0 \<longleftrightarrow> install_complete s"
    by (cases "im_mode s")
      (auto simp: install_tab_markup_def install_complete_def install_fields_def gitlab_fields_def digest_field_def
        digest_node_def pair_row_def catalog_markup_def o_def split: option.splits)
  then show ?thesis
    using tabs by (auto simp: install_markup_def split: option.splits del: map_map)
qed

lemma add_key_markup_complete: "unfilled (add_key_markup meta s) = 0 \<longleftrightarrow> add_key_complete s"
  by (auto simp: add_key_markup_def add_key_complete_def split: option.splits)

end
