(* ===== verification/Pty_Rolling.thy ===== *)
theory Pty_Rolling
  imports Terminal_Client
begin

text \<open>
  The back end of a terminal, first part: the binary frames of \<open>internal/terminal/protocol.go\<close> and
  the dump file of \<open>internal/terminal/rolling.go\<close>.  A file is its bytes, or \<open>None\<close> when it does not
  exist; which of the system calls of an \<open>Append\<close> fail is an argument.
\<close>

section \<open>Binary frames\<close>

unbundle bit_operations_syntax

text \<open>The big-endian header, \<open>binary.BigEndian\<close>, on the 64-bit words of the code.\<close>

definition PutUint64 :: "64 word \<Rightarrow> byte list" where
  "PutUint64 v = map (\<lambda>k. ucast (drop_bit (8 * (7 - k)) v)) [0..<8]"

definition Uint64 :: "byte list \<Rightarrow> 64 word" where
  "Uint64 bs = foldl (\<lambda>n b. push_bit 8 n OR ucast b) 0 bs"

definition EncodeBinaryFrame :: "64 word \<Rightarrow> byte list \<Rightarrow> byte list" where
  "EncodeBinaryFrame sq dat = PutUint64 sq @ dat"

definition DecodeBinaryFrame :: "byte list \<Rightarrow> string + 64 word \<times> byte list" where
  "DecodeBinaryFrame frame =
     (if length frame < 8 then Inl ''binary frame too short''
      else Inr (Uint64 (take 8 frame), drop 8 frame))"

section \<open>The rolling file\<close>

text \<open>\<open>NewRollingFile\<close> keeps at least a kilobyte.\<close>

definition rolling_max :: "int \<Rightarrow> nat" where
  "rolling_max m = nat (if m < 1024 then 1024 else m)"

text \<open>Which calls of an \<open>Append\<close> succeed; a failing \<open>Write\<close> has written a number of bytes.\<close>

record append_io =
  io_mkdir :: bool
  io_open :: bool
  io_stat :: bool
  io_read :: bool
  io_tmp :: bool
  io_rename :: bool
  io_write :: "nat option"
  io_close :: bool

definition io_fine :: append_io where
  "io_fine = \<lparr>io_mkdir = True, io_open = True, io_stat = True, io_read = True, io_tmp = True,
     io_rename = True, io_write = None, io_close = True\<rparr>"

definition rolling_size :: "byte list option \<Rightarrow> nat" where
  "rolling_size f = length (nullish f [])"

definition trim_keep :: "nat \<Rightarrow> nat" where
  "trim_keep mx = mx * 3 div 4"

definition keep_last :: "nat \<Rightarrow> 'a list \<Rightarrow> 'a list" where
  "keep_last n xs = (if length xs > n then drop (length xs - n) xs else xs)"

definition rewriteTrimmed :: "append_io \<Rightarrow> nat \<Rightarrow> byte list \<Rightarrow> byte list \<Rightarrow> string option \<times> byte list" where
  "rewriteTrimmed io mx p existing =
     (if \<not> io_read io then (Some ''rolling: read for trim'', existing)
      else let combined = keep_last mx (keep_last (trim_keep mx) existing @ p)
           in if \<not> io_tmp io then (Some ''rolling: write tmp'', existing)
              else if \<not> io_rename io then (Some ''rolling: rename'', existing)
              else (None, combined))"

definition Append :: "append_io \<Rightarrow> nat \<Rightarrow> byte list \<Rightarrow> byte list option \<Rightarrow> (string + nat) \<times> byte list option" where
  "Append io mx p f =
     (if p = [] then (Inr (rolling_size f), f)
      else if \<not> io_mkdir io then (Inl ''rolling: mkdir'', f)
      else if \<not> io_open io then (Inl ''rolling: open'', f)
      else let d = nullish f [] in
        if io_stat io \<and> length d + length p > mx then
          (case rewriteTrimmed io mx p d of
             (Some e, d') \<Rightarrow> (Inl e, Some d')
           | (None, d') \<Rightarrow> (Inr (length d'), Some d'))
        else (case io_write io of
            Some n \<Rightarrow> (Inl ''rolling: write'', Some (d @ take n p))
          | None \<Rightarrow> (if \<not> io_close io then Inl ''rolling: close'' else Inr (length (d @ p)), Some (d @ p))))"

text \<open>\<open>ReadAll\<close>: nothing for a missing file; \<open>readable\<close> is whether the read of an existing one succeeds.\<close>

definition ReadAll :: "bool \<Rightarrow> byte list option \<Rightarrow> string + byte list" where
  "ReadAll readable f = (case f of None \<Rightarrow> Inr [] | Some d \<Rightarrow> if readable then Inr d else Inl ''rolling: read'')"

text \<open>What a dump holds after a series of appends that succeed.\<close>

definition dump_after :: "nat \<Rightarrow> byte list list \<Rightarrow> byte list option" where
  "dump_after mx chunks = foldl (\<lambda>f p. snd (Append io_fine mx p f)) None chunks"

section \<open>Lemmas\<close>

lemma length_PutUint64 [simp]: "length (PutUint64 v) = 8"
  by (simp add: PutUint64_def)

lemma ucast_drop_unat: "ucast (drop_bit n (v :: 64 word)) = (of_nat (unat v div 2 ^ n) :: byte)"
proof (rule bit_eqI)
  fix m
  assume "possible_bit TYPE(8 word) m"
  then show "bit (ucast (drop_bit n v) :: byte) m = bit (of_nat (unat v div 2 ^ n) :: byte) m"
    by (auto simp: bit_simps simp flip: drop_bit_eq_div)
qed

lemma PutUint64_be8: "PutUint64 v = be8 (unat v)"
proof -
  have "2 ^ (8 * (7 - k)) = (256 :: nat) ^ (7 - k)" for k :: nat by (simp add: power_mult)
  then show ?thesis by (simp add: PutUint64_def be8_def ucast_drop_unat)
qed

lemma unat64: "unat (v :: 64 word) < 2 ^ 64"
  using unsigned_less [of v] by simp

lemma unat_push8: "unat (w :: 64 word) < 256 ^ 7 \<Longrightarrow> unat (push_bit 8 w) = 256 * unat w"
  by (simp add: push_bit_eq_mult unat_word_ariths)

lemma foldl_Uint64:
  "length bs \<le> 8 \<Longrightarrow> unat (foldl (\<lambda>n b. push_bit 8 n OR ucast b) (0 :: 64 word) bs) = getBigUint64 bs
     \<and> getBigUint64 bs < 256 ^ length bs"
proof (induction bs rule: rev_induct)
  case (snoc b bs)
  let ?n = "foldl (\<lambda>n b. push_bit 8 n OR ucast b) (0 :: 64 word) bs"
  from snoc have n: "unat ?n = getBigUint64 bs" "getBigUint64 bs < 256 ^ length bs" by simp_all
  have "(256 :: nat) ^ length bs \<le> 256 ^ 7" using snoc.prems by (intro power_increasing) auto
  with n have small: "unat ?n < 256 ^ 7" by simp
  have or: "push_bit 8 ?n OR ucast b = push_bit 8 ?n + ucast b"
    by (rule disjunctive_add [symmetric]) (auto simp: bit_simps dest: bit_imp_le_length)
  have "unat (push_bit 8 ?n) = 256 * unat ?n"
    using small by (rule unat_push8)
  moreover have b: "unat (ucast b :: 64 word) = unat b" "unat b < 256"
    using unat_byte [of b] by (simp_all add: unsigned_ucast_eq take_bit_eq_mod)
  ultimately have "unat (push_bit 8 ?n + ucast b) = 256 * unat ?n + unat b"
    using small by (simp add: unat_word_ariths)
  moreover have "256 * getBigUint64 bs + unat b < 256 * 256 ^ length bs" using n(2) b(2) by simp
  ultimately show ?case using n or by (simp add: getBigUint64_def)
qed (simp add: getBigUint64_def)

lemma Uint64_PutUint64: "Uint64 (PutUint64 v) = v"
proof -
  have "unat (Uint64 (PutUint64 v)) = getBigUint64 (be8 (unat v))"
    using foldl_Uint64 [of "PutUint64 v"] by (simp add: Uint64_def PutUint64_be8)
  also have "\<dots> = unat v" by (rule getBigUint64_be8 [OF unat64])
  finally show ?thesis by (simp add: word_unat_eq_iff)
qed

lemma getBigUint64_PutUint64: "getBigUint64 (PutUint64 v) = unat v"
  by (simp add: PutUint64_be8 getBigUint64_be8 [OF unat64])

lemma PutUint64_Uint64: "length bs = 8 \<Longrightarrow> PutUint64 (Uint64 bs) = bs"
proof -
  have inj: "n = m" if "PutUint64 n = PutUint64 m" for n m
    using that Uint64_PutUint64 by metis
  assume "length bs = 8"
  then obtain a b c d e f g h where bs: "bs = [a, b, c, d, e, f, g, h]"
    by (auto simp: length_Suc_conv numeral_eq_Suc)
  show ?thesis
    unfolding bs by (simp add: PutUint64_def Uint64_def upt_rec; intro conjI bit_eqI;
      auto simp: bit_simps dest: bit_imp_le_length)
qed

text \<open>A frame the server encodes is, on the client, its position and its bytes.\<close>

lemma handleBinary_encoded:
  "handleBinary (EncodeBinaryFrame sq dat) c =
     (if int (unat sq) \<le> lastReceivedEnd c then c
      else emit [OnData (int (unat sq)) dat] (c\<lparr>lastReceivedEnd := int (unat sq) + int (length dat) - 1\<rparr>))"
  by (simp add: handleBinary_def EncodeBinaryFrame_def getBigUint64_PutUint64 Let_def)

section \<open>What the dump keeps\<close>

lemma keep_last_suffix: "\<exists>u. xs = u @ keep_last n xs"
  by (metis append_take_drop_id append_Nil keep_last_def)

lemma length_keep_last [simp]: "length (keep_last n xs) = min (length xs) n"
  by (simp add: keep_last_def)

lemma trim_keep_le: "trim_keep n \<le> n"
  unfolding trim_keep_def by arith

text \<open>
  \<open>recent n out d\<close>: \<open>d\<close> is the end of \<open>out\<close>, not longer than \<open>n\<close>, and it is missing bytes only when
  three quarters of \<open>n\<close> are there.
\<close>

definition recent :: "nat \<Rightarrow> byte list \<Rightarrow> byte list \<Rightarrow> bool" where
  "recent n out d \<longleftrightarrow> (\<exists>u. out = u @ d) \<and> length d \<le> n \<and> (d = out \<or> trim_keep n \<le> length d)"

lemma recent_append:
  assumes "recent n out (nullish f [])"
  shows "recent n (out @ p) (nullish (snd (Append io_fine n p f)) [])"
proof -
  let ?d = "nullish f []"
  from assms obtain u where u: "out = u @ ?d" and len: "length ?d \<le> n" and keep: "?d = out \<or> trim_keep n \<le> length ?d"
    by (auto simp: recent_def)
  show ?thesis
  proof (cases "p = [] \<or> length ?d + length p \<le> n")
    case True
    with u len keep show ?thesis by (auto simp: recent_def Append_def io_fine_def nullish_def Let_def)
  next
    case False
    let ?e = "keep_last (trim_keep n) ?d" and ?g = "keep_last n (keep_last (trim_keep n) ?d @ p)"
    have "nullish (snd (Append io_fine n p f)) [] = ?g"
      using False by (simp add: Append_def rewriteTrimmed_def io_fine_def nullish_def Let_def)
    moreover obtain v where v: "?d = v @ ?e" using keep_last_suffix by blast
    moreover obtain w where w: "?e @ p = w @ ?g" using keep_last_suffix by blast
    from u v w have "out @ p = (u @ v @ w) @ ?g" by (metis append_assoc)
    then have "\<exists>x. out @ p = x @ ?g" by blast
    moreover have "?g = out @ p \<or> trim_keep n \<le> length ?g"
    proof (cases "trim_keep n \<le> length ?d")
      case True
      then show ?thesis using trim_keep_le [of n] by simp
    next
      case short: False
      with keep False have "n < length ?d + length p" by auto
      with short show ?thesis by (auto simp: trim_keep_def)
    qed
    ultimately show ?thesis by (simp add: recent_def)
  qed
qed

lemma recent_dump: "recent n (concat chunks) (nullish (dump_after n chunks) [])"
proof (induction chunks rule: rev_induct)
  case Nil
  then show ?case by (simp add: recent_def dump_after_def nullish_def)
next
  case (snoc p chunks)
  then show ?case using recent_append [OF snoc.IH, of p] by (simp add: dump_after_def)
qed


lemma dump_fits: "length (concat chunks) \<le> n \<Longrightarrow> nullish (dump_after n chunks) [] = concat chunks"
proof (induction chunks rule: rev_induct)
  case (snoc p chunks)
  then show ?case
    by (simp add: dump_after_def Append_def io_fine_def nullish_def Let_def)
qed (simp add: dump_after_def nullish_def)

text \<open>An append that fails leaves the file as it was, or with a part of the new bytes at its end.\<close>

lemma append_failed:
  assumes "Append io n p f = (Inl e, f')"
  shows "\<exists>k. nullish f' [] = nullish f [] @ take k p"
proof -
  have "nullish f' [] = nullish f [] \<or> nullish f' [] = nullish f [] @ p \<or> (\<exists>k. nullish f' [] = nullish f [] @ take k p)"
    using assms by (auto simp: Append_def rewriteTrimmed_def nullish_def Let_def
        split: if_splits option.splits prod.splits)
  then show ?thesis by (metis append_Nil2 take0 take_all_iff order_refl)
qed


end
