(* ===== verification/Pty_Session.thy ===== *)
theory Pty_Session
  imports Pty_Rolling
begin

text \<open>
  A terminal session of the back end, \<open>internal/terminal/session.go\<close>, and the pump that connects a websocket
  to it, \<open>AttachAndPump\<close> of \<open>internal/terminal/hub.go\<close>.  The session is shared by goroutines: the read loop
  of the shell's output, the fan-out loop, the wait for the shell's exit, and two for each connection.  Each
  is a position in the state, and a step is what one of them does between two locks, so that a run is an
  interleaving the locks allow.  Connections are numbered; \<open>pt_out\<close> is what was written to each, and the
  ghosts \<open>pt_output\<close> and \<open>pt_stdin\<close> are all bytes read from and written to the shell.  A write that fails and
  the closing of the connection that follows it are one step, and so are the parts of \<open>Write\<close> and of \<open>Kill\<close>.
\<close>

type_synonym chunk = "nat \<times> byte list"

datatype server_frame = SText text_frame | SBinary "byte list"

section \<open>State\<close>

record session_config =
  sc_id :: string
  sc_user :: int
  sc_shell :: string
  sc_cwd :: string
  sc_env :: "string list"
  sc_cols :: int
  sc_rows :: int
  sc_max :: nat
  sc_ttl :: string
  sc_started :: string

text \<open>The read loop: reading, before it hands a chunk to the channel, at its end.\<close>

datatype reader = Reading | is_Pushing: Pushing chunk | ReadDone

text \<open>The fan-out loop: waiting, before \<open>maybeBuffer\<close>, between that and the check of the pause, between the
  check and the choice of the targets, and before the write.\<close>

datatype fan = FanIdle | is_FanTaken: FanTaken chunk | is_FanBuffered: FanBuffered chunk | is_FanGo: FanGo chunk | is_FanTo: FanTo chunk "nat list"
  | FanDone

text \<open>A pump: paused, attached, with its snapshot, with the snapshot written; flushing what was pending (the
  flag: on its way out); pumping; with a second snapshot; about to resume on its way out; about to detach.\<close>

datatype pump = PumpPaused | is_PumpAttached: PumpAttached role | is_PumpSnap: PumpSnap role "byte list" nat nat
  | PumpServed role | is_PumpFlush: PumpFlush role "chunk list" bool
  | is_PumpTo: PumpTo role chunk "nat list" "chunk list" bool
  | is_PumpRun: PumpRun role | is_PumpReplay: PumpReplay role "byte list" nat | PumpLeaving role
  | is_PumpDetach: PumpDetach role

text \<open>The wait for the shell.\<close>

datatype wait_stage = WaitShell | WaitExited int | WaitTo int "nat list" | WaitDetach "nat list" | WaitKill | WaitDone

record pty_session =
  pt_cfg :: session_config
  pt_file :: "byte list option"
  pt_firstSeq :: nat
  pt_endSeq :: nat
  pt_closed :: bool
  pt_master :: bool
  pt_size :: "int \<times> int"
  pt_reader :: reader
  pt_fanout :: "chunk list"
  pt_fan :: fan
  pt_wait :: wait_stage
  pt_writer :: "nat option"
  pt_readers :: "nat list"
  pt_pauseCount :: nat
  pt_pending :: "chunk list"
  pt_pumps :: "nat \<Rightarrow> pump option"
  pt_lastAttach :: int
  pt_lastInput :: int
  pt_out :: "nat \<Rightarrow> server_frame list"
  pt_shut :: "nat set"
  pt_output :: "byte list"
  pt_stdin :: "byte list"

text \<open>\<open>mergeEnv\<close>: the environment of the shell, the overrides before what they do not replace.\<close>

definition env_key :: "string \<Rightarrow> string" where
  "env_key kv = takeWhile (\<lambda>x. x \<noteq> CHR ''='') kv"

definition mergeEnv :: "string list \<Rightarrow> string list \<Rightarrow> string list" where
  "mergeEnv bas overrides = overrides @ filter (\<lambda>kv. env_key kv \<notin> set (map env_key overrides)) bas"

definition positive_or :: "int \<Rightarrow> int \<Rightarrow> int" where
  "positive_or v d = (if v \<le> 0 then d else v)"

text \<open>A new session whose shell has been started; a dump that is there is what it is restored from.\<close>

definition NewPtySession :: "session_config \<Rightarrow> int \<Rightarrow> byte list option \<Rightarrow> nat \<Rightarrow> int \<Rightarrow> pty_session" where
  "NewPtySession cfg dumpMax file firstSeq now =
     (let cs = positive_or (sc_cols cfg) 80; rs = positive_or (sc_rows cfg) 24 in
      \<lparr>pt_cfg = cfg\<lparr>sc_cols := cs, sc_rows := rs, sc_max := rolling_max (positive_or dumpMax (256 * 1024))\<rparr>,
       pt_file = file, pt_firstSeq = firstSeq, pt_endSeq = firstSeq, pt_closed = False, pt_master = True,
       pt_size = (cs, rs), pt_reader = Reading, pt_fanout = [], pt_fan = FanIdle, pt_wait = WaitShell,
       pt_writer = None, pt_readers = [], pt_pauseCount = 0, pt_pending = [], pt_pumps = (\<lambda>c. None),
       pt_lastAttach = now, pt_lastInput = now, pt_out = (\<lambda>c. []), pt_shut = {}, pt_output = [], pt_stdin = []\<rparr>)"

section \<open>Attaching\<close>

definition currentRole_of :: "nat \<Rightarrow> pty_session \<Rightarrow> role" where
  "currentRole_of c s =
     (if pt_writer s = Some c then Writer else if c \<in> set (pt_readers s) then Reader else NoRole)"

definition Attach :: "nat \<Rightarrow> int \<Rightarrow> pty_session \<Rightarrow> pty_session" where
  "Attach c now s =
     (if pt_writer s = None then s\<lparr>pt_writer := Some c\<rparr>
      else s\<lparr>pt_readers := List.insert c (pt_readers s)\<rparr>)\<lparr>pt_lastAttach := now\<rparr>"

definition Detach :: "nat \<Rightarrow> pty_session \<Rightarrow> pty_session" where
  "Detach c s =
     (if pt_writer s = Some c then s\<lparr>pt_writer := None\<rparr> else s\<lparr>pt_readers := removeAll c (pt_readers s)\<rparr>)"

definition HasWriter :: "pty_session \<Rightarrow> bool" where
  "HasWriter s \<longleftrightarrow> pt_writer s \<noteq> None"

definition attached :: "pty_session \<Rightarrow> nat list" where
  "attached s = (case pt_writer s of None \<Rightarrow> [] | Some w \<Rightarrow> [w]) @ pt_readers s"

section \<open>The shell's output\<close>

definition FANOUT_CAP :: nat where
  "FANOUT_CAP = 256"

text \<open>An iteration of the read loop: the dump and the numbers under their lock, then the channel, which takes
  the chunk if it has room (\<open>pushed\<close>).\<close>

definition readLoop :: "byte list \<Rightarrow> append_io \<Rightarrow> pty_session \<Rightarrow> pty_session" where
  "readLoop bytes io s =
     (let seq = pt_endSeq s; mx = sc_max (pt_cfg s);
          file = snd (Append io mx bytes (pt_file s));
          end = seq + length bytes;
          first = (if end - pt_firstSeq s > mx then end - mx else pt_firstSeq s)
      in s\<lparr>pt_file := file, pt_endSeq := end, pt_firstSeq := first, pt_reader := Pushing (seq, bytes),
           pt_output := pt_output s @ bytes\<rparr>)"

definition read_push :: "bool \<Rightarrow> pty_session \<Rightarrow> pty_session" where
  "read_push pushed s = (case pt_reader s of
       Pushing k \<Rightarrow> s\<lparr>pt_fanout := (if pushed then pt_fanout s @ [k] else pt_fanout s),
         pt_reader := (if pt_closed s then ReadDone else Reading)\<rparr>
     | _ \<Rightarrow> s)"

definition maybeBuffer :: "chunk \<Rightarrow> pty_session \<Rightarrow> pty_session" where
  "maybeBuffer k s = (if pt_pauseCount s = 0 then s else s\<lparr>pt_pending := pt_pending s @ [k]\<rparr>)"

text \<open>A message to some connections: those that fail, or are closed, are closed and detached.\<close>

definition write_frame :: "nat list \<Rightarrow> nat set \<Rightarrow> server_frame \<Rightarrow> pty_session \<Rightarrow> pty_session" where
  "write_frame targets failed f s =
     (let out = pt_out s; gone = pt_shut s
      in s\<lparr>pt_out := (\<lambda>c. out c @ (if c \<in> set targets \<and> c \<notin> failed \<and> c \<notin> gone then [f] else [])),
           pt_shut := gone \<union> (set targets \<inter> failed)\<rparr>)"

definition broken :: "nat list \<Rightarrow> nat set \<Rightarrow> pty_session \<Rightarrow> nat list" where
  "broken targets failed s = filter (\<lambda>c. c \<in> failed \<or> c \<in> pt_shut s) targets"

definition broadcast_write :: "chunk \<Rightarrow> nat list \<Rightarrow> nat set \<Rightarrow> pty_session \<Rightarrow> pty_session" where
  "broadcast_write k targets failed s =
     fold Detach (broken targets failed s)
       (write_frame targets failed (SBinary (EncodeBinaryFrame (of_nat (fst k)) (snd k))) s)"

definition fan_take :: "pty_session \<Rightarrow> pty_session" where
  "fan_take s = (case pt_fanout s of
       [] \<Rightarrow> s
     | k # ks \<Rightarrow> s\<lparr>pt_fanout := ks, pt_fan := FanTaken k\<rparr>)"

definition fan_buffer :: "pty_session \<Rightarrow> pty_session" where
  "fan_buffer s = (case pt_fan s of FanTaken k \<Rightarrow> maybeBuffer k (s\<lparr>pt_fan := FanBuffered k\<rparr>) | _ \<Rightarrow> s)"

definition fan_check :: "pty_session \<Rightarrow> pty_session" where
  "fan_check s = (case pt_fan s of
       FanBuffered k \<Rightarrow> s\<lparr>pt_fan := (if pt_pauseCount s > 0 then FanIdle else FanGo k)\<rparr>
     | _ \<Rightarrow> s)"

definition fan_targets :: "pty_session \<Rightarrow> pty_session" where
  "fan_targets s = (case pt_fan s of FanGo k \<Rightarrow> s\<lparr>pt_fan := FanTo k (attached s)\<rparr> | _ \<Rightarrow> s)"

definition fan_write :: "nat set \<Rightarrow> pty_session \<Rightarrow> pty_session" where
  "fan_write failed s = (case pt_fan s of
       FanTo k targets \<Rightarrow> (broadcast_write k targets failed s)\<lparr>pt_fan := FanIdle\<rparr>
     | _ \<Rightarrow> s)"

section \<open>The pump\<close>

definition set_pump :: "nat \<Rightarrow> pump option \<Rightarrow> pty_session \<Rightarrow> pty_session" where
  "set_pump c p s = s\<lparr>pt_pumps := (pt_pumps s)(c := p)\<rparr>"

definition PauseBroadcast :: "pty_session \<Rightarrow> pty_session" where
  "PauseBroadcast s = s\<lparr>pt_pauseCount := pt_pauseCount s + 1\<rparr>"

text \<open>\<open>ResumeBroadcast\<close> up to its flush, and what is left to flush.\<close>

definition ResumeBroadcast :: "pty_session \<Rightarrow> chunk list \<times> pty_session" where
  "ResumeBroadcast s =
     (if pt_pauseCount s > 0 then pt_pending s else [],
      s\<lparr>pt_pauseCount := pt_pauseCount s - 1, pt_pending := []\<rparr>)"

definition Snapshot :: "bool \<Rightarrow> pty_session \<Rightarrow> byte list \<times> nat \<times> nat" where
  "Snapshot readable s =
     ((case ReadAll readable (pt_file s) of Inl e \<Rightarrow> [] | Inr d \<Rightarrow> d), pt_firstSeq s, pt_endSeq s)"

definition ready_of :: "role \<Rightarrow> byte list \<Rightarrow> nat \<Rightarrow> nat \<Rightarrow> pty_session \<Rightarrow> ready_frame" where
  "ready_of r dat first end s =
     (let cfg = pt_cfg s in
      \<lparr>rf_session_id = sc_id cfg, rf_shell = sc_shell cfg, rf_cwd = sc_cwd cfg, rf_cols = sc_cols cfg,
       rf_rows = sc_rows cfg, rf_role = r, rf_buffered_bytes = int (length dat), rf_first_seq = int first,
       rf_end_seq = int end, rf_sticky_ttl = sc_ttl cfg, rf_started_at = sc_started cfg\<rparr>)"

text \<open>How many of the two writes of the greeting succeed; a failed one breaks the connection.\<close>

definition serve :: "nat \<Rightarrow> role \<Rightarrow> byte list \<Rightarrow> nat \<Rightarrow> nat \<Rightarrow> nat \<Rightarrow> pty_session \<Rightarrow> pty_session" where
  "serve c r dat first end good s =
     (let s1 = write_frame [c] (if good = 0 then {c} else {}) (SText (FReady (ready_of r dat first end s))) s
      in if good = 0 then set_pump c (Some (PumpLeaving r)) s1
         else if dat = [] then set_pump c (Some (PumpServed r)) s1
         else let s2 = write_frame [c] (if good = 1 then {c} else {}) (SBinary (EncodeBinaryFrame (of_nat first) dat)) s1
              in set_pump c (Some (if good = 1 then PumpLeaving r else PumpServed r)) s2)"

definition DecodeInput :: "string \<Rightarrow> byte list option" where
  "DecodeInput d = b64_decode (filter (\<lambda>x. x \<noteq> CHR 0x0A \<and> x \<noteq> CHR 0x0D) d)"

text \<open>\<open>Write\<close>: refused by a closed session; \<open>short\<close> is how much of a failing write the shell still got.\<close>

definition pty_write :: "byte list \<Rightarrow> int \<Rightarrow> nat option \<Rightarrow> pty_session \<Rightarrow> string option \<times> pty_session" where
  "pty_write bytes now short s =
     (if pt_closed s then (Some ''session closed'', s)
      else if \<not> pt_master s then (Some ''pty not started'', s)
      else let s = s\<lparr>pt_lastInput := now\<rparr> in
        (case short of
           Some n \<Rightarrow> (Some ''write error'', s\<lparr>pt_stdin := pt_stdin s @ take n bytes\<rparr>)
         | None \<Rightarrow> (None, s\<lparr>pt_stdin := pt_stdin s @ bytes\<rparr>)))"

definition Resize :: "int \<Rightarrow> int \<Rightarrow> pty_session \<Rightarrow> string option \<times> pty_session" where
  "Resize cs rs s =
     (if cs \<le> 0 \<or> rs \<le> 0 then (Some ''invalid cols/rows'', s)
      else if \<not> pt_master s then (Some ''pty not started'', s)
      else (None, s\<lparr>pt_size := (cs, rs)\<rparr>))"

text \<open>A frame of the client, in the loop of the pump.\<close>

definition pump_frame :: "nat \<Rightarrow> role \<Rightarrow> client_frame \<Rightarrow> int \<Rightarrow> nat option \<Rightarrow> pty_session \<Rightarrow> pty_session" where
  "pump_frame c r f now short s = (case f of
       CInput d \<Rightarrow>
         (if r \<noteq> Writer then s
          else case DecodeInput d of
            None \<Rightarrow> s
          | Some bytes \<Rightarrow> (case pty_write bytes now short s of
                (None, s') \<Rightarrow> s'
              | (Some e, s') \<Rightarrow> set_pump c (Some (PumpLeaving r)) s'))
     | CResize cs rs \<Rightarrow> snd (Resize cs rs s)
     | CPing \<Rightarrow> write_frame [c] (if short = None then {} else {c}) (SText FPong) s
     | CReplay n \<Rightarrow> (case Snapshot True s of (dat, first, end) \<Rightarrow>
         (if dat = [] then s else set_pump c (Some (PumpReplay r dat first)) s)))"

section \<open>Ending\<close>

definition Kill :: "pty_session \<Rightarrow> pty_session" where
  "Kill s = (if pt_closed s then s else s\<lparr>pt_closed := True, pt_master := False, pt_file := None\<rparr>)"

definition wait_step :: "nat set \<Rightarrow> pty_session \<Rightarrow> pty_session" where
  "wait_step failed s = (case pt_wait s of
       WaitExited cd \<Rightarrow> s\<lparr>pt_wait := WaitTo cd (attached s)\<rparr>
     | WaitTo cd targets \<Rightarrow>
         (let s1 = write_frame targets failed (SText (FExit cd)) s
          in s1\<lparr>pt_shut := pt_shut s1 \<union> set targets, pt_wait := WaitDetach targets\<rparr>)
     | WaitDetach targets \<Rightarrow> (fold Detach targets s)\<lparr>pt_wait := WaitKill\<rparr>
     | WaitKill \<Rightarrow> (Kill s)\<lparr>pt_wait := WaitDone\<rparr>
     | _ \<Rightarrow> s)"

section \<open>The session as a machine\<close>

datatype pty_event =
    PRead "byte list" append_io | PPush bool | PReadEnd
  | PTake | PBuffer | PCheck | PTargets | PWrite "nat set" | PFanStop
  | PPause nat | PAttach nat int | PSnapshot nat bool | PServe nat nat | PResume nat
  | PFlush nat | PFlushWrite nat "nat set" | PFlushed nat
  | PFrame nat client_frame int "nat option" | PReplayWrite nat bool
  | PLeave nat | PDetach nat
  | PKill | PExit int | PWait "nat set"

definition pump_can :: "(pump \<Rightarrow> bool) \<Rightarrow> nat \<Rightarrow> pty_session \<Rightarrow> bool" where
  "pump_can P c s = (case pt_pumps s c of None \<Rightarrow> False | Some p \<Rightarrow> P p)"

fun resumes :: "pump \<Rightarrow> bool" where
  "resumes (PumpServed r) = True" | "resumes (PumpLeaving r) = True" | "resumes _ = False"

fun pty_can :: "pty_event \<Rightarrow> pty_session \<Rightarrow> bool" where
  "pty_can (PRead bytes io) s = (pt_reader s = Reading \<and> bytes \<noteq> [] \<and> length bytes \<le> 4096)"
| "pty_can (PPush pushed) s = (is_Pushing (pt_reader s)
     \<and> (if pushed then length (pt_fanout s) < FANOUT_CAP else FANOUT_CAP \<le> length (pt_fanout s) \<or> pt_closed s))"
| "pty_can PReadEnd s = (pt_reader s = Reading)"
| "pty_can PTake s = (pt_fan s = FanIdle \<and> pt_fanout s \<noteq> [])"
| "pty_can PBuffer s = is_FanTaken (pt_fan s)"
| "pty_can PCheck s = is_FanBuffered (pt_fan s)"
| "pty_can PTargets s = is_FanGo (pt_fan s)"
| "pty_can (PWrite failed) s = is_FanTo (pt_fan s)"
| "pty_can PFanStop s = (pt_fan s = FanIdle \<and> pt_closed s)"
| "pty_can (PPause c) s = (pt_pumps s c = None \<and> pt_out s c = [] \<and> c \<notin> pt_shut s)"
| "pty_can (PAttach c now) s = pump_can (\<lambda>p. p = PumpPaused) c s"
| "pty_can (PSnapshot c readable) s = pump_can is_PumpAttached c s"
| "pty_can (PServe c good) s = (pump_can is_PumpSnap c s \<and> (c \<in> pt_shut s \<longrightarrow> good = 0))"
| "pty_can (PResume c) s = pump_can resumes c s"
| "pty_can (PFlush c) s = pump_can (\<lambda>p. case p of PumpFlush r (k # ks) l \<Rightarrow> True | _ \<Rightarrow> False) c s"
| "pty_can (PFlushWrite c failed) s = pump_can is_PumpTo c s"
| "pty_can (PFlushed c) s = pump_can (\<lambda>p. case p of PumpFlush r [] l \<Rightarrow> True | _ \<Rightarrow> False) c s"
| "pty_can (PFrame c f now short) s = pump_can is_PumpRun c s"
| "pty_can (PReplayWrite c good) s = pump_can is_PumpReplay c s"
| "pty_can (PLeave c) s = pump_can is_PumpRun c s"
| "pty_can (PDetach c) s = pump_can is_PumpDetach c s"
| "pty_can PKill s = True"
| "pty_can (PExit cd) s = (pt_wait s = WaitShell)"
| "pty_can (PWait failed) s = (pt_wait s \<noteq> WaitShell \<and> pt_wait s \<noteq> WaitDone)"

declare is_Pushing_def [simp] is_FanTaken_def [simp] is_FanBuffered_def [simp] is_FanGo_def [simp] is_FanTo_def [simp] is_PumpAttached_def [simp] is_PumpSnap_def [simp]
  is_PumpTo_def [simp] is_PumpRun_def [simp] is_PumpReplay_def [simp] is_PumpDetach_def [simp]

lemma flush_cases [simp]:
  "(case p of PumpFlush r (k # ks) l \<Rightarrow> True | _ \<Rightarrow> False) \<longleftrightarrow> (\<exists>r k ks l. p = PumpFlush r (k # ks) l)"
  "(case p of PumpFlush r [] l \<Rightarrow> True | _ \<Rightarrow> False) \<longleftrightarrow> (\<exists>r l. p = PumpFlush r [] l)"
  by (auto split: pump.splits list.splits)

text \<open>The steps of a pump, by its position.\<close>

definition pump_attach :: "nat \<Rightarrow> int \<Rightarrow> pump \<Rightarrow> pty_session \<Rightarrow> pty_session" where
  "pump_attach c now p s = (case p of
       PumpPaused \<Rightarrow> (let s1 = Attach c now s in set_pump c (Some (PumpAttached (currentRole_of c s1))) s1)
     | _ \<Rightarrow> s)"

definition pump_snapshot :: "nat \<Rightarrow> bool \<Rightarrow> pump \<Rightarrow> pty_session \<Rightarrow> pty_session" where
  "pump_snapshot c readable p s = (case p of
       PumpAttached r \<Rightarrow> (case Snapshot readable s of (dat, first, end) \<Rightarrow> set_pump c (Some (PumpSnap r dat first end)) s)
     | _ \<Rightarrow> s)"

definition pump_serve :: "nat \<Rightarrow> nat \<Rightarrow> pump \<Rightarrow> pty_session \<Rightarrow> pty_session" where
  "pump_serve c good p s = (case p of PumpSnap r dat first end \<Rightarrow> serve c r dat first end good s | _ \<Rightarrow> s)"

definition pump_resume :: "nat \<Rightarrow> pump \<Rightarrow> pty_session \<Rightarrow> pty_session" where
  "pump_resume c p s = (case ResumeBroadcast s of (ks, s1) \<Rightarrow> (case p of
       PumpServed r \<Rightarrow> set_pump c (Some (PumpFlush r ks False)) s1
     | PumpLeaving r \<Rightarrow> set_pump c (Some (PumpFlush r ks True)) s1
     | _ \<Rightarrow> s))"

definition pump_flush :: "nat \<Rightarrow> pump \<Rightarrow> pty_session \<Rightarrow> pty_session" where
  "pump_flush c p s = (case p of
       PumpFlush r (k # ks) l \<Rightarrow> set_pump c (Some (PumpTo r k (attached s) ks l)) s
     | _ \<Rightarrow> s)"

definition pump_flush_write :: "nat \<Rightarrow> nat set \<Rightarrow> pump \<Rightarrow> pty_session \<Rightarrow> pty_session" where
  "pump_flush_write c failed p s = (case p of
       PumpTo r k ts ks l \<Rightarrow> set_pump c (Some (PumpFlush r ks l)) (broadcast_write k ts failed s)
     | _ \<Rightarrow> s)"

definition pump_flushed :: "nat \<Rightarrow> pump \<Rightarrow> pty_session \<Rightarrow> pty_session" where
  "pump_flushed c p s = (case p of
       PumpFlush r [] l \<Rightarrow> set_pump c (Some (if l then PumpDetach r else PumpRun r)) s
     | _ \<Rightarrow> s)"

definition pump_receive :: "nat \<Rightarrow> client_frame \<Rightarrow> int \<Rightarrow> nat option \<Rightarrow> pump \<Rightarrow> pty_session \<Rightarrow> pty_session" where
  "pump_receive c f now short p s = (case p of PumpRun r \<Rightarrow> pump_frame c r f now short s | _ \<Rightarrow> s)"

definition pump_replay :: "nat \<Rightarrow> bool \<Rightarrow> pump \<Rightarrow> pty_session \<Rightarrow> pty_session" where
  "pump_replay c good p s = (case p of
       PumpReplay r dat first \<Rightarrow> set_pump c (Some (PumpRun r))
         (write_frame [c] (if good then {} else {c}) (SBinary (EncodeBinaryFrame (of_nat first) dat)) s)
     | _ \<Rightarrow> s)"

definition pump_leave :: "nat \<Rightarrow> pump \<Rightarrow> pty_session \<Rightarrow> pty_session" where
  "pump_leave c p s = (case p of PumpRun r \<Rightarrow> set_pump c (Some (PumpLeaving r)) s | _ \<Rightarrow> s)"

definition pump_detach :: "nat \<Rightarrow> pump \<Rightarrow> pty_session \<Rightarrow> pty_session" where
  "pump_detach c p s = (case p of PumpDetach r \<Rightarrow> set_pump c None (Detach c s) | _ \<Rightarrow> s)"

definition on_pump :: "nat \<Rightarrow> (pump \<Rightarrow> pty_session \<Rightarrow> pty_session) \<Rightarrow> pty_session \<Rightarrow> pty_session" where
  "on_pump c f s = (case pt_pumps s c of None \<Rightarrow> s | Some p \<Rightarrow> f p s)"

fun pty_step :: "pty_event \<Rightarrow> pty_session \<Rightarrow> pty_session" where
  "pty_step (PRead bytes io) s = readLoop bytes io s"
| "pty_step (PPush pushed) s = read_push pushed s"
| "pty_step PReadEnd s = s\<lparr>pt_reader := ReadDone\<rparr>"
| "pty_step PTake s = fan_take s"
| "pty_step PBuffer s = fan_buffer s"
| "pty_step PCheck s = fan_check s"
| "pty_step PTargets s = fan_targets s"
| "pty_step (PWrite failed) s = fan_write failed s"
| "pty_step PFanStop s = s\<lparr>pt_fan := FanDone\<rparr>"
| "pty_step (PPause c) s = set_pump c (Some PumpPaused) (PauseBroadcast s)"
| "pty_step (PAttach c now) s = on_pump c (pump_attach c now) s"
| "pty_step (PSnapshot c readable) s = on_pump c (pump_snapshot c readable) s"
| "pty_step (PServe c good) s = on_pump c (pump_serve c good) s"
| "pty_step (PResume c) s = on_pump c (pump_resume c) s"
| "pty_step (PFlush c) s = on_pump c (pump_flush c) s"
| "pty_step (PFlushWrite c failed) s = on_pump c (pump_flush_write c failed) s"
| "pty_step (PFlushed c) s = on_pump c (pump_flushed c) s"
| "pty_step (PFrame c f now short) s = on_pump c (pump_receive c f now short) s"
| "pty_step (PReplayWrite c good) s = on_pump c (pump_replay c good) s"
| "pty_step (PLeave c) s = on_pump c (pump_leave c) s"
| "pty_step (PDetach c) s = on_pump c (pump_detach c) s"
| "pty_step PKill s = Kill s"
| "pty_step (PExit cd) s = s\<lparr>pt_wait := WaitExited cd\<rparr>"
| "pty_step (PWait failed) s = wait_step failed s"

abbreviation pty_run :: "pty_session \<Rightarrow> pty_event list \<Rightarrow> pty_session \<Rightarrow> bool" where
  "pty_run \<equiv> machine_run pty_can pty_step"

abbreviation pty_exec :: "pty_event list \<Rightarrow> pty_session \<Rightarrow> pty_session option" where
  "pty_exec \<equiv> machine_exec pty_can pty_step"

end
