(* ===== verification/Pty_Stream.thy ===== *)
theory Pty_Stream
  imports Pty_Session
begin

text \<open>
  What one connection to a terminal session (\<open>Pty_Session\<close>) is sent.  \<open>view\<close> is what the client's dedup
  makes of the frames; the invariants say that it is always the first bytes of the shell's output, and that
  the chunks on their way, in the channel, in the hand of the fan-out loop, pending or in a flush, bring the
  rest.  They hold in the runs that are \<open>calm\<close>; \<open>Terminal_Wire\<close> shows what the others lose.
\<close>

section \<open>What a client makes of the frames\<close>

text \<open>The mark of the client, and the bytes it printed.\<close>

definition view_frame :: "int \<times> byte list \<Rightarrow> server_frame \<Rightarrow> int \<times> byte list" where
  "view_frame v f = (case f of
       SText t \<Rightarrow> v
     | SBinary buf \<Rightarrow>
         (if length buf < 8 then v
          else let q = int (getBigUint64 (take 8 buf)); payload = drop 8 buf
               in if q \<le> fst v then v else (q + int (length payload) - 1, snd v @ payload)))"

definition view :: "server_frame list \<Rightarrow> int \<times> byte list" where
  "view fs = foldl view_frame (-1, []) fs"

lemma view_simps [simp]: "view [] = (-1, [])" "view (fs @ [f]) = view_frame (view fs) f"
  by (simp_all add: view_def)

lemma view_two: "view (fs @ [f, g]) = view_frame (view_frame (view fs) f) g"
  by (simp add: view_def)

lemma view_text [simp]: "view_frame v (SText t) = v"
  by (simp add: view_frame_def)

lemma view_encoded:
  assumes "q < 2 ^ 64"
  shows "view_frame v (SBinary (EncodeBinaryFrame (of_nat q) d)) =
    (if int q \<le> fst v then v else (int q + int (length d) - 1, snd v @ d))"
proof -
  have "unat (of_nat q :: 64 word) = q" using assms by (simp add: unsigned_of_nat take_bit_eq_mod)
  then show ?thesis by (simp add: view_frame_def EncodeBinaryFrame_def getBigUint64_PutUint64 Let_def)
qed

lemma view_frame_prefix: "\<exists>u. snd (view_frame v f) = snd v @ u"
  by (auto simp: view_frame_def Let_def split: server_frame.splits)

lemma view_prefix: "\<exists>u. snd (view (fs @ gs)) = snd (view fs) @ u"
proof (induction gs rule: rev_induct)
  case (snoc g gs)
  then obtain u where "snd (view (fs @ gs)) = snd (view fs) @ u" by blast
  moreover obtain v where "snd (view_frame (view (fs @ gs)) g) = snd (view (fs @ gs)) @ v"
    using view_frame_prefix by blast
  ultimately have "snd (view ((fs @ gs) @ [g])) = snd (view fs) @ u @ v"
    using view_simps(2) [of "fs @ gs" g] by simp
  then show ?case by auto
qed simp

section \<open>Chunks still to come\<close>

text \<open>How far a client that has the first \<open>R\<close> bytes of the output comes with some chunks: it skips
  one that starts before, and takes one that continues; one that leaves a gap is out of the question.\<close>

fun advance :: "byte list \<Rightarrow> nat \<Rightarrow> chunk list \<Rightarrow> nat option" where
  "advance out R [] = Some R"
| "advance out R (k # ks) =
     (if fst k < R then advance out R ks
      else if fst k = R \<and> snd k \<noteq> [] \<and> take (length (snd k)) (drop R out) = snd k
        then advance out (R + length (snd k)) ks else None)"

definition covers :: "byte list \<Rightarrow> nat \<Rightarrow> chunk list \<Rightarrow> bool" where
  "covers out R cs \<longleftrightarrow> advance out R cs = Some (length out)"

lemma advance_append: "advance out R (xs @ ys) = Option.bind (advance out R xs) (\<lambda>r. advance out r ys)"
  by (induction xs arbitrary: R) auto

lemma advance_mono: "advance out R xs = Some r \<Longrightarrow> R \<le> r"
  by (induction xs arbitrary: R) (fastforce split: if_splits)+

lemma advance_passed: "advance out R xs = Some r \<Longrightarrow> k \<in> set xs \<Longrightarrow> fst k < r"
proof (induction xs arbitrary: R)
  case (Cons x xs)
  show ?case
  proof (cases "k = x")
    case True
    with Cons.prems have "advance out R xs = Some r \<and> fst k < R
        \<or> advance out (R + length (snd k)) xs = Some r \<and> fst k = R \<and> snd k \<noteq> []"
      by (auto split: if_splits)
    then show ?thesis
    proof
      assume "advance out (R + length (snd k)) xs = Some r \<and> fst k = R \<and> snd k \<noteq> []"
      then show ?thesis using advance_mono [of out "R + length (snd k)" xs r] by (cases "snd k") auto
    qed (use advance_mono [of out R xs r] in auto)
  qed (use Cons in \<open>auto split: if_splits\<close>)
qed simp

lemma advance_skip:
  assumes "k \<in> set xs \<or> fst k < R"
  shows "advance out R (xs @ k # ys) = advance out R (xs @ ys)"
proof (cases "advance out R xs")
  case (Some r)
  with assms advance_passed [OF Some, of k] advance_mono [OF Some] have "fst k < r" by linarith
  with Some show ?thesis by (simp add: advance_append)
qed (simp add: advance_append)

lemma covers_skip: "k \<in> set xs \<or> fst k < R \<Longrightarrow> covers out R (xs @ k # ys) = covers out R (xs @ ys)"
  by (simp add: covers_def advance_skip)

lemma taken_inside: "take (length d) (drop R out) = d \<Longrightarrow> d \<noteq> [] \<Longrightarrow> R + length d \<le> length out"
  by (metis length_drop length_take min.cobounded1 le_diff_conv2 length_greater_0_conv nat_le_linear
      diff_is_0_eq' le_zero_eq add.commute length_0_conv)

lemma advance_grow: "advance out R xs = Some r \<Longrightarrow> advance (out @ b) R xs = Some r"
proof (induction xs arbitrary: R)
  case (Cons k xs)
  have "take (length (snd k)) (drop R (out @ b)) = snd k"
    if "take (length (snd k)) (drop R out) = snd k" "snd k \<noteq> []"
    using that taken_inside [OF that] by simp
  with Cons show ?case by (auto split: if_splits)
qed simp

lemma covers_read: "covers out R cs \<Longrightarrow> b \<noteq> [] \<Longrightarrow> covers (out @ b) R (cs @ [(length out, b)])"
  using advance_grow [of out R cs "length out" b] by (simp add: covers_def advance_append)

lemma covers_low: "(\<And>k. k \<in> set cs \<Longrightarrow> fst k < length out) \<Longrightarrow> covers out (length out) cs"
  unfolding covers_def by (induction cs) auto

lemma covers_le: "covers out R cs \<Longrightarrow> R \<le> length out"
  using advance_mono by (auto simp: covers_def)

text \<open>A client that gets the first chunk.\<close>

lemma covers_head:
  assumes "covers out R (k # cs)" "length out < 2 ^ 64"
  obtains R' where "R \<le> R'" "covers out R' cs" "fst k < R'"
    "view_frame (int R - 1, take R out) (SBinary (EncodeBinaryFrame (of_nat (fst k)) (snd k))) = (int R' - 1, take R' out)"
proof (cases "fst k < R")
  case True
  then have "fst k < 2 ^ 64" using covers_le [OF assms(1)] assms(2) by linarith
  with True assms(1) show thesis by (intro that [of R]) (simp_all add: covers_def view_encoded)
next
  case False
  with assms(1) have k: "fst k = R" "snd k \<noteq> []" "take (length (snd k)) (drop R out) = snd k"
    "covers out (R + length (snd k)) cs"
    by (auto simp: covers_def split: if_splits)
  then have "fst k < 2 ^ 64" using covers_le [OF assms(1)] assms(2) by linarith
  moreover have "take (R + length (snd k)) out = take R out @ snd k" using k(3) by (simp add: take_add)
  ultimately show thesis using k by (intro that [of "R + length (snd k)"]) (simp_all add: view_encoded)
qed

section \<open>One connection\<close>

text \<open>The chunk in the hand of the fan-out loop, those of a flush, and all that are still to come.\<close>

definition hand :: "pty_session \<Rightarrow> chunk list" where
  "hand s = (case pt_fan s of FanTaken k \<Rightarrow> [k] | FanBuffered k \<Rightarrow> [k] | FanGo k \<Rightarrow> [k] | FanTo k ts \<Rightarrow> [k] | _ \<Rightarrow> [])"

definition flush_list :: "nat \<Rightarrow> pty_session \<Rightarrow> chunk list" where
  "flush_list c s = (case pt_pumps s c of Some (PumpFlush r ks l) \<Rightarrow> ks | Some (PumpTo r k ts ks l) \<Rightarrow> k # ks | _ \<Rightarrow> [])"

fun push_list :: "reader \<Rightarrow> chunk list" where
  "push_list (Pushing k) = [k]"
| "push_list _ = []"

lemma push_list_Nil: "push_list r = [] \<longleftrightarrow> (\<forall>k. r \<noteq> Pushing k)"
  by (cases r) auto

definition todo :: "nat \<Rightarrow> pty_session \<Rightarrow> chunk list" where
  "todo c s = flush_list c s @ pt_pending s @ hand s @ pt_fanout s @ push_list (pt_reader s)"

text \<open>Whether anything can still be written to the connection.\<close>

definition live :: "nat \<Rightarrow> pty_session \<Rightarrow> bool" where
  "live c s \<longleftrightarrow> c \<notin> pt_shut s \<and> (pt_pumps s c \<noteq> None \<or> (\<exists>k ts. pt_fan s = FanTo k ts \<and> c \<in> set ts))"

text \<open>Before the snapshot, and in a flush.\<close>

definition fresh_pump :: "pump option \<Rightarrow> server_frame list \<Rightarrow> bool \<Rightarrow> bool" where
  "fresh_pump p fs gone \<longleftrightarrow> (case p of
       None \<Rightarrow> fs = [] \<and> \<not> gone
     | Some PumpPaused \<Rightarrow> True | Some (PumpAttached r) \<Rightarrow> True | _ \<Rightarrow> False)"

definition fresh :: "nat \<Rightarrow> pty_session \<Rightarrow> bool" where
  "fresh c s \<longleftrightarrow> fresh_pump (pt_pumps s c) (pt_out s c) (c \<in> pt_shut s)"

definition in_flush :: "nat \<Rightarrow> pty_session \<Rightarrow> bool" where
  "in_flush c s \<longleftrightarrow> pump_can (\<lambda>p. is_PumpFlush p \<or> is_PumpTo p) c s"

declare is_PumpFlush_def [simp]

fun no_replay :: "client_frame \<Rightarrow> bool" where
  "no_replay (CReplay n) = False"
| "no_replay _ = True"

lemma in_flush_iff:
  "in_flush c s \<longleftrightarrow> (\<exists>r ks l. pt_pumps s c = Some (PumpFlush r ks l)) \<or> (\<exists>r k ts ks l. pt_pumps s c = Some (PumpTo r k ts ks l))"
  by (auto simp: in_flush_def pump_can_def split: option.splits)

text \<open>The connection an event belongs to; the runs below have one.\<close>

fun conn_of :: "pty_event \<Rightarrow> nat option" where
  "conn_of (PPause d) = Some d"
| "conn_of (PAttach d now) = Some d"
| "conn_of (PSnapshot d readable) = Some d"
| "conn_of (PServe d good) = Some d"
| "conn_of (PResume d) = Some d"
| "conn_of (PFlush d) = Some d"
| "conn_of (PFlushWrite d failed) = Some d"
| "conn_of (PFlushed d) = Some d"
| "conn_of (PFrame d f now short) = Some d"
| "conn_of (PReplayWrite d good) = Some d"
| "conn_of (PLeave d) = Some d"
| "conn_of (PDetach d) = Some d"
| "conn_of _ = None"

definition mine :: "nat \<Rightarrow> pty_event \<Rightarrow> bool" where
  "mine c e \<longleftrightarrow> (case conn_of e of None \<Rightarrow> True | Some d \<Rightarrow> d = c)"

text \<open>
  The runs in which nothing gets lost: the channel takes every chunk and the dump holds all up to the
  snapshot; the connection does not attach between the check of the fan-out loop and its choice of targets,
  nor does that loop send while the pump flushes; the session does not end before the snapshot, and there is
  no replay, for which the panel has no use.
\<close>

fun calm :: "nat \<Rightarrow> pty_event \<Rightarrow> pty_session \<Rightarrow> bool" where
  "calm c (PRead bytes io) s = (length (pt_output s) + length bytes < 2 ^ 64
     \<and> (fresh c s \<longrightarrow> io = io_fine \<and> length (pt_output s) + length bytes \<le> sc_max (pt_cfg s)))"
| "calm c (PPush pushed) s = pushed"
| "calm c PCheck s = (\<not> in_flush c s)"
| "calm c PTargets s = (\<not> in_flush c s)"
| "calm c (PWrite failed) s = (\<not> in_flush c s)"
| "calm c (PAttach d now) s = (\<not> is_FanGo (pt_fan s))"
| "calm c (PSnapshot d readable) s = readable"
| "calm c (PFrame d f now short) s = no_replay f"
| "calm c (PReplayWrite d good) s = False"
| "calm c PKill s = (\<not> fresh c s)"
| "calm c (PExit cd) s = (\<not> fresh c s)"
| "calm c (PWait failed) s = (\<not> fresh c s)"
| "calm c _ s = True"

text \<open>What holds of the stream; of the connection before its snapshot; with it; and after it was written.\<close>

definition seat_ok :: "nat \<Rightarrow> nat list \<Rightarrow> pump option \<Rightarrow> nat set \<Rightarrow> wait_stage \<Rightarrow> bool" where
  "seat_ok c cs p sh w \<longleftrightarrow>
     (cs = [] \<or> cs = [c] \<and> p \<noteq> None \<and> p \<noteq> Some PumpPaused)
     \<and> (p = None \<or> p = Some PumpPaused \<or> c \<in> sh \<or> cs = [c])
     \<and> (case w of WaitDetach ts \<Rightarrow> set ts \<subseteq> sh | _ \<Rightarrow> True)"

definition seat_inv :: "nat \<Rightarrow> pty_session \<Rightarrow> bool" where
  "seat_inv c s \<longleftrightarrow> seat_ok c (attached s) (pt_pumps s c) (pt_shut s) (pt_wait s)"

definition stream_inv :: "nat \<Rightarrow> pty_session \<Rightarrow> bool" where
  "stream_inv c s \<longleftrightarrow> pt_endSeq s = length (pt_output s) \<and> length (pt_output s) < 2 ^ 64
     \<and> (\<forall>k \<in> set (todo c s). fst k < length (pt_output s))
     \<and> (pt_pauseCount s = 0 \<longrightarrow> pt_pending s = [])"

definition fresh_inv :: "nat \<Rightarrow> pty_session \<Rightarrow> bool" where
  "fresh_inv c s \<longleftrightarrow> nullish (pt_file s) [] = pt_output s \<and> pt_firstSeq s = 0 \<and> pt_out s c = [] \<and> c \<notin> pt_shut s
     \<and> pt_pauseCount s = (if pt_pumps s c = None then 0 else 1)
     \<and> (\<forall>k ts. pt_fan s = FanTo k ts \<longrightarrow> c \<notin> set ts)
     \<and> (attached s \<noteq> [] \<longrightarrow> (\<forall>k. pt_fan s \<noteq> FanGo k))"

text \<open>What the fan-out loop has in its hand is for this connection, or it has it; while it is paused, it will
  get it from the pending ones, or has it.\<close>

definition hand_ok :: "nat \<Rightarrow> nat \<Rightarrow> chunk list \<Rightarrow> nat \<Rightarrow> fan \<Rightarrow> bool" where
  "hand_ok c R pend pause f = (case f of
       FanBuffered k \<Rightarrow> pause > 0 \<longrightarrow> k \<in> set pend \<or> fst k < R
     | FanGo k \<Rightarrow> pause = 0
     | FanTo k ts \<Rightarrow> (c \<in> set ts \<or> fst k < R) \<and> (pause > 0 \<longrightarrow> c \<notin> set ts)
     | _ \<Rightarrow> True)"

definition held_inv :: "nat \<Rightarrow> nat \<Rightarrow> pty_session \<Rightarrow> bool" where
  "held_inv c R s \<longleftrightarrow> covers (pt_output s) R (todo c s) \<and> hand_ok c R (pt_pending s) (pt_pauseCount s) (pt_fan s)"

definition stage_inv :: "nat \<Rightarrow> nat \<Rightarrow> byte list \<Rightarrow> server_frame list \<Rightarrow> nat \<Rightarrow> bool \<Rightarrow> pump option \<Rightarrow> bool" where
  "stage_inv c R out fs pause gone p = (case p of
       Some (PumpSnap r dat first end) \<Rightarrow> view fs = (-1, []) \<and> dat = take R out \<and> first = 0 \<and> pause = 1
     | _ \<Rightarrow> view fs = (int R - 1, take R out) \<and> (fs \<noteq> [] \<or> gone)
         \<and> (case p of
              Some (PumpServed r) \<Rightarrow> pause = 1
            | Some (PumpLeaving r) \<Rightarrow> pause \<le> 1 \<and> (\<not> gone \<longrightarrow> pause = 0)
            | Some (PumpTo r k ts ks l) \<Rightarrow> pause = 0 \<and> (\<not> gone \<longrightarrow> c \<in> set ts)
            | Some (PumpReplay r dat first) \<Rightarrow> False
            | _ \<Rightarrow> pause = 0))"

definition served_inv :: "nat \<Rightarrow> pty_session \<Rightarrow> bool" where
  "served_inv c s \<longleftrightarrow> (\<exists>R \<le> length (pt_output s). (live c s \<longrightarrow> held_inv c R s)
     \<and> stage_inv c R (pt_output s) (pt_out s c) (pt_pauseCount s) (c \<in> pt_shut s) (pt_pumps s c))"

definition data_inv :: "nat \<Rightarrow> pty_session \<Rightarrow> bool" where
  "data_inv c s \<longleftrightarrow> stream_inv c s \<and> (if fresh c s then fresh_inv c s else served_inv c s)"

section \<open>Frames of the steps\<close>

lemma Detach_frame [simp]:
  "pt_out (Detach d s) = pt_out s" "pt_shut (Detach d s) = pt_shut s" "pt_fan (Detach d s) = pt_fan s"
  "pt_fanout (Detach d s) = pt_fanout s" "pt_pending (Detach d s) = pt_pending s"
  "pt_pauseCount (Detach d s) = pt_pauseCount s" "pt_pumps (Detach d s) = pt_pumps s"
  "pt_output (Detach d s) = pt_output s" "pt_file (Detach d s) = pt_file s" "pt_firstSeq (Detach d s) = pt_firstSeq s"
  "pt_endSeq (Detach d s) = pt_endSeq s" "pt_wait (Detach d s) = pt_wait s" "pt_stdin (Detach d s) = pt_stdin s"
  "pt_reader (Detach d s) = pt_reader s" "pt_closed (Detach d s) = pt_closed s" "pt_master (Detach d s) = pt_master s" "pt_cfg (Detach d s) = pt_cfg s"
  by (simp_all add: Detach_def)

lemma fold_Detach_frame [simp]:
  "pt_out (fold Detach ds s) = pt_out s" "pt_shut (fold Detach ds s) = pt_shut s" "pt_fan (fold Detach ds s) = pt_fan s"
  "pt_fanout (fold Detach ds s) = pt_fanout s" "pt_pending (fold Detach ds s) = pt_pending s"
  "pt_pauseCount (fold Detach ds s) = pt_pauseCount s" "pt_pumps (fold Detach ds s) = pt_pumps s"
  "pt_output (fold Detach ds s) = pt_output s" "pt_file (fold Detach ds s) = pt_file s" "pt_firstSeq (fold Detach ds s) = pt_firstSeq s"
  "pt_endSeq (fold Detach ds s) = pt_endSeq s" "pt_wait (fold Detach ds s) = pt_wait s" "pt_stdin (fold Detach ds s) = pt_stdin s"
  "pt_reader (fold Detach ds s) = pt_reader s" "pt_closed (fold Detach ds s) = pt_closed s" "pt_master (fold Detach ds s) = pt_master s" "pt_cfg (fold Detach ds s) = pt_cfg s"
  by (induction ds arbitrary: s) simp_all

lemma attached_Detach: "attached s \<in> {[], [c]} \<Longrightarrow> attached (Detach d s) = (if d = c then [] else attached s)"
  by (auto simp: attached_def Detach_def split: option.splits)

lemma attached_fold_Detach:
  "attached s \<in> {[], [c]} \<Longrightarrow> attached (fold Detach ds s) = (if c \<in> set ds then [] else attached s)"
  by (induction ds arbitrary: s) (auto simp: attached_Detach)

lemma write_frame_frame [simp]:
  "pt_fan (write_frame ts F f s) = pt_fan s" "attached (write_frame ts F f s) = attached s"
  "pt_fanout (write_frame ts F f s) = pt_fanout s" "pt_pending (write_frame ts F f s) = pt_pending s"
  "pt_pauseCount (write_frame ts F f s) = pt_pauseCount s" "pt_pumps (write_frame ts F f s) = pt_pumps s"
  "pt_output (write_frame ts F f s) = pt_output s" "pt_file (write_frame ts F f s) = pt_file s" "pt_firstSeq (write_frame ts F f s) = pt_firstSeq s"
  "pt_endSeq (write_frame ts F f s) = pt_endSeq s" "pt_wait (write_frame ts F f s) = pt_wait s" "pt_stdin (write_frame ts F f s) = pt_stdin s"
  "pt_reader (write_frame ts F f s) = pt_reader s" "pt_closed (write_frame ts F f s) = pt_closed s" "pt_master (write_frame ts F f s) = pt_master s" "pt_cfg (write_frame ts F f s) = pt_cfg s"
  by (simp_all add: write_frame_def attached_def Let_def)

lemma write_frame_out:
  "pt_out (write_frame ts F f s) c = (if c \<in> set ts \<and> c \<notin> F \<and> c \<notin> pt_shut s then pt_out s c @ [f] else pt_out s c)"
  "pt_shut (write_frame ts F f s) = pt_shut s \<union> (set ts \<inter> F)"
  by (simp_all add: write_frame_def Let_def)

lemma broadcast_frame [simp]:
  "pt_fan (broadcast_write k ts F s) = pt_fan s" "pt_fanout (broadcast_write k ts F s) = pt_fanout s"
  "pt_pending (broadcast_write k ts F s) = pt_pending s" "pt_pauseCount (broadcast_write k ts F s) = pt_pauseCount s"
  "pt_pumps (broadcast_write k ts F s) = pt_pumps s" "pt_output (broadcast_write k ts F s) = pt_output s"
  "pt_file (broadcast_write k ts F s) = pt_file s" "pt_firstSeq (broadcast_write k ts F s) = pt_firstSeq s"
  "pt_endSeq (broadcast_write k ts F s) = pt_endSeq s" "pt_wait (broadcast_write k ts F s) = pt_wait s"
  "pt_stdin (broadcast_write k ts F s) = pt_stdin s" "pt_reader (broadcast_write k ts F s) = pt_reader s" "pt_closed (broadcast_write k ts F s) = pt_closed s"
  "pt_master (broadcast_write k ts F s) = pt_master s" "pt_cfg (broadcast_write k ts F s) = pt_cfg s"
  by (simp_all add: broadcast_write_def)

lemma broadcast_out:
  "pt_out (broadcast_write k ts F s) c = (if c \<in> set ts \<and> c \<notin> F \<and> c \<notin> pt_shut s
     then pt_out s c @ [SBinary (EncodeBinaryFrame (of_nat (fst k)) (snd k))] else pt_out s c)"
  "pt_shut (broadcast_write k ts F s) = pt_shut s \<union> (set ts \<inter> F)"
  by (simp_all add: broadcast_write_def write_frame_out)

lemma broadcast_attached:
  "attached s \<in> {[], [c]} \<Longrightarrow> attached (broadcast_write k ts F s) =
     (if c \<in> set ts \<and> (c \<in> F \<or> c \<in> pt_shut s) then [] else attached s)"
  by (auto simp: broadcast_write_def attached_fold_Detach broken_def)

lemma attached_updates [simp]:
  "attached (s\<lparr>pt_pumps := q\<rparr>) = attached s" "attached (s\<lparr>pt_fan := f\<rparr>) = attached s"
  "attached (s\<lparr>pt_pending := ks\<rparr>) = attached s" "attached (s\<lparr>pt_pauseCount := n\<rparr>) = attached s"
  "attached (s\<lparr>pt_wait := w\<rparr>) = attached s" "attached (s\<lparr>pt_shut := x\<rparr>) = attached s"
  "attached (s\<lparr>pt_reader := rd\<rparr>) = attached s" "attached (s\<lparr>pt_stdin := i\<rparr>) = attached s"
  "attached (s\<lparr>pt_lastInput := t\<rparr>) = attached s" "attached (s\<lparr>pt_lastAttach := t\<rparr>) = attached s"
  "attached (s\<lparr>pt_size := sz\<rparr>) = attached s" "attached (s\<lparr>pt_fanout := ks\<rparr>) = attached s"
  "attached (s\<lparr>pt_file := fl\<rparr>) = attached s" "attached (s\<lparr>pt_closed := b\<rparr>) = attached s"
  "attached (s\<lparr>pt_master := b\<rparr>) = attached s"
  "attached (s\<lparr>pt_endSeq := n\<rparr>) = attached s" "attached (s\<lparr>pt_firstSeq := n\<rparr>) = attached s"
  "attached (s\<lparr>pt_output := bs\<rparr>) = attached s" "attached (s\<lparr>pt_out := ou\<rparr>) = attached s"
  by (simp_all add: attached_def)

lemma readLoop_frame [simp]:
  "attached (readLoop bytes io s) = attached s" "pt_pumps (readLoop bytes io s) = pt_pumps s"
  "pt_shut (readLoop bytes io s) = pt_shut s" "pt_wait (readLoop bytes io s) = pt_wait s"
  "pt_out (readLoop bytes io s) = pt_out s" "pt_pauseCount (readLoop bytes io s) = pt_pauseCount s"
  "pt_pending (readLoop bytes io s) = pt_pending s" "pt_fan (readLoop bytes io s) = pt_fan s"
  "pt_output (readLoop bytes io s) = pt_output s @ bytes" "pt_endSeq (readLoop bytes io s) = pt_endSeq s + length bytes"
  "pt_fanout (readLoop bytes io s) = pt_fanout s" "pt_reader (readLoop bytes io s) = Pushing (pt_endSeq s, bytes)"
  "pt_cfg (readLoop bytes io s) = pt_cfg s" "pt_stdin (readLoop bytes io s) = pt_stdin s"
  "pt_closed (readLoop bytes io s) = pt_closed s" "pt_master (readLoop bytes io s) = pt_master s"
  by (simp_all add: readLoop_def Let_def)

lemmas pump_defs = on_pump_def pump_attach_def pump_snapshot_def pump_serve_def pump_resume_def pump_flush_def
  pump_flush_write_def pump_flushed_def pump_receive_def pump_leave_def pump_detach_def pump_can_def
  set_pump_def ResumeBroadcast_def PauseBroadcast_def

text \<open>To compute the steps of a concrete session.\<close>

lemmas session_eval = NewPtySession_def positive_or_def rolling_max_def FANOUT_CAP_def pump_defs fan_take_def fan_buffer_def fan_check_def
  fan_targets_def fan_write_def maybeBuffer_def pump_replay_def serve_def write_frame_def broadcast_write_def broken_def readLoop_def read_push_def
  Append_def io_fine_def Attach_def currentRole_of_def Snapshot_def ReadAll_def nullish_def attached_def List.insert_def Let_def
  ready_of_def pump_frame_def pty_write_def Resize_def Kill_def wait_step_def ex_bool_eq all_bool_eq

lemmas fan_defs = fan_take_def fan_buffer_def read_push_def fan_check_def fan_targets_def fan_write_def maybeBuffer_def

lemma seat_attached: "seat_inv c s \<Longrightarrow> attached s \<in> {[], [c]}"
  by (auto simp: seat_inv_def seat_ok_def)

lemma seat_pump:
  "seat_ok c cs (Some p) sh w \<Longrightarrow> p \<noteq> PumpPaused \<Longrightarrow> p' \<noteq> PumpPaused \<Longrightarrow> seat_ok c cs (Some p') sh w"
  by (auto simp: seat_ok_def)

lemma seat_shut:
  "seat_ok c cs p sh w \<Longrightarrow> cs' = cs \<or> cs' = [] \<and> c \<in> sh' \<Longrightarrow> sh \<subseteq> sh' \<Longrightarrow> seat_ok c cs' p sh' w"
  by (auto simp: seat_ok_def split: wait_stage.splits)

lemma seat_broadcast:
  "seat_inv c s \<Longrightarrow> seat_ok c (attached (broadcast_write k ts F s)) (pt_pumps s c) (pt_shut s \<union> (set ts \<inter> F)) (pt_wait s)"
  using broadcast_attached [OF seat_attached, of c s k ts F] seat_shut
  unfolding seat_inv_def by (metis (no_types, lifting) IntI UnI1 UnI2 Un_upper1)

lemma seat_step:
  assumes "seat_inv c s" "pty_can e s" "mine c e"
  shows "seat_inv c (pty_step e s)"
proof (cases e)
  case (PWrite failed)
  with assms obtain k ts where fan: "pt_fan s = FanTo k ts" by auto
  show ?thesis using seat_broadcast [OF assms(1), of k ts failed]
    by (simp add: PWrite seat_inv_def fan_defs fan broadcast_out)
next
  case (PAttach d now)
  with assms have d: "d = c" "pt_pumps s c = Some PumpPaused" by (auto simp: mine_def pump_defs split: option.splits)
  with assms(1) have "attached s = []" by (auto simp: seat_inv_def seat_ok_def)
  then have "pt_writer s = None" "pt_readers s = []" by (auto simp: attached_def split: option.splits)
  then show ?thesis using assms(1) d
    by (auto simp: PAttach seat_inv_def seat_ok_def pump_defs Attach_def attached_def Let_def split: wait_stage.splits)
next
  case (PServe d good)
  with assms obtain r dat f e where d: "d = c" "pt_pumps s c = Some (PumpSnap r dat f e)"
    by (auto simp: mine_def pump_defs split: option.splits)
  with assms(1) have ok: "seat_ok c (attached s) (Some p') sh' (pt_wait s)" if "p' \<noteq> PumpPaused" "pt_shut s \<subseteq> sh'" for p' sh'
    using seat_pump [of c "attached s" "PumpSnap r dat f e" "pt_shut s" "pt_wait s" p'] seat_shut that by (auto simp: seat_inv_def)
  show ?thesis using d by (auto simp: PServe seat_inv_def pump_defs serve_def write_frame_out Let_def intro!: ok)
next
  case (PFlushWrite d failed)
  with assms obtain r k ts ks l where p: "pt_pumps s c = Some (PumpTo r k ts ks l)" and d: "d = c"
    by (auto simp: mine_def pump_defs split: option.splits)
  show ?thesis using seat_pump seat_broadcast [OF assms(1), of k ts failed] p
    by (simp add: PFlushWrite seat_inv_def pump_defs p d broadcast_out)
next
  case (PFrame d f now short)
  then obtain r where d: "d = c" "pt_pumps s c = Some (PumpRun r)"
    using assms by (auto simp: mine_def pump_defs split: option.splits)
  with assms(1) have ok: "seat_ok c (attached s) (Some p') sh' (pt_wait s)" if "p' \<noteq> PumpPaused" "pt_shut s \<subseteq> sh'" for p' sh'
    using seat_pump [of c "attached s" "PumpRun r" "pt_shut s" "pt_wait s" p'] seat_shut that by (auto simp: seat_inv_def)
  show ?thesis using d
    by (cases f) (auto simp: PFrame seat_inv_def pump_defs pump_frame_def pty_write_def Resize_def Snapshot_def write_frame_out Let_def
        split: option.splits sum.splits intro!: ok)
next
  case (PWait failed)
  have "seat_ok c (attached s) (pt_pumps s c) (pt_shut s) (pt_wait s)" using assms(1) by (simp add: seat_inv_def)
  then show ?thesis using attached_fold_Detach [OF seat_attached [OF assms(1)]]
    by (cases "pt_wait s") (auto simp: PWait seat_inv_def seat_ok_def wait_step_def Kill_def write_frame_out Let_def)
next
  case (PPause d)
  then show ?thesis using assms by (auto simp: mine_def seat_inv_def seat_ok_def pump_defs attached_def)
next
  case (PSnapshot d readable)
  then obtain r where "d = c" "pt_pumps s c = Some (PumpAttached r)"
    using assms by (auto simp: mine_def pump_defs split: option.splits)
  then show ?thesis using assms(1)
    by (auto simp: PSnapshot seat_inv_def pump_defs Snapshot_def intro: seat_pump)
next
  case (PResume d)
  then obtain q where q: "d = c" "pt_pumps s c = Some q" "resumes q" using assms by (auto simp: mine_def pump_defs split: option.splits)
  then show ?thesis using assms(1)
    by (cases q) (auto simp: PResume seat_inv_def pump_defs intro: seat_pump)
next
  case (PFlush d)
  then obtain r k ks l where "d = c" "pt_pumps s c = Some (PumpFlush r (k # ks) l)"
    using assms by (auto simp: mine_def pump_defs split: option.splits)
  then show ?thesis using assms(1) by (auto simp: PFlush seat_inv_def pump_defs intro: seat_pump)
next
  case (PFlushed d)
  then obtain r l where "d = c" "pt_pumps s c = Some (PumpFlush r [] l)"
    using assms by (auto simp: mine_def pump_defs split: option.splits)
  then show ?thesis using assms(1) by (auto simp: PFlushed seat_inv_def pump_defs intro: seat_pump)
next
  case (PLeave d)
  then obtain r where "d = c" "pt_pumps s c = Some (PumpRun r)"
    using assms by (auto simp: mine_def pump_defs split: option.splits)
  then show ?thesis using assms(1) by (auto simp: PLeave seat_inv_def pump_defs intro: seat_pump)
next
  case (PDetach d)
  then obtain r where "d = c" "pt_pumps s c = Some (PumpDetach r)"
    using assms by (auto simp: mine_def pump_defs split: option.splits)
  then show ?thesis using assms(1) attached_Detach [OF seat_attached [OF assms(1)], of c]
    by (auto simp: PDetach seat_inv_def seat_ok_def pump_defs split: wait_stage.splits)
next
  case (PReplayWrite d good)
  then obtain r dat f where d: "d = c" "pt_pumps s c = Some (PumpReplay r dat f)"
    using assms by (auto simp: mine_def pump_defs split: option.splits)
  with assms(1) have ok: "seat_ok c (attached s) (Some (PumpRun r)) sh' (pt_wait s)" if "pt_shut s \<subseteq> sh'" for sh'
    using seat_pump [of c "attached s" "PumpReplay r dat f" "pt_shut s" "pt_wait s" "PumpRun r"] seat_shut that by (auto simp: seat_inv_def)
  show ?thesis using d by (auto simp: PReplayWrite seat_inv_def pump_defs pump_replay_def write_frame_out intro!: ok)
next
  case (PExit cd)
  then show ?thesis using assms(1) by (auto simp: seat_inv_def seat_ok_def split: wait_stage.splits)
next
  case (PRead bytes io)
  then show ?thesis using assms(1) by (simp add: seat_inv_def)
qed (use assms(1) in \<open>auto simp: seat_inv_def fan_defs Kill_def split: list.splits fan.splits reader.splits\<close>)

section \<open>The data of a step\<close>

text \<open>A step that leaves the stream alone; the frames it writes, if any, are texts.\<close>

lemma data_cong:
  assumes "data_inv c s" "\<not> fresh c s"
    and "pt_pumps s' c = pt_pumps s c" "pt_pending s' = pt_pending s" "pt_fan s' = pt_fan s" "pt_fanout s' = pt_fanout s"
    and "pt_pauseCount s' = pt_pauseCount s" "pt_output s' = pt_output s" "pt_endSeq s' = pt_endSeq s"
    and "pt_reader s' = pt_reader s" "view (pt_out s' c) = view (pt_out s c)" "pt_out s c \<noteq> [] \<longrightarrow> pt_out s' c \<noteq> []" "c \<in> pt_shut s \<longrightarrow> c \<in> pt_shut s'"
  shows "data_inv c s'"
proof -
  have t: "todo c s' = todo c s" using assms by (simp add: todo_def flush_list_def hand_def)
  have f: "\<not> fresh c s'"
    using assms(2,3,12,13) by (auto simp: fresh_def fresh_pump_def split: option.splits pump.splits)
  have "stage_inv c R x fs' n g' p" if "stage_inv c R x fs n g p" "view fs' = view fs" "g \<longrightarrow> g'" "fs \<noteq> [] \<longrightarrow> fs' \<noteq> []" for R x fs fs' n g g' p
    using that by (auto simp: stage_inv_def split: option.splits pump.splits)
  moreover have "live c s' \<Longrightarrow> live c s" "held_inv c R s' = held_inv c R s" for R
    using assms(3-13) t by (auto simp: live_def held_inv_def)
  moreover obtain R where "R \<le> length (pt_output s)" "live c s \<longrightarrow> held_inv c R s"
    "stage_inv c R (pt_output s) (pt_out s c) (pt_pauseCount s) (c \<in> pt_shut s) (pt_pumps s c)"
    using assms(1,2) by (auto simp: data_inv_def served_inv_def)
  ultimately have "served_inv c s'" using assms(3-13) unfolding served_inv_def by metis
  then show ?thesis using assms(1-11) f t by (simp add: data_inv_def stream_inv_def)
qed

lemma data_read:
  assumes "data_inv c s" "pty_can (PRead bytes io) s" "calm c (PRead bytes io) s"
  shows "data_inv c (readLoop bytes io s)"
proof -
  let ?s = "readLoop bytes io s"
  from assms have p: "bytes \<noteq> []" and len: "length (pt_output s) + length bytes < 2 ^ 64" by auto
  have st: "stream_inv c s" using assms(1) by (simp add: data_inv_def)
  then have es: "pt_endSeq s = length (pt_output s)" by (simp add: stream_inv_def)
  have t: "todo c ?s = todo c s @ [(length (pt_output s), bytes)]"
    using es assms(2) by (simp add: todo_def flush_list_def hand_def)
  have f: "fresh c ?s = fresh c s" by (simp add: fresh_def)
  have "stream_inv c ?s" using st p len by (auto simp: stream_inv_def t trans_less_add1)
  moreover have "fresh_inv c ?s" if "fresh c s"
  proof -
    from that assms have i: "io = io_fine" "length (pt_output s) + length bytes \<le> sc_max (pt_cfg s)" "fresh_inv c s"
      by (auto simp: data_inv_def)
    then show ?thesis using es p
      by (simp add: fresh_inv_def) (auto simp: readLoop_def Let_def Append_def io_fine_def nullish_def)
  qed
  moreover have "served_inv c ?s" if nf: "\<not> fresh c s"
  proof -
    from nf assms(1) obtain R where R: "R \<le> length (pt_output s)" "live c s \<longrightarrow> held_inv c R s"
      "stage_inv c R (pt_output s) (pt_out s c) (pt_pauseCount s) (c \<in> pt_shut s) (pt_pumps s c)"
      by (auto simp: data_inv_def served_inv_def)
    have "live c ?s = live c s" by (simp add: live_def)
    moreover have "held_inv c R s \<Longrightarrow> held_inv c R ?s" using covers_read p by (simp add: held_inv_def t)
    moreover have "stage_inv c R (pt_output s @ bytes) fs n g q = stage_inv c R (pt_output s) fs n g q" for fs n g q
      using R(1) by (simp add: stage_inv_def split: option.splits pump.splits)
    ultimately show ?thesis using R by (auto simp: served_inv_def intro: exI [of _ R])
  qed
  ultimately show ?thesis by (simp add: data_inv_def f)
qed

text \<open>A step of the fan-out loop that writes nothing.\<close>

lemma data_fan:
  assumes "data_inv c s" "stream_inv c s'" "fresh c s \<Longrightarrow> fresh_inv c s \<Longrightarrow> fresh_inv c s'"
    and "\<And>R. \<not> fresh c s \<Longrightarrow> live c s \<Longrightarrow> held_inv c R s \<Longrightarrow> held_inv c R s'" "live c s' \<Longrightarrow> live c s"
    and "pt_pumps s' = pt_pumps s" "pt_out s' = pt_out s" "pt_shut s' = pt_shut s" "pt_pauseCount s' = pt_pauseCount s"
      "pt_output s' = pt_output s"
  shows "data_inv c s'"
proof -
  have f: "fresh c s' = fresh c s" using assms by (simp add: fresh_def)
  show ?thesis
  proof (cases "fresh c s")
    case True
    with assms f show ?thesis by (simp add: data_inv_def)
  next
    case False
    with assms(1) obtain R where "R \<le> length (pt_output s)" "live c s \<longrightarrow> held_inv c R s"
      "stage_inv c R (pt_output s) (pt_out s c) (pt_pauseCount s) (c \<in> pt_shut s) (pt_pumps s c)"
      by (auto simp: data_inv_def served_inv_def)
    with assms(4-) False have "served_inv c s'" unfolding served_inv_def by metis
    with assms(2) f False show ?thesis by (simp add: data_inv_def)
  qed
qed

lemma data_push:
  assumes "data_inv c s" "pt_reader s = Pushing k"
  shows "data_inv c (read_push True s)"
proof -
  let ?s = "read_push True s"
  have eq: "?s = s\<lparr>pt_fanout := pt_fanout s @ [k], pt_reader := (if pt_closed s then ReadDone else Reading)\<rparr>"
    using assms(2) by (simp add: read_push_def)
  have t: "todo c ?s = todo c s" using assms(2) by (simp add: todo_def hand_def flush_list_def eq)
  show ?thesis
  proof (rule data_fan [OF assms(1)])
    show "stream_inv c ?s" using assms(1) by (simp add: data_inv_def stream_inv_def t) (simp add: eq)
    show "fresh_inv c s \<Longrightarrow> fresh_inv c ?s" by (simp add: fresh_inv_def eq)
    show "held_inv c R s \<Longrightarrow> held_inv c R ?s" for R by (simp add: held_inv_def t) (simp add: eq)
    show "live c ?s \<Longrightarrow> live c s" by (simp add: eq live_def)
  qed (simp_all add: eq)
qed

lemma data_take:
  assumes "data_inv c s" "pt_fan s = FanIdle" "pt_fanout s = k # ks"
  shows "data_inv c (fan_take s)"
proof -
  let ?s = "fan_take s"
  have eq: "?s = s\<lparr>pt_fanout := ks, pt_fan := FanTaken k\<rparr>" using assms(3) by (simp add: fan_take_def)
  have t: "todo c ?s = todo c s" using assms by (simp add: todo_def hand_def flush_list_def eq)
  show ?thesis
  proof (rule data_fan [OF assms(1)])
    show "stream_inv c ?s" using assms(1) by (simp add: data_inv_def stream_inv_def t) (simp add: eq)
    show "fresh_inv c s \<Longrightarrow> fresh_inv c ?s" by (simp add: fresh_inv_def eq)
    show "held_inv c R s \<Longrightarrow> held_inv c R ?s" for R by (simp add: held_inv_def t) (simp add: eq hand_ok_def)
    show "live c ?s \<Longrightarrow> live c s" by (simp add: eq live_def)
  qed (simp_all add: eq)
qed

lemma data_buffer:
  assumes "data_inv c s" "pt_fan s = FanTaken k"
  shows "data_inv c (fan_buffer s)"
proof -
  let ?s = "fan_buffer s" and ?ks = "pt_fanout s @ push_list (pt_reader s)"
  have eq: "?s = s\<lparr>pt_fan := FanBuffered k,
      pt_pending := (if pt_pauseCount s = 0 then pt_pending s else pt_pending s @ [k])\<rparr>"
    using assms(2) by (simp add: fan_buffer_def maybeBuffer_def)
  have t: "todo c s = (flush_list c s @ pt_pending s) @ k # ?ks"
    using assms by (simp add: todo_def hand_def)
  have t': "todo c ?s = (if pt_pauseCount s = 0 then todo c s else (flush_list c s @ pt_pending s @ [k]) @ k # ?ks)"
    using assms by (simp add: todo_def hand_def flush_list_def eq)
  have set: "set (todo c ?s) = set (todo c s)" by (auto simp: t' t)
  have cov: "covers (pt_output s) R (todo c ?s) = covers (pt_output s) R (todo c s)" for R
    using covers_skip [of k "flush_list c s @ pt_pending s @ [k]" R "pt_output s" ?ks] by (simp add: t' t)
  show ?thesis
  proof (rule data_fan [OF assms(1)])
    show "stream_inv c ?s" using assms(1) set by (simp add: data_inv_def stream_inv_def) (simp add: eq)
    show "fresh_inv c s \<Longrightarrow> fresh_inv c ?s" by (simp add: fresh_inv_def eq)
    show "held_inv c R s \<Longrightarrow> held_inv c R ?s" for R
      using cov [of R] by (simp add: held_inv_def) (simp add: eq hand_ok_def)
    show "live c ?s \<Longrightarrow> live c s" using assms(2) by (simp add: eq live_def)
  qed (simp_all add: eq)
qed

lemma no_flush: "\<not> in_flush c s \<Longrightarrow> flush_list c s = []"
  by (auto simp: in_flush_iff flush_list_def split: option.splits pump.splits)

lemma data_check:
  assumes "data_inv c s" "seat_inv c s" "pt_fan s = FanBuffered k" "\<not> in_flush c s"
  shows "data_inv c (fan_check s)"
proof -
  let ?s = "fan_check s"
  have eq: "?s = s\<lparr>pt_fan := (if pt_pauseCount s > 0 then FanIdle else FanGo k)\<rparr>"
    using assms(3) by (simp add: fan_check_def)
  have t: "todo c s = pt_pending s @ k # pt_fanout s @ push_list (pt_reader s)" "todo c ?s = pt_pending s @ (if pt_pauseCount s > 0 then [] else [k]) @ pt_fanout s @ push_list (pt_reader s)"
    using no_flush [OF assms(4)] assms(3) by (simp_all add: todo_def hand_def) (simp add: eq flush_list_def)
  show ?thesis
  proof (rule data_fan [OF assms(1)])
    show "stream_inv c ?s" using assms(1) by (simp add: data_inv_def stream_inv_def t) (simp add: eq)
    show "fresh_inv c s \<Longrightarrow> fresh_inv c ?s"
      using assms(2) by (auto simp: fresh_inv_def eq seat_inv_def seat_ok_def)
    show "held_inv c R s \<Longrightarrow> held_inv c R ?s" for R
      using covers_skip [of k "pt_pending s" R "pt_output s" "pt_fanout s @ push_list (pt_reader s)"] assms(3)
      by (simp add: held_inv_def t hand_ok_def) (auto simp: eq)
    show "live c ?s \<Longrightarrow> live c s" using assms(3) by (auto simp: eq live_def split: if_splits)
  qed (simp_all add: eq)
qed

lemma data_targets:
  assumes "data_inv c s" "seat_inv c s" "pt_fan s = FanGo k" "\<not> in_flush c s"
  shows "data_inv c (fan_targets s)"
proof -
  let ?s = "fan_targets s"
  have eq: "?s = s\<lparr>pt_fan := FanTo k (attached s)\<rparr>" using assms(3) by (simp add: fan_targets_def)
  have t: "todo c ?s = todo c s" using assms(3) by (simp add: eq todo_def hand_def flush_list_def)
  show ?thesis
  proof (rule data_fan [OF assms(1)])
    show "stream_inv c ?s" using assms(1) by (simp add: data_inv_def stream_inv_def t) (simp add: eq)
    show "fresh_inv c s \<Longrightarrow> fresh_inv c ?s" using assms(3) by (auto simp: fresh_inv_def eq)
    show "live c ?s \<Longrightarrow> live c s"
      using assms(2,3) by (auto simp: eq live_def seat_inv_def seat_ok_def)
    assume nf: "\<not> fresh c s" and l: "live c s"
    have "pt_pumps s c \<noteq> None \<and> pt_pumps s c \<noteq> Some PumpPaused"
      using nf l assms(3) by (auto simp: live_def fresh_def fresh_pump_def)
    with l assms(2) have "attached s = [c]" by (auto simp: live_def seat_inv_def seat_ok_def)
    then show "held_inv c R s \<Longrightarrow> held_inv c R ?s" for R
      using assms(3) by (simp add: held_inv_def t) (simp add: eq hand_ok_def)
  qed (simp_all add: eq)
qed

text \<open>Writing a chunk to the connection.\<close>

lemma stage_mono: "stage_inv c R out fs n g q \<Longrightarrow> (g \<longrightarrow> g') \<Longrightarrow> stage_inv c R out fs n g' q"
  by (auto simp: stage_inv_def split: option.splits pump.splits)

lemma stage_move:
  assumes "stage_inv c R out fs n g q" "view fs' = (int R' - 1, take R' out)" "fs' \<noteq> []" "\<And>r d f e. q \<noteq> Some (PumpSnap r d f e)"
  shows "stage_inv c R' out fs' n g q"
  using assms by (auto simp: stage_inv_def split: option.splits pump.splits)

lemma stage_view:
  assumes "stage_inv c R out fs n g q" "\<And>r d f e. q \<noteq> Some (PumpSnap r d f e)"
  shows "view fs = (int R - 1, take R out)"
  using assms by (auto simp: stage_inv_def split: option.splits pump.splits)

lemma stage_snap: "stage_inv c R out fs n g (Some (PumpSnap r d f e)) \<Longrightarrow> n = 1"
  by (simp add: stage_inv_def)

text \<open>What both writers of chunks, the fan-out loop and a flush, have in common.\<close>

lemma served_write:
  assumes "served_inv c s" "length (pt_output s) < 2 ^ 64"
    and "c \<in> set ts \<Longrightarrow> c \<notin> pt_shut s \<Longrightarrow> pt_pauseCount s = 0 \<and> live c s \<and> todo c s = k # ks"
    and out: "pt_out s' c = (if c \<in> set ts \<and> c \<notin> F \<and> c \<notin> pt_shut s
      then pt_out s c @ [SBinary (EncodeBinaryFrame (of_nat (fst k)) (snd k))] else pt_out s c)"
    and shut: "pt_shut s' = pt_shut s \<union> (set ts \<inter> F)"
    and same: "pt_pauseCount s' = pt_pauseCount s" "pt_output s' = pt_output s"
    and pump: "\<And>R fs g. (\<And>r d f e. pt_pumps s c \<noteq> Some (PumpSnap r d f e)) \<Longrightarrow>
      stage_inv c R (pt_output s) fs (pt_pauseCount s) g (pt_pumps s c) \<Longrightarrow>
      stage_inv c R (pt_output s) fs (pt_pauseCount s) g (pt_pumps s' c)"
    and snap: "\<And>r d f e. pt_pumps s c = Some (PumpSnap r d f e) \<Longrightarrow> pt_pumps s' c = Some (PumpSnap r d f e)"
    and held: "\<And>R. live c s' \<Longrightarrow> c \<notin> set ts \<Longrightarrow> live c s \<Longrightarrow> held_inv c R s \<Longrightarrow> held_inv c R s'"
      "\<And>R R'. c \<in> set ts \<Longrightarrow> held_inv c R s \<Longrightarrow> R \<le> R' \<Longrightarrow> covers (pt_output s) R' ks \<Longrightarrow> fst k < R' \<Longrightarrow> held_inv c R' s'"
    and lv: "live c s' \<Longrightarrow> c \<notin> set ts \<Longrightarrow> live c s"
  shows "served_inv c s'"
proof -
  from assms(1) obtain R where R: "R \<le> length (pt_output s)" "live c s \<longrightarrow> held_inv c R s"
    "stage_inv c R (pt_output s) (pt_out s c) (pt_pauseCount s) (c \<in> pt_shut s) (pt_pumps s c)"
    by (auto simp: served_inv_def)
  show ?thesis
  proof (cases "c \<in> set ts \<and> c \<notin> F \<and> c \<notin> pt_shut s")
    case True
    with assms(3) have p: "pt_pauseCount s = 0" "live c s" "todo c s = k # ks" by auto
    with R have h: "held_inv c R s" by simp
    with p(3) have "covers (pt_output s) R (k # ks)" by (simp add: held_inv_def)
    then obtain R' where R': "R \<le> R'" "covers (pt_output s) R' ks" "fst k < R'"
      "view_frame (int R - 1, take R (pt_output s)) (SBinary (EncodeBinaryFrame (of_nat (fst k)) (snd k))) = (int R' - 1, take R' (pt_output s))"
      using covers_head [OF _ assms(2)] by metis
    have ns: "pt_pumps s c \<noteq> Some (PumpSnap r d f e)" for r d f e
      using R(3) p(1) stage_snap by (metis zero_neq_one)
    have "view (pt_out s' c) = (int R' - 1, take R' (pt_output s))"
      using True out R'(4) stage_view [OF R(3) ns] by simp
    from pump [OF ns stage_move [OF R(3) this _ ns]]
    have "stage_inv c R' (pt_output s') (pt_out s' c) (pt_pauseCount s') (c \<in> pt_shut s') (pt_pumps s' c)"
      using True shut same out by (simp add: stage_mono)
    moreover have "held_inv c R' s'" using held(2) True h R' by blast
    ultimately show ?thesis unfolding served_inv_def using covers_le [OF R'(2)] same by auto
  next
    case False
    have o: "pt_out s' c = pt_out s c" using False out by simp
    have "stage_inv c R (pt_output s') (pt_out s' c) (pt_pauseCount s') (c \<in> pt_shut s') (pt_pumps s' c)"
    proof (cases "\<exists>r d f e. pt_pumps s c = Some (PumpSnap r d f e)")
      case True
      then show ?thesis using R(3) snap o shut same by (auto intro: stage_mono)
    next
      case no: False
      from pump [OF _ R(3)] no o same shut show ?thesis by (auto intro: stage_mono)
    qed
    moreover have "live c s' \<Longrightarrow> held_inv c R s'"
      using False shut held(1) lv R(2) by (auto simp: live_def)
    ultimately show ?thesis unfolding served_inv_def using R(1) same by auto
  qed
qed

lemma data_write:
  assumes "data_inv c s" "seat_inv c s" "pt_fan s = FanTo k ts" "\<not> in_flush c s"
  shows "data_inv c (fan_write F s)"
proof -
  let ?s = "fan_write F s" and ?ks = "pt_fanout s @ push_list (pt_reader s)"
  have eq: "?s = (broadcast_write k ts F s)\<lparr>pt_fan := FanIdle\<rparr>" using assms(3) by (simp add: fan_write_def)
  have t: "todo c s = pt_pending s @ k # ?ks" "todo c ?s = pt_pending s @ ?ks"
    using no_flush [OF assms(4)] assms(3) by (simp_all add: todo_def hand_def) (simp add: eq flush_list_def)
  have st: "stream_inv c s" using assms(1) by (simp add: data_inv_def)
  have st': "stream_inv c ?s" using st by (simp add: stream_inv_def t) (simp add: eq)
  show ?thesis
  proof (cases "fresh c s")
    case True
    with assms(1) have fi: "fresh_inv c s" by (simp add: data_inv_def)
    with assms(3) have nt: "c \<notin> set ts" by (simp add: fresh_inv_def)
    have o: "pt_out ?s c = pt_out s c" "c \<in> pt_shut ?s \<longleftrightarrow> c \<in> pt_shut s" "attached ?s = attached s"
      using nt broadcast_attached [OF seat_attached [OF assms(2)], of k ts F] by (auto simp: eq broadcast_out)
    then have "fresh c ?s" using True by (simp add: fresh_def) (simp add: eq)
    moreover have "fresh_inv c ?s" using fi o by (simp add: fresh_inv_def) (simp add: eq)
    ultimately show ?thesis using st' by (simp add: data_inv_def)
  next
    case False
    with assms(1) have si: "served_inv c s" by (simp add: data_inv_def)
    then obtain R where R: "live c s \<longrightarrow> held_inv c R s" by (auto simp: served_inv_def)
    have "served_inv c ?s"
    proof (rule served_write [OF si, where F = F and ts = ts and k = k and ks = ?ks])
      show "length (pt_output s) < 2 ^ 64" using st by (simp add: stream_inv_def)
      show "pt_pauseCount s = 0 \<and> live c s \<and> todo c s = k # ?ks" if "c \<in> set ts" "c \<notin> pt_shut s"
      proof -
        have l: "live c s" using that assms(3) by (simp add: live_def)
        with R assms(3) that have "pt_pauseCount s = 0" by (auto simp: held_inv_def hand_ok_def)
        with l st t show ?thesis by (simp add: stream_inv_def)
      qed
      show "held_inv c R s \<Longrightarrow> c \<notin> set ts \<Longrightarrow> held_inv c R ?s" for R
        using assms(3) covers_skip [of k "pt_pending s" R "pt_output s" ?ks]
        by (simp add: held_inv_def t hand_ok_def) (simp add: eq)
      show "held_inv c R' ?s" if "c \<in> set ts" "held_inv c R s" "covers (pt_output s) R' ?ks" for R R'
      proof -
        from that assms(3) have "pt_pauseCount s = 0" by (auto simp: held_inv_def hand_ok_def)
        with st have "pt_pending s = []" by (simp add: stream_inv_def)
        with that(3) show ?thesis by (simp add: held_inv_def t hand_ok_def) (simp add: eq)
      qed
      show "live c ?s \<Longrightarrow> c \<notin> set ts \<Longrightarrow> live c s" using assms(3) by (auto simp: live_def eq broadcast_out)
    qed (simp_all add: eq broadcast_out)
    moreover have "\<not> fresh c ?s"
      using False by (auto simp: fresh_def fresh_pump_def eq broadcast_out split: option.splits pump.splits)
    ultimately show ?thesis using st' by (simp add: data_inv_def)
  qed
qed

text \<open>A step of the pump that writes nothing and leaves the stream as it is.\<close>

lemma data_pump:
  assumes "data_inv c s" "\<not> fresh c s" "stream_inv c s \<Longrightarrow> stream_inv c s'"
    and "pt_out s' = pt_out s" "pt_shut s' = pt_shut s" "pt_output s' = pt_output s"
    and "\<And>R. R \<le> length (pt_output s) \<Longrightarrow> stage_inv c R (pt_output s) (pt_out s c) (pt_pauseCount s) (c \<in> pt_shut s) (pt_pumps s c)
      \<Longrightarrow> stage_inv c R (pt_output s) (pt_out s c) (pt_pauseCount s') (c \<in> pt_shut s) (pt_pumps s' c)"
    and "\<And>R. live c s \<Longrightarrow> held_inv c R s \<Longrightarrow> stage_inv c R (pt_output s) (pt_out s c) (pt_pauseCount s) (c \<in> pt_shut s) (pt_pumps s c)
      \<Longrightarrow> held_inv c R s'"
    and "live c s' \<Longrightarrow> live c s" "pt_out s c \<noteq> [] \<or> c \<in> pt_shut s \<or> pt_pumps s' c \<noteq> None"
      "pt_pumps s' c \<noteq> Some PumpPaused" "\<And>r. pt_pumps s' c \<noteq> Some (PumpAttached r)"
  shows "data_inv c s'"
proof -
  have f: "\<not> fresh c s'"
    using assms(4,5,10-) by (auto simp: fresh_def fresh_pump_def split: option.splits pump.splits)
  from assms(1,2) obtain R where R: "R \<le> length (pt_output s)" "live c s \<longrightarrow> held_inv c R s"
    "stage_inv c R (pt_output s) (pt_out s c) (pt_pauseCount s) (c \<in> pt_shut s) (pt_pumps s c)"
    by (auto simp: data_inv_def served_inv_def)
  have "served_inv c s'" unfolding served_inv_def
    using R assms(4-6) assms(7) [OF R(1,3)] assms(8) [OF _ _ R(3)] assms(9) by auto
  with assms(1,3) f show ?thesis by (simp add: data_inv_def)
qed

lemma not_fresh_pump:
  "pt_pumps s c = Some p \<Longrightarrow> p \<noteq> PumpPaused \<Longrightarrow> (\<And>r. p \<noteq> PumpAttached r) \<Longrightarrow> \<not> fresh c s"
  by (auto simp: fresh_def fresh_pump_def split: pump.splits)

lemma data_resume:
  assumes "data_inv c s" "pt_pumps s c = Some q" "resumes q"
  shows "data_inv c (pump_resume c q s)"
proof -
  let ?ks = "if pt_pauseCount s > 0 then pt_pending s else []"
  obtain r l where q: "q = PumpServed r \<and> l = False \<or> q = PumpLeaving r \<and> l = True" using assms(3) by (cases q) auto
  then have eq: "pump_resume c q s = s\<lparr>pt_pauseCount := pt_pauseCount s - 1, pt_pending := [],
      pt_pumps := (pt_pumps s)(c := Some (PumpFlush r ?ks l))\<rparr>"
    by (auto simp: pump_resume_def ResumeBroadcast_def set_pump_def)
  have st: "stream_inv c s" using assms(1) by (simp add: data_inv_def)
  then have ks: "?ks = pt_pending s" by (auto simp: stream_inv_def)
  have fl: "flush_list c s = []" using q assms(2) by (auto simp: flush_list_def)
  have t: "todo c (pump_resume c q s) = todo c s"
    using ks by (simp add: todo_def fl hand_def) (simp add: eq flush_list_def)
  have nf: "\<not> fresh c s" using not_fresh_pump [of s c q] q assms(2) by auto
  show ?thesis
  proof (rule data_pump [OF assms(1) nf])
    show "stream_inv c s \<Longrightarrow> stream_inv c (pump_resume c q s)"
      by (simp add: stream_inv_def t) (simp add: eq)
    show "live c (pump_resume c q s) \<Longrightarrow> live c s" using assms(2) by (auto simp: live_def eq)
    fix R
    assume sg: "stage_inv c R (pt_output s) (pt_out s c) (pt_pauseCount s) (c \<in> pt_shut s) (pt_pumps s c)"
    then show "stage_inv c R (pt_output s) (pt_out s c) (pt_pauseCount (pump_resume c q s)) (c \<in> pt_shut s) (pt_pumps (pump_resume c q s) c)"
      using q assms(2) by (auto simp: stage_inv_def eq)
    show "live c s \<Longrightarrow> held_inv c R s \<Longrightarrow> held_inv c R (pump_resume c q s)"
    proof -
      assume "live c s" and h: "held_inv c R s"
      then have "pt_pauseCount s \<le> 1" using q assms(2) sg by (auto simp: stage_inv_def)
      with h show ?thesis by (simp add: held_inv_def t) (auto simp: eq hand_ok_def split: fan.splits)
    qed
  qed (auto simp: eq)
qed

text \<open>The positions of a pump that differ only in their name.\<close>

lemma data_rename:
  assumes "data_inv c s" "pt_pumps s c = Some q" "q \<noteq> PumpPaused" "\<And>r. q \<noteq> PumpAttached r" "\<And>r d f e. q \<noteq> PumpSnap r d f e"
    and "q' \<noteq> PumpPaused" "\<And>r. q' \<noteq> PumpAttached r"
    and "flush_list c (set_pump c (Some q') s) = flush_list c s"
    and "\<And>R g. stage_inv c R (pt_output s) (pt_out s c) (pt_pauseCount s) (c \<in> pt_shut s) (Some q)
      \<Longrightarrow> stage_inv c R (pt_output s) (pt_out s c) (pt_pauseCount s) (c \<in> pt_shut s) (Some q')"
  shows "data_inv c (set_pump c (Some q') s)"
proof -
  have t: "todo c (set_pump c (Some q') s) = todo c s"
    using assms(8) by (simp add: todo_def) (simp add: set_pump_def hand_def)
  show ?thesis
  proof (rule data_pump [OF assms(1) not_fresh_pump [OF assms(2-4)]])
    show "stream_inv c s \<Longrightarrow> stream_inv c (set_pump c (Some q') s)"
      by (simp add: stream_inv_def t) (simp add: set_pump_def)
    show "held_inv c R s \<Longrightarrow> held_inv c R (set_pump c (Some q') s)" for R
      by (simp add: held_inv_def t) (simp add: set_pump_def)
    show "live c (set_pump c (Some q') s) \<Longrightarrow> live c s" using assms(2) by (simp add: live_def set_pump_def)
  qed (use assms in \<open>simp_all add: set_pump_def\<close>)
qed

lemma data_flush:
  assumes "data_inv c s" "seat_inv c s" "pt_pumps s c = Some (PumpFlush r (k # ks) l)"
  shows "data_inv c (set_pump c (Some (PumpTo r k (attached s) ks l)) s)"
proof (rule data_rename [OF assms(1,3)])
  have "c \<notin> pt_shut s \<longrightarrow> c \<in> set (attached s)" using assms(2,3) by (auto simp: seat_inv_def seat_ok_def)
  then show "stage_inv c R (pt_output s) (pt_out s c) (pt_pauseCount s) (c \<in> pt_shut s) (Some (PumpFlush r (k # ks) l))
      \<Longrightarrow> stage_inv c R (pt_output s) (pt_out s c) (pt_pauseCount s) (c \<in> pt_shut s) (Some (PumpTo r k (attached s) ks l))" for R
    by (simp add: stage_inv_def)
qed (use assms in \<open>simp_all add: flush_list_def set_pump_def\<close>)

lemma data_flushed:
  assumes "data_inv c s" "pt_pumps s c = Some (PumpFlush r [] l)"
  shows "data_inv c (set_pump c (Some (if l then PumpDetach r else PumpRun r)) s)"
  by (rule data_rename [OF assms]) (use assms in \<open>auto simp: flush_list_def set_pump_def stage_inv_def\<close>)

lemma data_leave:
  assumes "data_inv c s" "pt_pumps s c = Some (PumpRun r)"
  shows "data_inv c (set_pump c (Some (PumpLeaving r)) s)"
  by (rule data_rename [OF assms]) (use assms in \<open>auto simp: flush_list_def set_pump_def stage_inv_def\<close>)

lemma data_detach:
  assumes "data_inv c s" "pt_pumps s c = Some (PumpDetach r)"
  shows "data_inv c (set_pump c None (Detach c s))"
proof -
  let ?s = "set_pump c None (Detach c s)"
  have t: "todo c ?s = todo c s" using assms(2) by (simp add: todo_def flush_list_def hand_def set_pump_def)
  have nf: "\<not> fresh c s" using not_fresh_pump [OF assms(2)] by simp
  with assms obtain R0 where R0: "stage_inv c R0 (pt_output s) (pt_out s c) (pt_pauseCount s) (c \<in> pt_shut s) (Some (PumpDetach r))"
    by (auto simp: data_inv_def served_inv_def)
  show ?thesis
  proof (rule data_pump [OF assms(1) nf])
    show "stream_inv c s \<Longrightarrow> stream_inv c ?s" by (simp add: stream_inv_def t) (simp add: set_pump_def)
    show "held_inv c R s \<Longrightarrow> held_inv c R ?s" for R by (simp add: held_inv_def t) (simp add: set_pump_def)
    show "live c ?s \<Longrightarrow> live c s" using assms(2) by (simp add: live_def set_pump_def)
    show "pt_out s c \<noteq> [] \<or> c \<in> pt_shut s \<or> pt_pumps ?s c \<noteq> None" using R0 by (simp add: stage_inv_def)
  qed (use assms in \<open>simp_all add: set_pump_def stage_inv_def\<close>)
qed

lemma data_flush_write:
  assumes "data_inv c s" "pt_pumps s c = Some (PumpTo r k ts ks l)"
  shows "data_inv c (set_pump c (Some (PumpFlush r ks l)) (broadcast_write k ts F s))"
proof -
  let ?s = "set_pump c (Some (PumpFlush r ks l)) (broadcast_write k ts F s)"
  have nf: "\<not> fresh c s" using not_fresh_pump [OF assms(2)] by simp
  have st: "stream_inv c s" and si: "served_inv c s" using assms(1) nf by (simp_all add: data_inv_def)
  then obtain R0 where R0: "stage_inv c R0 (pt_output s) (pt_out s c) (pt_pauseCount s) (c \<in> pt_shut s) (Some (PumpTo r k ts ks l))"
    using assms(2) by (auto simp: served_inv_def)
  then have p0: "pt_pauseCount s = 0" "c \<notin> pt_shut s \<longrightarrow> c \<in> set ts" by (simp_all add: stage_inv_def)
  with st have pend: "pt_pending s = []" by (simp add: stream_inv_def)
  have t: "todo c s = k # ks @ hand s @ pt_fanout s @ push_list (pt_reader s)" "todo c ?s = ks @ hand s @ pt_fanout s @ push_list (pt_reader s)"
    using assms(2) pend by (simp_all add: todo_def flush_list_def set_pump_def hand_def)
  have "served_inv c ?s"
  proof (rule served_write [OF si, where F = F and ts = ts and k = k and ks = "ks @ hand s @ pt_fanout s @ push_list (pt_reader s)"])
    show "length (pt_output s) < 2 ^ 64" using st by (simp add: stream_inv_def)
    show "c \<notin> pt_shut s \<Longrightarrow> pt_pauseCount s = 0 \<and> live c s \<and> todo c s = k # ks @ hand s @ pt_fanout s @ push_list (pt_reader s)"
      using p0 assms(2) t by (simp add: live_def)
    show "c \<notin> set ts \<Longrightarrow> live c s \<Longrightarrow> held_inv c R ?s" for R using p0(2) by (auto simp: live_def)
    show "held_inv c R s \<Longrightarrow> R \<le> R' \<Longrightarrow> covers (pt_output s) R' (ks @ hand s @ pt_fanout s @ push_list (pt_reader s)) \<Longrightarrow> held_inv c R' ?s" for R R'
      using p0(1) by (simp add: held_inv_def t) (auto simp: set_pump_def hand_ok_def split: fan.splits)
    show "live c ?s \<Longrightarrow> c \<notin> set ts \<Longrightarrow> live c s" using assms(2) by (auto simp: live_def set_pump_def broadcast_out)
  qed (use assms(2) in \<open>auto simp: set_pump_def broadcast_out stage_inv_def\<close>)
  moreover have "\<not> fresh c ?s" using not_fresh_pump [of ?s c "PumpFlush r ks l"] by (simp add: set_pump_def)
  moreover have "stream_inv c ?s" using st by (simp add: stream_inv_def t) (simp add: set_pump_def)
  ultimately show ?thesis by (simp add: data_inv_def)
qed

lemma data_serve:
  assumes "data_inv c s" "pt_pumps s c = Some (PumpSnap r dat first end)" "c \<in> pt_shut s \<longrightarrow> good = 0"
  shows "data_inv c (serve c r dat first end good s)"
proof -
  let ?s = "serve c r dat first end good s"
  have nf: "\<not> fresh c s" using not_fresh_pump [OF assms(2)] by simp
  with assms obtain R where R: "R \<le> length (pt_output s)" "live c s \<longrightarrow> held_inv c R s"
    and st: "view (pt_out s c) = (-1, [])" "dat = take R (pt_output s)" "first = 0" "pt_pauseCount s = 1"
    by (auto simp: data_inv_def served_inv_def stage_inv_def)
  have same: "pt_output ?s = pt_output s" "pt_endSeq ?s = pt_endSeq s" "pt_pauseCount ?s = pt_pauseCount s"
    "pt_pending ?s = pt_pending s" "pt_fan ?s = pt_fan s" "pt_fanout ?s = pt_fanout s" "pt_reader ?s = pt_reader s"
    by (simp_all add: serve_def Let_def set_pump_def)
  have "flush_list c s = [] \<and> flush_list c ?s = []"
    using assms(2) by (simp add: flush_list_def serve_def Let_def set_pump_def)
  then have t: "todo c ?s = todo c s" by (simp add: todo_def hand_def same)
  have h: "held_inv c Q ?s = held_inv c Q s" for Q by (simp add: held_inv_def t same)
  have f: "\<not> fresh c ?s" by (rule not_fresh_pump [of _ _ "if good = 0 \<or> good = 1 \<and> dat \<noteq> [] then PumpLeaving r else PumpServed r"])
      (simp_all add: serve_def Let_def set_pump_def)
  have "served_inv c ?s"
  proof (cases "good = 0 \<or> good = 1 \<and> dat \<noteq> []")
    case True
    then have "c \<in> pt_shut ?s" "view (pt_out ?s c) = (-1, [])" "pt_pumps ?s c = Some (PumpLeaving r)"
      using st(1) by (auto simp: serve_def Let_def set_pump_def write_frame_out)
    then show ?thesis unfolding served_inv_def using same st(4)
      by (intro exI [of _ 0]) (simp add: stage_inv_def live_def)
  next
    case False
    then have ns: "c \<notin> pt_shut s" using assms(3) by auto
    then have "live c s" using assms(2) by (simp add: live_def)
    with R have hR: "held_inv c R s" by simp
    have "pt_pumps ?s c = Some (PumpServed r)" "pt_out ?s c \<noteq> []"
      using False ns by (auto simp: serve_def Let_def set_pump_def write_frame_out)
    moreover have "view (pt_out ?s c) = (int R - 1, take R (pt_output s))"
      using False ns st(1-3) R(1) view_encoded [of 0 "(-1, [])" dat]
      by (auto simp: serve_def Let_def set_pump_def write_frame_out view_two)
    ultimately show ?thesis unfolding served_inv_def using same st(4) R(1) hR h
      by (intro exI [of _ R]) (simp add: stage_inv_def)
  qed
  moreover have "stream_inv c ?s" using assms(1) by (simp add: data_inv_def stream_inv_def t same)
  ultimately show ?thesis using f by (simp add: data_inv_def)
qed

text \<open>The steps before the snapshot.\<close>

lemma data_snapshot:
  assumes "data_inv c s" "seat_inv c s" "pt_pumps s c = Some (PumpAttached r)"
  shows "data_inv c (pump_snapshot c True (PumpAttached r) s)"
proof -
  let ?s = "pump_snapshot c True (PumpAttached r) s" and ?R = "length (pt_output s)"
  have fr: "fresh c s" using assms(3) by (simp add: fresh_def fresh_pump_def)
  with assms(1) have fi: "fresh_inv c s" and st: "stream_inv c s" by (simp_all add: data_inv_def)
  have eq: "?s = set_pump c (Some (PumpSnap r (pt_output s) 0 (pt_endSeq s))) s"
    using fi by (auto simp: pump_snapshot_def Snapshot_def ReadAll_def fresh_inv_def nullish_def split: option.splits)
  have t: "todo c ?s = todo c s" using assms(3) by (simp add: todo_def hand_def eq flush_list_def set_pump_def)
  have att: "attached s \<noteq> []" using assms(2,3) fi by (auto simp: seat_inv_def seat_ok_def fresh_inv_def)
  have low: "\<And>k. k \<in> set (todo c s) \<Longrightarrow> fst k < ?R" using st by (simp add: stream_inv_def)
  have "hand_ok c ?R (pt_pending s) 1 (pt_fan s)"
    using att fi low by (cases "pt_fan s") (auto simp: hand_ok_def fresh_inv_def todo_def hand_def)
  then have "held_inv c ?R ?s"
    using covers_low [OF low] fi assms(3) by (simp add: held_inv_def t) (simp add: eq set_pump_def fresh_inv_def)
  then have "served_inv c ?s" unfolding served_inv_def using fi assms(3)
    by (intro exI [of _ ?R]) (simp add: eq set_pump_def stage_inv_def fresh_inv_def)
  moreover have "stream_inv c ?s" using st by (simp add: stream_inv_def t) (simp add: eq set_pump_def)
  moreover have "\<not> fresh c ?s" by (simp add: eq fresh_def fresh_pump_def set_pump_def)
  ultimately show ?thesis by (simp add: data_inv_def)
qed

lemma data_fresh:
  assumes "data_inv c s" "fresh c s" "fresh c s'" "fresh_inv c s \<Longrightarrow> fresh_inv c s'"
    and "todo c s' = todo c s" "pt_output s' = pt_output s" "pt_endSeq s' = pt_endSeq s" "pt_pending s' = pt_pending s"
      "pt_pauseCount s \<le> pt_pauseCount s'"
  shows "data_inv c s'"
  using assms by (auto simp: data_inv_def stream_inv_def)

lemma data_attach:
  assumes "data_inv c s" "pt_pumps s c = Some PumpPaused" "\<And>k. pt_fan s \<noteq> FanGo k"
  shows "data_inv c (pump_attach c now PumpPaused s)"
  by (rule data_fresh [OF assms(1)])
    (use assms in \<open>auto simp: fresh_def fresh_pump_def fresh_inv_def pump_attach_def Attach_def set_pump_def Let_def
      todo_def flush_list_def hand_def\<close>)

lemma data_pause:
  assumes "data_inv c s" "pt_pumps s c = None" "pt_out s c = []" "c \<notin> pt_shut s"
  shows "data_inv c (set_pump c (Some PumpPaused) (PauseBroadcast s))"
  by (rule data_fresh [OF assms(1)])
    (use assms in \<open>auto simp: fresh_def fresh_pump_def fresh_inv_def PauseBroadcast_def set_pump_def
      todo_def flush_list_def hand_def\<close>)

text \<open>The frames of the client, and the end of the session.\<close>

lemma data_frame:
  assumes "data_inv c s" "pt_pumps s c = Some (PumpRun r)" "no_replay f"
  shows "data_inv c (pump_frame c r f now short s)"
proof -
  have nf: "\<not> fresh c s" using not_fresh_pump [OF assms(2)] by simp
  have wr: "data_inv c (snd (pty_write bytes now short s)) \<and> pt_pumps (snd (pty_write bytes now short s)) c = Some (PumpRun r)" for bytes
    by (intro conjI data_cong [OF assms(1) nf]) (use assms(2) in \<open>auto simp: pty_write_def Let_def split: option.splits\<close>)
  then have inp: "pty_write bytes now short s = (e, s') \<Longrightarrow> data_inv c s' \<and> pt_pumps s' c = Some (PumpRun r)" for bytes e s'
    by (metis snd_conv)
  show ?thesis
  proof (cases f)
    case (CInput d)
    then show ?thesis using assms(1) inp data_leave
      by (auto simp: pump_frame_def split: option.splits prod.splits)
  next
    case (CResize cs rs)
    then show ?thesis
      by (auto simp: pump_frame_def Resize_def intro!: data_cong [OF assms(1) nf] simp: assms(1))
  next
    case CPing
    show ?thesis
      by (rule data_cong [OF assms(1) nf]) (auto simp: CPing pump_frame_def write_frame_out)
  qed (use assms(3) in simp)
qed

lemma data_end:
  assumes "data_inv c s" "\<not> fresh c s"
  shows "data_inv c (Kill s)" "data_inv c (s\<lparr>pt_wait := w\<rparr>)" "data_inv c (wait_step failed s)"
proof -
  show "data_inv c (Kill s)" by (rule data_cong [OF assms]) (simp_all add: Kill_def)
  show "data_inv c (s\<lparr>pt_wait := w\<rparr>)" by (rule data_cong [OF assms]) simp_all
  show "data_inv c (wait_step failed s)"
    by (rule data_cong [OF assms]) (auto simp: wait_step_def Kill_def write_frame_out Let_def split: wait_stage.splits)
qed

lemma data_step:
  assumes "data_inv c s" "seat_inv c s" "pty_can e s" "mine c e" "calm c e s"
  shows "data_inv c (pty_step e s)"
proof (cases e)
  case (PRead bytes io)
  then show ?thesis using data_read assms by auto
next
  case (PPush pushed)
  then show ?thesis using data_push assms by auto
next
  case PBuffer
  then show ?thesis using data_buffer assms by auto
next
  case PReadEnd
  then have "pt_reader s = Reading" using assms(3) by simp
  then show ?thesis by (intro data_fan [OF assms(1)])
      (use assms(1) in \<open>simp_all add: PReadEnd data_inv_def stream_inv_def fresh_inv_def held_inv_def live_def todo_def flush_list_def hand_def\<close>)
next
  case PTake
  then show ?thesis using data_take assms by (cases "pt_fanout s") auto
next
  case PCheck
  then show ?thesis using data_check assms by auto
next
  case PTargets
  then show ?thesis using data_targets assms by auto
next
  case (PWrite F)
  then show ?thesis using data_write assms by auto
next
  case PFanStop
  then have "pt_fan s = FanIdle" using assms(3) by simp
  then show ?thesis
    by (intro data_fan [OF assms(1)])
      (use assms(1) in \<open>simp_all add: PFanStop data_inv_def stream_inv_def fresh_inv_def held_inv_def hand_ok_def live_def todo_def flush_list_def hand_def\<close>)
next
  case (PPause d)
  then show ?thesis using data_pause assms by (auto simp: mine_def)
next
  case (PAttach d now)
  then show ?thesis using data_attach [of c s now] assms by (auto simp: mine_def pump_can_def on_pump_def split: option.splits)
next
  case (PSnapshot d readable)
  then show ?thesis using data_snapshot assms by (auto simp: mine_def pump_can_def on_pump_def split: option.splits)
next
  case (PServe d good)
  then show ?thesis using data_serve [of c s] assms
    by (auto simp: mine_def pump_can_def on_pump_def pump_serve_def split: option.splits)
next
  case (PResume d)
  then show ?thesis using data_resume assms by (auto simp: mine_def pump_can_def on_pump_def split: option.splits)
next
  case (PFlush d)
  then show ?thesis using data_flush assms by (auto simp: mine_def pump_can_def on_pump_def pump_flush_def split: option.splits)
next
  case (PFlushWrite d F)
  then show ?thesis using data_flush_write assms by (auto simp: mine_def pump_can_def on_pump_def pump_flush_write_def split: option.splits)
next
  case (PFlushed d)
  then obtain r l where "d = c" "pt_pumps s c = Some (PumpFlush r [] l)"
    using assms by (auto simp: mine_def pump_can_def split: option.splits)
  then show ?thesis using data_flushed [OF assms(1)] PFlushed by (simp add: on_pump_def pump_flushed_def)
next
  case (PFrame d f now short)
  then show ?thesis using data_frame assms by (auto simp: mine_def pump_can_def on_pump_def pump_receive_def split: option.splits)
next
  case (PLeave d)
  then show ?thesis using data_leave assms by (auto simp: mine_def pump_can_def on_pump_def pump_leave_def split: option.splits)
next
  case (PDetach d)
  then show ?thesis using data_detach assms by (auto simp: mine_def pump_can_def on_pump_def pump_detach_def split: option.splits)
qed (use assms data_end in auto)

section \<open>The runs of one connection\<close>

abbreviation calm_run :: "nat \<Rightarrow> pty_session \<Rightarrow> pty_event list \<Rightarrow> pty_session \<Rightarrow> bool" where
  "calm_run c \<equiv> machine_run (\<lambda>e s. pty_can e s \<and> mine c e \<and> calm c e s) pty_step"

interpretation seat_data: machine_invariant "\<lambda>e s. pty_can e s \<and> mine c e \<and> calm c e s" pty_step "\<lambda>s. seat_inv c s \<and> data_inv c s"
  for c
  by unfold_locales (use seat_step data_step in blast)

lemma new_session_inv: "seat_inv c (NewPtySession cfg dm None 0 now) \<and> data_inv c (NewPtySession cfg dm None 0 now)"
  by (simp add: NewPtySession_def Let_def seat_inv_def seat_ok_def attached_def data_inv_def stream_inv_def
      fresh_def fresh_pump_def fresh_inv_def todo_def flush_list_def hand_def nullish_def)

lemma calm_run_inv: "calm_run c (NewPtySession cfg dm None 0 now) es s \<Longrightarrow> seat_inv c s \<and> data_inv c s"
  using seat_data.inv_run new_session_inv by blast

text \<open>What it all comes to: the frames show the first bytes of the output, and all when nothing is on its way.\<close>

lemma data_view:
  assumes "data_inv c s"
  obtains R where "R \<le> length (pt_output s)" "view (pt_out s c) = (int R - 1, take R (pt_output s))"
proof (cases "fresh c s")
  case True
  with assms show thesis by (intro that [of 0]) (simp_all add: data_inv_def fresh_inv_def)
next
  case False
  with assms obtain R where R: "R \<le> length (pt_output s)"
    "stage_inv c R (pt_output s) (pt_out s c) (pt_pauseCount s) (c \<in> pt_shut s) (pt_pumps s c)"
    by (auto simp: data_inv_def served_inv_def)
  show thesis
  proof (cases "\<exists>r d f e. pt_pumps s c = Some (PumpSnap r d f e)")
    case True
    with R show thesis by (intro that [of 0]) (auto simp: stage_inv_def)
  next
    case False
    with R stage_view [OF R(2)] show thesis by (intro that [of R]) auto
  qed
qed

definition drained :: "nat \<Rightarrow> pty_session \<Rightarrow> bool" where
  "drained c s \<longleftrightarrow> (\<exists>r. pt_pumps s c = Some (PumpRun r)) \<and> c \<notin> pt_shut s \<and> pt_fan s = FanIdle \<and> pt_fanout s = []
     \<and> \<not> is_Pushing (pt_reader s)"

lemma data_drained:
  assumes "data_inv c s" "drained c s"
  shows "view (pt_out s c) = (int (length (pt_output s)) - 1, pt_output s)"
proof -
  from assms(2) obtain r where d: "pt_pumps s c = Some (PumpRun r)" "c \<notin> pt_shut s" "pt_fan s = FanIdle" "pt_fanout s = []"
    "push_list (pt_reader s) = []"
    by (cases "pt_reader s") (auto simp: drained_def)
  have nf: "\<not> fresh c s" using not_fresh_pump [OF d(1)] by simp
  with assms(1) d obtain R where R: "held_inv c R s" "view (pt_out s c) = (int R - 1, take R (pt_output s))" "pt_pauseCount s = 0"
    by (auto simp: data_inv_def served_inv_def stage_inv_def live_def)
  then have "pt_pending s = []" using assms(1) by (simp add: data_inv_def stream_inv_def)
  then have "todo c s = []" using d by (simp add: todo_def flush_list_def hand_def)
  with R show ?thesis by (simp add: held_inv_def covers_def)
qed

end
