(* ===== verification/Terminal_Wire.thy ===== *)
theory Terminal_Wire
  imports Pty_Stream
begin

text \<open>
  The terminal from end to end: a session of the back end (\<open>Pty_Session\<close>) and the client of the panel
  (\<open>Terminal_Client\<close>), joined by one websocket that delivers in order in both directions.  The theorems
  say that the screen shows the output of the shell and the shell gets what was typed; then, one by one,
  the interleavings of the back end that lose output.
\<close>

section \<open>The machine\<close>

text \<open>\<open>wr_got\<close> and \<open>wr_up\<close> count the frames that have arrived at the client and at the server.\<close>

record wire =
  wr_pty :: pty_session
  wr_client :: term_client
  wr_got :: nat
  wr_up :: nat

datatype wire_event = WServer pty_event | WClient term_event | WDown | WUp int "nat option"

fun frame_of :: "effect \<Rightarrow> client_frame list" where
  "frame_of (WsSend f) = [f]"
| "frame_of _ = []"

definition client_frames :: "term_client \<Rightarrow> client_frame list" where
  "client_frames c = concat (map frame_of (log c))"

text \<open>What the session does by itself, and the user and the socket; the frames between them are
  \<open>WDown\<close> and \<open>WUp\<close>.  A socket that was lost is not replaced, and the panel asks for no replay.\<close>

fun server_own :: "pty_event \<Rightarrow> bool" where
  "server_own (PFrame c f now short) = False"
| "server_own _ = True"

fun client_own :: "term_event \<Rightarrow> bool" where
  "client_own (EvText raw) = False"
| "client_own (EvBinary buf) = False"
| "client_own (EvReplay n) = False"
| "client_own (EvTimer oc) = False"
| "client_own _ = True"

definition arrival :: "server_frame \<Rightarrow> term_event" where
  "arrival f = (case f of SText t \<Rightarrow> EvText (Some t) | SBinary buf \<Rightarrow> EvBinary buf)"

definition next_frame :: "int \<Rightarrow> nat option \<Rightarrow> wire \<Rightarrow> pty_event" where
  "next_frame now short w = PFrame 0 (client_frames (wr_client w) ! wr_up w) now short"

fun wire_can :: "wire_event \<Rightarrow> wire \<Rightarrow> bool" where
  "wire_can (WServer e) w = (server_own e \<and> mine 0 e \<and> pty_can e (wr_pty w))"
| "wire_can (WClient e) w = (client_own e \<and> term_enabled e (wr_client w))"
| "wire_can WDown w = (wr_got w < length (pt_out (wr_pty w) 0) \<and> ws (wr_client w) = Some WsOpen)"
| "wire_can (WUp now short) w = (wr_up w < length (client_frames (wr_client w)) \<and> pty_can (next_frame now short w) (wr_pty w))"

fun wire_step :: "b64_platform \<Rightarrow> wire_event \<Rightarrow> wire \<Rightarrow> wire" where
  "wire_step p (WServer e) w = w\<lparr>wr_pty := pty_step e (wr_pty w)\<rparr>"
| "wire_step p (WClient e) w = w\<lparr>wr_client := term_step p e (wr_client w)\<rparr>"
| "wire_step p WDown w = w\<lparr>wr_client := term_step p (arrival (pt_out (wr_pty w) 0 ! wr_got w)) (wr_client w), wr_got := wr_got w + 1\<rparr>"
| "wire_step p (WUp now short) w = w\<lparr>wr_pty := pty_step (next_frame now short w) (wr_pty w), wr_up := wr_up w + 1\<rparr>"

definition wire_start :: "session_config \<Rightarrow> int \<Rightarrow> int \<Rightarrow> string option \<Rightarrow> int option \<Rightarrow> int option \<Rightarrow> wire" where
  "wire_start cfg dm now sid cs rs =
     \<lparr>wr_pty = NewPtySession cfg dm None 0 now, wr_client = start CtorOk (new_client sid cs rs), wr_got = 0, wr_up = 0\<rparr>"

abbreviation wire_run :: "b64_platform \<Rightarrow> wire \<Rightarrow> wire_event list \<Rightarrow> wire \<Rightarrow> bool" where
  "wire_run p \<equiv> machine_run wire_can (wire_step p)"

abbreviation wire_exec :: "b64_platform \<Rightarrow> wire_event list \<Rightarrow> wire \<Rightarrow> wire option" where
  "wire_exec p \<equiv> machine_exec wire_can (wire_step p)"

text \<open>The runs whose session is calm.\<close>

fun wire_calm :: "wire_event \<Rightarrow> wire \<Rightarrow> bool" where
  "wire_calm (WServer e) w = calm 0 e (wr_pty w)"
| "wire_calm _ w = True"

abbreviation calm_wire :: "b64_platform \<Rightarrow> wire \<Rightarrow> wire_event list \<Rightarrow> wire \<Rightarrow> bool" where
  "calm_wire p \<equiv> machine_run (\<lambda>e w. wire_can e w \<and> wire_calm e w) (wire_step p)"

fun typed_wire :: "wire_event \<Rightarrow> byte list list" where
  "typed_wire (WClient e) = typed_of e"
| "typed_wire _ = []"

definition typed_at :: "wire_event list \<Rightarrow> byte list" where
  "typed_at es = concat (concat (map typed_wire es))"

section \<open>Frames of the client\<close>

lemma frames_input [simp]:
  "concat (map (frame_of \<circ> (\<lambda>b. WsSend (CInput (bytesToBase64 p b)))) bs) = map (\<lambda>b. CInput (bytesToBase64 p b)) bs"
  by (induction bs) auto

lemma frames_append: "\<exists>fs. client_frames (term_step p e c) = client_frames c @ fs \<and> (client_own e \<or> (\<exists>f. e = arrival f) \<longrightarrow> list_all no_replay fs)"
  by (cases e)
    (auto simp: step_unfold client_frames_def arrival_def list_all_iff
      split: ctor_outcome.splits option.splits text_frame.splits server_frame.splits)

fun input_frame :: "client_frame \<Rightarrow> string list" where
  "input_frame (CInput d) = [d]"
| "input_frame _ = []"

lemma sent_frames: "sent_input c = concat (map input_frame (client_frames c))"
proof -
  have "input_of e = concat (map input_frame (frame_of e))" for e
    by (cases e rule: input_of.cases) auto
  then have "concat (map input_of es) = concat (map input_frame (concat (map frame_of es)))" for es
    by (induction es) simp_all
  then show ?thesis by (simp add: sent_input_def client_frames_def)
qed

section \<open>Output\<close>

text \<open>The session only adds to what it has sent.\<close>

lemma write_extends: "\<exists>gs. pt_out (write_frame ts F f s) c = pt_out s c @ gs"
  by (simp add: write_frame_out)

lemma broadcast_extends: "\<exists>gs. pt_out (broadcast_write k ts F s) c = pt_out s c @ gs"
  by (simp add: broadcast_out)

lemma serve_extends: "\<exists>gs. pt_out (serve d r dat first end good s) c = pt_out s c @ gs"
  by (auto simp: serve_def set_pump_def Let_def write_frame_out)

lemma frame_extends: "\<exists>gs. pt_out (pump_frame d r f now short s) c = pt_out s c @ gs"
  by (cases f) (auto simp: pump_frame_def pty_write_def Resize_def set_pump_def Let_def Snapshot_def write_frame_out
    split: option.splits prod.splits)

lemma step_extends: "\<exists>gs. pt_out (pty_step e s) c = pt_out s c @ gs"
  using write_extends broadcast_extends serve_extends frame_extends
  by (cases e) (auto simp: fan_defs pump_defs pump_replay_def readLoop_def Kill_def wait_step_def Attach_def Snapshot_def Let_def
    split: option.splits pump.splits list.splits fan.splits reader.splits wait_stage.splits sum.splits)

text \<open>The client has made of the frames that arrived what \<open>view\<close> makes of them.\<close>

definition shown_inv :: "wire \<Rightarrow> bool" where
  "shown_inv w \<longleftrightarrow> wr_got w \<le> length (pt_out (wr_pty w) 0)
     \<and> view (take (wr_got w) (pt_out (wr_pty w) 0)) = (lastReceivedEnd (wr_client w), out_bytes (wr_client w))
     \<and> list_all no_replay (client_frames (wr_client w))"

lemma arrival_view:
  "(lastReceivedEnd (term_step p (arrival f) c), out_bytes (term_step p (arrival f) c)) =
     view_frame (lastReceivedEnd c, out_bytes c) f"
proof (cases f)
  case (SText t)
  then show ?thesis using step_keeps_output [of "EvText (Some t)" p c] by (simp add: arrival_def)
next
  case (SBinary buf)
  then show ?thesis by (simp add: arrival_def view_frame_def handleBinary_def Let_def emit_def out_bytes_def)
qed

lemma shown_pty:
  assumes "shown_inv w"
  shows "shown_inv (w\<lparr>wr_pty := pty_step e (wr_pty w), wr_up := u\<rparr>)" "shown_inv (w\<lparr>wr_pty := pty_step e (wr_pty w)\<rparr>)"
proof -
  obtain gs where "pt_out (pty_step e (wr_pty w)) 0 = pt_out (wr_pty w) 0 @ gs" using step_extends by blast
  with assms show "shown_inv (w\<lparr>wr_pty := pty_step e (wr_pty w), wr_up := u\<rparr>)" "shown_inv (w\<lparr>wr_pty := pty_step e (wr_pty w)\<rparr>)"
    by (simp_all add: shown_inv_def)
qed

lemma shown_step:
  assumes "shown_inv w" "wire_can e w"
  shows "shown_inv (wire_step p e w)"
proof (cases e)
  case (WClient ev)
  then have "client_own ev" using assms(2) by simp
  then have "\<And>buf. ev \<noteq> EvBinary buf" by auto
  from step_keeps_output [OF this, of p "wr_client w"] frames_append [of p ev "wr_client w"] \<open>client_own ev\<close> assms(1)
  show ?thesis by (auto simp: WClient shown_inv_def)
next
  case WDown
  let ?f = "pt_out (wr_pty w) 0 ! wr_got w"
  have "wr_got w < length (pt_out (wr_pty w) 0)" using assms(2) WDown by simp
  with assms(1) frames_append [of p "arrival ?f" "wr_client w"] arrival_view [of p ?f "wr_client w"]
  show ?thesis by (auto simp: WDown shown_inv_def take_Suc_conv_app_nth)
qed (use assms(1) shown_pty in \<open>simp_all del: pty_step.simps\<close>)

lemma new_client_frames [simp]: "client_frames (start CtorOk (new_client sid cs rs)) = []"
  by (simp add: client_frames_def new_client_def term_defs)

lemma shown_start: "shown_inv (wire_start cfg dm now sid cs rs)"
  by (simp add: shown_inv_def wire_start_def NewPtySession_def Let_def)
    (simp add: new_client_def term_defs out_bytes_def)

interpretation shown: machine_invariant wire_can "wire_step p" shown_inv for p
  by unfold_locales (rule shown_step)

text \<open>In a calm run the session's own invariant holds beside it.\<close>

definition wire_inv :: "wire \<Rightarrow> bool" where
  "wire_inv w \<longleftrightarrow> shown_inv w \<and> seat_inv 0 (wr_pty w) \<and> data_inv 0 (wr_pty w)"

lemma wire_inv_step:
  assumes "wire_inv w" "wire_can e w \<and> wire_calm e w"
  shows "wire_inv (wire_step p e w)"
proof -
  have sh: "shown_inv (wire_step p e w)" using assms shown_step by (simp add: wire_inv_def)
  have own: "seat_inv 0 (pty_step pe (wr_pty w)) \<and> data_inv 0 (pty_step pe (wr_pty w))"
    if "pty_can pe (wr_pty w)" "mine 0 pe" "calm 0 pe (wr_pty w)" for pe
    using that assms(1) seat_step data_step by (simp add: wire_inv_def)
  show ?thesis
  proof (cases e)
    case (WUp now short)
    have "no_replay (client_frames (wr_client w) ! wr_up w)"
      using assms WUp by (auto simp: wire_inv_def shown_inv_def list_all_length)
    then have "calm 0 (next_frame now short w) (wr_pty w)" by (auto simp: next_frame_def)
    moreover have "mine 0 (next_frame now short w)" by (simp add: mine_def next_frame_def)
    ultimately show ?thesis using own [of "next_frame now short w"] sh assms(2) by (simp add: WUp wire_inv_def)
  qed (use own sh assms in \<open>auto simp: wire_inv_def\<close>)
qed

lemma wire_inv_start: "wire_inv (wire_start cfg dm now sid cs rs)"
  using shown_start [of cfg dm now sid cs rs] new_session_inv [of 0 cfg dm now] by (simp add: wire_inv_def wire_start_def)

interpretation quiet: machine_invariant "\<lambda>e w. wire_can e w \<and> wire_calm e w" "wire_step p" wire_inv for p
  by unfold_locales (rule wire_inv_step)

lemma wire_view:
  assumes "wire_inv w"
  shows "\<exists>u. pt_output (wr_pty w) = out_bytes (wr_client w) @ u"
    and "drained 0 (wr_pty w) \<Longrightarrow> wr_got w = length (pt_out (wr_pty w) 0) \<Longrightarrow> out_bytes (wr_client w) = pt_output (wr_pty w)"
proof -
  let ?fs = "pt_out (wr_pty w) 0"
  from assms have sh: "view (take (wr_got w) ?fs) = (lastReceivedEnd (wr_client w), out_bytes (wr_client w))" "data_inv 0 (wr_pty w)"
    by (simp_all add: wire_inv_def shown_inv_def)
  obtain R where R: "view ?fs = (int R - 1, take R (pt_output (wr_pty w)))" using data_view [OF sh(2)] by blast
  obtain u where "snd (view ?fs) = snd (view (take (wr_got w) ?fs)) @ u"
    using view_prefix [of "take (wr_got w) ?fs" "drop (wr_got w) ?fs"] by auto
  with R sh(1) have "take R (pt_output (wr_pty w)) = out_bytes (wr_client w) @ u" by simp
  then show "\<exists>u. pt_output (wr_pty w) = out_bytes (wr_client w) @ u" by (metis append_assoc append_take_drop_id)
  show "drained 0 (wr_pty w) \<Longrightarrow> wr_got w = length ?fs \<Longrightarrow> out_bytes (wr_client w) = pt_output (wr_pty w)"
    using data_drained [OF sh(2)] sh(1) by simp
qed

text \<open>What is on its way can be shown: the fan-out loop and the socket have steps that do it.\<close>

definition fan_next :: "pty_session \<Rightarrow> pty_event" where
  "fan_next s = (case pt_fan s of
       FanTaken k \<Rightarrow> PBuffer | FanBuffered k \<Rightarrow> PCheck | FanGo k \<Rightarrow> PTargets | FanTo k ts \<Rightarrow> PWrite {}
     | _ \<Rightarrow> if pt_fanout s = [] then PPush True else PTake)"

definition fan_rank :: "pty_session \<Rightarrow> nat" where
  "fan_rank s = 5 * length (pt_fanout s) + 6 * length (push_list (pt_reader s))
     + (case pt_fan s of FanTaken k \<Rightarrow> 4 | FanBuffered k \<Rightarrow> 3 | FanGo k \<Rightarrow> 2 | FanTo k ts \<Rightarrow> 1 | _ \<Rightarrow> 0)"

lemma fan_next_step:
  assumes "pt_pumps s 0 = Some (PumpRun r)" "0 \<notin> pt_shut s" "pt_fan s \<noteq> FanDone" "fan_rank s \<noteq> 0"
  defines "t \<equiv> pty_step (fan_next s) s"
  shows "pty_can (fan_next s) s \<and> mine 0 (fan_next s) \<and> calm 0 (fan_next s) s \<and> server_own (fan_next s)"
    and "pt_pumps t 0 = Some (PumpRun r) \<and> 0 \<notin> pt_shut t \<and> pt_fan t \<noteq> FanDone \<and> pt_output t = pt_output s \<and> fan_rank t < fan_rank s"
  using assms(1-4)
  by (auto simp: t_def fan_next_def fan_rank_def fan_defs mine_def in_flush_iff broadcast_out FANOUT_CAP_def push_list_Nil
    split: fan.splits list.splits reader.splits)

lemma session_drains:
  assumes "pt_pumps s 0 = Some (PumpRun r)" "0 \<notin> pt_shut s" "pt_fan s \<noteq> FanDone"
  shows "\<exists>es t. calm_run 0 s es t \<and> list_all server_own es \<and> drained 0 t \<and> pt_output t = pt_output s"
  using assms
proof (induction "fan_rank s" arbitrary: s rule: less_induct)
  case less
  show ?case
  proof (cases "fan_rank s = 0")
    case True
    with less.prems have "drained 0 s" by (auto simp: drained_def fan_rank_def push_list_Nil split: fan.splits)
    then show ?thesis using machine_nil by (intro exI [of _ "[]"] exI [of _ s]) simp
  next
    case False
    note n = fan_next_step [OF less.prems False]
    obtain es t where t: "calm_run 0 (pty_step (fan_next s) s) es t" "list_all server_own es" "drained 0 t"
      "pt_output t = pt_output (pty_step (fan_next s) s)"
      using less.hyps n(2) by blast
    have "calm_run 0 s (fan_next s # es) t" using t(1) n(1) by (simp add: machine_run_exec)
    then show ?thesis using t(2-4) n by (intro exI [of _ "fan_next s # es"] exI [of _ t]) simp
  qed
qed

lemma wire_server:
  "calm_run 0 s es t \<Longrightarrow> list_all server_own es \<Longrightarrow> wr_pty w = s \<Longrightarrow> calm_wire p w (map WServer es) (w\<lparr>wr_pty := t\<rparr>)"
proof (induction rule: machine_run.induct)
  case machine_nil
  then show ?case by simp
next
  case (machine_snoc es t e)
  then have "calm_wire p w (map WServer es @ [WServer e]) (wire_step p (WServer e) (w\<lparr>wr_pty := t\<rparr>))"
    by (intro machine_run.machine_snoc) auto
  then show ?case by simp
qed

lemma arrival_ws: "ws (term_step p (arrival f) c) = ws c"
  by (simp add: arrival_def step_unfold split: server_frame.splits text_frame.splits)

lemma wire_deliver:
  assumes "wr_got w \<le> length (pt_out (wr_pty w) 0)" "ws (wr_client w) = Some WsOpen"
  shows "\<exists>es w'. calm_wire p w es w' \<and> wr_pty w' = wr_pty w \<and> wr_got w' = length (pt_out (wr_pty w) 0)"
  using assms
proof (induction "length (pt_out (wr_pty w) 0) - wr_got w" arbitrary: w)
  case 0
  then show ?case by (intro exI [of _ "[]"] exI [of _ w]) (simp add: machine_nil)
next
  case (Suc n)
  let ?w = "wire_step p WDown w"
  have "wr_pty ?w = wr_pty w" "ws (wr_client ?w) = Some WsOpen" "wr_got ?w = Suc (wr_got w)"
    using Suc.prems(2) by (simp_all add: arrival_ws)
  with Suc.hyps(1) [of ?w] Suc.hyps(2) obtain es w' where
    w': "calm_wire p ?w es w'" "wr_pty w' = wr_pty w" "wr_got w' = length (pt_out (wr_pty w) 0)"
    by fastforce
  then have "calm_wire p w (WDown # es) w'" using Suc by (simp add: machine_run_exec)
  with w' show ?case by blast
qed

lemma machine_run_append:
  "machine_run can step s es t \<Longrightarrow> machine_run can step t fs u \<Longrightarrow> machine_run can step s (es @ fs) u"
  by (simp add: machine_run_exec machine_exec_append)

lemma wire_drains:
  assumes "wire_inv w" "pt_pumps (wr_pty w) 0 = Some (PumpRun r)" "0 \<notin> pt_shut (wr_pty w)" "pt_fan (wr_pty w) \<noteq> FanDone"
    "ws (wr_client w) = Some WsOpen"
  shows "\<exists>es w'. calm_wire p w es w' \<and> out_bytes (wr_client w') = pt_output (wr_pty w) \<and> pt_output (wr_pty w') = pt_output (wr_pty w)"
proof -
  obtain es t where t: "calm_run 0 (wr_pty w) es t" "list_all server_own es" "drained 0 t" "pt_output t = pt_output (wr_pty w)"
    using session_drains [OF assms(2-4)] by blast
  let ?w = "w\<lparr>wr_pty := t\<rparr>"
  have r1: "calm_wire p w (map WServer es) ?w" using wire_server [OF t(1,2)] by simp
  with assms(1) have i1: "wire_inv ?w" using quiet.inv_run by blast
  then obtain fs w' where w': "calm_wire p ?w fs w'" "wr_pty w' = t" "wr_got w' = length (pt_out t 0)"
    using wire_deliver [of ?w p] assms(5) by (auto simp: wire_inv_def shown_inv_def)
  have "wire_inv w'" using quiet.inv_run [OF w'(1)] i1 by blast
  from wire_view(2) [OF this] t(3,4) w'(2,3) machine_run_append [OF r1 w'(1)] show ?thesis by auto
qed

section \<open>Input\<close>

fun stdin_of :: "client_frame \<Rightarrow> byte list" where
  "stdin_of (CInput d) = nullish (DecodeInput d) []"
| "stdin_of _ = []"

definition bytes_of :: "client_frame list \<Rightarrow> byte list" where
  "bytes_of fs = concat (map stdin_of fs)"

lemma b64_text: "set (btoa_ref bytes) \<subseteq> insert (CHR ''='') (set b64_tbl)"
  by (induction bytes rule: btoa_ref.induct) (simp_all add: sextet_bounds)

lemma DecodeInput_encoded: "DecodeInput (bytesToBase64 p bytes) = Some bytes"
proof -
  have "\<forall>x \<in> insert (CHR ''='') (set b64_tbl). x \<noteq> CHR 0x0A \<and> x \<noteq> CHR 0x0D" by (simp add: b64_tbl_def)
  with b64_text [of bytes] have "\<forall>x \<in> set (btoa_ref bytes). x \<noteq> CHR 0x0A \<and> x \<noteq> CHR 0x0D" by blast
  then have "filter (\<lambda>x. x \<noteq> CHR 0x0A \<and> x \<noteq> CHR 0x0D) (btoa_ref bytes) = btoa_ref bytes" by (rule filter_True)
  then show ?thesis using b64_decode_encode [of p bytes] by (simp add: DecodeInput_def bytesToBase64_eq_ref)
qed

lemma bytes_of_sent: "bytes_of fs = concat (map (\<lambda>d. nullish (DecodeInput d) []) (concat (map input_frame fs)))"
proof (induction fs)
  case (Cons f fs)
  then show ?case by (cases f) (simp_all add: bytes_of_def)
qed (simp add: bytes_of_def)

lemma bytes_of_typed: "concat (map (\<lambda>d. nullish (DecodeInput d) []) (encode_all p bs)) = concat bs"
  by (induction bs) (simp_all add: DecodeInput_encoded nullish_def)

text \<open>Before the greeting, and on the way out.\<close>

definition early :: "pump option \<Rightarrow> server_frame list \<Rightarrow> bool \<Rightarrow> bool" where
  "early q fs gone \<longleftrightarrow> (case q of
       None \<Rightarrow> fs = [] \<and> \<not> gone
     | Some PumpPaused \<Rightarrow> True | Some (PumpAttached r) \<Rightarrow> True | Some (PumpSnap r d f e) \<Rightarrow> True | _ \<Rightarrow> False)"

definition ending :: "pump option \<Rightarrow> bool" where
  "ending q \<longleftrightarrow> (case q of
       None \<Rightarrow> True | Some (PumpLeaving r) \<Rightarrow> True | Some (PumpFlush r ks l) \<Rightarrow> l | Some (PumpTo r k ts ks l) \<Rightarrow> l
     | Some (PumpDetach r) \<Rightarrow> True | _ \<Rightarrow> False)"

fun pump_role :: "pump \<Rightarrow> role" where
  "pump_role PumpPaused = Writer"
| "pump_role (PumpAttached r) = r"
| "pump_role (PumpSnap r d f e) = r"
| "pump_role (PumpServed r) = r"
| "pump_role (PumpFlush r ks l) = r"
| "pump_role (PumpTo r k ts ks l) = r"
| "pump_role (PumpRun r) = r"
| "pump_role (PumpReplay r d f) = r"
| "pump_role (PumpLeaving r) = r"
| "pump_role (PumpDetach r) = r"

definition early_at :: "pty_session \<Rightarrow> bool" where
  "early_at s \<longleftrightarrow> early (pt_pumps s 0) (pt_out s 0) (0 \<in> pt_shut s)"

definition post_ok :: "pump option \<Rightarrow> server_frame list \<Rightarrow> bool \<Rightarrow> bool" where
  "post_ok q fs gone \<longleftrightarrow> (case q of None \<Rightarrow> True | Some p \<Rightarrow> pump_role p = Writer \<and> (early q fs gone \<or> fs \<noteq> [] \<or> gone))"

definition keyed :: "pty_session \<Rightarrow> bool" where
  "keyed s \<longleftrightarrow> seat_inv 0 s \<and> post_ok (pt_pumps s 0) (pt_out s 0) (0 \<in> pt_shut s)"

lemma step_shut: "0 \<in> pt_shut s \<Longrightarrow> 0 \<in> pt_shut (pty_step e s)"
  by (cases e) (auto simp: fan_defs pump_defs pump_replay_def readLoop_def Kill_def wait_step_def Attach_def Snapshot_def Let_def
    serve_def pump_frame_def pty_write_def Resize_def write_frame_out broadcast_out
    split: option.splits pump.splits list.splits fan.splits reader.splits wait_stage.splits sum.splits client_frame.splits prod.splits)

text \<open>What a step does to the position of the pump, as far as the input is concerned.\<close>

definition keeps_input :: "pty_session \<Rightarrow> pty_session \<Rightarrow> bool" where
  "keeps_input s s' \<longleftrightarrow> post_ok (pt_pumps s' 0) (pt_out s' 0) (0 \<in> pt_shut s') \<and> pt_stdin s' = pt_stdin s
     \<and> (early_at s' \<longrightarrow> early_at s) \<and> (ending (pt_pumps s 0) \<and> \<not> early_at s \<longrightarrow> ending (pt_pumps s' 0))"

lemma keeps_same:
  assumes "keyed s" "pt_pumps s' 0 = pt_pumps s 0" "\<exists>gs. pt_out s' 0 = pt_out s 0 @ gs" "0 \<in> pt_shut s \<Longrightarrow> 0 \<in> pt_shut s'"
    "pt_stdin s' = pt_stdin s"
  shows "keeps_input s s'"
  using assms
  by (auto simp: keyed_def keeps_input_def post_ok_def early_at_def early_def split: option.splits pump.splits)

lemma keeps_pump:
  assumes "keyed s" "pt_pumps s 0 = Some q" "pt_pumps s' 0 = Some q'" "pump_role q' = pump_role q \<or> pump_role q' = Writer"
    "early (Some q') [] False \<longrightarrow> early (Some q) [] False" "early (Some q) [] False \<longrightarrow> early (Some q') [] False \<or> pt_out s' 0 \<noteq> [] \<or> 0 \<in> pt_shut s'"
    "ending (Some q) \<longrightarrow> ending (Some q')" "\<exists>gs. pt_out s' 0 = pt_out s 0 @ gs" "0 \<in> pt_shut s \<Longrightarrow> 0 \<in> pt_shut s'"
    "pt_stdin s' = pt_stdin s"
  shows "keeps_input s s'"
  using assms
  by (auto simp: keyed_def keeps_input_def post_ok_def early_at_def early_def)

lemma keeps_own:
  assumes "keyed s" "pty_can e s" "mine 0 e" "server_own e"
  shows "keeps_input s (pty_step e s)"
proof -
  note ext = step_extends [of e s 0] and shut = step_shut [of s e]
  show ?thesis
  proof (cases e)
    case (PAttach d now)
    with assms have d: "d = 0" "pt_pumps s 0 = Some PumpPaused" by (auto simp: mine_def pump_can_def split: option.splits)
    with assms(1) have "attached s = []" by (auto simp: keyed_def seat_inv_def seat_ok_def)
    then have "pt_writer s = None" by (auto simp: attached_def split: option.splits)
    then show ?thesis using d ext shut PAttach
      by (intro keeps_pump [OF assms(1) d(2)]) (auto simp: pump_defs Attach_def Let_def currentRole_of_def early_def ending_def)
  next
    case (PSnapshot d readable)
    then obtain r where d: "d = 0" "pt_pumps s 0 = Some (PumpAttached r)" using assms by (auto simp: mine_def pump_can_def split: option.splits)
    then show ?thesis using ext shut PSnapshot
      by (intro keeps_pump [OF assms(1) d(2)]) (auto simp: pump_defs Snapshot_def early_def ending_def)
  next
    case (PServe d good)
    then obtain r dat f l where d: "d = 0" "pt_pumps s 0 = Some (PumpSnap r dat f l)" "0 \<in> pt_shut s \<longrightarrow> good = 0"
      using assms by (auto simp: mine_def pump_can_def split: option.splits)
    let ?q = "if good = 0 \<or> good = 1 \<and> dat \<noteq> [] then PumpLeaving r else PumpServed r"
    have "pt_pumps (pty_step e s) 0 = Some ?q" using d PServe by (auto simp: pump_defs serve_def Let_def)
    moreover have "pt_out (pty_step e s) 0 \<noteq> [] \<or> 0 \<in> pt_shut (pty_step e s)"
      using d PServe by (auto simp: pump_defs serve_def Let_def write_frame_out)
    moreover have "pt_stdin (pty_step e s) = pt_stdin s" using d PServe by (auto simp: pump_defs serve_def Let_def)
    ultimately show ?thesis using ext shut
      by (intro keeps_pump [OF assms(1) d(2)]) (auto simp: early_def ending_def)
  next
    case (PResume d)
    then obtain q where d: "d = 0" "pt_pumps s 0 = Some q" "resumes q" using assms by (auto simp: mine_def pump_can_def split: option.splits)
    then obtain r l where q: "q = PumpServed r \<and> l = False \<or> q = PumpLeaving r \<and> l = True" by (cases q) auto
    with d PResume obtain ks where "pt_pumps (pty_step e s) 0 = Some (PumpFlush r ks l)" "pt_stdin (pty_step e s) = pt_stdin s"
      by (auto simp: pump_defs)
    then show ?thesis using ext shut q
      by (intro keeps_pump [OF assms(1) d(2)]) (auto simp: early_def ending_def)
  next
    case (PFlush d)
    then obtain r k ks l where d: "d = 0" "pt_pumps s 0 = Some (PumpFlush r (k # ks) l)"
      using assms by (auto simp: mine_def pump_can_def split: option.splits)
    then show ?thesis using ext shut PFlush
      by (intro keeps_pump [OF assms(1) d(2)]) (auto simp: pump_defs early_def ending_def)
  next
    case (PFlushWrite d F)
    then obtain r k ts ks l where d: "d = 0" "pt_pumps s 0 = Some (PumpTo r k ts ks l)"
      using assms by (auto simp: mine_def pump_can_def split: option.splits)
    then show ?thesis using ext shut PFlushWrite
      by (intro keeps_pump [OF assms(1) d(2)]) (auto simp: pump_defs early_def ending_def)
  next
    case (PFlushed d)
    then obtain r l where d: "d = 0" "pt_pumps s 0 = Some (PumpFlush r [] l)"
      using assms by (auto simp: mine_def pump_can_def split: option.splits)
    then show ?thesis using ext shut PFlushed
      by (intro keeps_pump [OF assms(1) d(2)]) (auto simp: pump_defs early_def ending_def split: if_splits)
  next
    case (PReplayWrite d good)
    then obtain r dat f where d: "d = 0" "pt_pumps s 0 = Some (PumpReplay r dat f)"
      using assms by (auto simp: mine_def pump_can_def split: option.splits)
    then show ?thesis using ext shut PReplayWrite
      by (intro keeps_pump [OF assms(1) d(2)]) (auto simp: pump_defs pump_replay_def early_def ending_def)
  next
    case (PLeave d)
    then obtain r where d: "d = 0" "pt_pumps s 0 = Some (PumpRun r)" using assms by (auto simp: mine_def pump_can_def split: option.splits)
    then show ?thesis using ext shut PLeave
      by (intro keeps_pump [OF assms(1) d(2)]) (auto simp: pump_defs early_def ending_def)
  next
    case (PPause d)
    then show ?thesis using assms by (auto simp: mine_def pump_defs keeps_input_def post_ok_def early_at_def early_def ending_def)
  next
    case (PDetach d)
    then obtain r where d: "d = 0" "pt_pumps s 0 = Some (PumpDetach r)" using assms by (auto simp: mine_def pump_can_def split: option.splits)
    then show ?thesis using assms(1) PDetach
      by (auto simp: pump_defs keyed_def keeps_input_def post_ok_def early_at_def early_def ending_def)
  qed (use assms(1,4) ext shut in \<open>auto intro!: keeps_same simp: fan_defs Kill_def wait_step_def Let_def split: list.splits fan.splits reader.splits wait_stage.splits\<close>)
qed

lemma keyed_own:
  "keyed s \<Longrightarrow> pty_can e s \<Longrightarrow> mine 0 e \<Longrightarrow> server_own e \<Longrightarrow> keyed (pty_step e s)"
  using keeps_own [of s e] seat_step [of 0 s e] by (auto simp: keyed_def keeps_input_def)

text \<open>The shell has the input of the frames that arrived; a pump on its way out may lack some of the end.\<close>

definition stdin_inv :: "wire \<Rightarrow> bool" where
  "stdin_inv w \<longleftrightarrow> keyed (wr_pty w) \<and> wr_up w \<le> length (client_frames (wr_client w))
     \<and> (\<exists>v. bytes_of (take (wr_up w) (client_frames (wr_client w))) = pt_stdin (wr_pty w) @ v)
     \<and> (early_at (wr_pty w) \<longrightarrow> wr_up w = 0)
     \<and> (\<not> ending (pt_pumps (wr_pty w) 0) \<longrightarrow> bytes_of (take (wr_up w) (client_frames (wr_client w))) = pt_stdin (wr_pty w))"

lemma bytes_of_snoc: "bytes_of (fs @ [f]) = bytes_of fs @ stdin_of f"
  by (simp add: bytes_of_def)

lemma frame_input:
  assumes "pt_pumps s 0 = Some (PumpRun Writer)" and t_def: "t = pump_frame 0 Writer f now short s"
  shows "\<exists>v. pt_stdin s @ stdin_of f = pt_stdin t @ v \<and> (ending (pt_pumps t 0) \<or> v = [])"
    and "pt_pumps t 0 = Some (PumpRun Writer) \<or> pt_pumps t 0 = Some (PumpLeaving Writer) \<or> (\<exists>d e. pt_pumps t 0 = Some (PumpReplay Writer d e))"
proof -
  show "\<exists>v. pt_stdin s @ stdin_of f = pt_stdin t @ v \<and> (ending (pt_pumps t 0) \<or> v = [])"
  proof (cases f)
    case (CInput d)
    show ?thesis
    proof (cases "DecodeInput d")
      case None
      then show ?thesis by (simp add: t_def CInput pump_frame_def nullish_def)
    next
      case (Some bytes)
      show ?thesis
      proof (cases "\<not> pt_closed s \<and> pt_master s")
        case True
        show ?thesis
        proof (cases short)
          case None
          with True Some show ?thesis by (simp add: t_def CInput pump_frame_def pty_write_def nullish_def)
        next
          case (Some n)
          with True \<open>DecodeInput d = Some bytes\<close> show ?thesis
            by (auto simp: t_def CInput pump_frame_def pty_write_def nullish_def set_pump_def ending_def
                intro: exI [of _ "drop n bytes"])
        qed
      next
        case False
        with Some show ?thesis
          by (auto simp: t_def CInput pump_frame_def pty_write_def nullish_def set_pump_def ending_def)
      qed
    qed
  qed (auto simp: t_def pump_frame_def Resize_def Snapshot_def set_pump_def split: sum.splits)
  show "pt_pumps t 0 = Some (PumpRun Writer) \<or> pt_pumps t 0 = Some (PumpLeaving Writer) \<or> (\<exists>d e. pt_pumps t 0 = Some (PumpReplay Writer d e))"
    using assms(1)
    by (cases f) (auto simp: t_def pump_frame_def pty_write_def Resize_def Snapshot_def set_pump_def Let_def split: option.splits sum.splits)
qed

lemma stdin_step:
  assumes "stdin_inv w" "wire_can e w"
  shows "stdin_inv (wire_step p e w)"
proof (cases e)
  case (WServer pe)
  let ?s = "wr_pty w"
  have can: "keyed ?s" "pty_can pe ?s" "mine 0 pe" "server_own pe" using assms WServer by (simp_all add: stdin_inv_def)
  note k = keeps_own [OF can] keyed_own [OF can]
  have "\<not> ending (pt_pumps (pty_step pe ?s) 0) \<Longrightarrow> \<not> ending (pt_pumps ?s 0) \<or> early_at ?s"
    using k(1) by (auto simp: keeps_input_def)
  then show ?thesis using assms(1) k
    by (auto simp: WServer stdin_inv_def keeps_input_def bytes_of_def)
next
  case (WClient ev)
  obtain fs where "client_frames (term_step p ev (wr_client w)) = client_frames (wr_client w) @ fs" using frames_append by blast
  with assms(1) show ?thesis by (auto simp: WClient stdin_inv_def)
next
  case WDown
  obtain fs where "client_frames (term_step p (arrival (pt_out (wr_pty w) 0 ! wr_got w)) (wr_client w)) = client_frames (wr_client w) @ fs"
    using frames_append by blast
  with assms(1) show ?thesis by (auto simp: WDown stdin_inv_def)
next
  case (WUp now short)
  let ?s = "wr_pty w" and ?fs = "client_frames (wr_client w)"
  let ?f = "?fs ! wr_up w"
  let ?t = "pump_frame 0 Writer ?f now short ?s"
  have up: "wr_up w < length ?fs" and can: "pty_can (next_frame now short w) ?s" using assms(2) WUp by simp_all
  then obtain r where p: "pt_pumps ?s 0 = Some (PumpRun r)" by (auto simp: next_frame_def pump_can_def split: option.splits)
  with assms(1) have "r = Writer" by (simp add: stdin_inv_def keyed_def post_ok_def)
  with p have p: "pt_pumps ?s 0 = Some (PumpRun Writer)" by simp
  have st: "pty_step (next_frame now short w) ?s = ?t" by (simp add: next_frame_def on_pump_def p pump_receive_def)
  note fi = frame_input [OF p refl [of ?t]]
  have got: "bytes_of (take (wr_up w) ?fs) = pt_stdin ?s" using assms(1) p by (simp add: stdin_inv_def ending_def)
  have "keyed ?t"
  proof -
    have "mine 0 (next_frame now short w)" by (simp add: mine_def next_frame_def)
    then have seat: "seat_inv 0 ?t" using seat_step [of 0 ?s "next_frame now short w"] can assms(1) st
      by (simp add: stdin_inv_def keyed_def del: pty_step.simps pty_can.simps)
    obtain gs where gs: "pt_out ?t 0 = pt_out ?s 0 @ gs" using frame_extends by blast
    have "0 \<in> pt_shut ?s \<Longrightarrow> 0 \<in> pt_shut ?t" using step_shut [of ?s "next_frame now short w"] st by (simp del: pty_step.simps)
    moreover have "pt_out ?s 0 \<noteq> [] \<or> 0 \<in> pt_shut ?s" using assms(1) p by (auto simp: stdin_inv_def keyed_def post_ok_def early_def)
    ultimately show ?thesis using fi(2) seat gs by (auto simp: keyed_def post_ok_def)
  qed
  moreover have "\<not> early_at ?t" using fi(2) by (auto simp: early_at_def early_def)
  moreover obtain v where "pt_stdin ?s @ stdin_of ?f = pt_stdin ?t @ v" "ending (pt_pumps ?t 0) \<or> v = []"
    using fi(1) by blast
  ultimately show ?thesis using up got
    by (auto simp: WUp stdin_inv_def st take_Suc_conv_app_nth bytes_of_snoc simp del: pty_step.simps)
qed

lemma stdin_start: "stdin_inv (wire_start cfg dm now sid cs rs)"
  using new_session_inv [of 0 cfg dm now]
  by (simp add: stdin_inv_def wire_start_def keyed_def) (simp add: NewPtySession_def Let_def post_ok_def bytes_of_def)

interpretation keys: started_machine wire_can "wire_step p" stdin_inv "wire_start cfg dm now sid cs rs" for p cfg dm now sid cs rs
  by unfold_locales (rule stdin_step, assumption+, rule stdin_start)

text \<open>The client's own queue, in the run of the wire.\<close>

lemma typed_arrival: "typed_of (arrival f) = []"
  by (simp add: arrival_def split: server_frame.splits)

lemma wire_typed:
  "machine_run wire_can (wire_step p) w es w' \<Longrightarrow> input_inv p [] (wr_client w) \<Longrightarrow> input_inv p (concat (map typed_wire es)) (wr_client w')"
proof (induction rule: machine_run.induct)
  case (machine_snoc es w' e)
  then have inv: "input_inv p (concat (map typed_wire es)) (wr_client w')" by simp
  show ?case
  proof (cases e)
    case (WClient ev)
    with input_inv_step [OF inv, of ev] machine_snoc show ?thesis by simp
  next
    case WDown
    have "term_enabled (arrival f) (wr_client w')" for f using WDown machine_snoc by (simp add: arrival_def split: server_frame.splits)
    from input_inv_step [OF inv this] show ?thesis by (simp add: WDown typed_arrival)
  qed (use inv in simp_all)
qed simp

section \<open>The properties\<close>




text \<open>A run: a shell that greets, a client that connects meanwhile, types and gets the echo.\<close>

definition wire_cfg :: session_config where
  "wire_cfg = \<lparr>sc_id = ''s1'', sc_user = 1, sc_shell = ''/bin/bash'', sc_cwd = ''/storage'', sc_env = [], sc_cols = 0, sc_rows = 0,
     sc_max = 0, sc_ttl = ''12h0m0s'', sc_started = ''2026-01-01T00:00:00Z''\<rparr>"

definition wire_demo :: "wire_event list" where
  "wire_demo = [WServer (PRead [36] io_fine), WServer (PPush True), WServer (PPause 0), WServer (PAttach 0 1), WServer (PSnapshot 0 True),
     WClient (EvSendInput [108]), WClient EvOpen, WServer PTake, WServer PBuffer, WServer PCheck, WServer (PServe 0 2), WDown,
     WServer (PRead [32] io_fine), WServer (PPush True), WServer (PResume 0), WServer (PFlush 0), WServer (PFlushWrite 0 {}), WServer (PFlushed 0),
     WDown, WClient (EvSendInput [115, 10]), WUp 2 None, WUp 3 None, WServer (PRead [108, 115] io_fine), WServer (PPush True)]"

lemmas wire_eval = session_eval wire_start_def wire_cfg_def new_client_def step_unfold mine_def in_flush_def fresh_def fresh_pump_def
  next_frame_def client_frames_def arrival_def handleBinary_encoded DecodeInput_encoded

lemma wire_demo_run:
  "\<exists>w. calm_wire HasBtoa (wire_start wire_cfg 0 0 None None None) wire_demo w
    \<and> pt_pumps (wr_pty w) 0 = Some (PumpRun Writer) \<and> 0 \<notin> pt_shut (wr_pty w) \<and> pt_fan (wr_pty w) \<noteq> FanDone
    \<and> ws (wr_client w) = Some WsOpen \<and> \<not> closed (wr_client w) \<and> pendingInput (wr_client w) = []
    \<and> wr_up w = length (client_frames (wr_client w))
    \<and> out_bytes (wr_client w) = [36] \<and> pt_output (wr_pty w) = [36, 32, 108, 115] \<and> pt_stdin (wr_pty w) = [108, 115, 10]"
  unfolding machine_run_exec
  by (simp add: wire_eval wire_demo_def out_bytes_def del: handleBinary_def bytesToBase64.simps btoa_ref.simps)




section \<open>What loses output\<close>

text \<open>What a client prints that gets all the frames of a connection.\<close>

definition printed :: "server_frame list \<Rightarrow> byte list" where
  "printed fs = out_bytes (foldl (\<lambda>c f. term_step HasBtoa (arrival f) c) (start CtorOk (new_client None None None)) fs)"

lemma printed_view: "printed fs = snd (view fs)"
proof -
  let ?c = "start CtorOk (new_client None None None)"
  let ?f = "foldl (\<lambda>c f. term_step HasBtoa (arrival f) c) ?c"
  have "(lastReceivedEnd (?f fs), out_bytes (?f fs)) = view fs"
  proof (induction fs rule: rev_induct)
    case Nil
    then show ?case by (simp add: new_client_def term_defs out_bytes_def)
  next
    case (snoc x xs)
    then show ?case using arrival_view [of HasBtoa x "?f xs"] by simp
  qed
  then show ?thesis by (metis printed_def snd_conv)
qed

lemma unat_of_nat64: "n < 2 ^ 64 \<Longrightarrow> unat (of_nat n :: 64 word) = n"
  by (simp add: unsigned_of_nat take_bit_eq_mod)

text \<open>One connection, from its upgrade to its loop, and one chunk through the fan-out loop.\<close>

definition connect_events :: "nat \<Rightarrow> pty_event list" where
  "connect_events c = [PPause c, PAttach c 1, PSnapshot c True, PServe c 2, PResume c, PFlushed c]"

definition fan_events :: "pty_event list" where
  "fan_events = [PTake, PBuffer, PCheck, PTargets, PWrite {}]"

lemma view_zero: "view_frame v (SBinary (EncodeBinaryFrame 0 d)) = (if 0 \<le> fst v then v else (int (length d) - 1, snd v @ d))"
  using view_encoded [of 0 v d] by simp

lemmas event_lists = connect_events_def fan_events_def view_def view_encoded view_zero add_pos_nonneg

text \<open>
  C36.
  After a restart of the panel the new shell's output is not shown: the session starts at the size \<open>d\<close> of
  the dump it finds, but still holds these bytes, so the snapshot is sent as if its first byte were number
  \<open>length d\<close>, and the client takes as many bytes of the new shell for a repetition.
\<close>

theorem restored_session_mute:
  assumes "d \<noteq> []" "b \<noteq> []" "length b \<le> length d" "length b \<le> 4096" "2 * length d < 2 ^ 64"
  shows "\<exists>s. pty_exec (connect_events 0 @ [PRead b io, PPush True] @ fan_events) (NewPtySession cfg dm (Some d) (length d) now) = Some s
    \<and> drained 0 s \<and> pt_output s = b \<and> printed (pt_out s 0) = d"
  using assms
  by (simp add: event_lists session_eval printed_view drained_def del: positive_or_def ready_of_def)

theorem restored_session_mute_witness:
  "\<exists>s. drained 0 s \<and> pt_output s = [108] \<and> printed (pt_out s 0) = [36, 32]"
  using restored_session_mute [of "[36, 32]" "[108]" io_fine wire_cfg 0 0] by auto

text \<open>
  A flush can be overtaken: between \<open>ResumeBroadcast\<close> resetting the counter and writing what was pending,
  the fan-out loop may send a later chunk, and the client then takes the pending one for a repetition.  The
  new terminal misses what was written while it attached.
\<close>

theorem flush_overtaken:
  assumes "a \<noteq> []" "b \<noteq> []" "length a \<le> 4096" "length b \<le> 4096"
  shows "\<exists>s. pty_exec ([PPause 0, PAttach 0 1, PSnapshot 0 True, PRead a io, PPush True, PTake, PBuffer, PCheck, PServe 0 2, PResume 0,
        PRead b io, PPush True] @ fan_events @ [PFlush 0, PFlushWrite 0 {}, PFlushed 0]) (NewPtySession cfg dm None 0 now) = Some s
    \<and> drained 0 s \<and> pt_output s = a @ b \<and> printed (pt_out s 0) = b"
  using assms
  by (simp add: event_lists session_eval printed_view drained_def del: positive_or_def ready_of_def)

text \<open>A connection that attaches between the check of the pause and the choice of the targets gets the
  chunk before its \<open>ready\<close> frame, and drops the snapshot: its scrollback is lost.\<close>

theorem attach_overtaken:
  assumes "a \<noteq> []" "b \<noteq> []" "length a \<le> 4096" "length b \<le> 4096" "length a + length b \<le> rolling_max (positive_or dm (256 * 1024))"
  shows "\<exists>s. pty_exec ([PRead a io_fine, PPush True] @ fan_events @ [PRead b io_fine, PPush True, PTake, PBuffer, PCheck, PPause 0, PAttach 0 1, PTargets, PWrite {},
        PSnapshot 0 True, PServe 0 2, PResume 0, PFlushed 0]) (NewPtySession cfg dm None 0 now) = Some s
    \<and> drained 0 s \<and> pt_output s = a @ b \<and> printed (pt_out s 0) = b \<and> (\<exists>buf. hd (pt_out s 0) = SBinary buf)"
  using assms
  by (simp add: event_lists session_eval printed_view drained_def del: positive_or_def rolling_max_def ready_of_def)

text \<open>The same when another connection goes: the \<open>ResumeBroadcast\<close> on its way out ends the pause of the one that attaches.\<close>

theorem leaving_pump_resumes:
  assumes "a \<noteq> []" "b \<noteq> []" "length a \<le> 4096" "length b \<le> 4096" "length a + length b \<le> rolling_max (positive_or dm (256 * 1024))"
  shows "\<exists>s. pty_exec ([PRead a io_fine, PPush True] @ fan_events @ connect_events 1 @ [PLeave 1, PPause 0, PAttach 0 1, PResume 1, PRead b io_fine, PPush True]
        @ fan_events @ [PSnapshot 0 True, PServe 0 2, PResume 0, PFlushed 0]) (NewPtySession cfg dm None 0 now) = Some s
    \<and> drained 0 s \<and> pt_output s = a @ b \<and> printed (pt_out s 0) = b \<and> (\<exists>buf. hd (pt_out s 0) = SBinary buf)"
  using assms
  by (simp add: event_lists session_eval printed_view drained_def del: positive_or_def rolling_max_def ready_of_def)

text \<open>A dump that was trimmed is sent as if it held its limit: a chunk that is in it and still on its way is printed twice.\<close>

theorem trimmed_dump_repeats:
  assumes "length a = 4096" "b \<noteq> []" "length b \<le> 512"
  shows "\<exists>s. pty_exec ([PRead a io_fine, PPush True] @ fan_events @ [PRead b io_fine, PPush True] @ connect_events 0 @ fan_events)
      (NewPtySession cfg 4096 None 0 now) = Some s
    \<and> drained 0 s \<and> pt_output s = a @ b \<and> printed (pt_out s 0) = drop 1024 a @ b @ b"
  using assms view_encoded [of 4096]
  by (auto simp: event_lists session_eval rewriteTrimmed_def keep_last_def trim_keep_def printed_view drained_def simp del: ready_of_def)

end
