(* ===== verification/Pty_Hub.thy ===== *)
theory Pty_Hub
  imports Pty_Session "HOL-Library.AList"
begin

text \<open>
  The registry of the terminal sessions: \<open>Hub\<close> of \<open>internal/terminal/hub.go\<close> and what the handler
  \<open>internal/delivery/http/handler/terminal.go\<close> makes of it.  Sessions are objects with a number; the two
  maps of the registry are association lists.  \<open>Create\<close> checks the cap and registers under separate locks,
  with the start of the shell between, so its three parts are steps of their own; the other operations hold
  the lock all through, or look the session up again and find it gone.
\<close>

section \<open>State\<close>

record hub_config =
  hc_ttl :: int
  hc_dir :: string
  hc_max :: int
  hc_perUser :: int
  hc_shell :: string
  hc_cwd :: string
  hc_env :: "string list option"

record create_options =
  co_id :: string
  co_shell :: string
  co_cwd :: string
  co_env :: "string list option"
  co_cols :: int
  co_rows :: int

text \<open>\<open>hb_making\<close> and \<open>hb_started\<close> are the calls of \<open>Create\<close> that passed the check and those that
  started a shell; \<open>hb_disk\<close> the dumps left by an earlier process; \<open>hb_given\<close>, a ghost, who got which
  session.\<close>

record hub =
  hb_cfg :: hub_config
  hb_objs :: "nat \<Rightarrow> pty_session option"
  hb_next :: nat
  hb_sessions :: "(string \<times> nat) list"
  hb_byUser :: "int \<Rightarrow> (string \<times> nat) list"
  hb_disk :: "string \<Rightarrow> byte list option"
  hb_making :: "(int \<times> create_options) list"
  hb_started :: "nat list"
  hb_given :: "(int \<times> nat) list"

definition string_or :: "string \<Rightarrow> string \<Rightarrow> string" where
  "string_or s d = (if s = [] then d else s)"

text \<open>Twelve hours, in seconds.\<close>

definition hub_defaults :: "hub_config \<Rightarrow> hub_config" where
  "hub_defaults c =
     \<lparr>hc_ttl = positive_or (hc_ttl c) 43200, hc_dir = string_or (hc_dir c) ''/tmp'', hc_max = positive_or (hc_max c) (256 * 1024),
      hc_perUser = positive_or (hc_perUser c) 8, hc_shell = string_or (hc_shell c) ''/bin/bash'',
      hc_cwd = string_or (hc_cwd c) ''/storage'',
      hc_env = Some (nullish (hc_env c) [''TERM=xterm-256color'', ''COLORTERM=truecolor'', ''LANG=C.UTF-8''])\<rparr>"

definition NewHub :: "hub_config \<Rightarrow> (string \<Rightarrow> byte list option) \<Rightarrow> hub" where
  "NewHub c disk =
     \<lparr>hb_cfg = hub_defaults c, hb_objs = (\<lambda>n. None), hb_next = 0, hb_sessions = [], hb_byUser = (\<lambda>u. []), hb_disk = disk,
      hb_making = [], hb_started = [], hb_given = []\<rparr>"

text \<open>\<open>Duration.String\<close> of whole seconds.\<close>

definition duration_text :: "int \<Rightarrow> string" where
  "duration_text d =
     (let hs = d div 3600; ms = d div 60 mod 60; ss = d mod 60
      in (if hs > 0 then dec_int hs @ ''h'' else []) @ (if d \<ge> 60 then dec_int ms @ ''m'' else []) @ dec_int ss @ ''s'')"

section \<open>The file of a dump\<close>

text \<open>\<open>filepath.Clean\<close> and \<open>filepath.Join\<close>, on the components between the slashes.\<close>

fun clean_parts :: "bool \<Rightarrow> string list \<Rightarrow> string list \<Rightarrow> string list" where
  "clean_parts rooted acc [] = rev acc"
| "clean_parts rooted acc (w # rest) =
     (if w = [] \<or> w = ''.'' then clean_parts rooted acc rest
      else if w = ''..''
      then (case acc of
          [] \<Rightarrow> if rooted then clean_parts rooted acc rest else clean_parts rooted [w] rest
        | a # as \<Rightarrow> if a = ''..'' then clean_parts rooted (w # acc) rest else clean_parts rooted as rest)
      else clean_parts rooted (w # acc) rest)"

definition Clean :: "string \<Rightarrow> string" where
  "Clean p =
     (let rooted = starts_with p ''/''; rest = clean_parts rooted [] (split_on (CHR ''/'') p)
      in if rooted then CHR ''/'' # join ''/'' rest else if rest = [] then ''.'' else join ''/'' rest)"

definition Join :: "string list \<Rightarrow> string" where
  "Join es = (let rest = filter (\<lambda>w. w \<noteq> []) es in if rest = [] then [] else Clean (join ''/'' rest))"

definition DumpPathFor :: "string \<Rightarrow> string \<Rightarrow> string" where
  "DumpPathFor dir sid = Join [dir, ''gosite-term-'' @ sid @ ''.log'']"

section \<open>The registry\<close>

definition Get :: "string \<Rightarrow> hub \<Rightarrow> nat option" where
  "Get sid h = map_of (hb_sessions h) sid"

definition register :: "nat \<Rightarrow> hub \<Rightarrow> hub" where
  "register n h = (case hb_objs h n of
       None \<Rightarrow> h
     | Some s \<Rightarrow> (let sid = sc_id (pt_cfg s); u = sc_user (pt_cfg s)
         in h\<lparr>hb_sessions := AList.update sid n (hb_sessions h),
              hb_byUser := (hb_byUser h)(u := AList.update sid n (hb_byUser h u))\<rparr>))"

definition unregister :: "string \<Rightarrow> hub \<Rightarrow> hub" where
  "unregister sid h = (case map_of (hb_sessions h) sid of
       None \<Rightarrow> h
     | Some n \<Rightarrow> (case hb_objs h n of
         None \<Rightarrow> h
       | Some s \<Rightarrow> (let u = sc_user (pt_cfg s)
           in h\<lparr>hb_sessions := AList.delete sid (hb_sessions h),
                hb_byUser := (hb_byUser h)(u := AList.delete sid (hb_byUser h u))\<rparr>)))"

text \<open>The parts of \<open>Create\<close>: the check of the cap and the choice of the id (\<open>gen\<close> is what the generator
  gives); the session with its shell, which may fail to start; the registration.\<close>

definition cap_reached :: "int \<Rightarrow> hub \<Rightarrow> bool" where
  "cap_reached u h \<longleftrightarrow> hb_byUser h u \<noteq> [] \<and> int (length (hb_byUser h u)) \<ge> hc_perUser (hb_cfg h)"

definition create_check :: "int \<Rightarrow> create_options \<Rightarrow> string \<Rightarrow> hub \<Rightarrow> string option \<times> hub" where
  "create_check u opts gen h =
     (if cap_reached u h then (Some ''per-user session cap reached'', h)
      else (None, h\<lparr>hb_making := hb_making h @ [(u, opts\<lparr>co_id := string_or (co_id opts) gen\<rparr>)]\<rparr>))"

definition session_of :: "int \<Rightarrow> create_options \<Rightarrow> string \<Rightarrow> int \<Rightarrow> hub \<Rightarrow> pty_session" where
  "session_of u opts started now h =
     (let c = hb_cfg h; file = hb_disk h (DumpPathFor (hc_dir c) (co_id opts))
      in NewPtySession
           \<lparr>sc_id = co_id opts, sc_user = u, sc_shell = string_or (co_shell opts) (hc_shell c), sc_cwd = string_or (co_cwd opts) (hc_cwd c),
            sc_env = nullish (co_env opts) (nullish (hc_env c) []), sc_cols = positive_or (co_cols opts) 80,
            sc_rows = positive_or (co_rows opts) 24, sc_max = 0, sc_ttl = duration_text (hc_ttl c), sc_started = started\<rparr>
           (hc_max c) file (rolling_size file) now)"

definition create_start :: "nat \<Rightarrow> string \<Rightarrow> int \<Rightarrow> bool \<Rightarrow> hub \<Rightarrow> hub" where
  "create_start k started now ok h =
     (let (u, opts) = hb_making h ! k; rest = take k (hb_making h) @ drop (Suc k) (hb_making h)
      in if \<not> ok then h\<lparr>hb_making := rest\<rparr>
         else h\<lparr>hb_making := rest, hb_objs := (hb_objs h)(hb_next h := Some (session_of u opts started now h)),
                hb_next := hb_next h + 1, hb_started := hb_started h @ [hb_next h],
                hb_disk := (hb_disk h)(DumpPathFor (hc_dir (hb_cfg h)) (co_id opts) := None)\<rparr>)"

definition owner_of :: "nat \<Rightarrow> hub \<Rightarrow> int option" where
  "owner_of n h = map_option (\<lambda>s. sc_user (pt_cfg s)) (hb_objs h n)"

definition create_register :: "nat \<Rightarrow> hub \<Rightarrow> hub" where
  "create_register k h =
     (let n = hb_started h ! k; h1 = register n h
      in h1\<lparr>hb_started := take k (hb_started h) @ drop (Suc k) (hb_started h),
            hb_given := hb_given h @ (case owner_of n h of None \<Rightarrow> [] | Some u \<Rightarrow> [(u, n)])\<rparr>)"

text \<open>Both the restore of a dump and a missing one end in \<open>Create\<close> with the id that was asked for.\<close>

definition AttachOrCreate :: "int \<Rightarrow> string \<Rightarrow> create_options \<Rightarrow> string \<Rightarrow> hub \<Rightarrow> string option \<times> hub" where
  "AttachOrCreate u sid opts gen h =
     (if sid = [] then create_check u opts gen h
      else case Get sid h of
        Some n \<Rightarrow>
          (if owner_of n h \<noteq> Some u then (Some ''session belongs to another user'', h)
           else (None, h\<lparr>hb_given := hb_given h @ [(u, n)]\<rparr>))
      | None \<Rightarrow> create_check u (opts\<lparr>co_id := sid\<rparr>) gen h)"

definition hub_kill :: "string \<Rightarrow> hub \<Rightarrow> string option \<times> hub" where
  "hub_kill sid h = (case Get sid h of
       None \<Rightarrow> (Some ''terminal session not found'', h)
     | Some n \<Rightarrow> (None, unregister sid (h\<lparr>hb_objs := (hb_objs h)(n := map_option Kill (hb_objs h n))\<rparr>)))"

text \<open>The sweeper: what nobody has typed into for the sticky time, or that has no writer and nobody attached to for so long.\<close>

definition idle :: "int \<Rightarrow> hub \<Rightarrow> nat \<Rightarrow> bool" where
  "idle now h n = (case hb_objs h n of
       None \<Rightarrow> False
     | Some s \<Rightarrow> now - pt_lastInput s > hc_ttl (hb_cfg h) \<or> \<not> HasWriter s \<and> now - pt_lastAttach s > hc_ttl (hb_cfg h))"

definition sweep :: "int \<Rightarrow> hub \<Rightarrow> hub" where
  "sweep now h = fold (\<lambda>sid h. snd (hub_kill sid h)) (map fst (filter (\<lambda>(sid, n). idle now h n) (hb_sessions h))) h"

section \<open>What the handler answers\<close>

record session_meta =
  sm_id :: string
  sm_user :: int
  sm_shell :: string
  sm_cwd :: string
  sm_started :: string
  sm_lastAttach :: int
  sm_lastInput :: int
  sm_bytes :: nat
  sm_first :: nat
  sm_end :: nat
  sm_active :: bool
  sm_role :: role

definition Meta :: "pty_session \<Rightarrow> session_meta" where
  "Meta s =
     \<lparr>sm_id = sc_id (pt_cfg s), sm_user = sc_user (pt_cfg s), sm_shell = sc_shell (pt_cfg s), sm_cwd = sc_cwd (pt_cfg s),
      sm_started = sc_started (pt_cfg s), sm_lastAttach = pt_lastAttach s, sm_lastInput = pt_lastInput s,
      sm_bytes = rolling_size (pt_file s), sm_first = pt_firstSeq s, sm_end = pt_endSeq s,
      sm_active = (pt_writer s \<noteq> None \<or> pt_readers s \<noteq> []),
      sm_role = (if pt_writer s \<noteq> None then Writer else if pt_readers s \<noteq> [] then Reader else NoRole)\<rparr>"

definition ListByUser :: "int \<Rightarrow> hub \<Rightarrow> session_meta list" where
  "ListByUser u h = concat (map (\<lambda>(sid, n). case hb_objs h n of None \<Rightarrow> [] | Some s \<Rightarrow> [Meta s]) (hb_byUser h u))"

definition GetSnapshot :: "int \<Rightarrow> string \<Rightarrow> bool \<Rightarrow> hub \<Rightarrow> nat + byte list \<times> nat \<times> nat" where
  "GetSnapshot u sid readable h = (case Get sid h of
       None \<Rightarrow> Inl 404
     | Some n \<Rightarrow> (case hb_objs h n of
         None \<Rightarrow> Inl 403
       | Some s \<Rightarrow> if sm_user (Meta s) \<noteq> u then Inl 403 else Inr (Snapshot readable s)))"

definition KillSession :: "int \<Rightarrow> string \<Rightarrow> hub \<Rightarrow> nat \<times> hub" where
  "KillSession u sid h =
     (if (case Get sid h of None \<Rightarrow> False | Some n \<Rightarrow> owner_of n h \<noteq> Some u) then (403, h)
      else (case hub_kill sid h of (Some e, h') \<Rightarrow> (404, h') | (None, h') \<Rightarrow> (200, h')))"

text \<open>The handshake: \<open>parse\<close> is \<open>url.Parse\<close>, the host of an address or an error; hosts are ASCII.\<close>

definition EqualFold :: "string \<Rightarrow> string \<Rightarrow> bool" where
  "EqualFold a b \<longleftrightarrow> to_lower a = to_lower b"

fun origin_listed :: "(string \<Rightarrow> string option) \<Rightarrow> string list \<Rightarrow> string \<Rightarrow> bool" where
  "origin_listed parse [] h = False"
| "origin_listed parse (a # rest) h =
     (let a = trim_str a
      in if a = [] then origin_listed parse rest h
         else if EqualFold a h then True
         else case parse a of
             Some ah \<Rightarrow> if ah \<noteq> [] \<and> EqualFold ah h then True else origin_listed parse rest h
           | None \<Rightarrow> origin_listed parse rest h)"

definition checkOrigin :: "(string \<Rightarrow> string option) \<Rightarrow> string list \<Rightarrow> string \<Rightarrow> string \<Rightarrow> bool" where
  "checkOrigin parse allowed host origin =
     (if origin = [] then True
      else case parse origin of
          None \<Rightarrow> False
        | Some h \<Rightarrow> if h = [] then False else if EqualFold h host then True else origin_listed parse allowed h)"

text \<open>\<open>parseInt\<close> with its wrap-around, and the options of a session from the query of the handshake.\<close>

fun parseInt_from :: "64 word \<Rightarrow> string \<Rightarrow> int option" where
  "parseInt_from n [] = Some (sint n)"
| "parseInt_from n (r # rest) = (if is_digit r then parseInt_from (n * 10 + of_nat (digit_val r)) rest else None)"

definition parseInt :: "string \<Rightarrow> int option" where
  "parseInt v = parseInt_from 0 v"

definition ws_size :: "string \<Rightarrow> int \<Rightarrow> int" where
  "ws_size v d = (if v = [] then d else case parseInt v of None \<Rightarrow> d | Some n \<Rightarrow> if n > 0 then n else d)"

definition ws_options :: "string \<Rightarrow> string \<Rightarrow> string \<Rightarrow> create_options" where
  "ws_options sid cs rs =
     \<lparr>co_id = sid, co_shell = [], co_cwd = [], co_env = None, co_cols = ws_size cs 80, co_rows = ws_size rs 24\<rparr>"

section \<open>The hub as a machine\<close>

text \<open>\<open>HSession\<close> is what a session does by itself; \<open>HExit\<close> the exit of its shell with the callback
  \<open>onExit\<close>; \<open>HRestart\<close> the end of the process, which leaves the dumps.\<close>

datatype hub_event =
    HAttach int string create_options string
  | HStart nat string int bool
  | HRegister nat
  | HSession nat pty_event
  | HExit nat int
  | HKill int string
  | HSweep int
  | HRestart

fun session_own :: "pty_event \<Rightarrow> bool" where
  "session_own PKill = False" | "session_own (PExit cd) = False" | "session_own _ = True"

fun hub_can :: "hub_event \<Rightarrow> hub \<Rightarrow> bool" where
  "hub_can (HStart k started now ok) h = (k < length (hb_making h))"
| "hub_can (HRegister k) h = (k < length (hb_started h))"
| "hub_can (HSession n e) h = (session_own e \<and> (case hb_objs h n of None \<Rightarrow> False | Some s \<Rightarrow> pty_can e s))"
| "hub_can (HExit n cd) h = (case hb_objs h n of None \<Rightarrow> False | Some s \<Rightarrow> pt_wait s = WaitShell)"
| "hub_can _ h = True"

definition dumps_left :: "hub \<Rightarrow> string \<Rightarrow> byte list option" where
  "dumps_left h = fold (\<lambda>n disk. case hb_objs h n of
       None \<Rightarrow> disk
     | Some s \<Rightarrow> (case pt_file s of None \<Rightarrow> disk
         | Some d \<Rightarrow> disk(DumpPathFor (hc_dir (hb_cfg h)) (sc_id (pt_cfg s)) := Some d))) [0..<hb_next h] (hb_disk h)"

fun hub_step :: "hub_event \<Rightarrow> hub \<Rightarrow> hub" where
  "hub_step (HAttach u sid opts gen) h = snd (AttachOrCreate u sid opts gen h)"
| "hub_step (HStart k started now ok) h = create_start k started now ok h"
| "hub_step (HRegister k) h = create_register k h"
| "hub_step (HSession n e) h = h\<lparr>hb_objs := (hb_objs h)(n := map_option (pty_step e) (hb_objs h n))\<rparr>"
| "hub_step (HExit n cd) h = (case hb_objs h n of
       None \<Rightarrow> h
     | Some s \<Rightarrow> unregister (sc_id (pt_cfg s)) (h\<lparr>hb_objs := (hb_objs h)(n := Some (pty_step (PExit cd) s))\<rparr>))"
| "hub_step (HKill u sid) h = snd (KillSession u sid h)"
| "hub_step (HSweep now) h = sweep now h"
| "hub_step HRestart h =
     h\<lparr>hb_objs := (\<lambda>n. None), hb_sessions := [], hb_byUser := (\<lambda>u. []), hb_disk := dumps_left h, hb_making := [],
       hb_started := [], hb_given := []\<rparr>"

abbreviation hub_run :: "hub \<Rightarrow> hub_event list \<Rightarrow> hub \<Rightarrow> bool" where
  "hub_run \<equiv> machine_run hub_can hub_step"

abbreviation hub_exec :: "hub_event list \<Rightarrow> hub \<Rightarrow> hub option" where
  "hub_exec \<equiv> machine_exec hub_can hub_step"

section \<open>Who owns what\<close>

text \<open>The id and the owner of a session never change.\<close>

lemma fold_Detach_cfg: "pt_cfg (fold Detach ds s) = pt_cfg s"
  by (induction ds arbitrary: s) (simp_all add: Detach_def)

lemma cfg_step [simp]: "pt_cfg (pty_step e s) = pt_cfg s"
  by (cases e)
    (auto simp: readLoop_def read_push_def fan_take_def fan_buffer_def fan_check_def fan_targets_def fan_write_def maybeBuffer_def on_pump_def pump_attach_def
      pump_snapshot_def pump_serve_def pump_resume_def pump_flush_def pump_flush_write_def pump_flushed_def pump_receive_def
      pump_replay_def pump_leave_def pump_detach_def set_pump_def ResumeBroadcast_def PauseBroadcast_def broadcast_write_def
      write_frame_def serve_def Attach_def Detach_def Snapshot_def pump_frame_def pty_write_def Resize_def Kill_def wait_step_def
      fold_Detach_cfg Let_def
      split: option.splits pump.splits list.splits fan.splits reader.splits wait_stage.splits sum.splits client_frame.splits prod.splits)

lemma cfg_Kill [simp]: "pt_cfg (Kill s) = pt_cfg s"
  by (simp add: Kill_def)

definition who :: "hub \<Rightarrow> nat \<Rightarrow> (string \<times> int) option" where
  "who h n = map_option (\<lambda>s. (sc_id (pt_cfg s), sc_user (pt_cfg s))) (hb_objs h n)"

lemma owner_who: "owner_of n h = map_option snd (who h n)"
  by (simp add: owner_of_def who_def option.map_comp comp_def)

lemma who_obj: "hb_objs h n = Some s \<Longrightarrow> who h n = Some (sc_id (pt_cfg s), sc_user (pt_cfg s))"
  by (simp add: who_def)

definition hub_wf :: "hub \<Rightarrow> bool" where
  "hub_wf h \<longleftrightarrow> (\<forall>n. who h n \<noteq> None \<longrightarrow> n < hb_next h)
     \<and> (\<forall>sid n. map_of (hb_sessions h) sid = Some n \<longrightarrow> (\<exists>u. who h n = Some (sid, u)))
     \<and> (\<forall>u sid n. (sid, n) \<in> set (hb_byUser h u) \<longrightarrow> who h n = Some (sid, u))
     \<and> (\<forall>(u, n) \<in> set (hb_given h). \<exists>sid. who h n = Some (sid, u))
     \<and> (\<forall>n \<in> set (hb_started h). who h n \<noteq> None)"

lemma wf_get: "hub_wf h \<Longrightarrow> Get sid h = Some n \<Longrightarrow> \<exists>u. who h n = Some (sid, u)"
  unfolding hub_wf_def Get_def by blast

lemma wf_listed: "hub_wf h \<Longrightarrow> (sid, n) \<in> set (hb_byUser h u) \<Longrightarrow> who h n = Some (sid, u)"
  unfolding hub_wf_def by blast

lemma get_inj: "hub_wf h \<Longrightarrow> Get i h = Some n \<Longrightarrow> Get j h = Some n \<Longrightarrow> i = j"
  by (metis wf_get option.inject prod.inject)

text \<open>The changes of the registry, seen through \<open>who\<close>.\<close>

lemma unregister_eq:
  "unregister sid h = (case map_of (hb_sessions h) sid of
     None \<Rightarrow> h
   | Some n \<Rightarrow> (case who h n of None \<Rightarrow> h
     | Some (i, u) \<Rightarrow> h\<lparr>hb_sessions := AList.delete sid (hb_sessions h), hb_byUser := (hb_byUser h)(u := AList.delete sid (hb_byUser h u))\<rparr>))"
  by (simp add: unregister_def who_def Let_def split: option.splits)

lemma register_eq:
  "register n h = (case who h n of None \<Rightarrow> h
     | Some (sid, u) \<Rightarrow> h\<lparr>hb_sessions := AList.update sid n (hb_sessions h), hb_byUser := (hb_byUser h)(u := AList.update sid n (hb_byUser h u))\<rparr>)"
  by (simp add: register_def who_def Let_def split: option.splits)

lemma who_updates [simp]:
  "who (h\<lparr>hb_sessions := xs\<rparr>) = who h" "who (h\<lparr>hb_byUser := f\<rparr>) = who h" "who (h\<lparr>hb_given := g\<rparr>) = who h"
  "who (h\<lparr>hb_making := m\<rparr>) = who h" "who (h\<lparr>hb_started := t\<rparr>) = who h" "who (h\<lparr>hb_disk := d\<rparr>) = who h" "who (h\<lparr>hb_next := k\<rparr>) = who h"
  by (simp_all add: who_def fun_eq_iff)

lemma unregister_frame [simp]:
  "who (unregister sid h) = who h" "hb_next (unregister sid h) = hb_next h" "hb_given (unregister sid h) = hb_given h"
  "hb_started (unregister sid h) = hb_started h" "hb_making (unregister sid h) = hb_making h" "hb_cfg (unregister sid h) = hb_cfg h"
  "hb_objs (unregister sid h) = hb_objs h"
  by (simp_all add: unregister_def Let_def who_def fun_eq_iff split: option.splits)

lemma set_delete: "x \<in> set (AList.delete k al) \<Longrightarrow> x \<in> set al"
  by (simp add: AList.delete_eq)

lemma set_update: "x \<in> set (AList.update k v al) \<Longrightarrow> x = (k, v) \<or> x \<in> set al"
  by (induction al) (auto split: if_splits)

lemma wf_unregister: "hub_wf h \<Longrightarrow> hub_wf (unregister sid h)"
  unfolding hub_wf_def unregister_eq by (auto simp: delete_conv' dest: set_delete split: option.splits if_splits)

text \<open>A step of a session, or its end.\<close>

lemma wf_session: "hub_wf h \<Longrightarrow> (\<And>s. pt_cfg (f s) = pt_cfg s) \<Longrightarrow> hub_wf (h\<lparr>hb_objs := (hb_objs h)(n := map_option f (hb_objs h n))\<rparr>)"
proof -
  assume "hub_wf h" "\<And>s. pt_cfg (f s) = pt_cfg s"
  moreover from this(2) have "who (h\<lparr>hb_objs := (hb_objs h)(n := map_option f (hb_objs h n))\<rparr>) = who h"
    by (auto simp: who_def fun_eq_iff option.map_comp comp_def)
  ultimately show ?thesis by (simp add: hub_wf_def)
qed

lemma wf_kill: "hub_wf h \<Longrightarrow> hub_wf (snd (hub_kill sid h))"
  by (cases "Get sid h") (simp_all add: hub_kill_def wf_unregister wf_session)

lemma wf_sweep: "hub_wf h \<Longrightarrow> hub_wf (sweep now h)"
proof -
  have "hub_wf h \<Longrightarrow> hub_wf (fold (\<lambda>sid h. snd (hub_kill sid h)) ids h)" for ids h
    by (induction ids arbitrary: h) (simp_all add: wf_kill)
  then show "hub_wf h \<Longrightarrow> ?thesis" by (simp add: sweep_def)
qed

lemma wf_check: "hub_wf h \<Longrightarrow> hub_wf (snd (create_check u opts gen h))"
  by (simp add: create_check_def hub_wf_def)

lemma wf_attach: "hub_wf h \<Longrightarrow> hub_wf (snd (AttachOrCreate u sid opts gen h))"
proof -
  assume wf: "hub_wf h"
  then have "hub_wf (h\<lparr>hb_given := hb_given h @ [(u, n)]\<rparr>)" if "owner_of n h = Some u" for n
    using that by (auto simp: hub_wf_def owner_who)
  with wf wf_check show ?thesis by (auto simp: AttachOrCreate_def split: option.splits)
qed

lemma who_start:
  "who (h\<lparr>hb_objs := (hb_objs h)(hb_next h := Some (session_of u opts started now h))\<rparr>) = (who h)(hb_next h := Some (co_id opts, u))"
  by (simp add: who_def session_of_def NewPtySession_def Let_def fun_eq_iff)

lemma wf_start: "hub_wf h \<Longrightarrow> hub_wf (create_start k started now ok h)"
proof -
  assume wf: "hub_wf h"
  then have new: "who h (hb_next h) = None" unfolding hub_wf_def by blast
  obtain u opts where m: "hb_making h ! k = (u, opts)" by fastforce
  show ?thesis
  proof (cases ok)
    case True
    let ?h = "h\<lparr>hb_objs := (hb_objs h)(hb_next h := Some (session_of u opts started now h))\<rparr>"
    have w: "who (create_start k started now ok h) = (who h)(hb_next h := Some (co_id opts, u))"
      using True m who_start [of h u opts started now] by (simp add: create_start_def Let_def who_def fun_eq_iff)
    show ?thesis using wf new True m unfolding hub_wf_def w
      by (fastforce simp: create_start_def Let_def less_Suc_eq)
  next
    case False
    with wf m show ?thesis by (simp add: create_start_def hub_wf_def Let_def)
  qed
qed

lemma wf_register: "hub_wf h \<Longrightarrow> k < length (hb_started h) \<Longrightarrow> hub_wf (create_register k h)"
proof -
  assume wf: "hub_wf h" and k: "k < length (hb_started h)"
  let ?n = "hb_started h ! k"
  have "?n \<in> set (hb_started h)" using k by simp
  then obtain sid u where w: "who h ?n = Some (sid, u)" using wf by (fastforce simp: hub_wf_def)
  have sub: "set (take k (hb_started h) @ drop (Suc k) (hb_started h)) \<subseteq> set (hb_started h)"
    by (auto dest: in_set_takeD in_set_dropD)
  have eq: "create_register k h = h\<lparr>hb_sessions := AList.update sid ?n (hb_sessions h),
      hb_byUser := (hb_byUser h)(u := AList.update sid ?n (hb_byUser h u)),
      hb_started := take k (hb_started h) @ drop (Suc k) (hb_started h), hb_given := hb_given h @ [(u, ?n)]\<rparr>"
    using w by (simp add: create_register_def register_eq owner_who Let_def)
  have "who (create_register k h) = who h" unfolding eq by simp
  then show ?thesis using wf w sub unfolding hub_wf_def eq
    by (auto simp: update_conv' dest!: set_update split: if_splits)
qed

lemma wf_step:
  assumes "hub_wf h" "hub_can e h"
  shows "hub_wf (hub_step e h)"
proof (cases e)
  case (HExit n cd)
  with assms(2) obtain s where s: "hb_objs h n = Some s" by (auto split: option.splits)
  have "hub_wf (h\<lparr>hb_objs := (hb_objs h)(n := map_option (pty_step (PExit cd)) (hb_objs h n))\<rparr>)"
    using assms(1) by (rule wf_session) simp
  with s show ?thesis using wf_unregister by (simp add: HExit)
next
  case HRestart
  then show ?thesis by (simp add: hub_wf_def who_def)
next
  case (HKill u sid)
  show ?thesis using assms(1) wf_kill [OF assms(1), of sid] by (auto simp: HKill KillSession_def split: option.splits prod.splits)
qed (use assms wf_attach wf_start wf_register wf_sweep in \<open>auto intro: wf_session\<close>)

lemma new_hub_wf: "hub_wf (NewHub c disk)"
  by (simp add: hub_wf_def NewHub_def who_def)

interpretation owners: started_machine hub_can hub_step hub_wf "NewHub c disk" for c disk
  by unfold_locales (rule wf_step, assumption+, rule new_hub_wf)

section \<open>The registry when sessions are created one after another\<close>

definition in_turn :: "hub_event \<Rightarrow> hub \<Rightarrow> bool" where
  "in_turn e h = (case e of
       HAttach u sid opts gen \<Rightarrow> co_id opts = sid
         \<and> (sid = [] \<or> Get sid h = None \<longrightarrow> hb_making h = [] \<and> hb_started h = [] \<and> Get (string_or sid gen) h = None)
     | _ \<Rightarrow> True)"

definition room :: "int \<Rightarrow> hub \<Rightarrow> bool" where
  "room u h \<longleftrightarrow> int (length (hb_byUser h u)) < hc_perUser (hb_cfg h)"

definition maps_ok :: "hub \<Rightarrow> bool" where
  "maps_ok h \<longleftrightarrow> distinct (map fst (hb_sessions h)) \<and> (\<forall>u. distinct (map fst (hb_byUser h u)))
     \<and> (\<forall>u sid n. map_of (hb_byUser h u) sid = Some n \<longleftrightarrow> map_of (hb_sessions h) sid = Some n \<and> who h n = Some (sid, u))"

definition cap_ok :: "hub \<Rightarrow> bool" where
  "cap_ok h \<longleftrightarrow> 0 < hc_perUser (hb_cfg h) \<and> (\<forall>u. int (length (hb_byUser h u)) \<le> hc_perUser (hb_cfg h))
     \<and> length (hb_making h) + length (hb_started h) \<le> 1
     \<and> (\<forall>(u, opts) \<in> set (hb_making h). Get (co_id opts) h = None \<and> room u h)
     \<and> (\<forall>n \<in> set (hb_started h). \<forall>sid u. who h n = Some (sid, u) \<longrightarrow> Get sid h = None \<and> room u h)"

definition registry_ok :: "hub \<Rightarrow> bool" where
  "registry_ok h \<longleftrightarrow> hub_wf h \<and> maps_ok h \<and> cap_ok h"

lemma ok_wf: "registry_ok h \<Longrightarrow> hub_wf h"
  by (simp add: registry_ok_def)

lemma room_delete: "room u h \<Longrightarrow> room u (unregister sid h)"
  using length_delete_le [of sid "hb_byUser h u"]
  by (auto simp: room_def unregister_eq split: option.splits)

lemma Get_delete: "Get i h = None \<Longrightarrow> Get i (unregister sid h) = None"
  by (auto simp: Get_def unregister_eq delete_conv' split: option.splits)

lemma ok_unregister: "registry_ok h \<Longrightarrow> registry_ok (unregister sid h)"
proof -
  assume ok: "registry_ok h"
  have "maps_ok (unregister sid h)" using ok unfolding registry_ok_def maps_ok_def unregister_eq
    by (auto simp: distinct_delete delete_conv' simp del: map_of_eq_Some_iff split: option.splits if_splits)
  moreover have "int (length (hb_byUser (unregister sid h) u)) \<le> hc_perUser (hb_cfg h)" for u
    using ok length_delete_le [of sid "hb_byUser h u"] unfolding registry_ok_def cap_ok_def unregister_eq
    by (auto split: option.splits) (metis of_nat_mono order_trans)
  ultimately show ?thesis using ok room_delete Get_delete wf_unregister
    by (fastforce simp: registry_ok_def cap_ok_def)
qed

lemma ok_session:
  assumes "registry_ok h" "\<And>s. pt_cfg (f s) = pt_cfg s"
  shows "registry_ok (h\<lparr>hb_objs := (hb_objs h)(n := map_option f (hb_objs h n))\<rparr>)"
proof -
  have "who (h\<lparr>hb_objs := (hb_objs h)(n := map_option f (hb_objs h n))\<rparr>) = who h"
    using assms(2) by (auto simp: who_def fun_eq_iff option.map_comp comp_def)
  with assms show ?thesis using wf_session
    by (simp add: registry_ok_def maps_ok_def cap_ok_def Get_def room_def)
qed

lemma ok_kill: "registry_ok h \<Longrightarrow> registry_ok (snd (hub_kill sid h))"
  by (cases "Get sid h") (simp_all add: hub_kill_def ok_unregister ok_session)

lemma ok_sweep: "registry_ok h \<Longrightarrow> registry_ok (sweep now h)"
proof -
  have "registry_ok h \<Longrightarrow> registry_ok (fold (\<lambda>sid h. snd (hub_kill sid h)) ids h)" for ids h
    by (induction ids arbitrary: h) (simp_all add: ok_kill)
  then show "registry_ok h \<Longrightarrow> ?thesis" by (simp add: sweep_def)
qed

lemma ok_check:
  assumes "registry_ok h" "hb_making h = []" "hb_started h = []" "Get (string_or (co_id opts) gen) h = None"
  shows "registry_ok (snd (create_check u opts gen h))"
  using assms wf_check [of h u opts gen]
  by (auto simp: create_check_def cap_reached_def registry_ok_def maps_ok_def cap_ok_def Get_def room_def)

lemma ok_attach:
  assumes "registry_ok h" "in_turn (HAttach u sid opts gen) h"
  shows "registry_ok (snd (AttachOrCreate u sid opts gen h))"
proof -
  have "maps_ok (h\<lparr>hb_given := g\<rparr>)" "cap_ok (h\<lparr>hb_given := g\<rparr>)" for g
    using assms(1) by (simp_all add: registry_ok_def maps_ok_def cap_ok_def Get_def room_def)
  moreover have "hub_wf (snd (AttachOrCreate u sid opts gen h))" using assms(1) wf_attach by (simp add: registry_ok_def)
  ultimately show ?thesis
    using assms ok_check [of h opts gen u] ok_check [of h "opts\<lparr>co_id := sid\<rparr>" gen u]
    by (auto simp: AttachOrCreate_def in_turn_def registry_ok_def string_or_def split: option.splits)
qed

lemma ok_start:
  assumes "registry_ok h" "k < length (hb_making h)"
  shows "registry_ok (create_start k started now ok h)"
proof -
  from assms(1) have "length (hb_making h) + length (hb_started h) \<le> 1" by (simp add: registry_ok_def cap_ok_def)
  with assms(2) have m: "length (hb_making h) = 1" "hb_started h = []" "k = 0" by (cases "hb_started h"; simp)+
  then obtain u opts where mk: "hb_making h = [(u, opts)]" by (metis length_0_conv length_Suc_conv One_nat_def surj_pair)
  have wf: "hub_wf (create_start k started now ok h)" using assms(1) wf_start by (simp add: registry_ok_def)
  show ?thesis
  proof (cases ok)
    case True
    have w: "who (create_start k started now ok h) = (who h)(hb_next h := Some (co_id opts, u))"
      using True m mk who_start [of h u opts started now] by (simp add: create_start_def Let_def who_def fun_eq_iff)
    have new: "who h (hb_next h) = None" using assms(1) unfolding registry_ok_def hub_wf_def by blast
    have "maps_ok (create_start k started now ok h)" using assms(1) True m mk new unfolding registry_ok_def maps_ok_def w
      by (auto simp: create_start_def Let_def simp del: map_of_eq_Some_iff) (metis hub_wf_def option.distinct(1))+
    moreover have "cap_ok (create_start k started now ok h)" using assms(1) True m mk unfolding registry_ok_def cap_ok_def w
      by (auto simp: create_start_def Let_def Get_def room_def)
    ultimately show ?thesis using wf by (simp add: registry_ok_def)
  next
    case False
    with assms(1) wf m mk show ?thesis by (auto simp: create_start_def registry_ok_def maps_ok_def cap_ok_def Get_def room_def)
  qed
qed

lemma ok_register:
  assumes "registry_ok h" "k < length (hb_started h)"
  shows "registry_ok (create_register k h)"
proof -
  from assms(1) have "length (hb_making h) + length (hb_started h) \<le> 1" by (simp add: registry_ok_def cap_ok_def)
  with assms(2) have m: "length (hb_started h) = 1" "hb_making h = []" "k = 0" by (cases "hb_making h"; simp)+
  then obtain n where st: "hb_started h = [n]" by (auto simp: length_Suc_conv)
  obtain sid u where w: "who h n = Some (sid, u)" using assms(1) st by (fastforce simp: registry_ok_def hub_wf_def)
  have free: "map_of (hb_sessions h) sid = None" "room u h"
    using assms(1) st w by (auto simp: registry_ok_def cap_ok_def Get_def)
  then have fresh: "map_of (hb_byUser h v) sid = None" for v
    using assms(1) by (cases "map_of (hb_byUser h v) sid") (auto simp: registry_ok_def maps_ok_def)
  have eq: "create_register k h = h\<lparr>hb_sessions := AList.update sid n (hb_sessions h),
      hb_byUser := (hb_byUser h)(u := AList.update sid n (hb_byUser h u)), hb_started := [], hb_given := hb_given h @ [(u, n)]\<rparr>"
    using w st m by (simp add: create_register_def register_eq owner_who Let_def)
  have len: "length (AList.update sid n (hb_byUser h u)) = Suc (length (hb_byUser h u))"
  proof -
    have "sid \<notin> set (map fst (hb_byUser h u))" using fresh [of u] by (simp add: map_of_eq_None_iff)
    then have "length (map fst (AList.update sid n (hb_byUser h u))) = Suc (length (hb_byUser h u))" by (simp add: update_keys)
    then show ?thesis by simp
  qed
  have "maps_ok (create_register k h)" using assms(1) w free fresh unfolding registry_ok_def maps_ok_def eq
    by (auto simp: distinct_update update_conv' simp del: map_of_eq_Some_iff split: if_splits)
  moreover have "cap_ok (create_register k h)" using assms(1) len free(2) m unfolding registry_ok_def cap_ok_def eq
    by (auto simp: room_def)
  ultimately show ?thesis using wf_register [of h k] assms by (simp add: registry_ok_def)
qed

lemma ok_step:
  assumes "registry_ok h" "hub_can e h \<and> in_turn e h"
  shows "registry_ok (hub_step e h)"
proof (cases e)
  case (HExit n cd)
  with assms(2) obtain s where s: "hb_objs h n = Some s" by (auto split: option.splits)
  have "registry_ok (h\<lparr>hb_objs := (hb_objs h)(n := map_option (pty_step (PExit cd)) (hb_objs h n))\<rparr>)"
    using assms(1) by (rule ok_session) simp
  with s show ?thesis using ok_unregister by (simp add: HExit)
next
  case HRestart
  then show ?thesis using assms(1) by (simp add: registry_ok_def hub_wf_def maps_ok_def cap_ok_def who_def)
next
  case (HKill u sid)
  show ?thesis using assms(1) ok_kill [OF assms(1), of sid] by (auto simp: HKill KillSession_def split: option.splits prod.splits)
qed (use assms ok_attach ok_start ok_register ok_sweep in \<open>auto intro: ok_session\<close>)

lemma new_hub_ok: "registry_ok (NewHub c disk)"
  using new_hub_wf [of c disk]
  by (simp add: registry_ok_def maps_ok_def cap_ok_def NewHub_def hub_defaults_def positive_or_def)

interpretation turns: started_machine "\<lambda>e h. hub_can e h \<and> in_turn e h" hub_step registry_ok "NewHub c disk" for c disk
  by unfold_locales (rule ok_step, assumption+, rule new_hub_ok)

section \<open>The properties\<close>

text \<open>A panel with the default settings, and a session of user 1 on it.\<close>

definition hub_cfg :: hub_config where
  "hub_cfg = \<lparr>hc_ttl = 0, hc_dir = [], hc_max = 0, hc_perUser = 0, hc_shell = [], hc_cwd = [], hc_env = None\<rparr>"

definition hub_opts :: "string \<Rightarrow> create_options" where
  "hub_opts sid = \<lparr>co_id = sid, co_shell = [], co_cwd = [], co_env = None, co_cols = 80, co_rows = 24\<rparr>"

definition open_session :: "int \<Rightarrow> string \<Rightarrow> hub_event list" where
  "open_session u sid = [HAttach u sid (hub_opts sid) ''g'', HStart 0 ''now'' 0 True, HRegister 0]"

lemmas hub_eval = NewHub_def hub_defaults_def hub_cfg_def hub_opts_def open_session_def positive_or_def string_or_def nullish_def
  AttachOrCreate_def create_check_def create_start_def create_register_def session_of_def register_def unregister_def
  cap_reached_def owner_of_def Get_def NewPtySession_def rolling_size_def KillSession_def hub_kill_def Kill_def Let_def


text \<open>
  C11.
  When sessions are created one after another the two maps of the registry agree: a user's map holds exactly
  the registered sessions that are his, and never more than the cap.
\<close>

theorem hub_registry:
  assumes "machine_run (\<lambda>e h. hub_can e h \<and> in_turn e h) hub_step (NewHub c disk) es h"
  shows "(map_of (hb_byUser h u) sid = Some n \<longleftrightarrow> Get sid h = Some n \<and> owner_of n h = Some u)
    \<and> distinct (map fst (hb_byUser h u)) \<and> int (length (hb_byUser h u)) \<le> hc_perUser (hb_cfg h)"
proof -
  have ok: "registry_ok h" using turns.inv_reachable [OF assms] .
  then have "Get sid h = Some n \<Longrightarrow> \<exists>v. who h n = Some (sid, v)" by (auto simp: registry_ok_def hub_wf_def Get_def)
  with ok show ?thesis by (fastforce simp: registry_ok_def maps_ok_def cap_ok_def Get_def owner_who)
qed

lemma hub_demo:
  "\<exists>h. hub_exec (open_session 1 ''s'' @ open_session 2 ''t'') (NewHub hub_cfg (\<lambda>p. None)) = Some h
    \<and> machine_exec (\<lambda>e h. hub_can e h \<and> in_turn e h) hub_step (open_session 1 ''s'' @ open_session 2 ''t'') (NewHub hub_cfg (\<lambda>p. None)) = Some h
    \<and> hb_given h = [(1, 0), (2, 1)] \<and> hb_byUser h 1 = [(''s'', 0)] \<and> Get ''s'' h = Some 0"
  by (simp add: hub_eval in_turn_def)

lemma kill_one:
  assumes "registry_ok h" "Get sid h = Some n"
  shows "Get i (snd (hub_kill sid h)) = (if i = sid then None else Get i h)"
    and "hb_objs (snd (hub_kill sid h)) m = (if m = n then map_option Kill (hb_objs h m) else hb_objs h m)"
proof -
  obtain u where "who h n = Some (sid, u)" using wf_get [OF ok_wf [OF assms(1)] assms(2)] by blast
  then obtain s where "hb_objs h n = Some s" by (auto simp: who_def)
  then show "Get i (snd (hub_kill sid h)) = (if i = sid then None else Get i h)"
    "hb_objs (snd (hub_kill sid h)) m = (if m = n then map_option Kill (hb_objs h m) else hb_objs h m)"
    using assms(2) by (simp_all add: hub_kill_def unregister_def Get_def delete_conv' Let_def)
qed

lemma kill_all:
  assumes "registry_ok h"
  shows "Get i (fold (\<lambda>sid h. snd (hub_kill sid h)) ids h) = (if i \<in> set ids then None else Get i h)
    \<and> hb_objs (fold (\<lambda>sid h. snd (hub_kill sid h)) ids h) n =
        (if \<exists>i \<in> set ids. Get i h = Some n then map_option Kill (hb_objs h n) else hb_objs h n)"
  using assms
proof (induction ids arbitrary: h)
  case (Cons j js)
  show ?case
  proof (cases "Get j h")
    case None
    with Cons show ?thesis by (simp add: hub_kill_def)
  next
    case (Some m)
    note k = kill_one [OF Cons.prems Some] and IH = Cons.IH [OF ok_kill [OF Cons.prems, of j]]
    have uq: "i = j" if "Get i h = Some m" for i
      using get_inj [OF ok_wf [OF Cons.prems] that Some] .
    have "(\<exists>i \<in> set (j # js). Get i h = Some n) \<longleftrightarrow> n = m \<or> (\<exists>i \<in> set js. Get i (snd (hub_kill j h)) = Some n)"
      using Some unfolding k(1) by (metis (no_types, lifting) list.set_intros option.inject option.distinct(1) set_ConsD uq)
    moreover have "\<not> (n = m \<and> (\<exists>i \<in> set js. Get i (snd (hub_kill j h)) = Some n))"
      by (auto simp: k(1) dest: uq split: if_splits)
    moreover have "hb_objs (fold (\<lambda>sid h. snd (hub_kill sid h)) (j # js) h) n =
        (if \<exists>i \<in> set js. Get i (snd (hub_kill j h)) = Some n then map_option Kill (hb_objs (snd (hub_kill j h)) n)
         else hb_objs (snd (hub_kill j h)) n)"
      using IH by simp
    ultimately have "hb_objs (fold (\<lambda>sid h. snd (hub_kill sid h)) (j # js) h) n =
        (if \<exists>i \<in> set (j # js). Get i h = Some n then map_option Kill (hb_objs h n) else hb_objs h n)"
      unfolding k(2) by argo
    moreover have "Get i (fold (\<lambda>sid h. snd (hub_kill sid h)) (j # js) h) = (if i \<in> set (j # js) then None else Get i h)"
      using IH k(1) by simp
    ultimately show ?thesis by blast
  qed
qed simp

text \<open>
  The sweeper ends exactly the idle sessions: these are closed and gone from the registry, the others are
  there as before.
\<close>

theorem sweep_exact:
  assumes "machine_run (\<lambda>e h. hub_can e h \<and> in_turn e h) hub_step (NewHub c disk) es h"
  shows "Get sid (sweep now h) = (case Get sid h of None \<Rightarrow> None | Some n \<Rightarrow> if idle now h n then None else Some n)
    \<and> (Get sid h = Some n \<longrightarrow> (\<exists>s. hb_objs h n = Some s \<and> hb_objs (sweep now h) n = Some (if idle now h n then Kill s else s)))"
proof -
  have ok: "registry_ok h" using turns.inv_reachable [OF assms] .
  let ?ids = "map fst (filter (\<lambda>(sid, n). idle now h n) (hb_sessions h))"
  have mem: "i \<in> set ?ids \<longleftrightarrow> (\<exists>m. Get i h = Some m \<and> idle now h m)" for i
  proof -
    have "distinct (map fst (hb_sessions h))" using ok by (simp add: registry_ok_def maps_ok_def)
    then show ?thesis by (force simp: Get_def)
  qed
  have sw: "Get sid (sweep now h) = (if sid \<in> set ?ids then None else Get sid h)"
    "hb_objs (sweep now h) n = (if \<exists>i \<in> set ?ids. Get i h = Some n then map_option Kill (hb_objs h n) else hb_objs h n)"
    using kill_all [OF ok, of sid ?ids n] by (simp_all add: sweep_def)
  have "\<exists>s. hb_objs h n = Some s \<and> hb_objs (sweep now h) n = Some (if idle now h n then Kill s else s)" if g: "Get sid h = Some n"
  proof -
    obtain s where s: "hb_objs h n = Some s" using wf_get [OF ok_wf [OF ok] g] by (auto simp: who_def)
    have "(\<exists>i \<in> set ?ids. Get i h = Some n) \<longleftrightarrow> idle now h n" unfolding Bex_def mem using g by auto
    with s sw(2) show ?thesis by simp
  qed
  then show ?thesis using sw(1) unfolding mem by (auto split: option.splits)
qed

lemma hub_demo_run: "\<exists>h. hub_run (NewHub hub_cfg (\<lambda>p. None)) (open_session 1 ''s'' @ open_session 2 ''t'') h
    \<and> machine_run (\<lambda>e h. hub_can e h \<and> in_turn e h) hub_step (NewHub hub_cfg (\<lambda>p. None)) (open_session 1 ''s'' @ open_session 2 ''t'') h
    \<and> hb_given h = [(1, 0), (2, 1)] \<and> hb_byUser h 1 = [(''s'', 0)] \<and> Get ''s'' h = Some 0 \<and> idle 43201 h 0 \<and> \<not> idle 43200 h 0"
  unfolding machine_run_exec by (simp add: hub_eval in_turn_def idle_def)


theorem hub_registry_witness:
  "\<exists>h. Get ''s'' h = Some 0 \<and> owner_of 0 h = Some 1 \<and> int (length (hb_byUser h 1)) \<le> hc_perUser (hb_cfg h)"
proof -
  obtain h where h: "machine_run (\<lambda>e h. hub_can e h \<and> in_turn e h) hub_step (NewHub hub_cfg (\<lambda>p. None)) (open_session 1 ''s'' @ open_session 2 ''t'') h"
    "hb_byUser h 1 = [(''s'', 0)]"
    using hub_demo_run by blast
  from hub_registry [OF h(1), of 1 "''s''" 0] h(2) show ?thesis by (intro exI [of _ h]) simp
qed

theorem sweep_exact_witness:
  "\<exists>h. Get ''s'' (sweep 43201 h) = None \<and> Get ''s'' (sweep 43200 h) = Some 0"
proof -
  obtain h where h: "machine_run (\<lambda>e h. hub_can e h \<and> in_turn e h) hub_step (NewHub hub_cfg (\<lambda>p. None)) (open_session 1 ''s'' @ open_session 2 ''t'') h"
    "Get ''s'' h = Some 0" "idle 43201 h 0" "\<not> idle 43200 h 0"
    using hub_demo_run by blast
  from sweep_exact [OF h(1), of "''s''" 43201] sweep_exact [OF h(1), of "''s''" 43200] h(2-) show ?thesis by (intro exI [of _ h]) simp
qed

section \<open>The file names\<close>

lemma split_on_concat: "split_on c (xs @ c # ys) = split_on c xs @ split_on c ys"
  by (induction xs) (auto split: list.splits)

lemma clean_parts_snoc:
  "w \<noteq> [] \<Longrightarrow> w \<noteq> ''.'' \<Longrightarrow> w \<noteq> ''..'' \<Longrightarrow> clean_parts r acc (xs @ [w]) = clean_parts r acc xs @ [w]"
  by (induction r acc xs rule: clean_parts.induct) (auto split: list.splits)

lemma join_snoc: "xs \<noteq> [] \<Longrightarrow> join sep (xs @ [w]) = join sep xs @ sep @ w"
  by (induction sep xs rule: join.induct) (simp_all add: join_Cons)

lemma clean_parts_sub: "set (clean_parts r acc xs) \<subseteq> set acc \<union> {w \<in> set xs. w \<noteq> []}"
  by (induction r acc xs rule: clean_parts.induct) (auto split: if_splits list.splits)

lemma join_empty: "(\<And>w. w \<in> set xs \<Longrightarrow> w \<noteq> []) \<Longrightarrow> join sep xs = [] \<longleftrightarrow> xs = []"
  by (cases "(sep, xs)" rule: join.cases) auto

text \<open>
  The dump of a session is a file of its own in the directory of the dumps, when neither id has a slash in it.
\<close>

theorem dump_path_inside:
  assumes "starts_with dir ''/''" "CHR ''/'' \<notin> set sid" "CHR ''/'' \<notin> set sid'"
  shows "DumpPathFor dir sid = (if Clean dir = ''/'' then [] else Clean dir) @ ''/gosite-term-'' @ sid @ ''.log''
    \<and> (DumpPathFor dir sid = DumpPathFor dir sid' \<longleftrightarrow> sid = sid')"
proof -
  let ?ps = "clean_parts True [] (split_on (CHR ''/'') dir)"
  have C: "Clean dir = CHR ''/'' # join ''/'' ?ps" using assms(1) by (simp add: Clean_def Let_def)
  have ne: "join ''/'' ?ps = [] \<longleftrightarrow> ?ps = []"
    using clean_parts_sub [of True "[]" "split_on (CHR ''/'') dir"] by (intro join_empty) auto
  have path: "DumpPathFor dir sid = (if Clean dir = ''/'' then [] else Clean dir) @ ''/gosite-term-'' @ sid @ ''.log''"
    if "CHR ''/'' \<notin> set sid" for sid
  proof -
    let ?n = "''gosite-term-'' @ sid @ ''.log''"
    have "dir \<noteq> []" using assms(1) by (cases dir) simp_all
    then have j: "DumpPathFor dir sid = Clean (dir @ CHR ''/'' # ?n)" by (simp add: DumpPathFor_def Join_def Let_def)
    have "split_on (CHR ''/'') ?n = [?n]" using that by (intro split_on_id) simp
    then have "clean_parts True [] (split_on (CHR ''/'') (dir @ CHR ''/'' # ?n)) = ?ps @ [?n]"
      by (simp only: split_on_concat) (subst clean_parts_snoc, simp_all)
    moreover have "starts_with (dir @ CHR ''/'' # ?n) ''/''" using assms(1) \<open>dir \<noteq> []\<close> by (cases dir) simp_all
    ultimately have "DumpPathFor dir sid = CHR ''/'' # join ''/'' (?ps @ [?n])" unfolding j by (simp add: Clean_def Let_def)
    then show ?thesis using ne by (cases "?ps = []") (simp_all add: C join_snoc)
  qed
  show ?thesis using path [OF assms(2)] path [OF assms(3)] by simp
qed

theorem dump_path_inside_witness:
  "DumpPathFor ''/storage/./logs/../terms/'' ''01HX'' = ''/storage/terms/gosite-term-01HX.log''"
  using dump_path_inside [of "''/storage/./logs/../terms/''" "''01HX''" "''01HX''"] by (simp add: Clean_def)

text \<open>An id with slashes, which the handler takes from the query as it is, leads out of the directory.\<close>

lemma dump_path_escapes: "DumpPathFor ''/tmp'' ''x/../../var/log/auth'' = ''/var/log/auth.log''"
  by (simp add: DumpPathFor_def Join_def Clean_def)

section \<open>The handshake\<close>

lemma origin_listed_iff:
  "origin_listed parse allowed h \<longleftrightarrow> (\<exists>a \<in> set allowed. trim_str a \<noteq> [] \<and> (EqualFold (trim_str a) h
     \<or> (\<exists>ah. parse (trim_str a) = Some ah \<and> ah \<noteq> [] \<and> EqualFold ah h)))"
  by (induction allowed) (auto simp: Let_def split: option.splits)

text \<open>A browser gets a terminal only from a page of the panel's own host or of a configured origin.\<close>

lemma origin_allowed:
  "checkOrigin parse allowed host origin \<longleftrightarrow> origin = [] \<or> (\<exists>h. parse origin = Some h \<and> h \<noteq> []
     \<and> (EqualFold h host \<or> origin_listed parse allowed h))"
  by (auto simp: checkOrigin_def split: option.splits)

lemma parseInt_from_digits:
  "list_all is_digit v \<Longrightarrow> parseInt_from n v = Some (sint (n * 10 ^ length v + of_nat (parse_nat v)))"
proof (induction v arbitrary: n rule: rev_induct)
  case (snoc c v)
  have app: "parseInt_from n (xs @ [c]) = (case parseInt_from n xs of None \<Rightarrow> None
      | Some k \<Rightarrow> parseInt_from (of_int k * 10 + of_nat (digit_val c)) [])" if "list_all is_digit xs" for xs n
    using that snoc.prems by (induction xs arbitrary: n) simp_all
  from snoc have "parseInt_from n v = Some (sint (n * 10 ^ length v + of_nat (parse_nat v)))" by simp
  with app [of v n] snoc.prems show ?case by (simp add: parse_nat_snoc algebra_simps)
qed (simp add: parse_nat_def)

text \<open>What the client puts into the address is what the session gets: its size, and its id (\<open>buildWsUrl\<close>).\<close>

lemma ws_size_roundtrip:
  assumes "0 < n" "n < 2 ^ 63"
  shows "ws_size (dec_int n) d = n"
proof -
  have "list_all is_digit (dec_nat (nat n))" using dec_nat_digits by (auto simp: list_all_iff)
  then have "parseInt (dec_nat (nat n)) = Some (sint (of_nat (nat n) :: 64 word))" by (simp add: parseInt_def parseInt_from_digits)
  moreover have "sint (of_nat (nat n) :: 64 word) = n" using assms by (simp add: signed_of_int signed_take_bit_int_eq_self)
  ultimately show ?thesis using assms by (simp add: ws_size_def dec_int_def)
qed

section \<open>What goes wrong\<close>

text \<open>Two requests at once pass the check of the cap before either registers.\<close>

lemma cap_race:
  "\<exists>h. hub_exec [HAttach 1 ''a'' (hub_opts ''a'') ''g'', HAttach 1 ''b'' (hub_opts ''b'') ''g'', HStart 0 ''now'' 0 True, HStart 0 ''now'' 0 True,
      HRegister 0, HRegister 0] (NewHub (hub_cfg\<lparr>hc_perUser := 1\<rparr>) (\<lambda>p. None)) = Some h
    \<and> hc_perUser (hb_cfg h) = 1 \<and> length (hb_byUser h 1) = 2"
  by (simp add: hub_eval)

text \<open>The callback of a killed shell takes a session that was opened with the same id meanwhile out of the
  registry: its shell runs on, but nobody can reach it, list it or sweep it.\<close>

lemma late_exit_orphans:
  "\<exists>h s. machine_exec (\<lambda>e h. hub_can e h \<and> in_turn e h) hub_step
      (open_session 1 ''s'' @ [HKill 1 ''s''] @ open_session 1 ''s'' @ [HExit 0 (-1)]) (NewHub hub_cfg (\<lambda>p. None)) = Some h
    \<and> Get ''s'' h = None \<and> ListByUser 1 h = [] \<and> hb_objs h 1 = Some s \<and> \<not> pt_closed s \<and> pt_master s \<and> pt_reader s = Reading"
  by (simp add: hub_eval in_turn_def ListByUser_def)

text \<open>A restart of the panel forgets who owned a dump: whoever knows the id gets it.\<close>

lemma restart_forgets_owner:
  assumes "d \<noteq> []" "length d \<le> 4096"
  shows "\<exists>h. hub_exec (open_session 1 ''s'' @ [HSession 0 (PRead d io_fine), HRestart] @ open_session 2 ''s'')
      (NewHub hub_cfg (\<lambda>p. None)) = Some h \<and> GetSnapshot 2 ''s'' True h = Inr (d, length d, length d)"
  using assms
  by (simp add: hub_eval readLoop_def Append_def io_fine_def FANOUT_CAP_def rolling_max_def dumps_left_def GetSnapshot_def Meta_def
      Snapshot_def ReadAll_def)

end
