(* ===== verification/Spec2Isabelle.thy ===== *)
theory Spec2Isabelle
  imports Terminal_Client Terminal_Store Router Panel_Meta Format Nginx_Lint Editor_Language File_Validate
    Panel_Hooks App_Store Job_Stream Idle_Lock Plugins_View Plugin_Install Files_View Logs_View Endpoints
    Event_Stream Saved_Queries Session Layout Websites_View Runtime_Views Mounts_View Charts Mcp_View Code_Editor
    Files_Page Plugins_Page Terminal_Pane Ui_Markup Panel_Pages Files_Markup Editor_Setup Charts_Page Dialog_Markup
    Terminal_Wire Pty_Hub
begin

text \<open>
  GoSite is a server panel: a Go back end that manages nginx sites, files, plugins, cron jobs,
  containers and a terminal, and a TypeScript panel that drives it through a JSON API, server-sent
  events and one WebSocket.  This development models the panel, \<open>web/src\<close>: what each of its modules
  computes, the state each view keeps, and how asynchronous answers, timers and user input interleave
  on that state.  Of the back end it models the terminal, \<open>internal/terminal\<close>, with its goroutines, and
  joins it to the panel's client; the rest is outside, and its answers are arguments of the model.

  \<^bold>\<open>Conventions.\<close>  A string is its UTF-8 bytes; numbers are exact (\<open>int\<close>, \<open>nat\<close>, \<open>rat\<close>), except
  the bytes and 32-bit intermediate values of the base64 encoder, which are words; \<open>undefined\<close> and
  \<open>null\<close> are \<open>None\<close>.  An \<open>async\<close> function is two functions, up to its request and from its answer on.
  A component with several sources of events is a machine: a datatype of events, a guard that says when
  an event can happen (a request can be answered once, a timer fires only while it is set), a step
  function, and runs as sequences of steps.  What the code does to the outside (requests, toasts, frames
  sent, calls of a handler) is appended to ghost lists of the state.

  \<^bold>\<open>The language.\<close>
  \<^item> \<open>Js_Prelude\<close>: the operators \<open>??\<close> and \<open>||\<close>, string methods, insertion-ordered objects, stable
    sorting; the interface of a comparison function (the locale \<open>comparator\<close>, extended by \<open>collation\<close>
    for \<open>localeCompare\<close>) and what sorting with one promises.
  \<^item> \<open>Js_Regex\<close>: a backtracking matcher with groups, and \<open>test\<close>, \<open>exec\<close>, \<open>replace\<close>, \<open>split\<close> over it.
  \<^item> \<open>Url\<close>: form and percent encoding with their decoders.
  \<^item> \<open>Machine\<close>: event machines, their runs as a relation and as a computation, and the interfaces
    \<open>machine_invariant\<close>, \<open>started_machine\<close>, \<open>open_machine\<close>, which every component with events instantiates.

  \<^bold>\<open>The client of the API.\<close>
  \<^item> \<open>Api_Client\<close> (\<open>api/client.ts\<close>): requests, their errors; \<open>fetch\<close> is a parameter.
  \<^item> \<open>Api_Types\<close>, \<open>Endpoints\<close> (\<open>api/types.ts\<close>, \<open>api/endpoints.ts\<close>): the data and every endpoint
    as the call it makes; the event sources of the log tail and of query streams.
  \<^item> \<open>Panel_Hooks\<close> (\<open>lib/hooks.ts\<close>): \<open>useAsync\<close> with its generations, \<open>useAction\<close>, \<open>useInterval\<close>;
    shown: the data always answer the present dependencies.
  \<^item> \<open>Job_Stream\<close> (\<open>lib/sse.ts\<close>, \<open>components/JobStream.tsx\<close>): the job log stream; shown: at most one
    end, which comes last.

  \<^bold>\<open>The terminal.\<close>
  \<^item> \<open>Base64\<close>, \<open>Terminal_Client\<close> (\<open>lib/terminalClient.ts\<close>): the WebSocket client, its input queue,
    sequence mark and backoff; shown: order and completeness of output and input, finality of
    \<open>close\<close>, and the output a reconnect loses.
  \<^item> \<open>Terminal_Store\<close> (\<open>lib/terminalStore.tsx\<close>, \<open>components/TerminalWindow.tsx\<close>): state, persistence,
    drags; shown: the bounds of drags, and that sessions are never resumed.
  \<^item> \<open>Terminal_Pane\<close> (\<open>components/TerminalPane.tsx\<close>, \<open>TerminalWindow.tsx\<close>): the window over the store and
    the pane with its client, as one machine; shown: a mounted pane follows one run of its client, so what
    holds of the client holds of the screen; early keys are dropped; a minimized window stays so.

  \<^bold>\<open>The terminal, from the shell to the screen.\<close>  Each goroutine of the back end is a position in the
  state, and a step is what one does between two locks, so that a run is an interleaving the locks allow.
  \<^item> \<open>Pty_Rolling\<close> (\<open>internal/terminal/rolling.go\<close>, \<open>protocol.go\<close>): the dump file and the binary frames on
    64-bit words; shown: what a dump keeps, and the round trip of a frame.
  \<^item> \<open>Pty_Session\<close> (\<open>session.go\<close>, \<open>AttachAndPump\<close> of \<open>hub.go\<close>): read loop, fan-out loop, exit, and the pump
    of each connection.
  \<^item> \<open>Pty_Stream\<close>: what one connection is sent; shown: the invariants of a run that drops nothing (\<open>calm\<close>).
  \<^item> \<open>Terminal_Wire\<close>: session, socket and client as one machine; shown: the screen has the first part of the
    output and can always get the rest, the shell has what was typed; then which interleavings lose output.
  \<^item> \<open>Pty_Hub\<close> (\<open>hub.go\<close>, \<open>internal/delivery/http/handler/terminal.go\<close>): the registry of the sessions, the
    parts of \<open>Create\<close> as steps of their own; shown: nobody gets another's terminal, the two maps agree when
    creations do not overlap, the sweeper ends what is idle, where a dump lies, who may open a socket; and what overlapping does.

  \<^bold>\<open>Application state.\<close>
  \<^item> \<open>App_Store\<close> (\<open>lib/store.tsx\<close>): user, metadata, lock and toasts with their timers.
  \<^item> \<open>Idle_Lock\<close> (\<open>lib/idleLock.ts\<close>): the idle timer over the store; shown: when a lock is requested,
    that it is requested in time, one warning at a time.
  \<^item> \<open>Session\<close> (\<open>components/Layout.tsx\<close>, \<open>views/Login.tsx\<close>): boot, sign-in, sign-out, lock and unlock as
    one machine over the store; shown: what the shell on the screen says of the history, and the lock that
    outlives a session.
  \<^item> \<open>Router\<close> (\<open>lib/router.ts\<close>): the route in the hash, with its round trip.
  \<^item> \<open>Layout\<close> (\<open>components/Layout.tsx\<close>, \<open>App.tsx\<close>): navigation, the view of a route, crumbs, health.
  \<^item> \<open>Ui_Markup\<close> (\<open>components/Ui.tsx\<close>, \<open>Layout.tsx\<close>, \<open>views/Login.tsx\<close>): markup as a tree of texts,
    buttons and inputs; shown: the buttons of the frame are exactly what the session's machine allows, and
    the messages of the two ways out are not on the screen.

  \<^bold>\<open>Pure modules.\<close>
  \<^item> \<open>Panel_Meta\<close> (\<open>lib/errors.ts\<close>, \<open>lib/meta.ts\<close>), \<open>Format\<close> (\<open>lib/format.ts\<close>), \<open>Nginx_Lint\<close>
    (\<open>lib/nginxLint.ts\<close>, \<open>nginxValidate.ts\<close>, \<open>validation.ts\<close>), \<open>Editor_Language\<close>
    (\<open>lib/editorLanguage.ts\<close>), \<open>File_Validate\<close> (\<open>lib/fileValidate.ts\<close>).

  \<^bold>\<open>Shared by the views.\<close>
  \<^item> \<open>View_Kit\<close> (\<open>components/Ui.tsx\<close>): the states of a loaded resource, the ghost log of a view, and
    \<open>row_action\<close>, the interface of a button that acts on a row, instantiated by eight actions of five views.
  \<^item> \<open>Code_Editor\<close> (\<open>components/CodeEditor.tsx\<close>, \<open>lib/editorHighlight.ts\<close>): diagnostics, the controlled
    document, flattening; shown: diagnostics lie in the text, editor and view settle, and what opening a file
    changes.
  \<^item> \<open>Editor_Setup\<close> (\<open>components/CodeEditor.tsx\<close>, \<open>lib/editorLanguage.ts\<close>, \<open>lib/editorHighlight.ts\<close>): grammars,
    colours and extensions, fixed when the editor is made; shown: how a linter loses its validator.
  \<^item> \<open>Event_Stream\<close> (\<open>components/EventStream.tsx\<close>): the rendering of log events; shown: highlighting ends
    and loses nothing.

  \<^bold>\<open>Views.\<close>
  \<^item> \<open>Plugins_View\<close>, \<open>Plugin_Install\<close>, \<open>Plugins_Page\<close> (\<open>views/Plugins.tsx\<close>): the registry, its groups
    and actions; the install dialog; what the page shows; shown: consent before install, how a stale preview
    gets around it, and that the page of a route enables what the registry does, of an older version maybe.
  \<^item> \<open>Mcp_View\<close> (\<open>views/PluginMCPIntegration.tsx\<close>, \<open>PluginsKeyring.tsx\<close>, \<open>PluginSettingsCard.tsx\<close>): access
    tokens, keys, settings; shown: tokens ask only for what the manifest has, with the interface \<open>scope_rule\<close>.
  \<^item> \<open>Files_View\<close>, \<open>Files_Page\<close> (\<open>views/Files.tsx\<close>): paths, drafts, saves; selection, uploads, drops, the
    dialog of actions; shown: paths refine lists of names, what a clean draft means, and that a deleted file
    blocks saving.
  \<^item> \<open>Logs_View\<close>, \<open>Saved_Queries\<close> (\<open>views/Logs.tsx\<close>, \<open>components/LogsSearch.tsx\<close>): history runs and the
    live tail, the search bar and its saved queries; shown: only events of the current run are on the screen,
    in any interleaving, and a deletion is confirmed.
  \<^item> \<open>Websites_View\<close>, \<open>Mounts_View\<close>, \<open>Runtime_Views\<close> (\<open>views/Websites.tsx\<close>, \<open>Mounts.tsx\<close>, \<open>Nginx.tsx\<close>,
    \<open>Settings.tsx\<close>, \<open>Cron.tsx\<close>, \<open>Docker.tsx\<close>, \<open>Database.tsx\<close>): forms and row actions; shown: what is sent is
    well formed, seen before it is saved, and reported once.
  \<^item> \<open>Panel_Pages\<close>, \<open>Files_Markup\<close>: the markup of these views, of the search bar and of the file manager;
    shown: an action the server does not offer has no button, and the viewer saves only what has changed.
  \<^item> \<open>Dialog_Markup\<close>: the markup of the dialogs of an install, a trusted key and a job; shown: what can be
    pressed in the install dialog is what its machine allows, and its form is complete when the model says so.
  \<^item> \<open>Charts\<close>, \<open>Charts_Page\<close> (\<open>components/Sparkline.tsx\<close>, \<open>views/Metrics.tsx\<close>, \<open>Dashboard.tsx\<close>): drawings, bars, polling;
    shown: drawings stay in their frame, and a slow dashboard never appears.

  \<^bold>\<open>Bounds.\<close>  Every function that models code is total, structurally recursive or measured, the
  regular-expression matcher included (a star stops when its body consumes nothing, as the language
  prescribes), with three exceptions: the flattening of extensions and the echoes of the editor carry fuel,
  and the range of the traffic view is a while loop; for each the fuel that is enough, or that the loop
  ends, is a theorem.  Runs are finite sequences of any length.  The theorems on the terminal's output hold
  up to \<open>2 ^ 64\<close> bytes; the client's number of a byte is exact up to \<open>2 ^ 53\<close>.

  \<^bold>\<open>Parameters.\<close>  \<open>fetch\<close>, the locale's collation and formats, the JSON and YAML parsers, the clock,
  what the editor widget holds of a text, the answers of the server, and which system calls and writes of
  the terminal's back end fail.  Hypotheses about them are named
  where they are used: a collation compares consistently (\<open>collation\<close>), a request answers what it asked
  (\<open>honest\<close>, \<open>belongs\<close>), the widget keeps a text it once made its own.

  \<^bold>\<open>Not modelled.\<close>  The Go back end but the terminal; of that the start of a pseudo terminal, the
  JSON of the text frames and the audit entries; styles and icons, the markup of the log rows, and that of
  the plugin registry beyond what \<open>Plugins_Page\<close> lists; CodeMirror and xterm themselves.
\<close>

section \<open>Across the views\<close>


end
